(* ===== verification/Prelude.thy ===== *)
theory Prelude
  imports Main "HOL-Library.AList" "HOL-Library.Multiset"
begin

text \<open>
  Shared vocabulary of the development: instants and durations, 64-bit wrap-around, Go maps
  that are iterated or measured (as association lists), stable sorting by a Go
  \<open>less\<close> function, and the generic list facts the component theories use.
  The collections \<open>go_map\<close> and \<open>tracker_defs\<close> gather the facts that component
  proofs hand to the simplifier.
\<close>

named_theorems go_map \<open>reading an updated, deleted or filtered Go map\<close>
named_theorems tracker_defs \<open>definitions of the tracker operations\<close>

subsection \<open>Time\<close>

text \<open>
  An instant (\<open>time.Time\<close>) is its distance from a fixed epoch and a duration
  (\<open>time.Duration\<close>) a span, both in nanoseconds. \<open>wrap64\<close> is the two's
  complement reading of the low 64 bits, applied where the code multiplies a
  client- or backend-supplied number into an \<open>int64\<close>.
\<close>

type_synonym gotime = int
type_synonym duration = int

definition Nanosecond :: duration where "Nanosecond = 1"
definition Millisecond :: duration where "Millisecond = 1000000"
definition Second :: duration where "Second = 1000000000"
definition Minute :: duration where "Minute = 60 * Second"
definition Hour :: duration where "Hour = 60 * Minute"

lemmas duration_defs = Nanosecond_def Millisecond_def Second_def Minute_def Hour_def

definition wrap64 :: "int \<Rightarrow> int" where
  "wrap64 x = (x + 2 ^ 63) mod 2 ^ 64 - 2 ^ 63"

lemma wrap64_range: "- (2 ^ 63) \<le> wrap64 x \<and> wrap64 x < 2 ^ 63"
  by (simp add: wrap64_def)

lemma wrap64_id: "- (2 ^ 63) \<le> x \<Longrightarrow> x < 2 ^ 63 \<Longrightarrow> wrap64 x = x"
  by (simp add: wrap64_def mod_pos_pos_trivial)

lemma wrap64_add_wrap64: "wrap64 (wrap64 x + y) = wrap64 (x + y)"
proof -
  have "((x + 2 ^ 63) mod 2 ^ 64 + y) mod 2 ^ 64 = ((x + 2 ^ 63) + y) mod (2 ^ 64 :: int)"
    by (rule mod_add_left_eq)
  moreover have "wrap64 x + y + 2 ^ 63 = (x + 2 ^ 63) mod 2 ^ 64 + y"
    by (simp add: wrap64_def)
  ultimately show ?thesis by (simp add: wrap64_def algebra_simps)
qed

subsection \<open>Go maps\<close>

text \<open>
  A Go map that the code iterates over or takes the length of is an association list with
  distinct keys. The order of the list is not observable: Go iterates in an unspecified
  order, and every loop modelled over such a map is insensitive to it.
\<close>

type_synonym ('k, 'v) gomap = "('k \<times> 'v) list"

abbreviation gm_get :: "('k, 'v) gomap \<Rightarrow> 'k \<Rightarrow> 'v option" where
  "gm_get m k \<equiv> map_of m k"

abbreviation gm_put :: "'k \<Rightarrow> 'v \<Rightarrow> ('k, 'v) gomap \<Rightarrow> ('k, 'v) gomap" where
  "gm_put k v m \<equiv> AList.update k v m"

abbreviation gm_del :: "'k \<Rightarrow> ('k, 'v) gomap \<Rightarrow> ('k, 'v) gomap" where
  "gm_del k m \<equiv> AList.delete k m"

abbreviation gm_wf :: "('k, 'v) gomap \<Rightarrow> bool" where
  "gm_wf m \<equiv> distinct (map fst m)"

definition gm_filter :: "('k \<Rightarrow> 'v \<Rightarrow> bool) \<Rightarrow> ('k, 'v) gomap \<Rightarrow> ('k, 'v) gomap" where
  "gm_filter P m = filter (\<lambda>(k, v). P k v) m"

lemma gm_get_put [go_map]: "gm_get (gm_put k v m) k' = (if k' = k then Some v else gm_get m k')"
  by (simp add: update_conv)

lemma gm_get_del [go_map]: "gm_get (gm_del k m) k' = (if k' = k then None else gm_get m k')"
  by (simp add: delete_conv)

lemma gm_wf_put [simp, intro]: "gm_wf m \<Longrightarrow> gm_wf (gm_put k v m)"
  by (rule distinct_update)

lemma gm_wf_del [simp, intro]: "gm_wf m \<Longrightarrow> gm_wf (gm_del k m)"
  by (rule distinct_delete)

lemma gm_wf_filter [simp, intro]: "gm_wf m \<Longrightarrow> gm_wf (gm_filter P m)"
  by (induction m) (auto simp: gm_filter_def)

lemma gm_get_filter [go_map]:
  "gm_wf m \<Longrightarrow> gm_get (gm_filter P m) k =
     (case gm_get m k of None \<Rightarrow> None | Some v \<Rightarrow> if P k v then Some v else None)"
proof (induction m)
  case Nil
  then show ?case by (simp add: gm_filter_def)
next
  case (Cons x m)
  moreover have "k = fst x \<Longrightarrow> gm_get m k = None"
    using Cons.prems by (auto simp: map_of_eq_None_iff)
  ultimately show ?case
    by (auto simp: gm_filter_def split_beta split: option.splits)
qed

lemma gm_len_filter: "length (gm_filter P m) \<le> length m"
  by (simp add: gm_filter_def)

lemma gm_len_put: "length (gm_put k v m) \<le> Suc (length m)"
  by (induction m) auto

lemma gm_len_put_absent: "gm_get m k = None \<Longrightarrow> length (gm_put k v m) = Suc (length m)"
  by (induction m) (auto split: if_splits)

lemma gm_len_put_present: "gm_get m k \<noteq> None \<Longrightarrow> length (gm_put k v m) = length m"
  by (induction m) (auto split: if_splits)

lemma gm_get_Some_in: "gm_get m k = Some v \<Longrightarrow> (k, v) \<in> set m"
  by (rule map_of_SomeD)

subsection \<open>Lists\<close>

definition last_n :: "nat \<Rightarrow> 'a list \<Rightarrow> 'a list" where
  "last_n n xs = drop (length xs - n) xs"

lemma length_last_n [simp]: "length (last_n n xs) = min n (length xs)"
  by (simp add: last_n_def)

lemma last_n_short: "length xs \<le> n \<Longrightarrow> last_n n xs = xs"
  by (simp add: last_n_def)

lemma last_n_append: "last_n n (last_n n xs @ ys) = last_n n (xs @ ys)"
proof (cases "length xs \<le> n")
  case True
  then show ?thesis by (simp add: last_n_short)
next
  case False
  then have "length (last_n n xs @ ys) - n = length ys"
    by simp
  moreover have "length (xs @ ys) - n = (length xs - n) + length ys"
    using False by simp
  ultimately show ?thesis
    using False by (simp add: last_n_def add.commute)
qed

lemma set_last_n: "set (last_n n xs) \<subseteq> set xs"
  by (auto simp: last_n_def dest: in_set_dropD)

lemma sum_list_filter_le:
  fixes f :: "'a \<Rightarrow> int"
  assumes "\<And>x. x \<in> set xs \<Longrightarrow> 0 \<le> f x"
  shows "sum_list (map f (filter P xs)) \<le> sum_list (map f xs)"
  using assms by (induction xs) (auto intro: add_increasing)

subsection \<open>Stable sorting by a less function\<close>

text \<open>
  \<open>sort.SliceStable\<close> with a strict weak order has exactly one result, so insertion from
  the right computes it: an element goes in front of the first one that is not strictly
  less than it.
\<close>

fun insert_stable :: "('a \<Rightarrow> 'a \<Rightarrow> bool) \<Rightarrow> 'a \<Rightarrow> 'a list \<Rightarrow> 'a list" where
  "insert_stable lt x [] = [x]"
| "insert_stable lt x (y # ys) =
     (if lt y x then y # insert_stable lt x ys else x # y # ys)"

definition SliceStable :: "('a \<Rightarrow> 'a \<Rightarrow> bool) \<Rightarrow> 'a list \<Rightarrow> 'a list" where
  "SliceStable lt xs = foldr (insert_stable lt) xs []"

lemma insert_stable_key:
  assumes "\<And>a b. lt a b \<longleftrightarrow> key a < (key b :: 'b :: linorder)"
  shows "insert_stable lt x xs = insort_key key x xs"
  using assms by (induction xs) auto

lemma SliceStable_key:
  assumes "\<And>a b. lt a b \<longleftrightarrow> key a < (key b :: 'b :: linorder)"
  shows "SliceStable lt xs = sort_key key xs"
proof -
  have "insert_stable lt = insort_key key"
    using insert_stable_key [of lt key, OF assms] by (intro ext) simp
  then show ?thesis by (simp add: SliceStable_def sort_key_def)
qed

lemma mset_insert_stable [simp]: "mset (insert_stable lt x xs) = add_mset x (mset xs)"
  by (induction xs) auto

lemma mset_SliceStable [simp]: "mset (SliceStable lt xs) = mset xs"
  unfolding SliceStable_def by (induction xs) auto

lemma length_SliceStable [simp]: "length (SliceStable lt xs) = length xs"
  by (metis mset_SliceStable size_mset)

lemma set_SliceStable [simp]: "set (SliceStable lt xs) = set xs"
  by (metis mset_SliceStable set_mset_mset)

lemma SliceStable_Nil_iff [simp]: "SliceStable lt xs = [] \<longleftrightarrow> xs = []"
  by (metis length_0_conv length_SliceStable)

end
