(* ===== verification/Domain.thy ===== *)
theory Domain
  imports Complex_Main Go_Strings
begin

text \<open>
  The data model of \<open>src/domain\<close>: servers, routing rules, decision-model routers,
  profiles, settings and the whole configuration, with the methods the package defines on
  them. A pointer field that may be nil is an \<open>option\<close>, a \<open>float64\<close> knob is a rational,
  and the JSON tags are not part of the model.
\<close>

subsection \<open>Servers and fallbacks (server.go)\<close>

type_synonym APIType = string

definition APITypeOpenAI :: APIType where "APITypeOpenAI = ''openai''"
definition APITypeAnthropic :: APIType where "APITypeAnthropic = ''anthropic''"

record ServerProtocol =
  proto_Path :: string
  proto_State :: bool

record Server =
  srv_ID :: string
  srv_Name :: string
  srv_URL :: string
  srv_OpenAIURL :: string
  srv_AnthropicURL :: string
  srv_Proxy :: string
  srv_ProxyEnabled :: "bool option"
  srv_APIKey :: string
  srv_APITypes :: "APIType list"
  srv_Protocols :: "ServerProtocol list"
  srv_CooldownTime :: int
  srv_TPMLimit :: int
  srv_RPMLimit :: int
  srv_MaxParallelRequests :: int
  srv_KeepAliveIdle :: int
  srv_Headers :: "(string, string) gomap"

definition GetURLForAPIType :: "Server \<Rightarrow> APIType \<Rightarrow> string" where
  "GetURLForAPIType s t =
     (if t = APITypeOpenAI \<and> srv_OpenAIURL s \<noteq> [] then srv_OpenAIURL s
      else if t = APITypeAnthropic \<and> srv_AnthropicURL s \<noteq> [] then srv_AnthropicURL s
      else srv_URL s)"

definition ProxyURL :: "Server \<Rightarrow> string" where
  "ProxyURL s = (case srv_ProxyEnabled s of Some True \<Rightarrow> srv_Proxy s | _ \<Rightarrow> [])"

definition SupportsAPIType :: "Server \<Rightarrow> APIType \<Rightarrow> bool" where
  "SupportsAPIType s t \<longleftrightarrow> t \<in> set (srv_APITypes s)"

record FallbackEntry =
  fb_ServerID :: string
  fb_TargetModel :: string
  fb_Enabled :: "bool option"
  fb_Priority :: int
  fb_Convert :: string
  fb_ContextWindow :: int
  fb_Weight :: int

definition fb_IsEnabled :: "FallbackEntry \<Rightarrow> bool" where
  "fb_IsEnabled f \<longleftrightarrow> fb_Enabled f \<noteq> Some False"

subsection \<open>Decision-model routers (rule.go)\<close>

record JevCandidate =
  jc_ServerID :: string
  jc_TargetModel :: string
  jc_Description :: string
  jc_Tier :: int
  jc_ContextWindow :: int
  jc_Vision :: "bool option"
  jc_Enabled :: "bool option"
  jc_Convert :: string

definition jc_IsEnabled :: "JevCandidate \<Rightarrow> bool" where
  "jc_IsEnabled c \<longleftrightarrow> jc_Enabled c \<noteq> Some False"

record JevRouter =
  jev_ServerID :: string
  jev_Model :: string
  jev_Question :: string
  jev_Candidates :: "JevCandidate list"
  jev_MinConfidence :: rat
  jev_DefaultTier :: int
  jev_TimeoutMs :: int
  jev_StateMaxChars :: int
  jev_Security :: bool
  jev_CacheTTL :: int
  jev_Images :: bool

definition EnabledCandidates :: "JevRouter \<Rightarrow> JevCandidate list" where
  "EnabledCandidates j = filter jc_IsEnabled (jev_Candidates j)"

subsection \<open>Routing rules (rule.go)\<close>

definition RouterJev :: string where "RouterJev = ''jev''"
definition BalanceRoundRobin :: string where "BalanceRoundRobin = ''round-robin''"
definition BalanceLeastConnections :: string where "BalanceLeastConnections = ''least-connections''"

definition Balances :: "string \<Rightarrow> bool" where
  "Balances mode \<longleftrightarrow> mode = BalanceRoundRobin \<or> mode = BalanceLeastConnections"

record RoutingRule =
  rule_IncomingModels :: "string list"
  rule_TargetModel :: string
  rule_ServerID :: string
  rule_Fallbacks :: "FallbackEntry list"
  rule_FallbackServerIDs :: "string list"
  rule_NumRetries :: int
  rule_Enabled :: bool
  rule_ContextWindow :: int
  rule_Router :: string
  rule_Jev :: "JevRouter option"
  rule_Convert :: string
  rule_Balance :: string

definition IsJev :: "RoutingRule \<Rightarrow> bool" where
  "IsJev r \<longleftrightarrow> rule_Router r = RouterJev \<and> rule_Jev r \<noteq> None"

record ServerRef =
  ref_ID :: string
  ref_Role :: string

definition ServerRefs :: "RoutingRule \<Rightarrow> ServerRef list" where
  "ServerRefs r =
     (if rule_ServerID r \<noteq> [] then [\<lparr>ref_ID = rule_ServerID r, ref_Role = ''primary server''\<rparr>] else [])
     @ map (\<lambda>fb. \<lparr>ref_ID = fb_ServerID fb, ref_Role = ''fallback server''\<rparr>) (rule_Fallbacks r)
     @ (case rule_Jev r of
          None \<Rightarrow> []
        | Some j \<Rightarrow>
            (if jev_ServerID j \<noteq> [] then [\<lparr>ref_ID = jev_ServerID j, ref_Role = ''jev decision server''\<rparr>] else [])
            @ map (\<lambda>c. \<lparr>ref_ID = jc_ServerID c, ref_Role = ''jev candidate''\<rparr>) (jev_Candidates j))"

datatype rule_error =
    NoIncomingModel
  | JevWithoutRouter
  | JevNoDecisionServer
  | JevNoCandidate
  | NoPrimaryServer
  | BadBalance

definition Validate :: "RoutingRule \<Rightarrow> rule_error option" where
  "Validate r =
     (if rule_IncomingModels r = [] then Some NoIncomingModel
      else if rule_Router r = RouterJev then
        (case rule_Jev r of
           None \<Rightarrow> Some JevWithoutRouter
         | Some j \<Rightarrow>
             if jev_ServerID j = [] then Some JevNoDecisionServer
             else if EnabledCandidates j = [] then Some JevNoCandidate
             else None)
      else if rule_ServerID r = [] then Some NoPrimaryServer
      else if rule_Balance r = [] \<or> Balances (rule_Balance r) then None
      else Some BadBalance)"

definition IsModelPattern :: "string \<Rightarrow> bool" where
  "IsModelPattern name \<longleftrightarrow> (\<exists>c \<in> set name. c = CHR ''*'' \<or> c = CHR ''?'')"

subsection \<open>Profiles, settings and the configuration (config.go)\<close>

record RuleProfile =
  prof_ID :: string
  prof_Name :: string
  prof_Rules :: "RoutingRule list"

record AlertSettings =
  al_Webhook :: string
  al_Proxy :: string

record HealthSettings =
  hs_IntervalSeconds :: int
  hs_TimeoutSeconds :: int
  hs_Path :: string

record LimiterSettings =
  ls_AllowedFails :: int
  ls_CooldownSeconds :: int

record RoutingSettings =
  ro_MaxFallbacks :: int

record InboundSettings =
  in_RPS :: rat
  in_Burst :: int
  in_PerIP :: bool

record COSSettings =
  cos_Enabled :: bool
  cos_Origins :: "string list"

record TraceSettings =
  ts_Enabled :: bool
  ts_Seconds :: int
  ts_Models :: "string list"
  ts_Servers :: "string list"

record ConvertSettings =
  cs_MaxTokensDefault :: int
  cs_DropParams :: bool
  cs_Probe :: bool

definition MaxTokens :: "ConvertSettings \<Rightarrow> int" where
  "MaxTokens c =
     (if cs_MaxTokensDefault c < 0 then 0
      else if cs_MaxTokensDefault c = 0 then 4096
      else cs_MaxTokensDefault c)"

record Settings =
  set_AlwaysIncludeStreamUsage :: bool
  set_Trace :: TraceSettings
  set_Convert :: ConvertSettings
  set_Inbound :: InboundSettings
  set_CORS :: COSSettings
  set_Routing :: RoutingSettings
  set_Health :: HealthSettings
  set_Limiter :: LimiterSettings
  set_Alerts :: AlertSettings

record Config =
  cfg_Servers :: "(string, Server) gomap"
  cfg_Profiles :: "RuleProfile list"
  cfg_ActiveProfileID :: string
  cfg_Settings :: Settings

subsection \<open>Facts\<close>

text \<open>The server ids a rule names, as a set.\<close>

definition rule_refs :: "RoutingRule \<Rightarrow> string set" where
  "rule_refs r = ref_ID ` set (ServerRefs r)"

lemma rule_refs_eq:
  "rule_refs r =
     (if rule_ServerID r \<noteq> [] then {rule_ServerID r} else {}) \<union> fb_ServerID ` set (rule_Fallbacks r)
     \<union> (case rule_Jev r of None \<Rightarrow> {} | Some j \<Rightarrow>
          (if jev_ServerID j \<noteq> [] then {jev_ServerID j} else {}) \<union> jc_ServerID ` set (jev_Candidates j))"
proof (cases "rule_Jev r")
  case None
  then show ?thesis by (simp add: rule_refs_def ServerRefs_def image_Un image_image)
next
  case (Some j)
  then show ?thesis
    by (cases "jev_ServerID j = []")
      (simp_all add: rule_refs_def ServerRefs_def image_Un image_image insert_commute flip: insert_def)
qed

subsection \<open>Sample values\<close>

text \<open>Concrete values for the instances that show a theorem's hypotheses can hold.\<close>

definition example_server :: Server where
  "example_server =
     \<lparr>srv_ID = ''a'', srv_Name = ''a'', srv_URL = ''host/v1'', srv_OpenAIURL = [], srv_AnthropicURL = [],
      srv_Proxy = [], srv_ProxyEnabled = None, srv_APIKey = [], srv_APITypes = [], srv_Protocols = [],
      srv_CooldownTime = 0, srv_TPMLimit = 0, srv_RPMLimit = 0, srv_MaxParallelRequests = 0,
      srv_KeepAliveIdle = 0, srv_Headers = []\<rparr>"

definition zero_settings :: Settings where
  "zero_settings =
     \<lparr>set_AlwaysIncludeStreamUsage = False,
      set_Trace = \<lparr>ts_Enabled = False, ts_Seconds = 0, ts_Models = [], ts_Servers = []\<rparr>,
      set_Convert = \<lparr>cs_MaxTokensDefault = 0, cs_DropParams = False, cs_Probe = False\<rparr>,
      set_Inbound = \<lparr>in_RPS = 0, in_Burst = 0, in_PerIP = False\<rparr>,
      set_CORS = \<lparr>cos_Enabled = False, cos_Origins = []\<rparr>, set_Routing = \<lparr>ro_MaxFallbacks = 0\<rparr>,
      set_Health = \<lparr>hs_IntervalSeconds = 0, hs_TimeoutSeconds = 0, hs_Path = []\<rparr>,
      set_Limiter = \<lparr>ls_AllowedFails = 0, ls_CooldownSeconds = 0\<rparr>,
      set_Alerts = \<lparr>al_Webhook = [], al_Proxy = []\<rparr>\<rparr>"

definition example_rule :: RoutingRule where
  "example_rule =
     \<lparr>rule_IncomingModels = [''m''], rule_TargetModel = [], rule_ServerID = ''a'', rule_Fallbacks = [],
      rule_FallbackServerIDs = [], rule_NumRetries = 0, rule_Enabled = True, rule_ContextWindow = 0,
      rule_Router = [], rule_Jev = None, rule_Convert = [], rule_Balance = []\<rparr>"

definition example_config :: Config where
  "example_config =
     \<lparr>cfg_Servers = [(''a'', example_server)],
      cfg_Profiles = [\<lparr>prof_ID = ''p1'', prof_Name = ''Default'', prof_Rules = [example_rule]\<rparr>],
      cfg_ActiveProfileID = ''p1'', cfg_Settings = zero_settings\<rparr>"

end
