(* ===== verification/Json.thy ===== *)
theory Json
  imports Go_Strings
begin

text \<open>
  The part of Go's \<open>encoding/json\<close> the program relies on. Decoding is a lexer followed by
  a stack machine that is structural in the token list, so it is total without fuel; it
  keeps Go's rules: duplicate keys are all kept in order (a reader takes the last), control
  characters inside strings are refused, invalid UTF-8 and lone surrogates become U+FFFD,
  and nesting deeper than 10000 is an error. A number keeps its literal text.
\<close>

datatype json =
    JNull
  | JBool bool
  | JNum string
  | JStr string
  | JArr "json list"
  | JObj "(string \<times> json) list"

datatype json_tok = TLBrace | TRBrace | TLBracket | TRBracket | TColon | TComma
  | TNull | TTrue | TFalse | TNum string | TStr string

subsection \<open>Strings\<close>

abbreviation byte_of :: "char \<Rightarrow> nat" where "byte_of c \<equiv> of_char c"

definition RuneError :: string where "RuneError = [CHR 0xEF, CHR 0xBF, CHR 0xBD]"

definition is_cont :: "nat \<Rightarrow> nat \<Rightarrow> char list \<Rightarrow> bool" where
  "is_cont lo hi cs = (case cs of [] \<Rightarrow> False | c # _ \<Rightarrow> lo \<le> byte_of c \<and> byte_of c \<le> hi)"

text \<open>\<open>utf8.DecodeRune\<close>: the size of the well-formed sequence at the front, 0 if there is none.\<close>

definition rune_size :: "char list \<Rightarrow> nat" where
  "rune_size s = (case s of [] \<Rightarrow> 0 | c # cs \<Rightarrow>
     let b = byte_of c in
     if b < 0x80 then 1
     else if 0xC2 \<le> b \<and> b \<le> 0xDF then (if is_cont 0x80 0xBF cs then 2 else 0)
     else if 0xE0 \<le> b \<and> b \<le> 0xEF then
       (if is_cont (if b = 0xE0 then 0xA0 else 0x80) (if b = 0xED then 0x9F else 0xBF) cs
           \<and> is_cont 0x80 0xBF (drop 1 cs) then 3 else 0)
     else if 0xF0 \<le> b \<and> b \<le> 0xF4 then
       (if is_cont (if b = 0xF0 then 0x90 else 0x80) (if b = 0xF4 then 0x8F else 0xBF) cs
           \<and> is_cont 0x80 0xBF (drop 1 cs) \<and> is_cont 0x80 0xBF (drop 2 cs) then 4 else 0)
     else 0)"

definition EncodeRune :: "nat \<Rightarrow> string" where
  "EncodeRune r =
     (if r < 0x80 then [char_of r]
      else if r < 0x800 then [char_of (0xC0 + r div 64), char_of (0x80 + r mod 64)]
      else if r < 0x10000 then
        (if 0xD800 \<le> r \<and> r \<le> 0xDFFF then RuneError
         else [char_of (0xE0 + r div 4096), char_of (0x80 + r div 64 mod 64), char_of (0x80 + r mod 64)])
      else if r \<le> 0x10FFFF then
        [char_of (0xF0 + r div 262144), char_of (0x80 + r div 4096 mod 64),
         char_of (0x80 + r div 64 mod 64), char_of (0x80 + r mod 64)]
      else RuneError)"

definition hex_value :: "char \<Rightarrow> nat option" where
  "hex_value c = (let b = byte_of c in
     if 48 \<le> b \<and> b \<le> 57 then Some (b - 48)
     else if 97 \<le> b \<and> b \<le> 102 then Some (b - 87)
     else if 65 \<le> b \<and> b \<le> 70 then Some (b - 55) else None)"

fun hex4 :: "string \<Rightarrow> nat option" where
  "hex4 (a # b # c # d # _) =
     (case (hex_value a, hex_value b, hex_value c, hex_value d) of
        (Some w, Some x, Some y, Some z) \<Rightarrow> Some (4096 * w + 256 * x + 16 * y + z)
      | _ \<Rightarrow> None)"
| "hex4 _ = None"

definition escape_value :: "char \<Rightarrow> string option" where
  "escape_value e =
     (if e = CHR 0x22 then Some [CHR 0x22] else if e = CHR 0x5C then Some [CHR 0x5C]
      else if e = CHR ''/'' then Some [CHR ''/''] else if e = CHR ''b'' then Some [CHR 0x08]
      else if e = CHR ''f'' then Some [CHR 0x0C] else if e = CHR ''n'' then Some [CHR 0x0A]
      else if e = CHR ''r'' then Some [CHR 0x0D] else if e = CHR ''t'' then Some [CHR 0x09] else None)"

text \<open>
  The next unit of a string literal: the closing quote (\<open>None\<close>), or the bytes that one
  escape or one rune stands for, with the input that follows.
\<close>

definition lex_unit :: "string \<Rightarrow> (string option \<times> string) option" where
  "lex_unit s = (case s of
     [] \<Rightarrow> None
   | c # cs \<Rightarrow>
       if c = CHR 0x22 then Some (None, cs)
       else if byte_of c < 0x20 then None
       else if c = CHR 0x5C then
         (case cs of
            [] \<Rightarrow> None
          | e # rest \<Rightarrow>
              if e = CHR ''u'' then
                (case hex4 rest of
                   None \<Rightarrow> None
                 | Some r \<Rightarrow>
                     let rest1 = drop 4 rest;
                         low = (if 0xD800 \<le> r \<and> r \<le> 0xDBFF \<and> HasPrefix rest1 [CHR 0x5C, CHR ''u'']
                                then hex4 (drop 2 rest1) else None)
                     in case low of
                          Some r2 \<Rightarrow>
                            if 0xDC00 \<le> r2 \<and> r2 \<le> 0xDFFF
                            then Some (Some (EncodeRune (0x10000 + (r - 0xD800) * 1024 + (r2 - 0xDC00))), drop 6 rest1)
                            else Some (Some RuneError, rest1)
                        | None \<Rightarrow> Some (Some (EncodeRune r), rest1))
              else map_option (\<lambda>x. (Some x, rest)) (escape_value e))
       else if rune_size s = 0 then Some (Some RuneError, cs)
       else Some (Some (take (rune_size s) s), drop (rune_size s) s))"

lemma lex_unit_shorter: "lex_unit s = Some (u, t) \<Longrightarrow> length t < length s"
  by (auto simp: lex_unit_def Let_def split: list.splits if_splits option.splits)

function lex_string :: "string \<Rightarrow> (string \<times> string) option" where
  "lex_string s = (case lex_unit s of
     None \<Rightarrow> None
   | Some (None, t) \<Rightarrow> Some ([], t)
   | Some (Some u, t) \<Rightarrow> map_option (\<lambda>(v, t'). (u @ v, t')) (lex_string t))"
  by pat_completeness auto
termination
  by (relation "measure length") (auto dest: lex_unit_shorter)

declare lex_string.simps [simp del]

lemma lex_string_shorter: "lex_string s = Some (v, t) \<Longrightarrow> length t < length s"
proof (induction s arbitrary: v t rule: lex_string.induct)
  case (1 s)
  obtain u t' where u: "lex_unit s = Some (u, t')"
    using 1(2) by (subst (asm) lex_string.simps) (auto split: option.splits)
  show ?case
  proof (cases u)
    case None
    then show ?thesis
      using 1(2) u lex_unit_shorter [OF u] by (subst (asm) lex_string.simps) simp
  next
    case (Some b)
    then obtain v' where "lex_string t' = Some (v', t)"
      using 1(2) u by (subst (asm) lex_string.simps) auto
    then show ?thesis using 1(1) u Some lex_unit_shorter [OF u] by fastforce
  qed
qed

subsection \<open>Numbers and tokens\<close>

definition span_digits :: "string \<Rightarrow> string \<times> string" where
  "span_digits s = (takeWhile is_digit s, dropWhile is_digit s)"

definition lex_int :: "string \<Rightarrow> (string \<times> string) option" where
  "lex_int s = (case s of
     [] \<Rightarrow> None
   | c # cs \<Rightarrow> if c = CHR ''0'' then Some ([c], cs)
              else if is_digit c then Some (span_digits s) else None)"

definition lex_frac :: "string \<Rightarrow> (string \<times> string) option" where
  "lex_frac s = (case s of
     [] \<Rightarrow> Some ([], s)
   | c # cs \<Rightarrow> if c = CHR ''.'' then
                (case span_digits cs of (d, t) \<Rightarrow> if d = [] then None else Some (c # d, t))
              else Some ([], s))"

definition lex_exp :: "string \<Rightarrow> (string \<times> string) option" where
  "lex_exp s = (case s of
     [] \<Rightarrow> Some ([], s)
   | c # cs \<Rightarrow> if c = CHR ''e'' \<or> c = CHR ''E'' then
                (let sign = (case cs of x # _ \<Rightarrow> if x = CHR ''+'' \<or> x = CHR ''-'' then [x] else [] | [] \<Rightarrow> [])
                 in case span_digits (drop (length sign) cs) of
                      (d, t) \<Rightarrow> if d = [] then None else Some (c # sign @ d, t))
              else Some ([], s))"

definition lex_number :: "string \<Rightarrow> (string \<times> string) option" where
  "lex_number s =
     (let (sign, s1) = (case s of c # cs \<Rightarrow> if c = CHR ''-'' then ([c], cs) else ([], s) | [] \<Rightarrow> ([], s))
      in case lex_int s1 of
           None \<Rightarrow> None
         | Some (i, s2) \<Rightarrow>
             (case lex_frac s2 of
                None \<Rightarrow> None
              | Some (f, s3) \<Rightarrow>
                  (case lex_exp s3 of
                     None \<Rightarrow> None
                   | Some (e, s4) \<Rightarrow> Some (sign @ i @ f @ e, s4))))"

lemma span_digits_le: "span_digits s = (d, t) \<Longrightarrow> length d + length t = length s"
  unfolding span_digits_def
  by (metis Pair_inject length_append takeWhile_dropWhile_id)

lemma lex_int_shorter: "lex_int s = Some (d, t) \<Longrightarrow> length t < length s"
  by (auto simp: lex_int_def span_digits_def less_Suc_eq_le length_dropWhile_le split: list.splits if_splits)

lemma lex_frac_le: "lex_frac s = Some (d, t) \<Longrightarrow> length t \<le> length s"
  by (auto simp: lex_frac_def split: list.splits if_splits prod.splits dest!: span_digits_le)

lemma lex_exp_le: "lex_exp s = Some (d, t) \<Longrightarrow> length t \<le> length s"
  by (auto simp: lex_exp_def Let_def split: list.splits if_splits prod.splits dest!: span_digits_le)

lemma lex_number_shorter: "lex_number s = Some (d, t) \<Longrightarrow> length t < length s"
  by (auto simp: lex_number_def Let_def split: list.splits if_splits option.splits
      dest!: lex_int_shorter lex_frac_le lex_exp_le)

definition punct_tok :: "char \<Rightarrow> json_tok option" where
  "punct_tok c =
     (if c = CHR ''{'' then Some TLBrace else if c = CHR ''}'' then Some TRBrace
      else if c = CHR ''['' then Some TLBracket else if c = CHR '']'' then Some TRBracket
      else if c = CHR '':'' then Some TColon else if c = CHR '','' then Some TComma else None)"

definition json_space :: "char \<Rightarrow> bool" where
  "json_space c \<longleftrightarrow> c = CHR 0x20 \<or> c = CHR 0x09 \<or> c = CHR 0x0A \<or> c = CHR 0x0D"

definition lex_tok :: "string \<Rightarrow> (json_tok \<times> string) option" where
  "lex_tok s = (case s of
     [] \<Rightarrow> None
   | c # cs \<Rightarrow>
       (case punct_tok c of
          Some t \<Rightarrow> Some (t, cs)
        | None \<Rightarrow>
            if c = CHR 0x22 then map_option (\<lambda>(v, t). (TStr v, t)) (lex_string cs)
            else if HasPrefix s ''null'' then Some (TNull, drop 4 s)
            else if HasPrefix s ''true'' then Some (TTrue, drop 4 s)
            else if HasPrefix s ''false'' then Some (TFalse, drop 5 s)
            else map_option (\<lambda>(v, t). (TNum v, t)) (lex_number s)))"

lemma lex_tok_shorter: "lex_tok s = Some (k, t) \<Longrightarrow> length t < length s"
  by (auto simp: lex_tok_def split: list.splits option.splits if_splits
      dest: lex_string_shorter lex_number_shorter)

function lex_json :: "string \<Rightarrow> json_tok list option" where
  "lex_json s = (case s of
     [] \<Rightarrow> Some []
   | c # cs \<Rightarrow>
       if json_space c then lex_json cs
       else case lex_tok s of
              None \<Rightarrow> None
            | Some (k, t) \<Rightarrow> map_option ((#) k) (lex_json t))"
  by pat_completeness auto
termination
  by (relation "measure length") (auto dest: lex_tok_shorter)

declare lex_json.simps [simp del]

subsection \<open>The stack machine\<close>

datatype json_frame = FArr "json list" | FObj "(string \<times> json) list" string

datatype json_phase =
    PVal
  | PValOrEnd
  | PKeyOrEnd "(string \<times> json) list"
  | PKey "(string \<times> json) list"
  | PColon "(string \<times> json) list" string
  | PAfter json

definition json_depth :: nat where "json_depth = 10000"

definition scalar_of :: "json_tok \<Rightarrow> json option" where
  "scalar_of k = (case k of
     TNull \<Rightarrow> Some JNull | TTrue \<Rightarrow> Some (JBool True) | TFalse \<Rightarrow> Some (JBool False)
   | TNum n \<Rightarrow> Some (JNum n) | TStr s \<Rightarrow> Some (JStr s) | _ \<Rightarrow> None)"

fun run_json :: "json_tok list \<Rightarrow> json_frame list \<Rightarrow> json_phase \<Rightarrow> json option" where
  "run_json [] fs p = (case p of PAfter v \<Rightarrow> if fs = [] then Some v else None | _ \<Rightarrow> None)"
| "run_json (k # ks) fs p = (case p of
     PKeyOrEnd acc \<Rightarrow>
       (case k of TStr s \<Rightarrow> run_json ks fs (PColon acc s)
                | TRBrace \<Rightarrow> run_json ks fs (PAfter (JObj (rev acc))) | _ \<Rightarrow> None)
   | PKey acc \<Rightarrow> (case k of TStr s \<Rightarrow> run_json ks fs (PColon acc s) | _ \<Rightarrow> None)
   | PColon acc s \<Rightarrow> (case k of TColon \<Rightarrow> run_json ks (FObj acc s # fs) PVal | _ \<Rightarrow> None)
   | PAfter v \<Rightarrow>
       (case fs of
          [] \<Rightarrow> None
        | FArr vs # fs' \<Rightarrow>
            (case k of TComma \<Rightarrow> run_json ks (FArr (v # vs) # fs') PVal
                     | TRBracket \<Rightarrow> run_json ks fs' (PAfter (JArr (rev (v # vs)))) | _ \<Rightarrow> None)
        | FObj acc key # fs' \<Rightarrow>
            (case k of TComma \<Rightarrow> run_json ks fs' (PKey ((key, v) # acc))
                     | TRBrace \<Rightarrow> run_json ks fs' (PAfter (JObj (rev ((key, v) # acc)))) | _ \<Rightarrow> None))
   | _ \<Rightarrow>
       (case scalar_of k of
          Some v \<Rightarrow> (if p = PValOrEnd \<or> p = PVal then run_json ks fs (PAfter v) else None)
        | None \<Rightarrow>
            (case k of
               TLBracket \<Rightarrow> if length fs < json_depth then run_json ks (FArr [] # fs) PValOrEnd else None
             | TLBrace \<Rightarrow> if length fs < json_depth then run_json ks fs (PKeyOrEnd []) else None
             | TRBracket \<Rightarrow>
                 (case (p, fs) of (PValOrEnd, FArr vs # fs') \<Rightarrow> run_json ks fs' (PAfter (JArr [])) | _ \<Rightarrow> None)
             | _ \<Rightarrow> None)))"

definition Unmarshal :: "string \<Rightarrow> json option" where
  "Unmarshal s = (case lex_json s of None \<Rightarrow> None | Some ks \<Rightarrow> run_json ks [] PVal)"

subsection \<open>Decoding into a struct\<close>

text \<open>
  A decoder gets a value and the Go variable it decodes into. \<open>dec_struct\<close> visits the keys
  of an object in order and sends each to the field it names, exactly or else under case
  folding (where Go also folds the Kelvin sign to k and the long s to s); a later duplicate
  overwrites, \<open>null\<close> leaves a non-pointer field as it is, and a value of the wrong type is
  the error every caller treats as an undecodable body.
\<close>

type_synonym 'a decoder = "json \<Rightarrow> 'a \<Rightarrow> 'a option"

definition to_lower :: "char \<Rightarrow> char" where
  "to_lower c = (if 65 \<le> byte_of c \<and> byte_of c \<le> 90 then char_of (byte_of c + 32) else c)"

definition foldName :: "string \<Rightarrow> string" where
  "foldName s =
     map to_lower (ReplaceAll (ReplaceAll s [CHR 0xE2, CHR 0x84, CHR 0xAA] ''k'') [CHR 0xC5, CHR 0xBF] ''s'')"

definition find_field :: "(string \<times> 'a decoder) list \<Rightarrow> string \<Rightarrow> 'a decoder option" where
  "find_field fs k = (case map_of fs k of
     Some d \<Rightarrow> Some d
   | None \<Rightarrow> map_option snd (find (\<lambda>f. foldName (fst f) = foldName k) fs))"

fun dec_fields :: "(string \<times> 'a decoder) list \<Rightarrow> (string \<times> json) list \<Rightarrow> 'a \<Rightarrow> 'a option" where
  "dec_fields fs [] x = Some x"
| "dec_fields fs ((k, v) # kvs) x = (case find_field fs k of
     None \<Rightarrow> dec_fields fs kvs x
   | Some d \<Rightarrow> (case d v x of None \<Rightarrow> None | Some y \<Rightarrow> dec_fields fs kvs y))"

definition dec_struct :: "(string \<times> 'a decoder) list \<Rightarrow> 'a decoder" where
  "dec_struct fs v x = (case v of JNull \<Rightarrow> Some x | JObj kvs \<Rightarrow> dec_fields fs kvs x | _ \<Rightarrow> None)"

definition dec_string :: "(string \<Rightarrow> 'a \<Rightarrow> 'a) \<Rightarrow> 'a decoder" where
  "dec_string upd v x = (case v of JNull \<Rightarrow> Some x | JStr s \<Rightarrow> Some (upd s x) | _ \<Rightarrow> None)"

definition dec_bool :: "(bool \<Rightarrow> 'a \<Rightarrow> 'a) \<Rightarrow> 'a decoder" where
  "dec_bool upd v x = (case v of JNull \<Rightarrow> Some x | JBool b \<Rightarrow> Some (upd b x) | _ \<Rightarrow> None)"

definition dec_int :: "(int \<Rightarrow> 'a \<Rightarrow> 'a) \<Rightarrow> 'a decoder" where
  "dec_int upd v x = (case v of
     JNull \<Rightarrow> Some x
   | JNum n \<Rightarrow> map_option (\<lambda>i. upd i x) (ParseInt n)
   | _ \<Rightarrow> None)"

definition dec_int_ptr :: "(int option \<Rightarrow> 'a \<Rightarrow> 'a) \<Rightarrow> 'a decoder" where
  "dec_int_ptr upd v x = (case v of
     JNull \<Rightarrow> Some (upd None x)
   | JNum n \<Rightarrow> map_option (\<lambda>i. upd (Some i) x) (ParseInt n)
   | _ \<Rightarrow> None)"

fun dec_strings :: "json list \<Rightarrow> string list option" where
  "dec_strings [] = Some []"
| "dec_strings (v # vs) = (case v of
     JStr s \<Rightarrow> map_option ((#) s) (dec_strings vs)
   | JNull \<Rightarrow> map_option ((#) []) (dec_strings vs)
   | _ \<Rightarrow> None)"

definition dec_strings_ptr :: "(string list option \<Rightarrow> 'a \<Rightarrow> 'a) \<Rightarrow> 'a decoder" where
  "dec_strings_ptr upd v x = (case v of
     JNull \<Rightarrow> Some (upd None x)
   | JArr vs \<Rightarrow> map_option (\<lambda>ss. upd (Some ss) x) (dec_strings vs)
   | _ \<Rightarrow> None)"

fun dec_elems :: "'b decoder \<Rightarrow> 'b \<Rightarrow> json list \<Rightarrow> 'b list option" where
  "dec_elems d zero [] = Some []"
| "dec_elems d zero (v # vs) = (case d v zero of
     None \<Rightarrow> None
   | Some y \<Rightarrow> map_option ((#) y) (dec_elems d zero vs))"

definition dec_slice :: "'b decoder \<Rightarrow> 'b \<Rightarrow> ('b list \<Rightarrow> 'a \<Rightarrow> 'a) \<Rightarrow> 'a decoder" where
  "dec_slice d zero upd v x = (case v of
     JNull \<Rightarrow> Some (upd [] x)
   | JArr vs \<Rightarrow> map_option (\<lambda>ys. upd ys x) (dec_elems d zero vs)
   | _ \<Rightarrow> None)"

definition decode :: "'a decoder \<Rightarrow> 'a \<Rightarrow> string \<Rightarrow> 'a option" where
  "decode d zero body = (case Unmarshal body of None \<Rightarrow> None | Some v \<Rightarrow> d v zero)"

end
