(* ===== verification/PathMatch.thy ===== *)
theory PathMatch
  imports Json
begin

text \<open>
  Go's \<open>path.Match\<close>, which decides whether a wildcard entry of a rule names a model: the
  library's chunk-by-chunk algorithm, with \<open>None\<close> for its bad-pattern error.
\<close>

definition rune_value :: "char list \<Rightarrow> nat \<times> nat" where
  "rune_value s =
     (let n = rune_size s; b = (\<lambda>i. byte_of (s ! i)) in
      if n = 1 then (b 0, 1)
      else if n = 2 then ((b 0 - 0xC0) * 64 + (b 1 - 0x80), 2)
      else if n = 3 then ((b 0 - 0xE0) * 4096 + (b 1 - 0x80) * 64 + (b 2 - 0x80), 3)
      else if n = 4 then ((b 0 - 0xF0) * 262144 + (b 1 - 0x80) * 4096 + (b 2 - 0x80) * 64 + (b 3 - 0x80), 4)
      else (0xFFFD, 1))"

fun scan_end :: "string \<Rightarrow> bool \<Rightarrow> nat" where
  "scan_end [] inrange = 0"
| "scan_end (c # cs) inrange =
     (if c = CHR 0x5C then (case cs of [] \<Rightarrow> 1 | _ # cs' \<Rightarrow> 2 + scan_end cs' inrange)
      else if c = CHR ''['' then 1 + scan_end cs True
      else if c = CHR '']'' then 1 + scan_end cs False
      else if c = CHR ''*'' \<and> \<not> inrange then 0
      else 1 + scan_end cs inrange)"

definition scanChunk :: "string \<Rightarrow> bool \<times> string \<times> string" where
  "scanChunk pattern =
     (let p = dropWhile (\<lambda>c. c = CHR ''*'') pattern; i = scan_end p False
      in (HasPrefix pattern ''*'', take i p, drop i p))"

definition getEsc :: "string \<Rightarrow> (nat \<times> string) option" where
  "getEsc chunk =
     (if chunk = [] \<or> hd chunk = CHR ''-'' \<or> hd chunk = CHR '']'' then None
      else let c1 = (if hd chunk = CHR 0x5C then tl chunk else chunk) in
        if c1 = [] then None
        else case rune_value c1 of (r, n) \<Rightarrow>
          if rune_size c1 = 0 then None
          else if drop n c1 = [] then None else Some (r, drop n c1))"

lemma rune_size_le: "rune_size s \<le> 4"
  by (simp add: rune_size_def Let_def split: list.split)

lemma rune_value_pos: "rune_value s = (r, n) \<Longrightarrow> 0 < n"
  by (auto simp: rune_value_def Let_def split: if_splits)

lemma getEsc_shorter: "getEsc c = Some (r, c') \<Longrightarrow> length c' < length c"
  by (cases c) (auto simp: getEsc_def Let_def split: if_splits prod.splits dest: rune_value_pos)

text \<open>A character class, from behind its opening bracket and negation sign.\<close>

function match_class :: "string \<Rightarrow> nat \<Rightarrow> bool \<Rightarrow> nat \<Rightarrow> (bool \<times> string) option" where
  "match_class chunk r matched nrange =
     (if chunk \<noteq> [] \<and> hd chunk = CHR '']'' \<and> nrange > 0 then Some (matched, tl chunk)
      else case getEsc chunk of
        None \<Rightarrow> None
      | Some (lo, c1) \<Rightarrow>
          (if hd c1 = CHR ''-'' then
             (case getEsc (tl c1) of
                None \<Rightarrow> None
              | Some (hi, c2) \<Rightarrow> match_class c2 r (matched \<or> (lo \<le> r \<and> r \<le> hi)) (Suc nrange))
           else match_class c1 r (matched \<or> lo = r) (Suc nrange)))"
  by pat_completeness auto
termination
  by (relation "measure (\<lambda>(c, _). length c)") (auto dest!: getEsc_shorter)

declare match_class.simps [simp del]

lemma match_class_le: "match_class c r m n = Some (b, c') \<Longrightarrow> length c' \<le> length c"
proof (induction c r m n rule: match_class.induct)
  case (1 chunk r matched nrange)
  show ?case
  proof (cases "chunk \<noteq> [] \<and> hd chunk = CHR '']'' \<and> nrange > 0")
    case True
    then show ?thesis using 1(3) by (auto simp: match_class.simps [of chunk])
  next
    case False
    then obtain lo c1 where g: "getEsc chunk = Some (lo, c1)"
      using 1(3) by (auto simp: match_class.simps [of chunk] split: option.splits)
    note s = getEsc_shorter [OF g]
    show ?thesis
    proof (cases "hd c1 = CHR ''-''")
      case True
      then obtain hi c2 where g2: "getEsc (tl c1) = Some (hi, c2)"
        using 1(3) False g by (auto simp: match_class.simps [of chunk] split: option.splits if_splits)
      then show ?thesis
        using 1(1) [OF False g refl True g2 refl] 1(3) False g True s getEsc_shorter [OF g2]
        by (simp add: match_class.simps [of chunk])
    next
      case hd: False
      then show ?thesis
        using 1(2) [OF False g refl hd] 1(3) False g s by (simp add: match_class.simps [of chunk])
    qed
  qed
qed

text \<open>
  \<open>matchChunk\<close>: \<open>None\<close> for a bad pattern, \<open>Some None\<close> for no match, \<open>Some (Some rest)\<close>
  for what follows the match.
\<close>

function matchChunk :: "string \<Rightarrow> string \<Rightarrow> bool \<Rightarrow> string option option" where
  "matchChunk chunk s failed0 =
     (case chunk of
        [] \<Rightarrow> Some (if failed0 then None else Some s)
      | c # cs \<Rightarrow>
          let failed = (failed0 \<or> s = []) in
          if c = CHR ''['' then
            (case (if failed then (0, 0) else rune_value s) of (r, n) \<Rightarrow>
               let s1 = drop n s;
                   negated = HasPrefix cs ''^'';
                   cs1 = (if negated then tl cs else cs)
               in case match_class cs1 r False 0 of
                    None \<Rightarrow> None
                  | Some (m, cs2) \<Rightarrow> matchChunk cs2 s1 (failed \<or> m = negated))
          else if c = CHR ''?'' then
            (if failed then matchChunk cs s True
             else matchChunk cs (drop (snd (rune_value s)) s) (hd s = CHR ''/''))
          else if c = CHR 0x5C then
            (case cs of
               [] \<Rightarrow> None
             | d # ds \<Rightarrow> if failed then matchChunk ds s True else matchChunk ds (tl s) (d \<noteq> hd s))
          else if failed then matchChunk cs s True else matchChunk cs (tl s) (c \<noteq> hd s))"
  by pat_completeness auto
termination
  by (relation "measure (\<lambda>(c, _). length c)") (auto dest!: match_class_le split: if_splits)

declare matchChunk.simps [simp del]

fun star_search :: "string \<Rightarrow> bool \<Rightarrow> string \<Rightarrow> string option option" where
  "star_search chunk final [] = Some None"
| "star_search chunk final (c # name) =
     (if c = CHR ''/'' then Some None
      else case matchChunk chunk name False of
        None \<Rightarrow> None
      | Some (Some t) \<Rightarrow> if final \<and> t \<noteq> [] then star_search chunk final name else Some (Some t)
      | Some None \<Rightarrow> star_search chunk final name)"

text \<open>
  The loop over chunks. On a mismatch the library still scans the rest of the pattern for
  syntax errors, but both outcomes are a \<open>False\<close> here: the caller takes a bad pattern for
  no match.
\<close>

lemma scanChunk_shorter:
  assumes "scanChunk pattern = (star, chunk, rest)" "pattern \<noteq> []"
  shows "length rest < length pattern"
proof -
  let ?p = "dropWhile (\<lambda>c. c = CHR ''*'') pattern"
  have r: "rest = drop (scan_end ?p False) ?p" using assms(1) by (simp add: scanChunk_def Let_def)
  have le: "length ?p \<le> length pattern" by (rule length_dropWhile_le)
  show ?thesis
  proof (cases "hd pattern = CHR ''*''")
    case True
    then have "length ?p < length pattern"
      using assms(2) by (cases pattern) (auto simp: less_Suc_eq_le length_dropWhile_le)
    then show ?thesis by (simp add: r)
  next
    case False
    then have "?p = pattern" "0 < scan_end pattern False"
      using assms(2) by (cases pattern; auto split: list.split)+
    then show ?thesis using assms(2) by (simp add: r)
  qed
qed

function path_Match :: "string \<Rightarrow> string \<Rightarrow> bool" where
  "path_Match pattern name =
     (if pattern = [] then name = []
      else case scanChunk pattern of (star, chunk, rest) \<Rightarrow>
        if star \<and> chunk = [] then CHR ''/'' \<notin> set name
        else case matchChunk chunk name False of
          None \<Rightarrow> False
        | Some m \<Rightarrow>
            (case m of
               Some t \<Rightarrow>
                 if t = [] \<or> rest \<noteq> [] then path_Match rest t
                 else if star then
                   (case star_search chunk (rest = []) name of
                      Some (Some t') \<Rightarrow> path_Match rest t' | _ \<Rightarrow> False)
                 else False
             | None \<Rightarrow>
                 if star then
                   (case star_search chunk (rest = []) name of
                      Some (Some t') \<Rightarrow> path_Match rest t' | _ \<Rightarrow> False)
                 else False))"
  by pat_completeness auto
termination
  by (relation "measure (\<lambda>(p, _). length p)") (auto dest!: scanChunk_shorter [OF sym])

declare path_Match.simps [simp del]

end
