(* ===== verification/Store.thy ===== *)
theory Store
  imports Domain PathMatch
begin

text \<open>
  \<open>src/config/store.go\<close>: the configuration behind one read-write lock. Every method is one
  atomic step on the \<open>Config\<close>; a method that persists takes \<open>sv\<close>, the outcome of writing
  the file (\<open>None\<close> for success, else the error text), and returns it as its own result:
  the memory is changed either way. Deep copies are values here, so \<open>GetConfig\<close> and its
  kin are reads. A pointer into the profile slice is its index.
\<close>

subsection \<open>Errors\<close>

text \<open>\<open>fmt\<close>'s \<open>%q\<close> and \<open>strconv.Quote\<close>; a rune beyond ASCII is taken to be printable.\<close>

definition quote_char :: "char \<Rightarrow> string" where
  "quote_char c =
     (if c = CHR 0x22 then [CHR 0x5C, CHR 0x22] else if c = CHR 0x5C then [CHR 0x5C, CHR 0x5C]
      else if c = CHR 0x07 then [CHR 0x5C, CHR ''a''] else if c = CHR 0x08 then [CHR 0x5C, CHR ''b'']
      else if c = CHR 0x0C then [CHR 0x5C, CHR ''f''] else if c = CHR 0x0A then [CHR 0x5C, CHR ''n'']
      else if c = CHR 0x0D then [CHR 0x5C, CHR ''r''] else if c = CHR 0x09 then [CHR 0x5C, CHR ''t'']
      else if c = CHR 0x0B then [CHR 0x5C, CHR ''v'']
      else if (of_char c :: nat) < 0x20 \<or> (of_char c :: nat) = 0x7F
           then [CHR 0x5C, CHR ''x'', hex_digit ((of_char c :: nat) div 16), hex_digit ((of_char c :: nat) mod 16)]
      else [c])"

definition go_quote :: "string \<Rightarrow> string" where
  "go_quote s = [CHR 0x22] @ concat (map quote_char s) @ [CHR 0x22]"

datatype store_error =
    ServerExists string
  | ServerNotFound string
  | ServerReferenced string "string list"
  | ProfileNotFound string
  | ProfileExists_err string
  | ProfileNameRequired
  | OnlyProfile
  | RuleIndexOutOfRange int
  | SaveFailed string

fun error_text :: "store_error \<Rightarrow> string" where
  "error_text (ServerExists i) = ''server '' @ go_quote i @ '' already exists''"
| "error_text (ServerNotFound i) = ''server '' @ go_quote i @ '' not found''"
| "error_text (ServerReferenced i refs) =
     ''server is referenced by rules: server '' @ go_quote i @ '' is used by '' @ Join refs ''; ''"
| "error_text (ProfileNotFound i) = ''profile '' @ go_quote i @ '' not found''"
| "error_text (ProfileExists_err n) = ''profile '' @ go_quote n @ '' already exists''"
| "error_text ProfileNameRequired = ''profile name is required''"
| "error_text OnlyProfile = ''cannot delete the only profile''"
| "error_text (RuleIndexOutOfRange i) = ''rule index '' @ Itoa i @ '' out of range''"
| "error_text (SaveFailed e) = e"

type_synonym save_outcome = "string option"

definition saved :: "save_outcome \<Rightarrow> Config \<Rightarrow> Config \<times> store_error option" where
  "saved sv cfg = (cfg, map_option SaveFailed sv)"

subsection \<open>Loading\<close>

definition default_profile :: RuleProfile where
  "default_profile = \<lparr>prof_ID = ''default'', prof_Name = ''default'', prof_Rules = []\<rparr>"

definition NewStore_config :: Config where
  "NewStore_config =
     \<lparr>cfg_Servers = [], cfg_Profiles = [default_profile], cfg_ActiveProfileID = ''default'',
      cfg_Settings = zero_settings\<rparr>"

definition migrate_fallbacks :: "RoutingRule \<Rightarrow> RoutingRule" where
  "migrate_fallbacks r =
     (if rule_FallbackServerIDs r \<noteq> [] \<and> rule_Fallbacks r = [] then
        r\<lparr>rule_Fallbacks := map (\<lambda>i. \<lparr>fb_ServerID = i, fb_TargetModel = [], fb_Enabled = None, fb_Priority = 0,
                                     fb_Convert = [], fb_ContextWindow = 0, fb_Weight = 0\<rparr>) (rule_FallbackServerIDs r),
          rule_FallbackServerIDs := []\<rparr>
      else r)"

text \<open>
  \<open>Load\<close> behind the decoder: \<open>Inr None\<close> is a missing file, \<open>Inr (Some cfg)\<close> the decoded
  document, \<open>Inl e\<close> a read or decode error, which leaves the old configuration.
\<close>

definition normalize_config :: "Config \<Rightarrow> Config" where
  "normalize_config cfg =
     (let profiles = (if cfg_Profiles cfg = [] then [default_profile] else cfg_Profiles cfg);
          active = (if cfg_ActiveProfileID cfg = [] then prof_ID (hd profiles) else cfg_ActiveProfileID cfg)
      in cfg\<lparr>cfg_Profiles := map (\<lambda>p. p\<lparr>prof_Rules := map migrate_fallbacks (prof_Rules p)\<rparr>) profiles,
             cfg_ActiveProfileID := active\<rparr>)"

definition Load :: "Config \<Rightarrow> string + Config option \<Rightarrow> Config \<times> string option" where
  "Load old file = (case file of
     Inl e \<Rightarrow> (old, Some e)
   | Inr None \<Rightarrow> (old, None)
   | Inr (Some cfg) \<Rightarrow> (normalize_config cfg, None))"

text \<open>\<open>migrateLegacy\<close>, on the decoded tree of the document.\<close>

definition obj_get :: "(string \<times> json) list \<Rightarrow> string \<Rightarrow> json option" where
  "obj_get kvs k = map_of (rev kvs) k"

definition obj_set :: "string \<Rightarrow> json \<Rightarrow> (string \<times> json) list \<Rightarrow> (string \<times> json) list" where
  "obj_set k v kvs = filter (\<lambda>e. fst e \<noteq> k) kvs @ [(k, v)]"

definition obj_del :: "string \<Rightarrow> (string \<times> json) list \<Rightarrow> (string \<times> json) list" where
  "obj_del k kvs = filter (\<lambda>e. fst e \<noteq> k) kvs"

definition migrate_server :: "json \<Rightarrow> json \<times> bool" where
  "migrate_server v = (case v of
     JObj srv \<Rightarrow>
       (case obj_get srv ''api_type'' of
          Some (JStr str) \<Rightarrow> (JObj (obj_del ''api_type'' (obj_set ''api_types'' (JArr [JStr str]) srv)), True)
        | _ \<Rightarrow> (v, False))
   | _ \<Rightarrow> (v, False))"

definition migrate_servers :: "(string \<times> json) list \<Rightarrow> (string \<times> json) list \<times> bool" where
  "migrate_servers raw = (case obj_get raw ''servers'' of
     Some (JObj servers) \<Rightarrow>
       (obj_set ''servers'' (JObj (map (\<lambda>(k, v). (k, fst (migrate_server v))) servers)) raw,
        \<exists>e \<in> set servers. snd (migrate_server (snd e)))
   | _ \<Rightarrow> (raw, False))"

definition migrate_rules :: "(string \<times> json) list \<Rightarrow> (string \<times> json) list \<times> bool" where
  "migrate_rules raw =
     (case (obj_get raw ''profiles'', obj_get raw ''rules'') of
        (None, Some rules) \<Rightarrow>
          (obj_del ''rules'' (obj_set ''active_profile_id'' (JStr ''default'')
             (obj_set ''profiles'' (JArr [JObj [(''id'', JStr ''default''), (''name'', JStr ''default''),
                                               (''rules'', rules)]]) raw)), True)
      | _ \<Rightarrow> (raw, False))"

definition migrateLegacy :: "json \<Rightarrow> json" where
  "migrateLegacy doc = (case doc of
     JObj raw \<Rightarrow>
       (case migrate_servers raw of (raw1, c1) \<Rightarrow>
          case migrate_rules raw1 of (raw2, c2) \<Rightarrow> if c1 \<or> c2 then JObj raw2 else doc)
   | _ \<Rightarrow> doc)"

subsection \<open>Servers\<close>

definition GetServer :: "Config \<Rightarrow> string \<Rightarrow> Server option" where
  "GetServer cfg i = gm_get (cfg_Servers cfg) i"

definition AddServer :: "save_outcome \<Rightarrow> Config \<Rightarrow> Server \<Rightarrow> Config \<times> store_error option" where
  "AddServer sv cfg srv =
     (if gm_get (cfg_Servers cfg) (srv_ID srv) \<noteq> None then (cfg, Some (ServerExists (srv_ID srv)))
      else saved sv (cfg\<lparr>cfg_Servers := gm_put (srv_ID srv) srv (cfg_Servers cfg)\<rparr>))"

definition UpdateServer :: "save_outcome \<Rightarrow> Config \<Rightarrow> string \<Rightarrow> Server \<Rightarrow> Config \<times> store_error option" where
  "UpdateServer sv cfg i srv =
     (if gm_get (cfg_Servers cfg) i = None then (cfg, Some (ServerNotFound i))
      else saved sv (cfg\<lparr>cfg_Servers := gm_put i (srv\<lparr>srv_ID := i\<rparr>) (cfg_Servers cfg)\<rparr>))"

definition rule_references :: "string \<Rightarrow> RuleProfile \<Rightarrow> RoutingRule \<Rightarrow> string list" where
  "rule_references i p rule =
     map (\<lambda>ref. ''rule '' @ go_quote (Join (rule_IncomingModels rule) '', '') @ '' in profile '' @
                go_quote (prof_Name p) @ '' ('' @ ref_Role ref @ '')'')
       (filter (\<lambda>ref. ref_ID ref = i) (ServerRefs rule))"

definition references :: "Config \<Rightarrow> string \<Rightarrow> string list" where
  "references cfg i =
     concat (map (\<lambda>p. concat (map (rule_references i p) (prof_Rules p))) (cfg_Profiles cfg))"

definition DeleteServer :: "save_outcome \<Rightarrow> Config \<Rightarrow> string \<Rightarrow> Config \<times> store_error option" where
  "DeleteServer sv cfg i =
     (if gm_get (cfg_Servers cfg) i = None then (cfg, Some (ServerNotFound i))
      else if references cfg i \<noteq> [] then (cfg, Some (ServerReferenced i (references cfg i)))
      else saved sv (cfg\<lparr>cfg_Servers := gm_del i (cfg_Servers cfg)\<rparr>))"

definition AuditServerRefs :: "Config \<Rightarrow> string list" where
  "AuditServerRefs cfg =
     concat (map (\<lambda>p. concat (map (\<lambda>rule.
       map (\<lambda>ref. ''rule '' @ go_quote (Join (rule_IncomingModels rule) '', '') @ '' in profile '' @
                  go_quote (prof_Name p) @ '' names missing '' @ ref_Role ref @ '' '' @ go_quote (ref_ID ref))
         (filter (\<lambda>ref. gm_get (cfg_Servers cfg) (ref_ID ref) = None) (ServerRefs rule)))
       (prof_Rules p))) (cfg_Profiles cfg))"

definition MissingServers :: "Config \<Rightarrow> RoutingRule \<Rightarrow> string list" where
  "MissingServers cfg rule =
     map (\<lambda>ref. ref_Role ref @ '' '' @ go_quote (ref_ID ref))
       (filter (\<lambda>ref. ref_ID ref \<noteq> [] \<and> gm_get (cfg_Servers cfg) (ref_ID ref) = None) (ServerRefs rule))"

subsection \<open>Profiles\<close>

fun profile_index :: "string \<Rightarrow> RuleProfile list \<Rightarrow> nat option" where
  "profile_index i [] = None"
| "profile_index i (p # ps) = (if prof_ID p = i then Some 0 else map_option Suc (profile_index i ps))"

definition profileByID :: "Config \<Rightarrow> string \<Rightarrow> nat option" where
  "profileByID cfg i = profile_index i (cfg_Profiles cfg)"

definition activeProfile :: "Config \<Rightarrow> nat option" where
  "activeProfile cfg = (case profileByID cfg (cfg_ActiveProfileID cfg) of
     Some k \<Rightarrow> Some k
   | None \<Rightarrow> if cfg_Profiles cfg = [] then None else Some 0)"

definition resolveProfile :: "Config \<Rightarrow> string \<Rightarrow> nat option" where
  "resolveProfile cfg i = (if i = [] then activeProfile cfg else profileByID cfg i)"

definition RuleCount :: "Config \<Rightarrow> string \<Rightarrow> int" where
  "RuleCount cfg i = (case resolveProfile cfg i of
     None \<Rightarrow> 0 | Some k \<Rightarrow> int (length (prof_Rules (cfg_Profiles cfg ! k))))"

definition ProfileExists :: "Config \<Rightarrow> string \<Rightarrow> bool" where
  "ProfileExists cfg i \<longleftrightarrow> resolveProfile cfg i \<noteq> None"

definition cloneRule :: "RoutingRule \<Rightarrow> RoutingRule" where
  "cloneRule r =
     \<lparr>rule_IncomingModels = rule_IncomingModels r, rule_TargetModel = rule_TargetModel r,
      rule_ServerID = rule_ServerID r, rule_Fallbacks = rule_Fallbacks r,
      rule_FallbackServerIDs = rule_FallbackServerIDs r, rule_NumRetries = rule_NumRetries r,
      rule_Enabled = rule_Enabled r, rule_ContextWindow = rule_ContextWindow r, rule_Router = rule_Router r,
      rule_Jev = rule_Jev r, rule_Convert = rule_Convert r, rule_Balance = rule_Balance r\<rparr>"

definition GetRules :: "Config \<Rightarrow> string \<Rightarrow> store_error + RoutingRule list" where
  "GetRules cfg i = (case resolveProfile cfg i of
     None \<Rightarrow> Inl (ProfileNotFound i)
   | Some k \<Rightarrow> Inr (map cloneRule (prof_Rules (cfg_Profiles cfg ! k))))"

definition set_rules :: "Config \<Rightarrow> nat \<Rightarrow> RoutingRule list \<Rightarrow> Config" where
  "set_rules cfg k rules =
     cfg\<lparr>cfg_Profiles := (cfg_Profiles cfg)[k := (cfg_Profiles cfg ! k)\<lparr>prof_Rules := rules\<rparr>]\<rparr>"

definition AddRuleToProfile ::
  "save_outcome \<Rightarrow> Config \<Rightarrow> string \<Rightarrow> RoutingRule \<Rightarrow> Config \<times> store_error option" where
  "AddRuleToProfile sv cfg i rule = (case resolveProfile cfg i of
     None \<Rightarrow> (cfg, Some (ProfileNotFound i))
   | Some k \<Rightarrow> saved sv (set_rules cfg k (prof_Rules (cfg_Profiles cfg ! k) @ [cloneRule rule])))"

definition UpdateRuleInProfile ::
  "save_outcome \<Rightarrow> Config \<Rightarrow> string \<Rightarrow> int \<Rightarrow> RoutingRule \<Rightarrow> Config \<times> store_error option" where
  "UpdateRuleInProfile sv cfg i idx rule = (case resolveProfile cfg i of
     None \<Rightarrow> (cfg, Some (ProfileNotFound i))
   | Some k \<Rightarrow>
       let rules = prof_Rules (cfg_Profiles cfg ! k) in
       if idx < 0 \<or> idx \<ge> int (length rules) then (cfg, Some (RuleIndexOutOfRange idx))
       else saved sv (set_rules cfg k (rules[nat idx := cloneRule rule])))"

definition DeleteRuleFromProfile ::
  "save_outcome \<Rightarrow> Config \<Rightarrow> string \<Rightarrow> int \<Rightarrow> Config \<times> store_error option" where
  "DeleteRuleFromProfile sv cfg i idx = (case resolveProfile cfg i of
     None \<Rightarrow> (cfg, Some (ProfileNotFound i))
   | Some k \<Rightarrow>
       let rules = prof_Rules (cfg_Profiles cfg ! k) in
       if idx < 0 \<or> idx \<ge> int (length rules) then (cfg, Some (RuleIndexOutOfRange idx))
       else saved sv (set_rules cfg k (take (nat idx) rules @ drop (Suc (nat idx)) rules)))"

definition AddProfile ::
  "save_outcome \<Rightarrow> Config \<Rightarrow> string \<Rightarrow> bool \<Rightarrow> Config \<times> (string \<times> store_error option)" where
  "AddProfile sv cfg name copyFromActive =
     (if name = [] then (cfg, [], Some ProfileNameRequired)
      else if \<exists>p \<in> set (cfg_Profiles cfg). prof_Name p = name \<or> prof_ID p = name
      then (cfg, [], Some (ProfileExists_err name))
      else
        let rules = (if copyFromActive then
                       (case activeProfile cfg of
                          None \<Rightarrow> []
                        | Some k \<Rightarrow> map cloneRule (prof_Rules (cfg_Profiles cfg ! k)))
                     else []);
            p = \<lparr>prof_ID = name, prof_Name = name, prof_Rules = rules\<rparr>
        in case saved sv (cfg\<lparr>cfg_Profiles := cfg_Profiles cfg @ [p]\<rparr>) of (cfg', e) \<Rightarrow> (cfg', name, e))"

definition RenameProfile ::
  "save_outcome \<Rightarrow> Config \<Rightarrow> string \<Rightarrow> string \<Rightarrow> Config \<times> store_error option" where
  "RenameProfile sv cfg i name =
     (if name = [] then (cfg, Some ProfileNameRequired)
      else case profile_index i (cfg_Profiles cfg) of
        None \<Rightarrow> (cfg, Some (ProfileNotFound i))
      | Some k \<Rightarrow>
          if \<exists>p \<in> set (cfg_Profiles cfg). prof_ID p \<noteq> i \<and> (prof_Name p = name \<or> prof_ID p = name)
          then (cfg, Some (ProfileExists_err name))
          else saved sv (cfg\<lparr>cfg_Profiles :=
                 (cfg_Profiles cfg)[k := (cfg_Profiles cfg ! k)\<lparr>prof_Name := name\<rparr>]\<rparr>))"

definition DeleteProfile :: "save_outcome \<Rightarrow> Config \<Rightarrow> string \<Rightarrow> Config \<times> store_error option" where
  "DeleteProfile sv cfg i = (case profile_index i (cfg_Profiles cfg) of
     None \<Rightarrow> (cfg, Some (ProfileNotFound i))
   | Some k \<Rightarrow>
       if length (cfg_Profiles cfg) = 1 then (cfg, Some OnlyProfile)
       else
         let ps = take k (cfg_Profiles cfg) @ drop (Suc k) (cfg_Profiles cfg);
             cfg1 = cfg\<lparr>cfg_Profiles := ps\<rparr>
         in saved sv (if cfg_ActiveProfileID cfg = i then cfg1\<lparr>cfg_ActiveProfileID := prof_ID (hd ps)\<rparr> else cfg1))"

definition SetActiveProfile :: "save_outcome \<Rightarrow> Config \<Rightarrow> string \<Rightarrow> Config \<times> store_error option" where
  "SetActiveProfile sv cfg i = (case profile_index i (cfg_Profiles cfg) of
     None \<Rightarrow> (cfg, Some (ProfileNotFound i))
   | Some _ \<Rightarrow> saved sv (cfg\<lparr>cfg_ActiveProfileID := i\<rparr>))"

subsection \<open>Finding a rule\<close>

definition matchModelPattern :: "string \<Rightarrow> string \<Rightarrow> bool" where
  "matchModelPattern pattern model \<longleftrightarrow> IsModelPattern pattern \<and> path_Match pattern model"

text \<open>The inner and the outer loop: \<open>Inl\<close> is the early return, \<open>Inr\<close> the best pattern so far.\<close>

type_synonym rule_scan = "RoutingRule + (RoutingRule option \<times> nat)"

fun scan_names :: "string \<Rightarrow> RoutingRule \<Rightarrow> string list \<Rightarrow> RoutingRule option \<times> nat \<Rightarrow> rule_scan" where
  "scan_names model rule [] best = Inr best"
| "scan_names model rule (name # names) (patternRule, patternLen) =
     (if name = model then Inl (cloneRule rule)
      else if length name > patternLen \<and> matchModelPattern name model
      then scan_names model rule names (Some rule, length name)
      else scan_names model rule names (patternRule, patternLen))"

fun scan_rules :: "string \<Rightarrow> RoutingRule list \<Rightarrow> RoutingRule option \<times> nat \<Rightarrow> rule_scan" where
  "scan_rules model [] best = Inr best"
| "scan_rules model (rule # rules) best =
     (if \<not> rule_Enabled rule then scan_rules model rules best
      else case scan_names model rule (rule_IncomingModels rule) best of
        Inl r \<Rightarrow> Inl r
      | Inr best' \<Rightarrow> scan_rules model rules best')"

definition GetRuleByModel :: "Config \<Rightarrow> string \<Rightarrow> RoutingRule option" where
  "GetRuleByModel cfg model = (case activeProfile cfg of
     None \<Rightarrow> None
   | Some k \<Rightarrow>
       (case scan_rules model (prof_Rules (cfg_Profiles cfg ! k)) (None, 0) of
          Inl r \<Rightarrow> Some r
        | Inr (best, _) \<Rightarrow> map_option cloneRule best))"

definition ModelNames :: "Config \<Rightarrow> string list" where
  "ModelNames cfg = (case activeProfile cfg of
     None \<Rightarrow> []
   | Some k \<Rightarrow>
       sort (fold (\<lambda>name out. if \<not> IsModelPattern name \<and> name \<notin> set out then out @ [name] else out)
               (concat (map rule_IncomingModels (filter rule_Enabled (prof_Rules (cfg_Profiles cfg ! k))))) []))"

subsection \<open>Profiles stay well formed\<close>

lemma cloneRule_id [simp]: "cloneRule r = r"
  by (simp add: cloneRule_def)

lemma profile_index_Some:
  "profile_index i ps = Some k \<Longrightarrow> k < length ps \<and> prof_ID (ps ! k) = i"
  by (induction ps arbitrary: k) (auto split: if_splits)

lemma profile_index_None: "profile_index i ps = None \<longleftrightarrow> i \<notin> prof_ID ` set ps"
  by (induction ps) auto

lemma activeProfile_bound: "activeProfile cfg = Some k \<Longrightarrow> k < length (cfg_Profiles cfg)"
  by (auto simp: activeProfile_def profileByID_def split: option.splits if_splits dest: profile_index_Some)

lemma resolveProfile_bound: "resolveProfile cfg i = Some k \<Longrightarrow> k < length (cfg_Profiles cfg)"
  by (auto simp: resolveProfile_def profileByID_def split: if_splits dest: activeProfile_bound profile_index_Some)

definition servers_keyed :: "Config \<Rightarrow> bool" where
  "servers_keyed cfg \<longleftrightarrow> gm_wf (cfg_Servers cfg) \<and>
     (\<forall>i s. gm_get (cfg_Servers cfg) i = Some s \<longrightarrow> srv_ID s = i)"

definition store_inv :: "Config \<Rightarrow> bool" where
  "store_inv cfg \<longleftrightarrow> distinct (map prof_ID (cfg_Profiles cfg)) \<and> distinct (map prof_Name (cfg_Profiles cfg)) \<and>
     [] \<notin> set (map prof_ID (cfg_Profiles cfg)) \<and>
     cfg_ActiveProfileID cfg \<in> set (map prof_ID (cfg_Profiles cfg)) \<and> servers_keyed cfg"

lemma saved_simps [simp]: "fst (saved sv cfg) = cfg" "snd (saved sv cfg) = map_option SaveFailed sv"
  by (simp_all add: saved_def)

lemma set_rules_inv [simp]:
  "k < length (cfg_Profiles cfg) \<Longrightarrow> store_inv (set_rules cfg k rs) \<longleftrightarrow> store_inv cfg"
proof -
  assume k: "k < length (cfg_Profiles cfg)"
  have "map f ((cfg_Profiles cfg)[k := (cfg_Profiles cfg ! k)\<lparr>prof_Rules := rs\<rparr>]) = map f (cfg_Profiles cfg)"
    if "\<And>p. f (p\<lparr>prof_Rules := rs\<rparr>) = f p" for f :: "RuleProfile \<Rightarrow> string"
    using k that by (simp add: map_update list_update_same_conv)
  from this [of prof_ID] this [of prof_Name] show ?thesis
    by (simp add: store_inv_def set_rules_def servers_keyed_def)
qed

datatype store_op =
    SAddServer Server
  | SUpdateServer string Server
  | SDeleteServer string
  | SAddRule string RoutingRule
  | SUpdateRule string int RoutingRule
  | SDeleteRule string int
  | SAddProfile string bool
  | SRenameProfile string string
  | SDeleteProfile string
  | SSetActive string

fun store_step :: "save_outcome \<times> store_op \<Rightarrow> Config \<Rightarrow> Config" where
  "store_step (sv, SAddServer s) cfg = fst (AddServer sv cfg s)"
| "store_step (sv, SUpdateServer i s) cfg = fst (UpdateServer sv cfg i s)"
| "store_step (sv, SDeleteServer i) cfg = fst (DeleteServer sv cfg i)"
| "store_step (sv, SAddRule i r) cfg = fst (AddRuleToProfile sv cfg i r)"
| "store_step (sv, SUpdateRule i n r) cfg = fst (UpdateRuleInProfile sv cfg i n r)"
| "store_step (sv, SDeleteRule i n) cfg = fst (DeleteRuleFromProfile sv cfg i n)"
| "store_step (sv, SAddProfile n c) cfg = fst (AddProfile sv cfg n c)"
| "store_step (sv, SRenameProfile i n) cfg = fst (RenameProfile sv cfg i n)"
| "store_step (sv, SDeleteProfile i) cfg = fst (DeleteProfile sv cfg i)"
| "store_step (sv, SSetActive i) cfg = fst (SetActiveProfile sv cfg i)"

lemma servers_keyed_put:
  "servers_keyed cfg \<Longrightarrow> srv_ID s = i \<Longrightarrow> servers_keyed (cfg\<lparr>cfg_Servers := gm_put i s (cfg_Servers cfg)\<rparr>)"
  by (auto simp: servers_keyed_def gm_get_put simp del: map_of_eq_Some_iff split: if_splits)

lemma servers_keyed_del:
  "servers_keyed cfg \<Longrightarrow> servers_keyed (cfg\<lparr>cfg_Servers := gm_del i (cfg_Servers cfg)\<rparr>)"
  by (auto simp: servers_keyed_def gm_get_del simp del: map_of_eq_Some_iff split: if_splits)

lemma server_ops_inv:
  assumes "store_inv cfg"
  shows "store_inv (fst (AddServer sv cfg s))" "store_inv (fst (UpdateServer sv cfg i s))"
    "store_inv (fst (DeleteServer sv cfg i))"
  using assms servers_keyed_put servers_keyed_del
  by (simp_all add: AddServer_def UpdateServer_def DeleteServer_def store_inv_def)

lemma rule_ops_inv:
  assumes "store_inv cfg"
  shows "store_inv (fst (AddRuleToProfile sv cfg i r))" "store_inv (fst (UpdateRuleInProfile sv cfg i n r))"
    "store_inv (fst (DeleteRuleFromProfile sv cfg i n))"
  using assms
  by (auto simp: AddRuleToProfile_def UpdateRuleInProfile_def DeleteRuleFromProfile_def Let_def
      split: option.splits dest: resolveProfile_bound)

lemma AddProfile_inv: "store_inv cfg \<Longrightarrow> store_inv (fst (AddProfile sv cfg n c))"
  by (auto simp: AddProfile_def store_inv_def servers_keyed_def Let_def saved_def)

lemma RenameProfile_inv:
  assumes "store_inv cfg"
  shows "store_inv (fst (RenameProfile sv cfg i n))"
proof (cases "n = [] \<or> profile_index i (cfg_Profiles cfg) = None \<or>
    (\<exists>p \<in> set (cfg_Profiles cfg). prof_ID p \<noteq> i \<and> (prof_Name p = n \<or> prof_ID p = n))")
  case True
  then show ?thesis using assms by (auto simp: RenameProfile_def split: option.split)
next
  case False
  then obtain k where k: "profile_index i (cfg_Profiles cfg) = Some k" by auto
  let ?ps = "cfg_Profiles cfg"
  have kb: "k < length ?ps" "prof_ID (?ps ! k) = i" using profile_index_Some [OF k] by auto
  have ids: "map prof_ID (?ps[k := (?ps ! k)\<lparr>prof_Name := n\<rparr>]) = map prof_ID ?ps"
    using kb by (simp add: map_update list_update_same_conv)
  have idset: "prof_ID ` set (?ps[k := (?ps ! k)\<lparr>prof_Name := n\<rparr>]) = prof_ID ` set ?ps"
    using arg_cong [OF ids, of set] by simp
  have whole: "take k ?ps @ ?ps ! k # drop (Suc k) ?ps = ?ps"
    using id_take_nth_drop [OF kb(1)] by simp
  have "n \<notin> set (map prof_Name (take k ?ps)) \<union> set (map prof_Name (drop (Suc k) ?ps))"
  proof -
    have "distinct (map prof_ID (take k ?ps @ ?ps ! k # drop (Suc k) ?ps))"
      using assms unfolding whole store_inv_def by simp
    then have "i \<notin> prof_ID ` set (take k ?ps)" "i \<notin> prof_ID ` set (drop (Suc k) ?ps)"
      using kb(2) by auto
    moreover have "prof_ID p = i \<or> prof_Name p \<noteq> n" if "p \<in> set ?ps" for p
      using False that by blast
    ultimately have "prof_Name p \<noteq> n" if "p \<in> set (take k ?ps) \<union> set (drop (Suc k) ?ps)" for p
      using that in_set_takeD [of p k ?ps] in_set_dropD [of p "Suc k" ?ps] by blast
    then show ?thesis by auto
  qed
  moreover have "distinct (map prof_Name (take k ?ps @ drop (Suc k) ?ps))"
  proof -
    have "distinct (map prof_Name (take k ?ps @ ?ps ! k # drop (Suc k) ?ps))"
      using assms unfolding whole store_inv_def by simp
    then show ?thesis by simp
  qed
  ultimately have "distinct (map prof_Name (?ps[k := (?ps ! k)\<lparr>prof_Name := n\<rparr>]))"
    using kb(1) by (simp add: upd_conv_take_nth_drop)
  then show ?thesis
    using False k assms by (simp add: RenameProfile_def store_inv_def ids idset servers_keyed_def)
qed

lemma DeleteProfile_inv:
  assumes "store_inv cfg"
  shows "store_inv (fst (DeleteProfile sv cfg i))"
proof (cases "profile_index i (cfg_Profiles cfg)")
  case None
  then show ?thesis using assms by (simp add: DeleteProfile_def)
next
  case (Some k)
  let ?ps = "cfg_Profiles cfg" and ?qs = "take k (cfg_Profiles cfg) @ drop (Suc k) (cfg_Profiles cfg)"
  have kb: "k < length ?ps" "prof_ID (?ps ! k) = i" using profile_index_Some [OF Some] by auto
  have whole: "take k ?ps @ ?ps ! k # drop (Suc k) ?ps = ?ps"
    using id_take_nth_drop [OF kb(1)] by simp
  have dis: "distinct (map f ?qs)" if "distinct (map f ?ps)" for f :: "RuleProfile \<Rightarrow> string"
  proof -
    have "distinct (map f (take k ?ps @ ?ps ! k # drop (Suc k) ?ps))" using that unfolding whole .
    then show ?thesis by simp
  qed
  have mem: "a \<in> set (map prof_ID ?qs)" if "a \<in> set (map prof_ID ?ps)" "a \<noteq> i" for a
  proof -
    have "a \<in> set (map prof_ID (take k ?ps @ ?ps ! k # drop (Suc k) ?ps))" using that(1) unfolding whole .
    then show ?thesis using that(2) kb(2) by auto
  qed
  have sub: "set (map prof_ID ?qs) \<subseteq> set (map prof_ID ?ps)"
    by (auto dest: in_set_takeD in_set_dropD)
  show ?thesis
  proof (cases "length ?ps = 1")
    case True
    then show ?thesis using assms Some by (simp add: DeleteProfile_def)
  next
    case False
    then have ne: "?qs \<noteq> []" using kb(1) by (cases ?ps; cases k) auto
    let ?a = "if cfg_ActiveProfileID cfg = i then prof_ID (hd ?qs) else cfg_ActiveProfileID cfg"
    have r: "fst (DeleteProfile sv cfg i) = cfg\<lparr>cfg_Profiles := ?qs, cfg_ActiveProfileID := ?a\<rparr>"
      using False Some by (simp add: DeleteProfile_def Let_def)
    have "?a \<in> set (map prof_ID ?qs)"
      using ne mem assms hd_in_set [OF ne] unfolding store_inv_def set_map by (cases "cfg_ActiveProfileID cfg = i") auto
    moreover have "[] \<notin> set (map prof_ID ?qs)"
      using assms sub unfolding store_inv_def by blast
    ultimately show ?thesis
      using assms dis [of prof_ID] dis [of prof_Name]
      unfolding r store_inv_def servers_keyed_def by simp
  qed
qed

lemma SetActiveProfile_inv: "store_inv cfg \<Longrightarrow> store_inv (fst (SetActiveProfile sv cfg i))"
  by (auto simp: SetActiveProfile_def store_inv_def servers_keyed_def split: option.split
      dest!: profile_index_Some)

lemmas store_ops_inv = server_ops_inv rule_ops_inv AddProfile_inv RenameProfile_inv DeleteProfile_inv
  SetActiveProfile_inv

text \<open>
  The profile set never degenerates: after any sequence of store operations on a fresh
  store, whatever each write to disk returned, there is at least one profile, profile ids
  and display names are each unique, no id is empty, the active id names an existing
  profile, and every server is stored under its own id.
\<close>
theorem store_invariant:
  "store_inv (fold store_step ops NewStore_config) \<and> cfg_Profiles (fold store_step ops NewStore_config) \<noteq> []"
proof -
  have "store_inv (store_step x cfg)" if "store_inv cfg" for x cfg
    using that by (cases "(x, cfg)" rule: store_step.cases) (simp_all add: store_ops_inv)
  then have "store_inv (fold store_step ops cfg)" if "store_inv cfg" for cfg
    using that by (induction ops arbitrary: cfg) auto
  moreover have "store_inv NewStore_config"
    by (simp add: store_inv_def NewStore_config_def default_profile_def servers_keyed_def)
  ultimately have "store_inv (fold store_step ops NewStore_config)" by simp
  then show ?thesis by (auto simp: store_inv_def)
qed

subsection \<open>Which rule owns a model\<close>

text \<open>The incoming-model entries of the enabled rules, in configuration order.\<close>

definition entries :: "RoutingRule list \<Rightarrow> (string \<times> RoutingRule) list" where
  "entries rules = concat (map (\<lambda>r. map (\<lambda>n. (n, r)) (rule_IncomingModels r)) (filter rule_Enabled rules))"

definition active_rules :: "Config \<Rightarrow> RoutingRule list" where
  "active_rules cfg = (case activeProfile cfg of None \<Rightarrow> [] | Some k \<Rightarrow> prof_Rules (cfg_Profiles cfg ! k))"

fun scan_entries :: "string \<Rightarrow> (string \<times> RoutingRule) list \<Rightarrow> RoutingRule option \<times> nat \<Rightarrow> rule_scan" where
  "scan_entries model [] best = Inr best"
| "scan_entries model ((name, rule) # es) (pr, pl) =
     (if name = model then Inl rule
      else if length name > pl \<and> matchModelPattern name model then scan_entries model es (Some rule, length name)
      else scan_entries model es (pr, pl))"

lemma scan_names_entries:
  "(case scan_names model rule names best of Inl r \<Rightarrow> Inl r | Inr b \<Rightarrow> scan_entries model es b) =
     scan_entries model (map (\<lambda>n. (n, rule)) names @ es) best"
  by (induction model rule names best rule: scan_names.induct) auto

lemma scan_rules_entries: "scan_rules model rules best = scan_entries model (entries rules) best"
proof (induction rules arbitrary: best)
  case Nil
  then show ?case by (simp add: entries_def)
next
  case (Cons r rules)
  then show ?case
    using scan_names_entries [where rule = r and names = "rule_IncomingModels r" and es = "entries rules"]
    by (simp add: entries_def cong: sum.case_cong)
qed

definition longest_match :: "string \<Rightarrow> (string \<times> RoutingRule) list \<Rightarrow> nat \<Rightarrow> string \<times> RoutingRule \<Rightarrow> bool" where
  "longest_match model es pl e \<longleftrightarrow> matchModelPattern (fst e) model \<and> pl < length (fst e) \<and>
     (\<forall>e' \<in> set es. matchModelPattern (fst e') model \<longrightarrow> length (fst e') \<le> length (fst e))"

lemma scan_entries_exact:
  "find (\<lambda>e. fst e = model) es = Some e \<Longrightarrow> scan_entries model es best = Inl (snd e)"
  by (induction model es best rule: scan_entries.induct) (auto split: if_splits)

lemma find_cong_set: "(\<And>x. x \<in> set xs \<Longrightarrow> P x = Q x) \<Longrightarrow> find P xs = find Q xs"
  by (induction xs) auto

lemma longest_match_Cons:
  "longest_match model (e # es) pl x \<longleftrightarrow> longest_match model es pl x \<and>
     (matchModelPattern (fst e) model \<longrightarrow> length (fst e) \<le> length (fst x))"
  by (auto simp: longest_match_def)

lemma scan_entries_pattern:
  assumes "find (\<lambda>e. fst e = model) es = None"
  shows "\<exists>pl'. scan_entries model es (pr, pl) =
     Inr (case find (longest_match model es pl) es of None \<Rightarrow> pr | Some e \<Rightarrow> Some (snd e), pl')"
  using assms
proof (induction model es "(pr, pl)" arbitrary: pr pl rule: scan_entries.induct)
  case (1 model pr pl)
  then show ?case by simp
next
  case (2 model name rule es pr pl)
  have ne: "name \<noteq> model" and none: "find (\<lambda>e. fst e = model) es = None"
    using 2(3) by (auto split: if_splits)
  show ?case
  proof (cases "length name > pl \<and> matchModelPattern name model")
    case True
    obtain pl' where IH: "scan_entries model es (Some rule, length name) =
        Inr (case find (longest_match model es (length name)) es of None \<Rightarrow> Some rule | Some e \<Rightarrow> Some (snd e), pl')"
      using 2(1) [OF ne True none] by auto
    have "find (longest_match model ((name, rule) # es) pl) ((name, rule) # es) =
        (case find (longest_match model es (length name)) es of None \<Rightarrow> Some (name, rule) | Some e \<Rightarrow> Some e)"
    proof (cases "\<exists>e \<in> set es. matchModelPattern (fst e) model \<and> length name < length (fst e)")
      case ex: True
      then have no: "\<not> longest_match model ((name, rule) # es) pl (name, rule)"
        by (fastforce simp: longest_match_def)
      have "longest_match model ((name, rule) # es) pl e = longest_match model es (length name) e" if "e \<in> set es" for e
        using ex True that by (fastforce simp: longest_match_def)
      then have "find (longest_match model ((name, rule) # es) pl) es = find (longest_match model es (length name)) es"
        by (rule find_cong_set)
      moreover have "find (longest_match model es (length name)) es \<noteq> None"
      proof -
        define L where "L = Max (length ` {n. \<exists>e \<in> set es. fst e = n \<and> matchModelPattern n model})"
        let ?S = "length ` {n. \<exists>e \<in> set es. fst e = n \<and> matchModelPattern n model}"
        have fin: "finite ?S" by (rule finite_imageI, rule finite_subset [of _ "fst ` set es"]) auto
        have "?S \<noteq> {}" using ex by auto
        then have "L \<in> ?S" unfolding L_def by (rule Max_in [OF fin])
        then obtain e where e: "e \<in> set es" "matchModelPattern (fst e) model" "length (fst e) = L" by auto
        have "length (fst e') \<le> L" if "e' \<in> set es" "matchModelPattern (fst e') model" for e'
          unfolding L_def using that by (intro Max_ge [OF fin]) auto
        then have "longest_match model es (length name) e"
          using e ex by (fastforce simp: longest_match_def)
        then show ?thesis using e(1) by (metis find_None_iff)
      qed
      ultimately show ?thesis using no by auto
    next
      case no: False
      then have "longest_match model ((name, rule) # es) pl (name, rule)"
        using True by (auto simp: longest_match_def not_less)
      moreover have "find (longest_match model es (length name)) es = None"
        using no by (auto simp: find_None_iff longest_match_def)
      ultimately show ?thesis by simp
    qed
    then show ?thesis using ne True IH by (auto split: option.splits)
  next
    case False
    obtain pl' where IH: "scan_entries model es (pr, pl) =
        Inr (case find (longest_match model es pl) es of None \<Rightarrow> pr | Some e \<Rightarrow> Some (snd e), pl')"
      using 2(2) [OF ne False none] by auto
    have "\<not> longest_match model ((name, rule) # es) pl (name, rule)"
      using False by (auto simp: longest_match_def)
    moreover have "longest_match model ((name, rule) # es) pl = longest_match model es pl"
      using False by (auto simp: longest_match_def fun_eq_iff)
    ultimately show ?thesis using ne False IH by auto
  qed
qed

lemma matchModelPattern_nonempty: "matchModelPattern n model \<Longrightarrow> 0 < length n"
  by (auto simp: matchModelPattern_def IsModelPattern_def)

text \<open>
  C17: Specificity decides which rule answers for a model: if any enabled rule of the active
  profile lists the name itself, the first such rule wins over every wildcard; otherwise the
  first entry among the longest wildcard patterns that match it; otherwise no rule.
\<close>
theorem GetRuleByModel_specificity:
  "GetRuleByModel cfg model =
     (case find (\<lambda>e. fst e = model) (entries (active_rules cfg)) of
        Some e \<Rightarrow> Some (snd e)
      | None \<Rightarrow> map_option snd (find (\<lambda>e. matchModelPattern (fst e) model \<and>
          (\<forall>e' \<in> set (entries (active_rules cfg)).
             matchModelPattern (fst e') model \<longrightarrow> length (fst e') \<le> length (fst e)))
          (entries (active_rules cfg))))"
proof (cases "activeProfile cfg")
  case None
  then show ?thesis by (simp add: GetRuleByModel_def active_rules_def entries_def)
next
  case (Some k)
  let ?es = "entries (active_rules cfg)"
  have clone: "map_option cloneRule b = b" for b by (cases b) auto
  have g: "GetRuleByModel cfg model = (case scan_entries model ?es (None, 0) of
      Inl r \<Rightarrow> Some r | Inr (best, _) \<Rightarrow> best)"
    using Some by (simp add: GetRuleByModel_def active_rules_def scan_rules_entries clone
        cong: sum.case_cong split: prod.split)
  have lm: "longest_match model ?es 0 = (\<lambda>e. matchModelPattern (fst e) model \<and>
      (\<forall>e' \<in> set ?es. matchModelPattern (fst e') model \<longrightarrow> length (fst e') \<le> length (fst e)))"
    by (auto simp: longest_match_def fun_eq_iff dest: matchModelPattern_nonempty)
  show ?thesis
  proof (cases "find (\<lambda>e. fst e = model) ?es")
    case (Some e)
    then show ?thesis by (simp add: g scan_entries_exact)
  next
    case None
    from scan_entries_pattern [OF None, of None 0] show ?thesis
      unfolding g lm None by (auto split: option.split)
  qed
qed

theorem GetRuleByModel_specificity_witness:
  "GetRuleByModel example_config ''m'' = Some example_rule"
proof -
  have r: "active_rules example_config = [example_rule]"
    by (simp add: active_rules_def activeProfile_def profileByID_def example_config_def)
  show ?thesis
    by (subst GetRuleByModel_specificity) (simp add: r entries_def example_rule_def)
qed

end
