(* ===== verification/Admin.thy ===== *)
theory Admin
  imports Store
begin

text \<open>
  The write handlers of \<open>src/admin/handler.go\<close> over the store. A handler gets the decoded
  request body (\<open>None\<close> for one that does not decode) and returns the new configuration and
  the HTTP status it answers. Handlers that write a rule take the lock twice, once to
  validate and once to write, so the two halves are separate definitions as well.
\<close>

definition admin_validateRule :: "Config \<Rightarrow> RoutingRule \<Rightarrow> bool" where
  "admin_validateRule cfg rule \<longleftrightarrow> Validate rule = None \<and> MissingServers cfg rule = []"

definition admin_addServer :: "save_outcome \<Rightarrow> Config \<Rightarrow> Server option \<Rightarrow> Config \<times> int" where
  "admin_addServer sv cfg body = (case body of
     None \<Rightarrow> (cfg, 400)
   | Some srv \<Rightarrow>
       if srv_ID srv = [] then (cfg, 400)
       else case AddServer sv cfg srv of (cfg', e) \<Rightarrow> (cfg', if e \<noteq> None then 409 else 201))"

definition admin_updateServer :: "save_outcome \<Rightarrow> Config \<Rightarrow> string \<Rightarrow> Server option \<Rightarrow> Config \<times> int" where
  "admin_updateServer sv cfg i body = (case body of
     None \<Rightarrow> (cfg, 400)
   | Some srv \<Rightarrow> (case UpdateServer sv cfg i srv of (cfg', e) \<Rightarrow> (cfg', if e \<noteq> None then 404 else 200)))"

definition admin_deleteServer :: "save_outcome \<Rightarrow> Config \<Rightarrow> string \<Rightarrow> Config \<times> int" where
  "admin_deleteServer sv cfg i = (case DeleteServer sv cfg i of (cfg', e) \<Rightarrow>
     (cfg', case e of None \<Rightarrow> 200 | Some (ServerReferenced _ _) \<Rightarrow> 409 | Some _ \<Rightarrow> 404))"

definition status_of_error :: "store_error \<Rightarrow> int" where
  "status_of_error e = (if Contains (error_text e) ''not found'' then 404 else 400)"

text \<open>The checks of \<open>addRule\<close>: the status to refuse with, if any.\<close>

definition admin_addRule_check :: "Config \<Rightarrow> string \<Rightarrow> RoutingRule option \<Rightarrow> int option" where
  "admin_addRule_check cfg pid body = (case body of
     None \<Rightarrow> Some 400
   | Some rule \<Rightarrow>
       if \<not> ProfileExists cfg pid then Some 404
       else if \<not> admin_validateRule cfg rule then Some 400 else None)"

definition admin_addRule_write :: "save_outcome \<Rightarrow> Config \<Rightarrow> string \<Rightarrow> RoutingRule \<Rightarrow> Config \<times> int" where
  "admin_addRule_write sv cfg pid rule = (case AddRuleToProfile sv cfg pid rule of
     (cfg', None) \<Rightarrow> (cfg', 201)
   | (cfg', Some e) \<Rightarrow> (cfg', status_of_error e))"

definition admin_addRule :: "save_outcome \<Rightarrow> Config \<Rightarrow> string \<Rightarrow> RoutingRule option \<Rightarrow> Config \<times> int" where
  "admin_addRule sv cfg pid body = (case admin_addRule_check cfg pid body of
     Some st \<Rightarrow> (cfg, st)
   | None \<Rightarrow> admin_addRule_write sv cfg pid (the body))"

definition admin_updateRule ::
  "save_outcome \<Rightarrow> Config \<Rightarrow> string \<Rightarrow> string \<Rightarrow> RoutingRule option \<Rightarrow> Config \<times> int" where
  "admin_updateRule sv cfg pid idxStr body = (case ParseInt idxStr of
     None \<Rightarrow> (cfg, 400)
   | Some idx \<Rightarrow>
       if idx < 0 \<or> idx \<ge> RuleCount cfg pid then (cfg, 404)
       else case body of
         None \<Rightarrow> (cfg, 400)
       | Some rule \<Rightarrow>
           if \<not> admin_validateRule cfg rule then (cfg, 400)
           else case UpdateRuleInProfile sv cfg pid idx rule of
                  (cfg', e) \<Rightarrow> (cfg', if e \<noteq> None then 404 else 200))"

definition admin_deleteRule :: "save_outcome \<Rightarrow> Config \<Rightarrow> string \<Rightarrow> string \<Rightarrow> Config \<times> int" where
  "admin_deleteRule sv cfg pid idxStr = (case ParseInt idxStr of
     None \<Rightarrow> (cfg, 400)
   | Some idx \<Rightarrow> (case DeleteRuleFromProfile sv cfg pid idx of
                    (cfg', e) \<Rightarrow> (cfg', if e \<noteq> None then 404 else 200)))"

definition admin_addProfile :: "save_outcome \<Rightarrow> Config \<Rightarrow> (string \<times> bool) option \<Rightarrow> Config \<times> int" where
  "admin_addProfile sv cfg body = (case body of
     None \<Rightarrow> (cfg, 400)
   | Some (name, copyFromActive) \<Rightarrow>
       (case AddProfile sv cfg name copyFromActive of (cfg', _, e) \<Rightarrow> (cfg', if e \<noteq> None then 400 else 201)))"

definition admin_renameProfile :: "save_outcome \<Rightarrow> Config \<Rightarrow> string \<Rightarrow> string option \<Rightarrow> Config \<times> int" where
  "admin_renameProfile sv cfg i body = (case body of
     None \<Rightarrow> (cfg, 400)
   | Some name \<Rightarrow> (case RenameProfile sv cfg i name of
                     (cfg', e) \<Rightarrow> (cfg', case e of None \<Rightarrow> 200 | Some err \<Rightarrow> status_of_error err)))"

definition admin_deleteProfile :: "save_outcome \<Rightarrow> Config \<Rightarrow> string \<Rightarrow> Config \<times> int" where
  "admin_deleteProfile sv cfg i = (case DeleteProfile sv cfg i of
     (cfg', e) \<Rightarrow> (cfg', case e of None \<Rightarrow> 200 | Some err \<Rightarrow> status_of_error err))"

definition admin_activateProfile :: "save_outcome \<Rightarrow> Config \<Rightarrow> string \<Rightarrow> Config \<times> int" where
  "admin_activateProfile sv cfg i = (case SetActiveProfile sv cfg i of
     (cfg', e) \<Rightarrow> (cfg', if e \<noteq> None then 404 else 200))"

datatype admin_op =
    AAddServer "Server option"
  | AUpdateServer string "Server option"
  | ADeleteServer string
  | AAddRule string "RoutingRule option"
  | AUpdateRule string string "RoutingRule option"
  | ADeleteRule string string
  | AAddProfile "(string \<times> bool) option"
  | ARenameProfile string "string option"
  | ADeleteProfile string
  | AActivateProfile string

fun admin_step :: "save_outcome \<times> admin_op \<Rightarrow> Config \<Rightarrow> Config \<times> int" where
  "admin_step (sv, AAddServer b) cfg = admin_addServer sv cfg b"
| "admin_step (sv, AUpdateServer i b) cfg = admin_updateServer sv cfg i b"
| "admin_step (sv, ADeleteServer i) cfg = admin_deleteServer sv cfg i"
| "admin_step (sv, AAddRule p b) cfg = admin_addRule sv cfg p b"
| "admin_step (sv, AUpdateRule p n b) cfg = admin_updateRule sv cfg p n b"
| "admin_step (sv, ADeleteRule p n) cfg = admin_deleteRule sv cfg p n"
| "admin_step (sv, AAddProfile b) cfg = admin_addProfile sv cfg b"
| "admin_step (sv, ARenameProfile i b) cfg = admin_renameProfile sv cfg i b"
| "admin_step (sv, ADeleteProfile i) cfg = admin_deleteProfile sv cfg i"
| "admin_step (sv, AActivateProfile i) cfg = admin_activateProfile sv cfg i"

subsection \<open>The configuration stays routable\<close>

definition all_rules :: "Config \<Rightarrow> RoutingRule set" where
  "all_rules cfg = (\<Union>p \<in> set (cfg_Profiles cfg). set (prof_Rules p))"

definition routable :: "Config \<Rightarrow> bool" where
  "routable cfg \<longleftrightarrow> (\<forall>r \<in> all_rules cfg. Validate r = None \<and>
     (\<forall>i \<in> rule_refs r. i \<noteq> [] \<longrightarrow> GetServer cfg i \<noteq> None))"

lemma validateRule_refs:
  "admin_validateRule cfg r \<longleftrightarrow> Validate r = None \<and> (\<forall>i \<in> rule_refs r. i \<noteq> [] \<longrightarrow> GetServer cfg i \<noteq> None)"
  by (auto simp: admin_validateRule_def MissingServers_def rule_refs_def GetServer_def filter_empty_conv)

lemma references_Nil: "references cfg i = [] \<longleftrightarrow> (\<forall>r \<in> all_rules cfg. i \<notin> rule_refs r)"
  by (auto simp: references_def rule_references_def all_rules_def rule_refs_def filter_empty_conv)

lemma all_rules_set_rules:
  "k < length (cfg_Profiles cfg) \<Longrightarrow> all_rules (set_rules cfg k rs) \<subseteq> all_rules cfg \<union> set rs"
  by (auto simp: all_rules_def set_rules_def dest!: set_update_subset_insert [THEN subsetD])

lemma routable_mono:
  assumes "routable cfg" "all_rules cfg' \<subseteq> all_rules cfg" "cfg_Servers cfg' = cfg_Servers cfg"
  shows "routable cfg'"
  using assms by (auto simp: routable_def GetServer_def)

lemma server_handlers_routable:
  assumes "routable cfg"
  shows "routable (fst (admin_addServer sv cfg b))" "routable (fst (admin_updateServer sv cfg i b))"
    "routable (fst (admin_deleteServer sv cfg i))"
proof -
  show "routable (fst (admin_addServer sv cfg b))" "routable (fst (admin_updateServer sv cfg i b))"
    using assms
    by (auto simp: admin_addServer_def admin_updateServer_def AddServer_def UpdateServer_def saved_def routable_def
        all_rules_def GetServer_def gm_get_put split: option.splits)
  show "routable (fst (admin_deleteServer sv cfg i))"
    using assms references_Nil [of cfg i]
    by (auto simp: admin_deleteServer_def DeleteServer_def saved_def routable_def all_rules_def GetServer_def
        gm_get_del split: option.splits)
qed

lemma set_rules_routable:
  assumes "routable cfg" "k < length (cfg_Profiles cfg)"
    and "\<And>r. r \<in> set rs \<Longrightarrow> r \<in> all_rules cfg \<or> admin_validateRule cfg r"
  shows "routable (set_rules cfg k rs)"
proof -
  have "GetServer (set_rules cfg k rs) = GetServer cfg" by (simp add: GetServer_def set_rules_def fun_eq_iff)
  then show ?thesis
    using assms all_rules_set_rules [OF assms(2), of rs] validateRule_refs
    unfolding routable_def by (metis UnE subsetD)
qed

lemma profile_rules_sub: "k < length (cfg_Profiles cfg) \<Longrightarrow> set (prof_Rules (cfg_Profiles cfg ! k)) \<subseteq> all_rules cfg"
  using nth_mem by (fastforce simp: all_rules_def)

lemma rule_handlers_routable:
  assumes "routable cfg"
  shows "routable (fst (admin_addRule sv cfg p b))" "routable (fst (admin_updateRule sv cfg p n b))"
    "routable (fst (admin_deleteRule sv cfg p n))"
proof -
  have add: "routable (set_rules cfg k (prof_Rules (cfg_Profiles cfg ! k) @ [r]))"
    if "resolveProfile cfg p = Some k" "admin_validateRule cfg r" for k r
    using that resolveProfile_bound [OF that(1)] profile_rules_sub [of k cfg]
    by (intro set_rules_routable [OF assms]) auto
  show "routable (fst (admin_addRule sv cfg p b))"
    using assms add
    by (auto simp: admin_addRule_def admin_addRule_check_def admin_addRule_write_def AddRuleToProfile_def saved_def
        split: option.splits if_splits)
  have upd: "routable (set_rules cfg k ((prof_Rules (cfg_Profiles cfg ! k))[j := r]))"
    if "resolveProfile cfg p = Some k" "admin_validateRule cfg r" for k r j
    using that resolveProfile_bound [OF that(1)] profile_rules_sub [of k cfg]
    by (intro set_rules_routable [OF assms]) (auto dest!: set_update_subset_insert [THEN subsetD])
  show "routable (fst (admin_updateRule sv cfg p n b))"
    using assms upd
    by (auto simp: admin_updateRule_def UpdateRuleInProfile_def saved_def Let_def split: option.splits if_splits)
  have del: "routable (set_rules cfg k (take j (prof_Rules (cfg_Profiles cfg ! k)) @
      drop (Suc j) (prof_Rules (cfg_Profiles cfg ! k))))"
    if "resolveProfile cfg p = Some k" for k j
    using resolveProfile_bound [OF that] profile_rules_sub [of k cfg]
    by (intro set_rules_routable [OF assms]) (auto dest: in_set_takeD in_set_dropD)
  show "routable (fst (admin_deleteRule sv cfg p n))"
    using assms del
    by (auto simp: admin_deleteRule_def DeleteRuleFromProfile_def saved_def Let_def split: option.splits if_splits)
qed

lemma profile_handlers_routable:
  assumes "routable cfg"
  shows "routable (fst (admin_addProfile sv cfg pb))" "routable (fst (admin_renameProfile sv cfg i nb))"
    "routable (fst (admin_deleteProfile sv cfg i))" "routable (fst (admin_activateProfile sv cfg i))"
proof -
  have "all_rules (fst (AddProfile sv cfg n c)) \<subseteq> all_rules cfg \<and> cfg_Servers (fst (AddProfile sv cfg n c)) = cfg_Servers cfg" for n c
  proof -
    define rules where "rules = (if c then (case activeProfile cfg of None \<Rightarrow> []
        | Some k \<Rightarrow> prof_Rules (cfg_Profiles cfg ! k)) else [])"
    have sub: "set rules \<subseteq> all_rules cfg"
    proof (cases "activeProfile cfg")
      case (Some k)
      then have "rules = [] \<or> rules = prof_Rules (cfg_Profiles cfg ! k)" unfolding rules_def by simp
      moreover have "set (prof_Rules (cfg_Profiles cfg ! k)) \<subseteq> all_rules cfg"
        by (rule profile_rules_sub, rule activeProfile_bound, rule Some)
      ultimately show ?thesis by auto
    next
      case None
      then have "rules = []" unfolding rules_def by simp
      then show ?thesis by simp
    qed
    have "map cloneRule rs = rs" for rs by (induction rs) simp_all
    then have "fst (AddProfile sv cfg n c) = cfg \<or> fst (AddProfile sv cfg n c) =
        cfg\<lparr>cfg_Profiles := cfg_Profiles cfg @ [\<lparr>prof_ID = n, prof_Name = n, prof_Rules = rules\<rparr>]\<rparr>"
      unfolding AddProfile_def saved_def Let_def rules_def by (simp split: option.split)
    then show ?thesis
    proof
      assume "fst (AddProfile sv cfg n c) =
        cfg\<lparr>cfg_Profiles := cfg_Profiles cfg @ [\<lparr>prof_ID = n, prof_Name = n, prof_Rules = rules\<rparr>]\<rparr>"
      then show ?thesis using sub by (auto simp: all_rules_def)
    qed simp
  qed
  then show "routable (fst (admin_addProfile sv cfg pb))"
    using routable_mono [OF assms] assms
    by (auto simp: admin_addProfile_def split: option.splits prod.splits) (metis fst_conv)
  have "all_rules (fst (RenameProfile sv cfg i n)) \<subseteq> all_rules cfg \<and> cfg_Servers (fst (RenameProfile sv cfg i n)) = cfg_Servers cfg" for n
    by (auto simp: RenameProfile_def all_rules_def split: option.splits
        dest!: set_update_subset_insert [THEN subsetD] profile_index_Some intro: nth_mem [THEN bexI [rotated]])
  then show "routable (fst (admin_renameProfile sv cfg i nb))"
    using routable_mono [OF assms] assms
    by (auto simp: admin_renameProfile_def split: option.splits prod.splits) (metis fst_conv)
  have "all_rules (fst (DeleteProfile sv cfg i)) \<subseteq> all_rules cfg \<and> cfg_Servers (fst (DeleteProfile sv cfg i)) = cfg_Servers cfg"
    by (auto simp: DeleteProfile_def all_rules_def Let_def split: option.splits dest: in_set_takeD in_set_dropD)
  then show "routable (fst (admin_deleteProfile sv cfg i))"
    using routable_mono [OF assms] by (simp add: admin_deleteProfile_def split: prod.splits) (metis fst_conv)
  have "all_rules (fst (SetActiveProfile sv cfg i)) \<subseteq> all_rules cfg \<and> cfg_Servers (fst (SetActiveProfile sv cfg i)) = cfg_Servers cfg"
    by (auto simp: SetActiveProfile_def all_rules_def split: option.splits)
  then show "routable (fst (admin_activateProfile sv cfg i))"
    using routable_mono [OF assms] by (simp add: admin_activateProfile_def split: prod.splits) (metis fst_conv)
qed

lemmas handlers_routable = server_handlers_routable rule_handlers_routable profile_handlers_routable

text \<open>
  No sequence of admin requests, run one after another, can leave a rule the router has no
  answer for: starting from an empty store, every rule of every profile passes \<open>Validate\<close>
  and every server it names is defined; in particular a delete never strands a rule.
\<close>
theorem admin_keeps_config_routable:
  "routable (fold (\<lambda>x cfg. fst (admin_step x cfg)) ops NewStore_config)"
proof -
  have "routable (fst (admin_step x cfg))" if "routable cfg" for x cfg
    using that by (cases "(x, cfg)" rule: admin_step.cases) (simp_all add: handlers_routable)
  then have "routable (fold (\<lambda>x cfg. fst (admin_step x cfg)) ops cfg)" if "routable cfg" for cfg
    using that by (induction ops arbitrary: cfg) auto
  moreover have "routable NewStore_config"
    by (simp add: routable_def all_rules_def NewStore_config_def default_profile_def)
  ultimately show ?thesis by simp
qed

text \<open>
  The same does not hold for concurrent admin requests: a rule is validated under one lock
  and written under another, so a delete of its server that runs in between succeeds, and
  the written rule names a server that does not exist.
\<close>
theorem addRule_check_then_write_race:
  "\<exists>cfg rule srv. routable cfg \<and> admin_addRule_check cfg [] (Some rule) = None \<and>
     snd (admin_deleteServer None cfg srv) = 200 \<and>
     snd (admin_addRule_write None (fst (admin_deleteServer None cfg srv)) [] rule) = 201 \<and>
     \<not> routable (fst (admin_addRule_write None (fst (admin_deleteServer None cfg srv)) [] rule))"
proof -
  let ?cfg = "NewStore_config\<lparr>cfg_Servers := [(''a'', example_server)]\<rparr>"
  have refs: "rule_refs example_rule = {''a''}"
    by (simp add: rule_refs_eq example_rule_def)
  have v: "Validate example_rule = None"
    by (simp add: Validate_def example_rule_def RouterJev_def)
  have "routable ?cfg" by (simp add: routable_def all_rules_def NewStore_config_def default_profile_def)
  moreover have "admin_addRule_check ?cfg [] (Some example_rule) = None"
    by (simp add: admin_addRule_check_def validateRule_refs refs v GetServer_def ProfileExists_def
        resolveProfile_def activeProfile_def profileByID_def NewStore_config_def default_profile_def)
  moreover have d: "admin_deleteServer None ?cfg ''a'' = (NewStore_config, 200)"
    by (simp add: admin_deleteServer_def DeleteServer_def references_def saved_def
        NewStore_config_def default_profile_def)
  moreover have "admin_addRule_write None NewStore_config [] example_rule =
      (set_rules NewStore_config 0 [example_rule], 201)"
    by (simp add: admin_addRule_write_def AddRuleToProfile_def saved_def resolveProfile_def activeProfile_def
        profileByID_def NewStore_config_def default_profile_def)
  moreover have "\<not> routable (set_rules NewStore_config 0 [example_rule])"
    by (simp add: routable_def all_rules_def set_rules_def refs GetServer_def NewStore_config_def)
  ultimately show ?thesis
    by (intro exI [of _ ?cfg] exI [of _ example_rule] exI [of _ "''a''"]) simp
qed

end
