(* ===== verification/ConfigFile.thy ===== *)
theory ConfigFile
  imports Store
begin

text \<open>
  The configuration file: \<open>save\<close>, \<open>Save\<close>, \<open>Load\<close> and \<open>NewStore\<close> of \<open>src/config/store.go\<close>
  over a file system. The encoder and the decoder of the document (\<open>json.MarshalIndent\<close>,
  and \<open>json.Unmarshal\<close> after \<open>migrateLegacy\<close>) are arguments, as the texts of their errors
  are; what the development uses of them is that decoding undoes encoding. A write is not
  atomic: \<open>save\<close> returns every state the file system passes through, so a process that is
  killed leaves one of them.
\<close>

subsection \<open>The file system\<close>

datatype node = File string | Directory

type_synonym file_system = "string \<rightharpoonup> node"

text \<open>
  How a write to a file goes: it succeeds, the open fails, or the disk gives up after some
  bytes. \<open>os.WriteFile\<close> truncates the file when it opens it.
\<close>

datatype write_outcome = WriteOk | OpenFails string | WriteFails nat string

definition partial_writes :: "file_system \<Rightarrow> string \<Rightarrow> string \<Rightarrow> nat \<Rightarrow> file_system list" where
  "partial_writes fs path data n = map (\<lambda>k. fs(path \<mapsto> File (take k data))) [0..<Suc (min n (length data))]"

definition WriteFile :: "write_outcome \<Rightarrow> string \<Rightarrow> string \<Rightarrow> file_system \<Rightarrow> file_system list \<times> string option" where
  "WriteFile w path data fs =
     (if fs path = Some Directory then ([fs], Some (''open '' @ path @ '': is a directory''))
      else case w of
        WriteOk \<Rightarrow> (fs # partial_writes fs path data (length data), None)
      | OpenFails e \<Rightarrow> ([fs], Some e)
      | WriteFails n e \<Rightarrow> (fs # partial_writes fs path data n, Some e))"

text \<open>What the outside decides during one \<open>save\<close>.\<close>

record save_io =
  io_stat :: bool
  io_read :: bool
  io_bak :: write_outcome
  io_write :: write_outcome

definition bak_of :: "string \<Rightarrow> string" where
  "bak_of path = path @ ''.bak''"

definition directory_error :: "string \<Rightarrow> string" where
  "directory_error path = ''config path '' @ go_quote path @ '' is a directory (Docker volume mount issue '' @
     [CHR 0xE2, CHR 0x80, CHR 0x94] @ '' remove directory and create file)''"

text \<open>The states \<open>save\<close> passes through, in order, and the error it returns.\<close>

definition save :: "(Config \<Rightarrow> string + string) \<Rightarrow> save_io \<Rightarrow> string \<Rightarrow> Config \<Rightarrow> file_system \<Rightarrow> file_system list \<times> string option" where
  "save enc io path cfg fs =
     (case enc cfg of
        Inl e \<Rightarrow> ([fs], Some (''marshal: '' @ e))
      | Inr data \<Rightarrow>
          if io_stat io \<and> fs path = Some Directory then ([fs], Some (directory_error path))
          else
            let backup = (case fs path of
                    Some (File prev) \<Rightarrow> if io_read io \<and> prev \<noteq> [] then fst (WriteFile (io_bak io) (bak_of path) prev fs) else [fs]
                  | _ \<Rightarrow> [fs])
            in case WriteFile (io_write io) path data (last backup) of
                 (states, e) \<Rightarrow> (backup @ states, e))"

subsection \<open>Loading\<close>

definition read_config :: "(string \<Rightarrow> string + Config) \<Rightarrow> string option \<Rightarrow> string \<Rightarrow> file_system \<Rightarrow> string + Config option" where
  "read_config dec readError path fs =
     (case fs path of
        None \<Rightarrow> Inr None
      | Some Directory \<Rightarrow> Inl (''read '' @ path @ '': is a directory'')
      | Some (File data) \<Rightarrow>
          (case readError of
             Some e \<Rightarrow> Inl e
           | None \<Rightarrow> (case dec data of Inl e \<Rightarrow> Inl (''unmarshal: '' @ e) | Inr cfg \<Rightarrow> Inr (Some cfg))))"

definition store_Load :: "(string \<Rightarrow> string + Config) \<Rightarrow> string option \<Rightarrow> string \<Rightarrow> file_system \<Rightarrow> Config \<Rightarrow> Config \<times> string option" where
  "store_Load dec readError path fs old = Load old (read_config dec readError path fs)"

definition NewStore :: "(string \<Rightarrow> string + Config) \<Rightarrow> string option \<Rightarrow> string \<Rightarrow> file_system \<Rightarrow> string + Config" where
  "NewStore dec readError path fs = (case store_Load dec readError path fs NewStore_config of
     (cfg, None) \<Rightarrow> Inr cfg
   | (_, Some e) \<Rightarrow> Inl (''load config: '' @ e))"

subsection \<open>A configuration is a fixed point of loading\<close>

definition no_legacy :: "Config \<Rightarrow> bool" where
  "no_legacy cfg \<longleftrightarrow> (\<forall>p \<in> set (cfg_Profiles cfg). \<forall>r \<in> set (prof_Rules p).
     rule_FallbackServerIDs r = [] \<or> rule_Fallbacks r \<noteq> [])"

lemma normalize_id:
  assumes "store_inv cfg" "no_legacy cfg"
  shows "normalize_config cfg = cfg"
proof -
  have "cfg_Profiles cfg \<noteq> []" "cfg_ActiveProfileID cfg \<noteq> []" using assms(1) by (auto simp: store_inv_def)
  moreover have "map migrate_fallbacks (prof_Rules p) = prof_Rules p" if "p \<in> set (cfg_Profiles cfg)" for p
    using that assms(2) by (intro map_idI) (auto simp: no_legacy_def migrate_fallbacks_def)
  then have "map (\<lambda>p. p\<lparr>prof_Rules := map migrate_fallbacks (prof_Rules p)\<rparr>) (cfg_Profiles cfg) = cfg_Profiles cfg"
    by (intro map_idI) simp
  ultimately show ?thesis by (simp add: normalize_config_def Let_def)
qed

lemma normalize_no_legacy: "no_legacy (normalize_config cfg)"
  by (auto simp: no_legacy_def normalize_config_def migrate_fallbacks_def Let_def default_profile_def)

subsection \<open>What a write leaves\<close>

lemma bak_of_neq [simp]: "bak_of path \<noteq> path" "path \<noteq> bak_of path"
  by (simp_all add: bak_of_def)

lemma partial_writes_states:
  assumes "m \<in> set (partial_writes fs path data n)"
  shows "\<exists>k \<le> length data. m = fs(path \<mapsto> File (take k data))"
proof -
  obtain k where "k < Suc (min n (length data))" "m = fs(path \<mapsto> File (take k data))"
    using assms by (auto simp: partial_writes_def simp del: upt_Suc)
  then show ?thesis by (intro exI [of _ k]) simp
qed

lemma WriteFile_states:
  assumes "m \<in> set (fst (WriteFile w path data fs))"
  shows "m = fs \<or> (\<exists>k \<le> length data. m = fs(path \<mapsto> File (take k data)))"
  using assms partial_writes_states by (simp add: WriteFile_def split: if_splits write_outcome.splits) blast+

lemma WriteFile_last:
  "snd (WriteFile w path data fs) = None \<Longrightarrow> last (fst (WriteFile w path data fs)) = fs(path \<mapsto> File data)"
  by (auto simp: WriteFile_def partial_writes_def split: if_splits write_outcome.splits)

lemma WriteFile_nonempty [simp]: "fst (WriteFile w path data fs) \<noteq> []"
  by (simp add: WriteFile_def split: write_outcome.split)

lemma WriteFile_ok: "fs path \<noteq> Some Directory \<Longrightarrow> snd (WriteFile WriteOk path data fs) = None"
  by (simp add: WriteFile_def)

text \<open>The file system \<open>save\<close> writes the document over: the backup is in place.\<close>

lemma save_phases:
  assumes "enc cfg = Inr data" "fs path = Some (File prev)" "prev \<noteq> []"
    and "io_read io" "io_bak io = WriteOk" "fs (bak_of path) \<noteq> Some Directory"
  defines "fs1 \<equiv> fs(bak_of path \<mapsto> File prev)"
  shows "save enc io path cfg fs =
    (fst (WriteFile WriteOk (bak_of path) prev fs) @ fst (WriteFile (io_write io) path data fs1),
     snd (WriteFile (io_write io) path data fs1))"
  using assms WriteFile_last [OF WriteFile_ok [where fs = fs and path = "bak_of path" and data = prev]] by (simp add: save_def Let_def split_beta)


definition example_dec :: "string \<Rightarrow> string + Config" where
  "example_dec s = (if s = ''new'' then Inr example_config else if s = ''old'' then Inr NewStore_config
     else Inl ''unexpected end of JSON input'')"

definition example_enc :: "Config \<Rightarrow> string + string" where
  "example_enc cfg = Inr (if cfg_ActiveProfileID cfg = ''p1'' then ''new'' else ''old'')"

definition example_io :: save_io where
  "example_io = \<lparr>io_stat = True, io_read = True, io_bak = WriteOk, io_write = WriteOk\<rparr>"


subsection \<open>Where the comment on Save claims more\<close>

text \<open>
  \<open>Save\<close> is documented as atomic, and is not: between the truncation and the end of the write
  the file is a document that no start can load, and nothing falls back to the backup. When
  the backup could not be written, which only logs, there is no complete copy left at all.
\<close>
lemma save_not_atomic:
  assumes "enc cfg = Inr data" "fs path = Some (File prev)" "io_write io = WriteOk" "dec [] = Inl e"
  shows "\<exists>m \<in> set (fst (save enc io path cfg fs)). NewStore dec None path m = Inl (''load config: unmarshal: '' @ e)"
proof -
  define backup where "backup = (if io_read io \<and> prev \<noteq> [] then fst (WriteFile (io_bak io) (bak_of path) prev fs) else [fs])"
  have "backup \<noteq> []" by (simp add: backup_def)
  then have "last backup = fs \<or> (\<exists>k \<le> length prev. last backup = fs(bak_of path \<mapsto> File (take k prev)))"
    using WriteFile_states [of "last backup" "io_bak io" "bak_of path" prev fs]
    by (auto simp: backup_def split: if_splits)
  then have p: "last backup path = Some (File prev)" using assms(2) by auto
  define m where "m = (last backup)(path \<mapsto> File (take 0 data))"
  have "m \<in> set (partial_writes (last backup) path data (length data))"
    unfolding m_def partial_writes_def set_map by (intro imageI) simp
  then have "m \<in> set (fst (save enc io path cfg fs))"
    using assms p by (simp add: save_def WriteFile_def Let_def backup_def)
  moreover have "NewStore dec None path m = Inl (''load config: unmarshal: '' @ e)"
    using assms(4) by (simp add: m_def NewStore_def store_Load_def read_config_def Load_def)
  ultimately show ?thesis by blast
qed

lemma lost_without_backup:
  "\<exists>m \<in> set (fst (save example_enc (example_io\<lparr>io_bak := OpenFails ''read-only file system''\<rparr>) ''c'' example_config
       [''c'' \<mapsto> File ''old''])).
     read_config example_dec None ''c'' m = Inl ''unmarshal: unexpected end of JSON input'' \<and> m ''c.bak'' = None"
  by (simp add: save_def WriteFile_def partial_writes_def example_enc_def example_io_def example_config_def bak_of_def
      read_config_def example_dec_def Let_def)

end
