(* ===== verification/Interfaces.thy ===== *)
theory Interfaces
  imports Prelude
begin

text \<open>
  The contracts that several components share, as locales. Each is interpreted on the
  model's own definitions in the theory of the component that provides them:
  \<^item> \<open>sliding_window\<close>: a log of timestamped events pruned at a cutoff (the failure log
    of the rate limiter, the token and the request log of the quota tracker);
  \<^item> \<open>ring_log\<close>: a bounded log that keeps the newest entries (recent requests, traces);
  \<^item> \<open>expiring_map\<close>: a keyed store whose entries carry an expiry instant (conversation
    pins, cached decisions, pinned decisions).
\<close>

subsection \<open>Sliding windows\<close>

locale sliding_window =
  fixes at :: "'e \<Rightarrow> gotime"
    and prune :: "'e list \<Rightarrow> gotime \<Rightarrow> 'e list"
  assumes prune_keeps: "prune es c = filter (\<lambda>e. c < at e) es"
begin

lemma prune_subset: "set (prune es c) \<subseteq> set es"
  by (auto simp: prune_keeps)

lemma prune_after: "e \<in> set (prune es c) \<Longrightarrow> c < at e"
  by (simp add: prune_keeps)

lemma prune_length: "length (prune es c) \<le> length es"
  by (simp add: prune_keeps)

lemma prune_prune: "c \<le> c' \<Longrightarrow> prune (prune es c) c' = prune es c'"
  by (auto simp: prune_keeps intro!: filter_cong)

lemma prune_id: "(\<And>e. e \<in> set es \<Longrightarrow> c < at e) \<Longrightarrow> prune es c = es"
  by (simp add: prune_keeps filter_id_conv)

lemma prune_append: "prune (es @ fs) c = prune es c @ prune fs c"
  by (simp add: prune_keeps)

lemma prune_sum_mono:
  assumes "\<And>e. e \<in> set es \<Longrightarrow> 0 \<le> (f e :: int)"
  shows "sum_list (map f (prune es c)) \<le> sum_list (map f es)"
  unfolding prune_keeps using assms by (rule sum_list_filter_le)

end

subsection \<open>Bounded logs\<close>

text \<open>
  \<open>contents\<close> is the log in chronological order. \<open>add\<close> appends and forgets the oldest
  entry once \<open>cap\<close> entries are held.
\<close>

locale ring_log =
  fixes cap :: "'s \<Rightarrow> nat"
    and contents :: "'s \<Rightarrow> 'a list"
    and add :: "'a \<Rightarrow> 's \<Rightarrow> 's"
    and invar :: "'s \<Rightarrow> bool"
  assumes add_invar: "invar s \<Longrightarrow> invar (add x s)"
    and add_cap: "invar s \<Longrightarrow> cap (add x s) = cap s"
    and add_contents: "invar s \<Longrightarrow> contents (add x s) = last_n (cap s) (contents s @ [x])"
begin

lemma fold_add:
  "invar s \<Longrightarrow> invar (fold add xs s) \<and> cap (fold add xs s) = cap s"
  by (induction xs arbitrary: s) (auto simp: add_invar add_cap)

lemma contents_fold_add:
  "invar s \<Longrightarrow> length (contents s) \<le> cap s \<Longrightarrow>
     contents (fold add xs s) = last_n (cap s) (contents s @ xs)"
proof (induction xs arbitrary: s)
  case Nil
  then show ?case by (simp add: last_n_short)
next
  case (Cons x xs)
  have "contents (fold add (x # xs) s) = last_n (cap s) (contents (add x s) @ xs)"
    using Cons.IH [of "add x s"] Cons.prems by (simp add: add_invar add_cap add_contents)
  also have "\<dots> = last_n (cap s) ((contents s @ [x]) @ xs)"
    using Cons.prems by (simp only: add_contents last_n_append)
  finally show ?case by simp
qed

lemma contents_bounded: "invar s \<Longrightarrow> length (contents (add x s)) \<le> cap s"
  by (simp add: add_contents)

end

subsection \<open>Stores with expiring entries\<close>

text \<open>
  \<open>live t m k\<close> is the entry a lookup at instant \<open>t\<close> may still use. The put operation
  may drop expired entries of other keys, never a live one.
\<close>

locale expiring_map =
  fixes expires :: "'e \<Rightarrow> gotime"
    and put :: "gotime \<Rightarrow> 'k \<Rightarrow> 'e \<Rightarrow> ('k, 'e) gomap \<Rightarrow> ('k, 'e) gomap"
    and limit :: nat
  assumes put_wf: "gm_wf m \<Longrightarrow> gm_wf (put now k e m)"
    and put_same: "gm_wf m \<Longrightarrow> gm_get (put now k e m) k = Some e"
    and put_other: "gm_wf m \<Longrightarrow> k' \<noteq> k \<Longrightarrow>
          gm_get (put now k e m) k' = gm_get m k' \<or>
          (gm_get (put now k e m) k' = None \<and> (\<exists>d. gm_get m k' = Some d \<and> expires d < now))"
    and put_sweeps: "gm_wf m \<Longrightarrow> limit \<le> length m \<Longrightarrow> k' \<noteq> k \<Longrightarrow>
          gm_get (put now k e m) k' = Some d \<Longrightarrow> now \<le> expires d"
begin

definition live :: "gotime \<Rightarrow> ('k, 'e) gomap \<Rightarrow> 'k \<Rightarrow> 'e option" where
  "live t m k = (case gm_get m k of None \<Rightarrow> None | Some e \<Rightarrow> if expires e < t then None else Some e)"

lemma live_put_same: "gm_wf m \<Longrightarrow> t \<le> expires e \<Longrightarrow> live t (put now k e m) k = Some e"
  by (simp add: live_def put_same)

lemma live_put_other:
  assumes "gm_wf m" "k' \<noteq> k" "now \<le> t"
  shows "live t (put now k e m) k' = live t m k'"
  using put_other [OF assms(1,2), of now e] assms(3) by (auto simp: live_def)

lemma put_full_keeps_only_live:
  assumes "gm_wf m" "limit \<le> length m" "k' \<noteq> k"
  shows "gm_get (put now k e m) k' = live now m k'"
proof (cases "gm_get (put now k e m) k'")
  case None
  then show ?thesis
    using put_other [OF assms(1,3), of now e] by (auto simp: live_def)
next
  case (Some d)
  then have "now \<le> expires d" using put_sweeps [OF assms] by simp
  moreover have "gm_get m k' = Some d"
    using put_other [OF assms(1,3), of now e] Some by auto
  ultimately show ?thesis using Some by (simp add: live_def)
qed

end

end
