(* ===== verification/Ring.thy ===== *)
theory Ring
  imports Interfaces
begin

text \<open>
  The fixed-size ring both stores keep their newest entries in: a slice of \<open>max\<close> slots, the
  next slot to overwrite and the number of slots in use. \<open>src/metrics/metrics.go\<close> and
  \<open>src/trace/store.go\<close> spell out the same three fields and the same two operations.
\<close>

record 'a ring =
  r_slots :: "'a list"
  r_idx :: nat
  r_count :: nat
  r_max :: nat

definition ring_new :: "'a \<Rightarrow> nat \<Rightarrow> 'a ring" where
  "ring_new zero n = \<lparr>r_slots = replicate n zero, r_idx = 0, r_count = 0, r_max = n\<rparr>"

definition ring_add :: "'a \<Rightarrow> 'a ring \<Rightarrow> 'a ring" where
  "ring_add x r =
     r\<lparr>r_slots := (r_slots r)[r_idx r := x],
       r_idx := (r_idx r + 1) mod r_max r,
       r_count := (if r_count r < r_max r then r_count r + 1 else r_count r)\<rparr>"

definition ring_list :: "'a ring \<Rightarrow> 'a list" where
  "ring_list r =
     (if r_count r = 0 then []
      else if r_count r < r_max r then take (r_count r) (r_slots r)
      else drop (r_idx r) (r_slots r) @ take (r_idx r) (r_slots r))"

definition ring_inv :: "'a ring \<Rightarrow> bool" where
  "ring_inv r \<longleftrightarrow> 0 < r_max r \<and> length (r_slots r) = r_max r \<and> r_idx r < r_max r \<and> r_count r \<le> r_max r \<and>
     (r_count r < r_max r \<longrightarrow> r_idx r = r_count r)"

lemma ring_list_length: "ring_inv r \<Longrightarrow> length (ring_list r) = r_count r"
  by (auto simp: ring_list_def ring_inv_def)

lemma ring_list_partial: "ring_inv r \<Longrightarrow> r_count r < r_max r \<Longrightarrow> ring_list r = take (r_count r) (r_slots r)"
  by (simp add: ring_list_def)

lemma ring_add_inv: "ring_inv r \<Longrightarrow> ring_inv (ring_add x r)"
  by (auto simp: ring_inv_def ring_add_def mod_if)

lemma take_Suc_update: "i < length xs \<Longrightarrow> take (Suc i) (xs[i := x]) = take i xs @ [x]"
  by (simp add: take_Suc_conv_app_nth)

lemma last_n_full:
  assumes "length ys = n" "0 < n"
  shows "last_n n (ys @ [x]) = tl ys @ [x]"
  using assms by (cases ys) (simp_all add: last_n_def)

lemma ring_add_list:
  assumes "ring_inv r"
  shows "ring_list (ring_add x r) = last_n (r_max r) (ring_list r @ [x])"
proof -
  note inv = assms [unfolded ring_inv_def]
  show ?thesis
  proof (cases "r_count r < r_max r")
    case True
    then have i: "r_idx r = r_count r" using inv by simp
    have short: "last_n (r_max r) (ring_list r @ [x]) = take (r_count r) (r_slots r) @ [x]"
      using True inv ring_list_length [OF assms] by (simp add: last_n_short ring_list_partial [OF assms])
    show ?thesis
    proof (cases "Suc (r_count r) = r_max r")
      case full: True
      then have "ring_list (ring_add x r) = (r_slots r)[r_count r := x]"
        using i inv by (simp add: ring_list_def ring_add_def)
      also have "\<dots> = take (Suc (r_count r)) ((r_slots r)[r_count r := x])"
        using full inv by simp
      finally show ?thesis using True inv by (simp add: short take_Suc_update)
    next
      case False
      then show ?thesis
        using True i inv unfolding short by (simp add: ring_list_def ring_add_def take_Suc_update)
    qed
  next
    case False
    then have full: "r_count r = r_max r" using inv by simp
    have l: "ring_list r = drop (r_idx r) (r_slots r) @ take (r_idx r) (r_slots r)"
      using full inv by (simp add: ring_list_def)
    have "last_n (r_max r) (ring_list r @ [x]) = tl (ring_list r) @ [x]"
      using ring_list_length [OF assms] full inv by (intro last_n_full) auto
    also have "\<dots> = drop (Suc (r_idx r)) (r_slots r) @ take (r_idx r) (r_slots r) @ [x]"
      using inv by (simp add: l drop_Suc tl_drop)
    also have "\<dots> = drop (Suc (r_idx r)) ((r_slots r)[r_idx r := x]) @ take (Suc (r_idx r)) ((r_slots r)[r_idx r := x])"
      using inv by (simp add: take_Suc_update)
    also have "\<dots> = ring_list (ring_add x r)"
    proof (cases "Suc (r_idx r) = r_max r")
      case True
      then show ?thesis using full inv by (simp add: ring_list_def ring_add_def)
    next
      case False
      then show ?thesis using full inv by (simp add: ring_list_def ring_add_def)
    qed
    finally show ?thesis by simp
  qed
qed

interpretation ringlog: ring_log r_max ring_list ring_add ring_inv
  by unfold_locales (auto simp: ring_add_inv ring_add_list, simp add: ring_add_def)

lemma ring_new_inv: "0 < n \<Longrightarrow> ring_inv (ring_new zero n)"
  by (simp add: ring_inv_def ring_new_def)

lemma ring_run: "0 < n \<Longrightarrow> ring_list (fold ring_add xs (ring_new zero n)) = last_n n xs"
  using ringlog.contents_fold_add [OF ring_new_inv, of n zero xs]
  by (simp add: ring_list_def ring_new_def)

end
