(* ===== verification/Metrics.thy ===== *)
theory Metrics
  imports Domain Ring
begin

text \<open>
  \<open>src/domain/metric.go\<close> (summaries, status classes, histogram buckets) and
  \<open>src/metrics/metrics.go\<close> (the store). Descriptive fields of a metric that no operation
  reads (error body, features, decision details, \<dots>) are left out. A \<open>float64\<close> is a
  rational; the two token-rate averages divide by a sum that can be zero, so they are a
  \<open>gofloat\<close>, which has the infinities and the non-number of IEEE arithmetic as well.
\<close>

datatype gofloat = Fin rat | PInf | NInf | NaN

text \<open>\<open>x * float64(n)\<close>, \<open>x + q\<close> and \<open>x / float64(n)\<close>.\<close>

fun f_scale :: "gofloat \<Rightarrow> int \<Rightarrow> gofloat" where
  "f_scale (Fin a) n = Fin (a * of_int n)"
| "f_scale PInf n = (if n > 0 then PInf else if n < 0 then NInf else NaN)"
| "f_scale NInf n = (if n > 0 then NInf else if n < 0 then PInf else NaN)"
| "f_scale NaN n = NaN"

fun f_add :: "gofloat \<Rightarrow> rat \<Rightarrow> gofloat" where
  "f_add (Fin a) q = Fin (a + q)"
| "f_add x q = x"

fun f_div :: "gofloat \<Rightarrow> int \<Rightarrow> gofloat" where
  "f_div (Fin a) n = (if n \<noteq> 0 then Fin (a / of_int n) else if a > 0 then PInf else if a < 0 then NInf else NaN)"
| "f_div PInf n = (if n < 0 then NInf else PInf)"
| "f_div NInf n = (if n < 0 then PInf else NInf)"
| "f_div NaN n = NaN"

record RequestMetric =
  rm_Timestamp :: gotime
  rm_Model :: string
  rm_TargetModel :: string
  rm_ServerID :: string
  rm_StatusCode :: int
  rm_LatencyMs :: int
  rm_TTFBMs :: int
  rm_ResponseSize :: int
  rm_WasFallback :: bool
  rm_PromptTokens :: int
  rm_CompletionTokens :: int
  rm_TotalTokens :: int
  rm_CachedTokens :: int
  rm_ReasoningTokens :: int
  rm_CacheCreationTokens :: int
  rm_APIType :: APIType
  rm_Class :: string
  rm_PrefillTimeMs :: int
  rm_DecodeTimeMs :: int
  rm_PrefillTokPerSec :: rat
  rm_DecodeTokPerSec :: rat
  rm_NativePromptMs :: rat
  rm_NativePredictedMs :: rat
  rm_NativePromptTokPerSec :: rat
  rm_NativeDecodeTokPerSec :: rat

record Summary =
  sum_TotalRequests :: int
  sum_SuccessCount :: int
  sum_ErrorCount :: int
  sum_FallbackCount :: int
  sum_AvgLatencyMs :: rat
  sum_MinLatencyMs :: int
  sum_MaxLatencyMs :: int
  sum_AvgTTFBMs :: rat
  sum_TotalBytes :: int
  sum_TotalPromptTok :: int
  sum_TotalInputTok :: int
  sum_TotalCompleteTok :: int
  sum_TotalTokens :: int
  sum_TotalCachedTok :: int
  sum_TotalReasoningTok :: int
  sum_TotalCacheCreationTok :: int
  sum_AvgPrefillTokSec :: gofloat
  sum_AvgDecodeTokSec :: gofloat
  sum_StatusClassCount :: "string \<Rightarrow> int"
  sum_LatencyMsBuckets :: "int list"
  sum_TTFBMsBuckets :: "int list"
  sum_LatencyMsSum :: int
  sum_TTFBMsSum :: int

definition LatencyBucketsMs :: "int list" where
  "LatencyBucketsMs = [50, 100, 250, 500, 1000, 2500, 5000, 10000, 30000, 60000, 120000, 300000]"

definition StatusClass :: "int \<Rightarrow> string" where
  "StatusClass status =
     (if status = 0 then ''transport'' else if status < 300 then ''2xx'' else if status < 400 then ''3xx''
      else if status < 500 then ''4xx'' else ''5xx'')"

text \<open>A nil slice is the empty list; its first use makes all buckets zero.\<close>

definition AddLatencyBucket :: "int list \<Rightarrow> int \<Rightarrow> int list" where
  "AddLatencyBucket buckets ms =
     (let b0 = (if buckets = [] then replicate (length LatencyBucketsMs + 1) 0 else buckets);
          b1 = fold (\<lambda>i b. if ms \<le> LatencyBucketsMs ! i then b[i := b ! i + 1] else b)
                 [0..<length LatencyBucketsMs] b0;
          n = length b1 - 1
      in b1[n := b1 ! n + 1])"

definition zero_summary :: Summary where
  "zero_summary =
     \<lparr>sum_TotalRequests = 0, sum_SuccessCount = 0, sum_ErrorCount = 0, sum_FallbackCount = 0,
      sum_AvgLatencyMs = 0, sum_MinLatencyMs = 0, sum_MaxLatencyMs = 0, sum_AvgTTFBMs = 0, sum_TotalBytes = 0,
      sum_TotalPromptTok = 0, sum_TotalInputTok = 0, sum_TotalCompleteTok = 0, sum_TotalTokens = 0,
      sum_TotalCachedTok = 0, sum_TotalReasoningTok = 0, sum_TotalCacheCreationTok = 0,
      sum_AvgPrefillTokSec = Fin 0, sum_AvgDecodeTokSec = Fin 0, sum_StatusClassCount = (\<lambda>_. 0),
      sum_LatencyMsBuckets = [], sum_TTFBMsBuckets = [], sum_LatencyMsSum = 0, sum_TTFBMsSum = 0\<rparr>"

record metrics_store =
  ms_ring :: "RequestMetric ring"
  ms_summaries :: "string \<rightharpoonup> Summary"
  ms_activeRequests :: int

definition zero_metric :: RequestMetric where
  "zero_metric =
     \<lparr>rm_Timestamp = 0, rm_Model = [], rm_TargetModel = [], rm_ServerID = [], rm_StatusCode = 0, rm_LatencyMs = 0,
      rm_TTFBMs = 0, rm_ResponseSize = 0, rm_WasFallback = False, rm_PromptTokens = 0, rm_CompletionTokens = 0,
      rm_TotalTokens = 0, rm_CachedTokens = 0, rm_ReasoningTokens = 0, rm_CacheCreationTokens = 0,
      rm_APIType = [], rm_Class = [], rm_PrefillTimeMs = 0, rm_DecodeTimeMs = 0, rm_PrefillTokPerSec = 0,
      rm_DecodeTokPerSec = 0, rm_NativePromptMs = 0, rm_NativePredictedMs = 0, rm_NativePromptTokPerSec = 0,
      rm_NativeDecodeTokPerSec = 0\<rparr>"

definition metrics_New :: "nat \<Rightarrow> metrics_store" where
  "metrics_New maxRecent =
     \<lparr>ms_ring = ring_new zero_metric maxRecent, ms_summaries = Map.empty, ms_activeRequests = 0\<rparr>"

definition weighted_avg :: "gofloat \<Rightarrow> int \<Rightarrow> rat \<Rightarrow> int \<Rightarrow> int \<Rightarrow> gofloat" where
  "weighted_avg avg before rate n tot = f_div (f_add (f_scale avg before) (rate * of_int n)) tot"

definition summarize :: "RequestMetric \<Rightarrow> Summary \<Rightarrow> Summary" where
  "summarize m s0 =
     (let n = sum_TotalRequests s0 + 1;
          ok = 200 \<le> rm_StatusCode m \<and> rm_StatusCode m < 300;
          cls = StatusClass (rm_StatusCode m);
          input = rm_PromptTokens m +
                  (if rm_APIType m = APITypeAnthropic
                   then (if rm_CachedTokens m > 0 then rm_CachedTokens m else 0) + rm_CacheCreationTokens m else 0);
          promptTok = sum_TotalPromptTok s0 + rm_PromptTokens m;
          completeTok = sum_TotalCompleteTok s0 + rm_CompletionTokens m
      in s0\<lparr>sum_TotalRequests := n,
            sum_SuccessCount := sum_SuccessCount s0 + (if ok then 1 else 0),
            sum_ErrorCount := sum_ErrorCount s0 + (if ok then 0 else 1),
            sum_StatusClassCount := (sum_StatusClassCount s0)(cls := sum_StatusClassCount s0 cls + 1),
            sum_LatencyMsBuckets := AddLatencyBucket (sum_LatencyMsBuckets s0) (rm_LatencyMs m),
            sum_TTFBMsBuckets := AddLatencyBucket (sum_TTFBMsBuckets s0) (rm_TTFBMs m),
            sum_LatencyMsSum := sum_LatencyMsSum s0 + rm_LatencyMs m,
            sum_TTFBMsSum := sum_TTFBMsSum s0 + rm_TTFBMs m,
            sum_FallbackCount := sum_FallbackCount s0 + (if rm_WasFallback m then 1 else 0),
            sum_MinLatencyMs := (if sum_MinLatencyMs s0 = 0 \<or> rm_LatencyMs m < sum_MinLatencyMs s0
                                 then rm_LatencyMs m else sum_MinLatencyMs s0),
            sum_MaxLatencyMs := (if rm_LatencyMs m > sum_MaxLatencyMs s0
                                 then rm_LatencyMs m else sum_MaxLatencyMs s0),
            sum_AvgLatencyMs := (sum_AvgLatencyMs s0 * of_int (n - 1) + of_int (rm_LatencyMs m)) / of_int n,
            sum_AvgTTFBMs := (sum_AvgTTFBMs s0 * of_int (n - 1) + of_int (rm_TTFBMs m)) / of_int n,
            sum_TotalBytes := sum_TotalBytes s0 + rm_ResponseSize m,
            sum_TotalPromptTok := promptTok,
            sum_TotalInputTok := sum_TotalInputTok s0 + input,
            sum_TotalCompleteTok := completeTok,
            sum_TotalTokens := sum_TotalTokens s0 + rm_TotalTokens m,
            sum_TotalCachedTok := sum_TotalCachedTok s0 + (if rm_CachedTokens m \<ge> 0 then rm_CachedTokens m else 0),
            sum_TotalReasoningTok := sum_TotalReasoningTok s0 + rm_ReasoningTokens m,
            sum_TotalCacheCreationTok := sum_TotalCacheCreationTok s0 + rm_CacheCreationTokens m,
            sum_AvgPrefillTokSec :=
              (if rm_PrefillTokPerSec m > 0
               then weighted_avg (sum_AvgPrefillTokSec s0) (promptTok - rm_PromptTokens m)
                      (rm_PrefillTokPerSec m) (rm_PromptTokens m) promptTok
               else sum_AvgPrefillTokSec s0),
            sum_AvgDecodeTokSec :=
              (if rm_DecodeTokPerSec m > 0
               then weighted_avg (sum_AvgDecodeTokSec s0) (completeTok - rm_CompletionTokens m)
                      (rm_DecodeTokPerSec m) (rm_CompletionTokens m) completeTok
               else sum_AvgDecodeTokSec s0)\<rparr>)"

definition updateSummary :: "string \<Rightarrow> RequestMetric \<Rightarrow> metrics_store \<Rightarrow> metrics_store" where
  "updateSummary key m s =
     (let s0 = (case ms_summaries s key of None \<Rightarrow> zero_summary | Some x \<Rightarrow> x)
      in s\<lparr>ms_summaries := (ms_summaries s)(key \<mapsto> summarize m s0)\<rparr>)"

text \<open>The timings \<open>Add\<close> fills in before it stores the metric.\<close>

definition fill_timings :: "RequestMetric \<Rightarrow> RequestMetric" where
  "fill_timings m =
     (let m1 = m\<lparr>rm_PrefillTimeMs := (if rm_NativePromptMs m > 0 then \<lfloor>rm_NativePromptMs m\<rfloor> else rm_TTFBMs m)\<rparr>;
          m2 = m1\<lparr>rm_DecodeTimeMs := (if rm_NativePredictedMs m > 0 then \<lfloor>rm_NativePredictedMs m\<rfloor>
                                      else max (rm_LatencyMs m - rm_TTFBMs m) 0)\<rparr>;
          m3 = (if rm_NativePromptTokPerSec m2 > 0 then m2\<lparr>rm_PrefillTokPerSec := rm_NativePromptTokPerSec m2\<rparr>
                else if rm_PrefillTimeMs m2 > 0 \<and> rm_PromptTokens m2 > 0
                then m2\<lparr>rm_PrefillTokPerSec := of_int (rm_PromptTokens m2) / (of_int (rm_PrefillTimeMs m2) / 1000)\<rparr>
                else m2)
      in if rm_NativeDecodeTokPerSec m3 > 0 then m3\<lparr>rm_DecodeTokPerSec := rm_NativeDecodeTokPerSec m3\<rparr>
         else if rm_DecodeTimeMs m3 > 0 \<and> rm_CompletionTokens m3 > 0
         then m3\<lparr>rm_DecodeTokPerSec := of_int (rm_CompletionTokens m3) / (of_int (rm_DecodeTimeMs m3) / 1000)\<rparr>
         else m3)"

definition summary_keys :: "RequestMetric \<Rightarrow> string list" where
  "summary_keys m =
     (let target = (if rm_TargetModel m = [] then rm_Model m else rm_TargetModel m)
      in [rm_Model m, ''server:'' @ rm_ServerID m, ''target:'' @ rm_ServerID m @ '':'' @ target]
         @ (if rm_Class m \<noteq> [] then [''class:'' @ rm_Class m] else []))"

definition metrics_Add :: "RequestMetric \<Rightarrow> metrics_store \<Rightarrow> metrics_store" where
  "metrics_Add m0 s =
     (let m = fill_timings m0
      in fold (\<lambda>key. updateSummary key m) (summary_keys m) (s\<lparr>ms_ring := ring_add m (ms_ring s)\<rparr>))"

definition Recent :: "metrics_store \<Rightarrow> RequestMetric list" where
  "Recent s = ring_list (ms_ring s)"

definition Summaries :: "metrics_store \<Rightarrow> string \<rightharpoonup> Summary" where
  "Summaries s = ms_summaries s"

definition metrics_Reset :: "metrics_store \<Rightarrow> metrics_store" where
  "metrics_Reset s = s\<lparr>ms_ring := ring_new zero_metric (r_max (ms_ring s)), ms_summaries := Map.empty\<rparr>"

definition IncrActive :: "metrics_store \<Rightarrow> metrics_store" where
  "IncrActive s = s\<lparr>ms_activeRequests := ms_activeRequests s + 1\<rparr>"

definition DecrActive :: "metrics_store \<Rightarrow> metrics_store" where
  "DecrActive s = s\<lparr>ms_activeRequests := ms_activeRequests s - 1\<rparr>"

subsection \<open>Histogram buckets\<close>

lemma fold_bump:
  assumes "n \<le> length b"
  shows "length (fold (\<lambda>i b. if P i then b[i := b ! i + (1::int)] else b) [0..<n] b) = length b \<and>
     (\<forall>j < length b. fold (\<lambda>i b. if P i then b[i := b ! i + 1] else b) [0..<n] b ! j =
        b ! j + (if j < n \<and> P j then 1 else 0))"
  using assms
proof (induction n)
  case 0
  then show ?case by simp
next
  case (Suc n)
  let ?f = "fold (\<lambda>i b. if P i then b[i := b ! i + (1::int)] else b) [0..<n] b"
  have l: "length ?f = length b" and e: "\<forall>j < length b. ?f ! j = b ! j + (if j < n \<and> P j then 1 else 0)"
    using Suc by auto
  show ?case using l e Suc.prems by (auto simp: nth_list_update less_Suc_eq)
qed

definition bucket_count :: nat where "bucket_count = length LatencyBucketsMs"

lemma AddLatencyBucket_nth:
  assumes "b = [] \<or> length b = bucket_count + 1"
  shows "length (AddLatencyBucket b ms) = bucket_count + 1"
    and "i < bucket_count \<Longrightarrow> AddLatencyBucket b ms ! i =
           (if b = [] then 0 else b ! i) + (if ms \<le> LatencyBucketsMs ! i then 1 else 0)"
    and "AddLatencyBucket b ms ! bucket_count = (if b = [] then 0 else b ! bucket_count) + 1"
proof -
  define b0 where "b0 = (if b = [] then replicate (bucket_count + 1) 0 else b)"
  have l0: "length b0 = bucket_count + 1" using assms by (auto simp: b0_def)
  have z: "b0 ! j = (if b = [] then 0 else b ! j)" if "j < bucket_count + 1" for j
    using that by (auto simp: b0_def simp del: replicate_Suc)
  define b1 where "b1 = fold (\<lambda>i b. if ms \<le> LatencyBucketsMs ! i then b[i := b ! i + 1] else b) [0..<bucket_count] b0"
  have f: "length b1 = bucket_count + 1"
    "\<forall>j < bucket_count + 1. b1 ! j = b0 ! j + (if j < bucket_count \<and> ms \<le> LatencyBucketsMs ! j then 1 else 0)"
    using fold_bump [of bucket_count b0 "\<lambda>i. ms \<le> LatencyBucketsMs ! i"] l0 by (auto simp: b1_def)
  have a: "AddLatencyBucket b ms = b1[bucket_count := b1 ! bucket_count + 1]"
    using f(1) unfolding AddLatencyBucket_def Let_def b1_def b0_def bucket_count_def by simp
  show "length (AddLatencyBucket b ms) = bucket_count + 1" using f(1) by (simp add: a)
  show "i < bucket_count \<Longrightarrow> AddLatencyBucket b ms ! i =
      (if b = [] then 0 else b ! i) + (if ms \<le> LatencyBucketsMs ! i then 1 else 0)"
    using f z [of i] by (simp add: a)
  show "AddLatencyBucket b ms ! bucket_count = (if b = [] then 0 else b ! bucket_count) + 1"
    using f z [of bucket_count] by (simp add: a)
qed

subsection \<open>A summary is exactly the aggregate of its samples\<close>

definition aggregate :: "RequestMetric list \<Rightarrow> Summary" where
  "aggregate xs = fold summarize xs zero_summary"

definition count_if :: "(RequestMetric \<Rightarrow> bool) \<Rightarrow> RequestMetric list \<Rightarrow> int" where
  "count_if P xs = int (length (filter P xs))"

definition total_of :: "(RequestMetric \<Rightarrow> int) \<Rightarrow> RequestMetric list \<Rightarrow> int" where
  "total_of f xs = sum_list (map f xs)"

lemma count_if_simps [simp]:
  "count_if P [] = 0" "count_if P (xs @ [x]) = count_if P xs + (if P x then 1 else 0)"
  by (simp_all add: count_if_def)

lemma total_of_simps [simp]: "total_of f [] = 0" "total_of f (xs @ [x]) = total_of f xs + f x"
  by (simp_all add: total_of_def)

definition succeeded :: "RequestMetric \<Rightarrow> bool" where
  "succeeded m \<longleftrightarrow> 200 \<le> rm_StatusCode m \<and> rm_StatusCode m < 300"

lemma aggregate_snoc: "aggregate (xs @ [x]) = summarize x (aggregate xs)"
  by (simp add: aggregate_def)

lemma aggregate_Nil: "aggregate [] = zero_summary"
  by (simp add: aggregate_def)

lemma aggregate_counts:
  "sum_TotalRequests (aggregate xs) = int (length xs)"
  "sum_SuccessCount (aggregate xs) = count_if succeeded xs"
  "sum_ErrorCount (aggregate xs) = count_if (\<lambda>m. \<not> succeeded m) xs"
  "sum_StatusClassCount (aggregate xs) c = count_if (\<lambda>m. StatusClass (rm_StatusCode m) = c) xs"
  "sum_FallbackCount (aggregate xs) = count_if rm_WasFallback xs"
  "sum_LatencyMsSum (aggregate xs) = total_of rm_LatencyMs xs"
  "sum_TTFBMsSum (aggregate xs) = total_of rm_TTFBMs xs"
  "sum_TotalBytes (aggregate xs) = total_of rm_ResponseSize xs"
  "sum_TotalPromptTok (aggregate xs) = total_of rm_PromptTokens xs"
  "sum_TotalCompleteTok (aggregate xs) = total_of rm_CompletionTokens xs"
  by (induction xs rule: rev_induct)
    (auto simp: aggregate_snoc summarize_def Let_def succeeded_def aggregate_Nil zero_summary_def)

lemma div_same_count: "(x :: rat) * (1 + of_nat n) / (of_nat n + 1) = x"
proof -
  have "(of_nat n + 1 :: rat) \<noteq> 0" using of_nat_0_le_iff [of n, where ?'a = rat] by linarith
  then show ?thesis by (simp add: add.commute)
qed

lemma aggregate_avg:
  "sum_AvgLatencyMs (aggregate xs) * of_int (int (length xs)) = of_int (total_of rm_LatencyMs xs)"
  "sum_AvgTTFBMs (aggregate xs) * of_int (int (length xs)) = of_int (total_of rm_TTFBMs xs)"
  by (induction xs rule: rev_induct)
    (simp_all add: aggregate_snoc summarize_def Let_def aggregate_counts(1) div_same_count)

definition histogram_of :: "(RequestMetric \<Rightarrow> int) \<Rightarrow> RequestMetric list \<Rightarrow> int list \<Rightarrow> bool" where
  "histogram_of f xs b \<longleftrightarrow> length b = bucket_count + 1 \<and> b ! bucket_count = int (length xs) \<and>
     (\<forall>i < bucket_count. b ! i = count_if (\<lambda>m. f m \<le> LatencyBucketsMs ! i) xs)"

lemma histogram_snoc:
  assumes "(xs = [] \<and> b = []) \<or> histogram_of f xs b"
  shows "histogram_of f (xs @ [x]) (AddLatencyBucket b (f x))"
  using assms AddLatencyBucket_nth [where b = b and ms = "f x"] by (auto simp: histogram_of_def)

lemma aggregate_histograms:
  "xs \<noteq> [] \<Longrightarrow> histogram_of rm_LatencyMs xs (sum_LatencyMsBuckets (aggregate xs)) \<and>
     histogram_of rm_TTFBMs xs (sum_TTFBMsBuckets (aggregate xs))"
proof (induction xs rule: rev_induct)
  case Nil
  then show ?case by simp
next
  case (snoc x xs)
  show ?case
  proof (cases "xs = []")
    case True
    then show ?thesis
      using histogram_snoc [of "[]" "[]" rm_LatencyMs x] histogram_snoc [of "[]" "[]" rm_TTFBMs x]
      by (simp add: aggregate_def summarize_def Let_def zero_summary_def)
  next
    case False
    then show ?thesis
      using snoc.IH histogram_snoc [of xs _ rm_LatencyMs x] histogram_snoc [of xs _ rm_TTFBMs x]
      by (simp add: aggregate_snoc summarize_def Let_def)
  qed
qed

lemma histogram_monotone:
  assumes "histogram_of f xs b" "i \<le> j" "j \<le> bucket_count"
  shows "b ! i \<le> b ! j"
proof (cases "j < bucket_count")
  case True
  have "sorted LatencyBucketsMs" by (simp add: LatencyBucketsMs_def)
  then have le: "LatencyBucketsMs ! i \<le> LatencyBucketsMs ! j"
    using True assms(2) by (simp add: sorted_nth_mono bucket_count_def)
  have "length (filter (\<lambda>m. f m \<le> LatencyBucketsMs ! i) xs) \<le> length (filter (\<lambda>m. f m \<le> LatencyBucketsMs ! j) xs)"
    using le by (induction xs) auto
  then show ?thesis using assms True by (simp add: histogram_of_def count_if_def)
next
  case False
  then have j: "j = bucket_count" using assms(3) by simp
  show ?thesis
  proof (cases "i < bucket_count")
    case True
    then show ?thesis using assms(1) by (simp add: j histogram_of_def count_if_def)
  next
    case False
    then have "i = j" using assms(2) j by simp
    then show ?thesis by simp
  qed
qed

subsection \<open>The store\<close>

text \<open>The samples a history holds for a summary key: a metric counts once per key it names.\<close>

definition samples :: "string \<Rightarrow> RequestMetric list \<Rightarrow> RequestMetric list" where
  "samples key ms = concat (map (\<lambda>m. map (\<lambda>_. fill_timings m) (filter (\<lambda>k. k = key) (summary_keys (fill_timings m)))) ms)"

lemma updateSummary_get:
  "ms_summaries (updateSummary k m s) key =
     (if k = key then Some (summarize m (case ms_summaries s key of None \<Rightarrow> zero_summary | Some x \<Rightarrow> x))
      else ms_summaries s key)"
  by (simp add: updateSummary_def Let_def)

lemma metrics_run_summaries:
  "ms_summaries (fold metrics_Add ms (metrics_New n)) key =
     (if samples key ms = [] then None else Some (aggregate (samples key ms)))"
proof (induction ms rule: rev_induct)
  case Nil
  then show ?case by (simp add: samples_def metrics_New_def)
next
  case (snoc m ms)
  have keys: "ms_summaries (fold (\<lambda>k. updateSummary k (fill_timings m)) ks s) key =
      (if xs @ map (\<lambda>_. fill_timings m) (filter (\<lambda>k. k = key) ks) = [] then None
       else Some (aggregate (xs @ map (\<lambda>_. fill_timings m) (filter (\<lambda>k. k = key) ks))))"
    if "ms_summaries s key = (if xs = [] then None else Some (aggregate xs))" for ks s xs
    using that
  proof (induction ks arbitrary: s xs)
    case Nil
    then show ?case by simp
  next
    case (Cons k ks)
    have "ms_summaries (updateSummary k (fill_timings m) s) key =
        (if (if k = key then xs @ [fill_timings m] else xs) = [] then None
         else Some (aggregate (if k = key then xs @ [fill_timings m] else xs)))"
      using Cons.prems by (auto simp: updateSummary_get aggregate_def)
    from Cons.IH [OF this] show ?case by simp
  qed
  let ?s = "fold metrics_Add ms (metrics_New n)"
  have "ms_summaries (?s\<lparr>ms_ring := ring_add (fill_timings m) (ms_ring ?s)\<rparr>) key =
      (if samples key ms = [] then None else Some (aggregate (samples key ms)))"
    using snoc by simp
  note step = keys [OF this, of "summary_keys (fill_timings m)"]
  have "fold metrics_Add (ms @ [m]) (metrics_New n) = fold (\<lambda>k. updateSummary k (fill_timings m))
      (summary_keys (fill_timings m)) (?s\<lparr>ms_ring := ring_add (fill_timings m) (ms_ring ?s)\<rparr>)"
    by (simp add: metrics_Add_def [of m] Let_def)
  moreover have "samples key (ms @ [m]) = samples key ms @
      map (\<lambda>_. fill_timings m) (filter (\<lambda>k. k = key) (summary_keys (fill_timings m)))"
    by (simp add: samples_def)
  ultimately show ?case using step by simp
qed


definition example_metric :: RequestMetric where
  "example_metric = zero_metric\<lparr>rm_Model := ''m'', rm_ServerID := ''a'', rm_StatusCode := 200, rm_LatencyMs := 120\<rparr>"


text \<open>
  The recent-requests view lists the newest requests in chronological order: after any
  number of recordings it is the last \<open>maxRecent\<close> of them, each with its timings filled in.
\<close>
theorem Recent_newest:
  assumes "0 < n"
  shows "Recent (fold metrics_Add ms (metrics_New n)) = last_n n (map fill_timings ms)"
proof -
  have upd: "ms_ring (fold (\<lambda>key. updateSummary key m) ks s) = ms_ring s" for m ks s
    by (induction ks arbitrary: s) (simp_all add: updateSummary_def Let_def)
  have "ms_ring (fold metrics_Add ms s) = fold ring_add (map fill_timings ms) (ms_ring s)" for s
    by (induction ms arbitrary: s) (simp_all add: metrics_Add_def Let_def upd)
  then show ?thesis using ring_run [OF assms] by (simp add: Recent_def metrics_New_def)
qed

theorem Recent_newest_witness:
  "length (Recent (fold metrics_Add [example_metric, example_metric, example_metric] (metrics_New 2))) = 2"
  by (subst Recent_newest) simp_all

subsection \<open>Where a summary misreports\<close>

text \<open>
  The minimum latency is not the minimum: 0 stands for "no sample yet", so a request that
  took 0 ms is forgotten by the next one.
\<close>
theorem MinLatency_forgets_zero:
  "sum_MinLatencyMs (aggregate [zero_metric\<lparr>rm_LatencyMs := 0\<rparr>, zero_metric\<lparr>rm_LatencyMs := 7\<rparr>]) = 7"
  by (simp add: aggregate_def summarize_def zero_summary_def zero_metric_def Let_def)

text \<open>
  One response that reports a native prompt rate but no prompt tokens, as the first of its
  group, turns the group's average prefill rate into a non-number, and no later request can
  bring it back.
\<close>
theorem AvgPrefill_never_recovers:
  assumes "rm_NativePromptTokPerSec m > 0" "rm_PromptTokens m = 0"
  shows "sum_AvgPrefillTokSec (aggregate (fill_timings m # ms)) = NaN"
proof -
  have "rm_PrefillTokPerSec (fill_timings m) > 0" "rm_PromptTokens (fill_timings m) = 0"
    using assms by (simp_all add: fill_timings_def Let_def)
  then have "sum_AvgPrefillTokSec (summarize (fill_timings m) zero_summary) = NaN"
    by (simp add: summarize_def Let_def weighted_avg_def zero_summary_def)
  moreover have "sum_AvgPrefillTokSec s = NaN \<Longrightarrow> sum_AvgPrefillTokSec (fold summarize ms s) = NaN" for s
    by (induction ms arbitrary: s) (simp_all add: summarize_def Let_def weighted_avg_def)
  ultimately show ?thesis by (simp add: aggregate_def)
qed

theorem AvgPrefill_never_recovers_witness:
  "sum_AvgPrefillTokSec (aggregate [fill_timings (zero_metric\<lparr>rm_NativePromptTokPerSec := 90\<rparr>), example_metric]) = NaN"
  by (rule AvgPrefill_never_recovers) (simp_all add: zero_metric_def)

end
