(* ===== verification/RateLimit.thy ===== *)
theory RateLimit
  imports Domain Interfaces
begin

text \<open>
  \<open>src/config/ratelimit.go\<close>: the failure tracker that puts a backend into cooldown. Every
  method takes the instant its \<open>time.Now()\<close> reads; a method that notifies the alerter
  returns the event texts. The mutex makes each method one atomic step, so a run is a list
  of timestamped operations.
\<close>

datatype failKind = kindImmediate | kindServer | kindClient

record failEntry =
  fe_at :: gotime
  fe_kind :: failKind

record RateLimiter =
  rl_failures :: "string \<rightharpoonup> failEntry list"
  rl_cooldown :: "string \<rightharpoonup> gotime"
  rl_reason :: "string \<rightharpoonup> string"
  rl_maxFails :: int
  rl_maxFails4xx :: int
  rl_window :: duration
  rl_cooldownDur :: duration
  rl_cooldownFor :: "(string \<Rightarrow> duration) option"
  rl_alerter :: bool

definition NewRateLimiter :: "int \<Rightarrow> duration \<Rightarrow> duration \<Rightarrow> RateLimiter" where
  "NewRateLimiter maxFails window cooldownDur =
     \<lparr>rl_failures = Map.empty, rl_cooldown = Map.empty, rl_reason = Map.empty,
      rl_maxFails = maxFails, rl_maxFails4xx = maxFails * 2, rl_window = window,
      rl_cooldownDur = cooldownDur, rl_cooldownFor = None, rl_alerter = False\<rparr>"

definition SetThresholds :: "RateLimiter \<Rightarrow> int \<Rightarrow> duration \<Rightarrow> RateLimiter" where
  "SetThresholds rl maxFails cooldown =
     (let rl1 = (if maxFails > 0 then rl\<lparr>rl_maxFails := maxFails, rl_maxFails4xx := maxFails * 2\<rparr> else rl)
      in if cooldown > 0 then rl1\<lparr>rl_cooldownDur := cooldown\<rparr> else rl1)"

definition SetCooldownOverride :: "RateLimiter \<Rightarrow> (string \<Rightarrow> duration) \<Rightarrow> RateLimiter" where
  "SetCooldownOverride rl fn = rl\<lparr>rl_cooldownFor := Some fn\<rparr>"

definition rl_SetAlerter :: "RateLimiter \<Rightarrow> bool \<Rightarrow> RateLimiter" where
  "rl_SetAlerter rl installed = rl\<lparr>rl_alerter := installed\<rparr>"

definition cooldownDuration :: "RateLimiter \<Rightarrow> string \<Rightarrow> duration" where
  "cooldownDuration rl i =
     (case rl_cooldownFor rl of
        None \<Rightarrow> rl_cooldownDur rl
      | Some f \<Rightarrow> if f i > 0 then f i else rl_cooldownDur rl)"

definition hasCooldownOverride :: "RateLimiter \<Rightarrow> string \<Rightarrow> bool" where
  "hasCooldownOverride rl i \<longleftrightarrow> (case rl_cooldownFor rl of None \<Rightarrow> False | Some f \<Rightarrow> f i > 0)"

definition ShouldSkip :: "RateLimiter \<Rightarrow> gotime \<Rightarrow> string \<Rightarrow> bool" where
  "ShouldSkip rl now i \<longleftrightarrow> (case rl_cooldown rl i of None \<Rightarrow> False | Some expiry \<Rightarrow> now < expiry)"

definition RecordSuccess :: "RateLimiter \<Rightarrow> string \<Rightarrow> RateLimiter" where
  "RecordSuccess rl i =
     rl\<lparr>rl_failures := (rl_failures rl)(i := None), rl_cooldown := (rl_cooldown rl)(i := None),
        rl_reason := (rl_reason rl)(i := None)\<rparr>"

definition classifyFailure :: "int \<Rightarrow> failKind" where
  "classifyFailure status =
     (if status = 429 \<or> status = 401 \<or> status = 403 then kindImmediate
      else if status = 0 then kindServer
      else if status \<ge> 500 then kindServer
      else kindClient)"

definition thresholdFor :: "RateLimiter \<Rightarrow> string \<Rightarrow> failKind \<Rightarrow> int" where
  "thresholdFor rl i kind = (if kind = kindClient then rl_maxFails4xx rl else rl_maxFails rl)"

definition clampHint :: "duration list \<Rightarrow> duration" where
  "clampHint hints =
     (case hints of
        [] \<Rightarrow> 0
      | d # _ \<Rightarrow> if d \<le> 0 then 0 else if d < Second then Second else if d > Hour then Hour else d)"

text \<open>\<open>http.StatusText\<close> on the three statuses whose text becomes a cooldown reason.\<close>

definition StatusText :: "int \<Rightarrow> string" where
  "StatusText status =
     (if status = 429 then ''Too Many Requests''
      else if status = 401 then ''Unauthorized''
      else if status = 403 then ''Forbidden'' else [])"

definition failures_of :: "RateLimiter \<Rightarrow> string \<Rightarrow> failEntry list" where
  "failures_of rl i = (case rl_failures rl i of None \<Rightarrow> [] | Some es \<Rightarrow> es)"

text \<open>The pruning loop at the head of \<open>RecordFailure\<close>.\<close>

fun prune_failures :: "failEntry list \<Rightarrow> gotime \<Rightarrow> failEntry list" where
  "prune_failures [] cutoff = []"
| "prune_failures (f # fs) cutoff =
     (if fe_at f > cutoff then f # prune_failures fs cutoff else prune_failures fs cutoff)"

definition count_kind :: "failKind \<Rightarrow> failEntry list \<Rightarrow> int" where
  "count_kind kind es = int (length (filter (\<lambda>f. fe_kind f = kind) es))"

definition RecordFailure ::
  "RateLimiter \<Rightarrow> gotime \<Rightarrow> string \<Rightarrow> int \<Rightarrow> duration list \<Rightarrow> RateLimiter \<times> bool \<times> string list" where
  "RecordFailure rl now i status retryAfter =
     (let kind = classifyFailure status;
          cutoff = now - rl_window rl;
          valid = prune_failures (failures_of rl i) cutoff @ [\<lparr>fe_at = now, fe_kind = kind\<rparr>];
          rl1 = rl\<lparr>rl_failures := (rl_failures rl)(i \<mapsto> valid)\<rparr>;
          threshold = thresholdFor rl1 i kind;
          count = count_kind kind valid
      in if kind = kindImmediate \<or> count \<ge> threshold then
           (if (case rl_cooldown rl1 i of None \<Rightarrow> True | Some expiry \<Rightarrow> now > expiry) then
              (let hint = clampHint retryAfter;
                   reason = (if kind = kindImmediate then ''status '' @ StatusText status else ''failures'');
                   dur = (if kind = kindImmediate \<and> hint > 0 \<and> \<not> hasCooldownOverride rl1 i
                          then hint else cooldownDuration rl1 i);
                   rl2 = rl1\<lparr>rl_cooldown := (rl_cooldown rl1)(i \<mapsto> now + dur),
                             rl_reason := (rl_reason rl1)(i \<mapsto> reason)\<rparr>
               in (rl2, True,
                   if rl_alerter rl then [''server '' @ i @ '' cooling down ('' @ reason @ '')''] else []))
            else (rl1, False, []))
         else (rl1, False, []))"

definition ClearCooldown :: "RateLimiter \<Rightarrow> string \<Rightarrow> RateLimiter" where
  "ClearCooldown rl i =
     rl\<lparr>rl_cooldown := (rl_cooldown rl)(i := None), rl_reason := (rl_reason rl)(i := None),
        rl_failures := (rl_failures rl)(i := None)\<rparr>"

definition CooldownRemaining :: "RateLimiter \<Rightarrow> gotime \<Rightarrow> string \<Rightarrow> duration" where
  "CooldownRemaining rl now i =
     (case rl_cooldown rl i of None \<Rightarrow> 0 | Some expiry \<Rightarrow> if expiry - now \<le> 0 then 0 else expiry - now)"

definition Cooldown :: "RateLimiter \<Rightarrow> gotime \<Rightarrow> string \<Rightarrow> (gotime \<times> string) option" where
  "Cooldown rl now i =
     (case rl_cooldown rl i of
        None \<Rightarrow> None
      | Some expiry \<Rightarrow>
          if \<not> now < expiry then None
          else Some (expiry, case rl_reason rl i of None \<Rightarrow> [] | Some r \<Rightarrow> r))"

definition FailureCount :: "RateLimiter \<Rightarrow> gotime \<Rightarrow> string \<Rightarrow> int" where
  "FailureCount rl now i =
     int (length (filter (\<lambda>f. fe_at f > now - rl_window rl) (failures_of rl i)))"

subsection \<open>Runs of the tracker\<close>

datatype rl_op =
    OpFailure string int "duration list"
  | OpSuccess string
  | OpClear string

fun rl_step :: "gotime \<times> rl_op \<Rightarrow> RateLimiter \<Rightarrow> RateLimiter" where
  "rl_step (now, OpFailure i status hints) rl = fst (RecordFailure rl now i status hints)"
| "rl_step (now, OpSuccess i) rl = RecordSuccess rl i"
| "rl_step (now, OpClear i) rl = ClearCooldown rl i"

definition rl_run :: "(gotime \<times> rl_op) list \<Rightarrow> RateLimiter \<Rightarrow> RateLimiter" where
  "rl_run ops rl = fold rl_step ops rl"

definition failures_in :: "string \<Rightarrow> failKind \<Rightarrow> (gotime \<times> rl_op) list \<Rightarrow> (gotime \<times> rl_op) list" where
  "failures_in i kind ops =
     filter (\<lambda>(_, oper). case oper of OpFailure j st _ \<Rightarrow> j = i \<and> classifyFailure st = kind | _ \<Rightarrow> False) ops"

text \<open>A cooldown entry always carries its reason.\<close>

definition rl_inv :: "RateLimiter \<Rightarrow> bool" where
  "rl_inv rl \<longleftrightarrow> dom (rl_cooldown rl) = dom (rl_reason rl) \<and> rl_maxFails4xx rl = 2 * rl_maxFails rl"

subsection \<open>The failure log is a sliding window\<close>

interpretation fails: sliding_window fe_at prune_failures
proof
  fix es :: "failEntry list" and c
  show "prune_failures es c = filter (\<lambda>e. c < fe_at e) es"
    by (induction es) auto
qed

declare thresholdFor_def [tracker_defs] cooldownDuration_def [tracker_defs]
  hasCooldownOverride_def [tracker_defs] failures_of_def [tracker_defs]

lemma clampHint_range: "clampHint hs = 0 \<or> (Second \<le> clampHint hs \<and> clampHint hs \<le> Hour)"
  by (auto simp: clampHint_def duration_defs split: list.splits)

text \<open>
  The three outcomes of \<open>RecordFailure\<close>, stated once: what it logs, when it starts a
  cooldown, and that it touches nothing else.
\<close>

definition trips :: "RateLimiter \<Rightarrow> gotime \<Rightarrow> string \<Rightarrow> int \<Rightarrow> bool" where
  "trips rl now i status \<longleftrightarrow>
     (classifyFailure status = kindImmediate \<or>
      thresholdFor rl i (classifyFailure status) \<le>
        count_kind (classifyFailure status) (prune_failures (failures_of rl i) (now - rl_window rl)) + 1)"

definition cooling_at :: "RateLimiter \<Rightarrow> gotime \<Rightarrow> string \<Rightarrow> bool" where
  "cooling_at rl now i \<longleftrightarrow> (\<exists>expiry. rl_cooldown rl i = Some expiry \<and> now \<le> expiry)"

definition cooldown_length :: "RateLimiter \<Rightarrow> string \<Rightarrow> int \<Rightarrow> duration list \<Rightarrow> duration" where
  "cooldown_length rl i status hints =
     (if classifyFailure status = kindImmediate \<and> 0 < clampHint hints \<and> \<not> hasCooldownOverride rl i
      then clampHint hints else cooldownDuration rl i)"

lemma count_kind_snoc:
  "count_kind k (es @ [e]) = count_kind k es + (if fe_kind e = k then 1 else 0)"
  by (simp add: count_kind_def)

lemma count_kind_le: "count_kind k es \<le> int (length es)"
  by (simp add: count_kind_def)

lemma not_cooling_iff:
  "(case rl_cooldown rl i of None \<Rightarrow> True | Some expiry \<Rightarrow> now > expiry) \<longleftrightarrow> \<not> cooling_at rl now i"
  by (auto simp: cooling_at_def split: option.splits)

lemma RecordFailure_result:
  "fst (snd (RecordFailure rl now i status hints)) \<longleftrightarrow> trips rl now i status \<and> \<not> cooling_at rl now i"
  unfolding RecordFailure_def trips_def cooling_at_def Let_def
  by (auto simp: count_kind_snoc thresholdFor_def failures_of_def split: option.splits)

lemma RecordFailure_cooldown:
  "rl_cooldown (fst (RecordFailure rl now i status hints)) =
     (if trips rl now i status \<and> \<not> cooling_at rl now i
      then (rl_cooldown rl)(i \<mapsto> now + cooldown_length rl i status hints) else rl_cooldown rl)"
  unfolding RecordFailure_def trips_def cooling_at_def Let_def cooldown_length_def
  by (auto simp: count_kind_snoc tracker_defs split: option.splits)

lemma RecordFailure_failures:
  "rl_failures (fst (RecordFailure rl now i status hints)) =
     (rl_failures rl)(i \<mapsto> prune_failures (failures_of rl i) (now - rl_window rl)
                          @ [\<lparr>fe_at = now, fe_kind = classifyFailure status\<rparr>])"
  unfolding RecordFailure_def Let_def by (simp add: failures_of_def split: option.split)

lemma RecordFailure_frame:
  "rl_maxFails (fst (RecordFailure rl now i status hints)) = rl_maxFails rl"
  "rl_maxFails4xx (fst (RecordFailure rl now i status hints)) = rl_maxFails4xx rl"
  "rl_window (fst (RecordFailure rl now i status hints)) = rl_window rl"
  unfolding RecordFailure_def Let_def by (simp_all split: option.split)

lemma RecordFailure_reason_dom:
  "dom (rl_reason (fst (RecordFailure rl now i status hints))) =
     (if trips rl now i status \<and> \<not> cooling_at rl now i then insert i (dom (rl_reason rl))
      else dom (rl_reason rl))"
  unfolding RecordFailure_def trips_def cooling_at_def Let_def
  by (auto simp: count_kind_snoc thresholdFor_def failures_of_def split: option.splits if_splits)

lemmas RecordFailure_simps =
  RecordFailure_result RecordFailure_cooldown RecordFailure_failures RecordFailure_frame

subsection \<open>The log against the history of operations\<close>

text \<open>
  The specification of the log: the failures a history of operations holds for a server
  since the last operation that forgave it.
\<close>

fun history_failures :: "string \<Rightarrow> (gotime \<times> rl_op) list \<Rightarrow> failEntry list \<Rightarrow> failEntry list" where
  "history_failures i [] acc = acc"
| "history_failures i ((now, OpFailure j status _) # ops) acc =
     history_failures i ops
       (if j = i then acc @ [\<lparr>fe_at = now, fe_kind = classifyFailure status\<rparr>] else acc)"
| "history_failures i ((now, OpSuccess j) # ops) acc = history_failures i ops (if j = i then [] else acc)"
| "history_failures i ((now, OpClear j) # ops) acc = history_failures i ops (if j = i then [] else acc)"

definition recent_failures :: "string \<Rightarrow> failKind \<Rightarrow> gotime \<Rightarrow> (gotime \<times> rl_op) list \<Rightarrow> int" where
  "recent_failures i kind cutoff ops =
     count_kind kind (filter (\<lambda>f. cutoff < fe_at f) (history_failures i ops []))"

lemma history_failures_snoc:
  "history_failures i (ops @ [x]) acc = history_failures i [x] (history_failures i ops acc)"
  by (induction i ops acc rule: history_failures.induct) (cases x; auto)+

lemma rl_run_snoc: "rl_run (ops @ [x]) rl = rl_step x (rl_run ops rl)"
  by (simp add: rl_run_def)

lemma rl_run_config:
  "rl_window (rl_run ops rl) = rl_window rl \<and> rl_maxFails (rl_run ops rl) = rl_maxFails rl
   \<and> rl_maxFails4xx (rl_run ops rl) = rl_maxFails4xx rl"
proof (induction ops rule: rev_induct)
  case Nil
  then show ?case by (simp add: rl_run_def)
next
  case (snoc x ops)
  then show ?case
    by (cases x; cases "snd x")
      (auto simp: rl_run_snoc RecordFailure_frame RecordSuccess_def ClearCooldown_def)
qed

lemma log_refines_history:
  assumes "sorted (map fst ops)" "\<forall>(t, oper) \<in> set ops. t - rl_window rl \<le> cutoff"
    and "rl_failures rl = Map.empty"
  shows "prune_failures (failures_of (rl_run ops rl) i) cutoff =
         filter (\<lambda>f. cutoff < fe_at f) (history_failures i ops [])"
  using assms(1,2)
proof (induction ops arbitrary: cutoff rule: rev_induct)
  case Nil
  then show ?case using assms(3) by (simp add: rl_run_def failures_of_def)
next
  case (snoc x ops)
  obtain now oper where x: "x = (now, oper)" by (cases x)
  let ?rl = "rl_run ops rl"
  have srt: "sorted (map fst ops)" and before: "\<forall>(t, oper) \<in> set ops. t \<le> now"
    using snoc.prems(1) by (auto simp: x sorted_append)
  have here: "now - rl_window rl \<le> cutoff" using snoc.prems(2) by (simp add: x)
  have IH: "prune_failures (failures_of ?rl i) c = filter (\<lambda>f. c < fe_at f) (history_failures i ops [])"
    if "now - rl_window rl \<le> c" for c
    using snoc.IH [OF srt, of c] before that by fastforce
  have "prune_failures (prune_failures (failures_of ?rl i) (now - rl_window rl)) cutoff
        = prune_failures (failures_of ?rl i) cutoff"
    using here by (rule fails.prune_prune)
  with IH [OF here] show ?case
    by (cases oper)
      (auto simp: x rl_run_snoc history_failures_snoc RecordFailure_failures RecordSuccess_def
        ClearCooldown_def failures_of_def fails.prune_append rl_run_config)
qed

lemma recent_failures_log:
  assumes "sorted (map fst ops)" "\<forall>(t, oper) \<in> set ops. t \<le> now" and "rl_failures rl = Map.empty"
  shows "trips (rl_run ops rl) now i status \<longleftrightarrow>
           classifyFailure status = kindImmediate \<or>
           thresholdFor rl i (classifyFailure status) \<le>
             recent_failures i (classifyFailure status) (now - rl_window rl) ops + 1"
proof -
  have "\<forall>(t, oper) \<in> set ops. t - rl_window rl \<le> now - rl_window rl"
    using assms(2) by auto
  from log_refines_history [OF assms(1) this assms(3)] show ?thesis
    by (simp add: trips_def recent_failures_def rl_run_config thresholdFor_def)
qed

text \<open>
  C6: On any timestamped history of outcomes replayed from a fresh limiter, a new failure
  starts a cooldown exactly when the server is not already cooling and the status is
  429/401/403, or the failures of the same kind that the history holds for that server
  inside the window since its last success, this one included, reach the threshold
  (\<open>maxFails\<close> for server-side failures, twice that for client-side ones).
\<close>
theorem RecordFailure_refines_history:
  assumes "sorted (map fst ops)" and "\<forall>(t, oper) \<in> set ops. t \<le> now"
  shows "fst (snd (RecordFailure (rl_run ops (NewRateLimiter mf w cd)) now i status hints)) \<longleftrightarrow>
           \<not> cooling_at (rl_run ops (NewRateLimiter mf w cd)) now i \<and>
           (status \<in> {429, 401, 403} \<or>
            (if status = 0 \<or> 500 \<le> status then mf else 2 * mf) \<le>
              recent_failures i (classifyFailure status) (now - w) ops + 1)"
proof -
  have "rl_failures (NewRateLimiter mf w cd) = Map.empty" by (simp add: NewRateLimiter_def)
  from recent_failures_log [OF assms this] show ?thesis
    unfolding RecordFailure_result
    by (auto simp: NewRateLimiter_def classifyFailure_def thresholdFor_def mult.commute)
qed

theorem RecordFailure_refines_history_witness:
  "fst (snd (RecordFailure
     (rl_run [(1, OpFailure ''a'' 500 []), (2, OpFailure ''a'' 404 []), (3, OpFailure ''a'' 0 [])]
        (NewRateLimiter 3 60 300)) 4 ''a'' 502 []))"
proof -
  let ?ops = "[(1::int, OpFailure ''a'' 500 []), (2, OpFailure ''a'' 404 []), (3, OpFailure ''a'' 0 [])]"
  have s: "sorted (map fst ?ops)" by simp
  have n: "\<forall>(t, oper) \<in> set ?ops. t \<le> 4" by simp
  have c: "\<not> cooling_at (rl_run ?ops (NewRateLimiter 3 60 300)) 4 ''a''"
    by (simp add: rl_run_def RecordFailure_def NewRateLimiter_def classifyFailure_def thresholdFor_def
        failures_of_def count_kind_def cooling_at_def Let_def)
  have r: "recent_failures ''a'' (classifyFailure 502) (4 - 60) ?ops = 2"
    by (simp add: recent_failures_def count_kind_def classifyFailure_def)
  show ?thesis
    using RecordFailure_refines_history [OF s n, of 3 60 300 "''a''" 502 "[]"] c r by simp
qed

subsection \<open>What a cooldown does\<close>

lemma ShouldSkip_after_failure:
  "ShouldSkip (fst (RecordFailure rl now i status hints)) t j \<longleftrightarrow>
     (if j = i \<and> trips rl now i status \<and> \<not> cooling_at rl now i
      then t < now + cooldown_length rl i status hints else ShouldSkip rl t j)"
  by (auto simp: ShouldSkip_def RecordFailure_cooldown)

text \<open>
  A backend's own Retry-After can neither park a server for a day nor for nothing: when
  a failure starts a cooldown, the server is skipped from that instant until an expiry that
  is the configured per-server duration, the global one, or (only for 429/401/403 and only
  without a per-server setting) the hint clamped into one second to one hour; other servers
  are not affected, and a later success lifts it at once.
\<close>
theorem RecordFailure_cooldown_span:
  assumes "fst (snd (RecordFailure rl now i status hints))"
  shows "\<exists>d. (\<forall>t. ShouldSkip (fst (RecordFailure rl now i status hints)) t i \<longleftrightarrow> t < now + d) \<and>
     (d = cooldownDuration rl i \<or>
      (status \<in> {429, 401, 403} \<and> \<not> hasCooldownOverride rl i \<and> Second \<le> d \<and> d \<le> Hour)) \<and>
     (\<forall>t j. j \<noteq> i \<longrightarrow> ShouldSkip (fst (RecordFailure rl now i status hints)) t j = ShouldSkip rl t j) \<and>
     (\<forall>t. \<not> ShouldSkip (RecordSuccess (fst (RecordFailure rl now i status hints)) i) t i)"
proof -
  have tr: "trips rl now i status \<and> \<not> cooling_at rl now i"
    using assms by (simp add: RecordFailure_result)
  let ?d = "cooldown_length rl i status hints"
  have "?d = cooldownDuration rl i \<or>
      (status \<in> {429, 401, 403} \<and> \<not> hasCooldownOverride rl i \<and> Second \<le> ?d \<and> ?d \<le> Hour)"
    using clampHint_range [of hints]
    by (auto simp: cooldown_length_def classifyFailure_def split: if_splits)
  moreover have "\<forall>t. ShouldSkip (fst (RecordFailure rl now i status hints)) t i \<longleftrightarrow> t < now + ?d"
    using tr by (simp add: ShouldSkip_after_failure)
  moreover have "\<forall>t. \<not> ShouldSkip (RecordSuccess (fst (RecordFailure rl now i status hints)) i) t i"
    by (simp add: ShouldSkip_def RecordSuccess_def)
  ultimately show ?thesis by (auto simp: ShouldSkip_after_failure)
qed

theorem RecordFailure_cooldown_span_witness:
  "\<exists>d. (\<forall>t. ShouldSkip (fst (RecordFailure (NewRateLimiter 5 60 300) 10 ''a'' 429 [90000000000000])) t ''a''
        \<longleftrightarrow> t < 10 + d) \<and> (d = 300 \<or> Second \<le> d \<and> d \<le> Hour)"
proof -
  have h: "fst (snd (RecordFailure (NewRateLimiter 5 60 300) 10 ''a'' 429 [90000000000000]))"
    by (simp add: RecordFailure_result trips_def cooling_at_def NewRateLimiter_def classifyFailure_def)
  have d: "cooldownDuration (NewRateLimiter 5 60 300) ''a'' = 300"
    by (simp add: cooldownDuration_def NewRateLimiter_def)
  from RecordFailure_cooldown_span [OF h] show ?thesis unfolding d by blast
qed

subsection \<open>Client errors do not bench a backend\<close>

lemma history_length:
  "int (length (history_failures i ops acc)) \<le>
     int (length acc) + int (length (filter (\<lambda>(_, oper). case oper of OpFailure j _ _ \<Rightarrow> j = i | _ \<Rightarrow> False) ops))"
  by (induction i ops acc rule: history_failures.induct) auto

lemma rl_run_no_cooldown:
  assumes "rl_cooldown rl i = None" "rl_failures rl i = None"
    and "\<forall>(t, oper) \<in> set ops. \<forall>st hs. oper = OpFailure i st hs \<longrightarrow> classifyFailure st = kindClient"
    and "int (length (failures_in i kindClient ops)) < rl_maxFails4xx rl"
  shows "rl_cooldown (rl_run ops rl) i = None \<and>
         int (length (failures_of (rl_run ops rl) i)) \<le> int (length (failures_in i kindClient ops))"
  using assms(3,4)
proof (induction ops rule: rev_induct)
  case Nil
  then show ?case using assms(1,2) by (simp add: rl_run_def failures_of_def)
next
  case (snoc x ops)
  obtain now oper where x: "x = (now, oper)" by (cases x)
  let ?rl = "rl_run ops rl"
  have le: "length (failures_in i kindClient ops) \<le> length (failures_in i kindClient (ops @ [x]))"
    by (simp add: failures_in_def)
  then have IH: "rl_cooldown ?rl i = None"
    "int (length (failures_of ?rl i)) \<le> int (length (failures_in i kindClient ops))"
    using snoc.IH snoc.prems by auto
  show ?case
  proof (cases oper)
    case (OpFailure j status hs)
    have "\<not> trips ?rl now i status" if "j = i"
    proof -
      have k: "classifyFailure status = kindClient"
        using snoc.prems(1) that by (auto simp: x OpFailure)
      have "length (failures_in i kindClient (ops @ [x])) = Suc (length (failures_in i kindClient ops))"
        using k that by (simp add: failures_in_def x OpFailure)
      moreover have "count_kind kindClient (prune_failures (failures_of ?rl i) (now - rl_window rl))
          \<le> int (length (failures_of ?rl i))"
        using count_kind_le [of kindClient "prune_failures (failures_of ?rl i) (now - rl_window rl)"]
          fails.prune_length [of "failures_of ?rl i" "now - rl_window rl"] by linarith
      ultimately show ?thesis
        using IH(2) snoc.prems(2) by (simp add: trips_def thresholdFor_def rl_run_config k)
    qed
    then show ?thesis
      using IH le fails.prune_length [of "failures_of ?rl i" "now - rl_window rl"] snoc.prems(1)
      by (auto simp: x OpFailure rl_run_snoc RecordFailure_cooldown failures_of_def
          RecordFailure_failures failures_in_def rl_run_config)
  qed (use IH in \<open>auto simp: x rl_run_snoc RecordSuccess_def ClearCooldown_def failures_of_def failures_in_def\<close>)
qed

text \<open>
  A misbehaving client cannot bench a healthy backend: as long as every failure recorded
  for a server is of the client kind and there are fewer than twice \<open>maxFails\<close> of them, the
  server is never skipped, whatever else happens to other servers in between.
\<close>
theorem client_errors_do_not_bench:
  assumes "\<forall>(t, oper) \<in> set ops. \<forall>st hs. oper = OpFailure i st hs \<longrightarrow> classifyFailure st = kindClient"
    and "int (length (failures_in i kindClient ops)) < 2 * mf"
  shows "\<not> ShouldSkip (rl_run ops (NewRateLimiter mf w cd)) t i"
proof -
  have "rl_cooldown (rl_run ops (NewRateLimiter mf w cd)) i = None"
    using rl_run_no_cooldown [of "NewRateLimiter mf w cd" i ops] assms
    by (simp add: NewRateLimiter_def mult.commute)
  then show ?thesis by (simp add: ShouldSkip_def)
qed

theorem client_errors_do_not_bench_witness:
  "\<not> ShouldSkip (rl_run [(1, OpFailure ''a'' 404 []), (2, OpFailure ''b'' 429 []), (2, OpFailure ''a'' 400 [])]
     (NewRateLimiter 2 60 300)) 3 ''a''"
  by (rule client_errors_do_not_bench) (simp_all add: classifyFailure_def failures_in_def)

end
