(* ===== verification/Capabilities.thy ===== *)
theory Capabilities
  imports Domain Json
begin

text \<open>
  \<open>src/config/capabilities.go\<close>: the per-server cache of what a backend's own
  \<open>/v1/models\<close> listing says about its models, and the probe URL helpers of
  \<open>src/config/health.go\<close>. The network is the function \<open>net\<close>: what the backend answers
  to a probe request, or that no answer came (a request that cannot be built, an unusable
  proxy, a transport error, a timeout).
\<close>

record ProbeRequest =
  pr_url :: string
  pr_proxy :: string
  pr_headers :: "(string \<times> string) list"

record ProbeAnswer =
  pa_status :: int
  pa_retry_after :: string
  pa_body :: string

type_synonym network = "ProbeRequest \<Rightarrow> ProbeAnswer option"

definition healthProbePath :: string where "healthProbePath = ''/v1/models''"

definition probeURL :: "Server \<Rightarrow> string \<Rightarrow> string" where
  "probeURL srv path =
     (let rawURL = GetURLForAPIType srv APITypeOpenAI;
          rawURL1 = (if \<not> Contains rawURL ''://'' then ''https://'' @ rawURL else rawURL);
          u = TrimRight rawURL1 ''/'' @ path
      in ReplaceAll u ''/v1/v1'' ''/v1'')"

definition ModelsURL :: "Server \<Rightarrow> string" where
  "ModelsURL srv = probeURL srv healthProbePath"

record serverCapabilities =
  sc_fetched :: gotime
  sc_vision :: "string \<rightharpoonup> bool"
  sc_audio :: "string \<Rightarrow> bool"

record CapabilitiesCache =
  cc_ttl :: duration
  cc_entries :: "string \<rightharpoonup> serverCapabilities"

definition capabilitiesTTL :: duration where "capabilitiesTTL = 10 * Minute"

definition NewCapabilitiesCache :: CapabilitiesCache where
  "NewCapabilitiesCache = \<lparr>cc_ttl = capabilitiesTTL, cc_entries = Map.empty\<rparr>"

subsection \<open>Reading a listing\<close>

record listing_model =
  lm_id :: string
  lm_task :: string
  lm_input :: "string list option"
  lm_output :: "string list option"
  lm_supported :: "string list option"

definition listing_model_zero :: listing_model where
  "listing_model_zero = \<lparr>lm_id = [], lm_task = [], lm_input = None, lm_output = None, lm_supported = None\<rparr>"

definition dec_listing_model :: "listing_model decoder" where
  "dec_listing_model = dec_struct
     [(''id'', dec_string (\<lambda>s m. m\<lparr>lm_id := s\<rparr>)), (''task'', dec_string (\<lambda>s m. m\<lparr>lm_task := s\<rparr>)),
      (''architecture'', dec_struct
         [(''input_modalities'', dec_strings_ptr (\<lambda>l m. m\<lparr>lm_input := l\<rparr>)),
          (''output_modalities'', dec_strings_ptr (\<lambda>l m. m\<lparr>lm_output := l\<rparr>))]),
      (''supported_modalities'', dec_strings_ptr (\<lambda>l m. m\<lparr>lm_supported := l\<rparr>))]"

definition dec_listing :: "listing_model list decoder" where
  "dec_listing = dec_struct [(''data'', dec_slice dec_listing_model listing_model_zero (\<lambda>ms _. ms))]"

definition containsImageModality :: "string list option \<Rightarrow> bool" where
  "containsImageModality ms \<longleftrightarrow> (case ms of None \<Rightarrow> False | Some l \<Rightarrow> ''image'' \<in> set l)"

definition observe_model :: "listing_model \<Rightarrow> serverCapabilities \<Rightarrow> serverCapabilities" where
  "observe_model m out =
     (if lm_id m = [] then out
      else let out1 = (if lm_task m \<noteq> [] then out\<lparr>sc_audio := (sc_audio out)(lm_id m := True)\<rparr> else out)
      in if lm_input m = None \<and> lm_supported m = None then out1
         else let out2 = (case lm_output m of
                            Some emits \<Rightarrow> if ''text'' \<notin> set emits
                                          then out1\<lparr>sc_audio := (sc_audio out1)(lm_id m := True)\<rparr> else out1
                          | None \<Rightarrow> out1)
              in out2\<lparr>sc_vision := (sc_vision out2)(lm_id m \<mapsto>
                        (containsImageModality (lm_input m) \<or> containsImageModality (lm_supported m)))\<rparr>)"

definition no_capabilities :: serverCapabilities where
  "no_capabilities = \<lparr>sc_fetched = 0, sc_vision = Map.empty, sc_audio = (\<lambda>_. False)\<rparr>"

definition parseCapabilities :: "string \<Rightarrow> serverCapabilities" where
  "parseCapabilities body =
     (case decode dec_listing [] body of
        None \<Rightarrow> no_capabilities
      | Some models \<Rightarrow> fold observe_model models no_capabilities)"

subsection \<open>The cache\<close>

definition probeServerCapabilities :: "network \<Rightarrow> Server \<Rightarrow> serverCapabilities" where
  "probeServerCapabilities net srv =
     (case net \<lparr>pr_url = ModelsURL srv, pr_proxy = ProxyURL srv,
               pr_headers = (if srv_APIKey srv \<noteq> []
                 then [(''Authorization'', ''Bearer '' @ srv_APIKey srv), (''x-api-key'', srv_APIKey srv)] else [])\<rparr> of
        None \<Rightarrow> no_capabilities
      | Some a \<Rightarrow> if pa_status a \<noteq> 200 then no_capabilities
                  else parseCapabilities (take (2 ^ 20) (pa_body a)))"

text \<open>
  The lookup shared by \<open>Vision\<close> and \<open>Audio\<close>: \<open>now\<close> is the instant of the freshness test,
  \<open>probed\<close> the one at which a probe's result is stored.
\<close>

definition capabilities_entry ::
  "CapabilitiesCache \<Rightarrow> gotime \<Rightarrow> gotime \<Rightarrow> network \<Rightarrow> Server \<Rightarrow> CapabilitiesCache \<times> serverCapabilities" where
  "capabilities_entry c now probed net srv =
     (case cc_entries c (srv_ID srv) of
        Some entry \<Rightarrow>
          if now - sc_fetched entry < cc_ttl c then (c, entry)
          else (let e = (probeServerCapabilities net srv)\<lparr>sc_fetched := probed\<rparr>
                in (c\<lparr>cc_entries := (cc_entries c)(srv_ID srv \<mapsto> e)\<rparr>, e))
      | None \<Rightarrow>
          (let e = (probeServerCapabilities net srv)\<lparr>sc_fetched := probed\<rparr>
           in (c\<lparr>cc_entries := (cc_entries c)(srv_ID srv \<mapsto> e)\<rparr>, e)))"

definition Vision ::
  "CapabilitiesCache \<Rightarrow> gotime \<Rightarrow> gotime \<Rightarrow> network \<Rightarrow> Server \<Rightarrow> string \<Rightarrow> CapabilitiesCache \<times> bool option" where
  "Vision c now probed net srv model =
     (if model = [] then (c, None)
      else case capabilities_entry c now probed net srv of (c', e) \<Rightarrow> (c', sc_vision e model))"

definition Audio ::
  "CapabilitiesCache \<Rightarrow> gotime \<Rightarrow> gotime \<Rightarrow> network \<Rightarrow> Server \<Rightarrow> string \<Rightarrow> CapabilitiesCache \<times> bool option" where
  "Audio c now probed net srv model =
     (if model = [] then (c, None)
      else case capabilities_entry c now probed net srv of
             (c', e) \<Rightarrow> (c', if sc_audio e model then Some True else None))"

definition Observe :: "CapabilitiesCache \<Rightarrow> gotime \<Rightarrow> string \<Rightarrow> string \<Rightarrow> CapabilitiesCache" where
  "Observe c now serverID body =
     (if serverID = [] then c
      else c\<lparr>cc_entries := (cc_entries c)(serverID \<mapsto> (parseCapabilities body)\<lparr>sc_fetched := now\<rparr>)\<rparr>)"

subsection \<open>The cache is fail-open\<close>

lemma fold_observe_vision:
  "sc_vision (fold observe_model ms out) m =
     (case find (\<lambda>x. lm_id x = m \<and> m \<noteq> [] \<and> (lm_input x \<noteq> None \<or> lm_supported x \<noteq> None)) (rev ms) of
        Some x \<Rightarrow> Some (containsImageModality (lm_input x) \<or> containsImageModality (lm_supported x))
      | None \<Rightarrow> sc_vision out m)"
proof (induction ms rule: rev_induct)
  case Nil
  then show ?case by simp
next
  case (snoc x xs)
  then show ?case
    by (auto simp: observe_model_def Let_def split: option.splits)
qed

text \<open>
  An unknown answer stays unknown: a failed probe, an answer other than 200 or a body that
  is not a listing never makes a candidate blind or text-incapable, and it is still cached,
  so the next question inside the TTL sends no probe.
\<close>
theorem failed_probe_is_unknown_and_cached:
  assumes "cc_entries c (srv_ID srv) = None" and "0 < cc_ttl c"
    and "\<And>q a. net q = Some a \<Longrightarrow> pa_status a \<noteq> 200 \<or> decode dec_listing [] (take (2 ^ 20) (pa_body a)) = None"
    and "t \<le> t'" "t' < t + cc_ttl c"
  shows "snd (Vision c now t net srv model) = None \<and> snd (Audio c now t net srv model) = None \<and>
         (model \<noteq> [] \<longrightarrow>
           Vision (fst (Vision c now t net srv model)) t' t'' net' srv model = (fst (Vision c now t net srv model), None))"
proof -
  have "probeServerCapabilities net srv = no_capabilities"
    using assms(3) by (auto simp: probeServerCapabilities_def parseCapabilities_def split: option.splits)
  then show ?thesis
    using assms by (auto simp: Vision_def Audio_def capabilities_entry_def no_capabilities_def Let_def)
qed

theorem failed_probe_is_unknown_and_cached_witness:
  "snd (Vision NewCapabilitiesCache 5 7 (\<lambda>_. Some \<lparr>pa_status = 503, pa_retry_after = [], pa_body = ''[]''\<rparr>)
      example_server ''m'') = None"
proof -
  have a: "cc_entries NewCapabilitiesCache (srv_ID example_server) = None" "0 < cc_ttl NewCapabilitiesCache"
    by (simp_all add: NewCapabilitiesCache_def capabilitiesTTL_def duration_defs)
  show ?thesis
    by (rule failed_probe_is_unknown_and_cached [where t' = 7, OF a, THEN conjunct1])
      (simp_all add: NewCapabilitiesCache_def capabilitiesTTL_def duration_defs)
qed

end
