(* ===== verification/Health.thy ===== *)
theory Health
  imports Capabilities
begin

text \<open>
  \<open>src/config/alert.go\<close> (the deduplicating webhook alerter), \<open>src/config/health.go\<close> (the
  health tracker and its probe) and \<open>ParseRetryAfter\<close> of \<open>src/proxy/proxy.go\<close>, which the
  probe calls. A method that notifies returns the event texts in order; \<open>http.ParseTime\<close>
  is the argument \<open>parseTime\<close>. One tick of the checker reads the clock once.
\<close>

subsection \<open>The alerter\<close>

record webhookAlerter =
  wa_url :: string
  wa_sent :: "string \<rightharpoonup> gotime"

definition alertDedupWindow :: duration where "alertDedupWindow = Minute"

definition NewWebhookAlerter :: "AlertSettings \<Rightarrow> webhookAlerter option" where
  "NewWebhookAlerter s =
     (if al_Webhook s = [] then None else Some \<lparr>wa_url = al_Webhook s, wa_sent = Map.empty\<rparr>)"

text \<open>The second component is whether the webhook is posted.\<close>

definition Notify :: "webhookAlerter \<Rightarrow> gotime \<Rightarrow> string \<Rightarrow> webhookAlerter \<times> bool" where
  "Notify a now event =
     (if event = [] then (a, False)
      else if (case wa_sent a event of None \<Rightarrow> False | Some last_at \<Rightarrow> now - last_at < alertDedupWindow)
      then (a, False)
      else (a\<lparr>wa_sent := (wa_sent a)(event \<mapsto> now)\<rparr>, True))"

fun notify_all :: "webhookAlerter \<Rightarrow> (gotime \<times> string) list \<Rightarrow> (gotime \<times> string) list" where
  "notify_all a [] = []"
| "notify_all a ((now, e) # es) =
     (case Notify a now e of (a', posted) \<Rightarrow> (if posted then [(now, e)] else []) @ notify_all a' es)"

lemma notify_all_subset: "set (notify_all a es) \<subseteq> set es"
  by (induction a es rule: notify_all.induct) (auto split: prod.splits if_splits)

lemma notify_all_after:
  assumes "sorted (map fst es)" "wa_sent a e = Some t" "(t', e) \<in> set (notify_all a es)"
  shows "t + alertDedupWindow \<le> t'"
  using assms
proof (induction es arbitrary: a t)
  case Nil
  then show ?case by simp
next
  case (Cons x es)
  obtain now f where x: "x = (now, f)" by (cases x)
  obtain a' p where n: "Notify a now f = (a', p)" by (cases "Notify a now f")
  show ?case
  proof (cases "p \<and> f = e")
    case True
    then have "t + alertDedupWindow \<le> now"
      using n Cons.prems(2) by (auto simp: Notify_def split: if_splits)
    moreover have "(t', e) \<in> set (x # es)"
      using Cons.prems(3) notify_all_subset [of a "x # es"] by blast
    then have "now \<le> t'" using Cons.prems(1) by (auto simp: x)
    ultimately show ?thesis by simp
  next
    case False
    then have s: "wa_sent a' e = Some t"
      using n Cons.prems(2) by (auto simp: Notify_def split: if_splits)
    have "(t', e) \<in> set (notify_all a' es)"
      using Cons.prems(3) n False by (auto simp: x split: if_splits)
    then show ?thesis using Cons.IH [OF _ s] Cons.prems(1) by (simp add: x)
  qed
qed

text \<open>
  A wedged backend does not send one alert per request: whatever events are raised, two
  posts of the same text are at least the deduplication window (one minute) apart.
\<close>
theorem alerts_spaced:
  assumes "sorted (map fst es)"
  shows "sorted_wrt (\<lambda>x y. snd x = snd y \<longrightarrow> fst x + alertDedupWindow \<le> fst y) (notify_all a es)"
  using assms
proof (induction a es rule: notify_all.induct)
  case (2 a now e es)
  obtain a' p where n: "Notify a now e = (a', p)" by (cases "Notify a now e")
  have IH: "sorted_wrt (\<lambda>x y. snd x = snd y \<longrightarrow> fst x + alertDedupWindow \<le> fst y) (notify_all a' es)"
    using 2 n by simp
  have "now + alertDedupWindow \<le> fst y" if "p" "y \<in> set (notify_all a' es)" "snd y = e" for y
  proof -
    have "wa_sent a' e = Some now" using n that(1) by (auto simp: Notify_def split: if_splits)
    then show ?thesis using notify_all_after [of es a' e now "fst y"] that 2(2) by (cases y) simp
  qed
  then show ?case using IH n by auto
qed simp

theorem alerts_spaced_witness:
  "sorted_wrt (\<lambda>x y. snd x = snd y \<longrightarrow> fst x + alertDedupWindow \<le> fst y)
     (notify_all \<lparr>wa_url = ''u'', wa_sent = Map.empty\<rparr> [(1, ''down''), (2, ''down''), (90 * Second, ''down'')])"
proof -
  have "sorted (map fst [(1::int, ''down''), (2, ''down''), (90 * Second, ''down'')])"
    by (simp add: Second_def)
  then show ?thesis by (rule alerts_spaced)
qed

subsection \<open>Retry-After\<close>

definition ParseRetryAfter :: "(string \<Rightarrow> gotime option) \<Rightarrow> gotime \<Rightarrow> string \<Rightarrow> duration" where
  "ParseRetryAfter parseTime now v =
     (if v = [] then 0
      else case ParseInt v of
             Some secs \<Rightarrow> if secs \<le> 0 then 0 else wrap64 (secs * Second)
           | None \<Rightarrow>
               (case parseTime v of
                  Some at_time \<Rightarrow> if at_time - now > 0 then at_time - now else 0
                | None \<Rightarrow> 0))"

subsection \<open>The tracker\<close>

record HealthTracker =
  ht_status :: "string \<rightharpoonup> bool"
  ht_throttled :: "string \<rightharpoonup> gotime"
  ht_alerter :: bool
  ht_interval :: duration
  ht_timeout :: duration
  ht_probePath :: string

definition healthProbeTimeout :: duration where "healthProbeTimeout = 5 * Second"

definition NewHealthTracker :: "duration \<Rightarrow> HealthTracker" where
  "NewHealthTracker interval =
     \<lparr>ht_status = Map.empty, ht_throttled = Map.empty, ht_alerter = False, ht_interval = interval,
      ht_timeout = healthProbeTimeout, ht_probePath = healthProbePath\<rparr>"

definition SetProbe :: "HealthTracker \<Rightarrow> string \<Rightarrow> duration \<Rightarrow> HealthTracker" where
  "SetProbe t path timeout =
     (let t1 = (if path \<noteq> [] then t\<lparr>ht_probePath := path\<rparr> else t)
      in if timeout > 0 then t1\<lparr>ht_timeout := timeout\<rparr> else t1)"

definition SetInterval :: "HealthTracker \<Rightarrow> duration \<Rightarrow> HealthTracker" where
  "SetInterval t interval = (if interval \<le> 0 then t else t\<lparr>ht_interval := interval\<rparr>)"

definition ht_SetAlerter :: "HealthTracker \<Rightarrow> bool \<Rightarrow> HealthTracker" where
  "ht_SetAlerter t installed = t\<lparr>ht_alerter := installed\<rparr>"

definition Start :: "HealthTracker \<Rightarrow> Config \<Rightarrow> HealthTracker" where
  "Start t cfg = fold (\<lambda>(i, _) t. t\<lparr>ht_status := (ht_status t)(i \<mapsto> True)\<rparr>) (cfg_Servers cfg) t"

definition IsHealthy :: "HealthTracker \<Rightarrow> string \<Rightarrow> bool" where
  "IsHealthy t i \<longleftrightarrow> ht_status t i = Some True"

definition MarkHealthy :: "HealthTracker \<Rightarrow> string \<Rightarrow> HealthTracker \<times> string list" where
  "MarkHealthy t i =
     (let wasDown = (ht_status t i = Some False)
      in (t\<lparr>ht_status := (ht_status t)(i \<mapsto> True), ht_throttled := (ht_throttled t)(i := None)\<rparr>,
          if wasDown \<and> ht_alerter t then [''server '' @ i @ '' is back''] else []))"

definition MarkUnhealthy :: "HealthTracker \<Rightarrow> string \<Rightarrow> HealthTracker \<times> string list" where
  "MarkUnhealthy t i =
     (let wasUp = IsHealthy t i
      in (t\<lparr>ht_status := (ht_status t)(i \<mapsto> False)\<rparr>,
          if wasUp \<and> ht_alerter t then [''server '' @ i @ '' is down''] else []))"

definition GetStatus :: "HealthTracker \<Rightarrow> string \<rightharpoonup> bool" where
  "GetStatus t = ht_status t"

definition forgetRemoved :: "HealthTracker \<Rightarrow> Config \<Rightarrow> HealthTracker" where
  "forgetRemoved t cfg =
     t\<lparr>ht_status := (\<lambda>i. if gm_get (cfg_Servers cfg) i = None then None else ht_status t i),
       ht_throttled := (\<lambda>i. if ht_status t i \<noteq> None \<and> gm_get (cfg_Servers cfg) i = None
                            then None else ht_throttled t i)\<rparr>"

definition checkServer ::
  "(string \<Rightarrow> gotime option) \<Rightarrow> network \<Rightarrow> gotime \<Rightarrow> HealthTracker \<Rightarrow> CapabilitiesCache \<Rightarrow> Server
   \<Rightarrow> HealthTracker \<times> CapabilitiesCache \<times> bool" where
  "checkServer parseTime net now t caps srv =
     (case net \<lparr>pr_url = probeURL srv (ht_probePath t), pr_proxy = ProxyURL srv,
               pr_headers = (if srv_APIKey srv \<noteq> [] then [(''Authorization'', ''Bearer '' @ srv_APIKey srv)] else [])\<rparr> of
        None \<Rightarrow> (t, caps, False)
      | Some a \<Rightarrow>
          if pa_status a = 200 then (t, Observe caps now (srv_ID srv) (take (2 ^ 20) (pa_body a)), True)
          else if pa_status a = 429 then
            (let d = ParseRetryAfter parseTime now (pa_retry_after a)
             in (if d > 0 then t\<lparr>ht_throttled := (ht_throttled t)(srv_ID srv \<mapsto> now + d)\<rparr> else t, caps, True))
          else if pa_status a = 401 \<or> pa_status a = 403 then (t, caps, True)
          else (t, caps, False))"

text \<open>One server of a tick: what is probed, and the alerts raised.\<close>

definition check_one ::
  "(string \<Rightarrow> gotime option) \<Rightarrow> network \<Rightarrow> gotime \<Rightarrow> string \<times> Server
   \<Rightarrow> HealthTracker \<times> CapabilitiesCache \<times> string list \<Rightarrow> HealthTracker \<times> CapabilitiesCache \<times> string list" where
  "check_one parseTime net now entry st =
     (case (entry, st) of ((i, srv), (t, caps, events)) \<Rightarrow>
        if IsHealthy t i then (t, caps, events)
        else if (case ht_throttled t i of None \<Rightarrow> False | Some until_at \<Rightarrow> now < until_at) then (t, caps, events)
        else case checkServer parseTime net now t caps srv of
          (t1, caps1, up) \<Rightarrow>
            if up then (case MarkHealthy t1 i of (t2, ev) \<Rightarrow> (t2, caps1, events @ ev))
            else (t1, caps1, events))"

definition checkAll ::
  "(string \<Rightarrow> gotime option) \<Rightarrow> network \<Rightarrow> gotime \<Rightarrow> Config \<Rightarrow> HealthTracker \<Rightarrow> CapabilitiesCache
   \<Rightarrow> HealthTracker \<times> CapabilitiesCache \<times> string list" where
  "checkAll parseTime net now cfg t caps =
     fold (check_one parseTime net now) (cfg_Servers cfg) (forgetRemoved t cfg, caps, [])"

subsection \<open>Edge-triggered alerts\<close>

datatype ht_op =
    HUp string
  | HDown string
  | HTick gotime network Config

type_synonym ht_state = "HealthTracker \<times> CapabilitiesCache \<times> string list"

fun ht_step :: "(string \<Rightarrow> gotime option) \<Rightarrow> ht_op \<Rightarrow> ht_state \<Rightarrow> ht_state" where
  "ht_step pt (HUp i) (t, caps, ev) = (case MarkHealthy t i of (t', ev') \<Rightarrow> (t', caps, ev @ ev'))"
| "ht_step pt (HDown i) (t, caps, ev) = (case MarkUnhealthy t i of (t', ev') \<Rightarrow> (t', caps, ev @ ev'))"
| "ht_step pt (HTick now net cfg) (t, caps, ev) =
     (case checkAll pt net now cfg t caps of (t', caps', ev') \<Rightarrow> (t', caps', ev @ ev'))"

definition ht_run :: "(string \<Rightarrow> gotime option) \<Rightarrow> ht_op list \<Rightarrow> ht_state \<Rightarrow> ht_state" where
  "ht_run pt ops st = fold (ht_step pt) ops st"

definition down_event :: "string \<Rightarrow> string" where "down_event i = ''server '' @ i @ '' is down''"
definition back_event :: "string \<Rightarrow> string" where "back_event i = ''server '' @ i @ '' is back''"

definition edges :: "string \<Rightarrow> string list \<Rightarrow> string list" where
  "edges i ev = filter (\<lambda>e. e = down_event i \<or> e = back_event i) ev"

lemma event_texts [simp]:
  "down_event i = down_event j \<longleftrightarrow> i = j" "back_event i = back_event j \<longleftrightarrow> i = j"
  "down_event i \<noteq> back_event j" "back_event i \<noteq> down_event j"
  by (simp_all add: down_event_def back_event_def)

definition edge_inv :: "string \<Rightarrow> HealthTracker \<Rightarrow> string list \<Rightarrow> bool" where
  "edge_inv i t ev \<longleftrightarrow> distinct_adj (edges i ev) \<and>
     (edges i ev = [] \<or> (last (edges i ev) = down_event i \<and> ht_status t i = Some False)
      \<or> (last (edges i ev) = back_event i \<and> ht_status t i = Some True))"

lemma edge_inv_snoc:
  assumes "edge_inv i t ev"
  shows "ht_status t i = Some True \<Longrightarrow> ht_status t' i = Some False \<Longrightarrow> edge_inv i t' (ev @ [down_event i])"
    and "ht_status t i = Some False \<Longrightarrow> ht_status t' i = Some True \<Longrightarrow> edge_inv i t' (ev @ [back_event i])"
    and "ht_status t' i = ht_status t i \<Longrightarrow> edge_inv i t' ev"
  using assms by (auto simp: edge_inv_def edges_def distinct_adj_append_iff)

lemma MarkHealthy_edges:
  assumes "edge_inv i t ev" "ht_alerter t"
  shows "edge_inv i (fst (MarkHealthy t j)) (ev @ snd (MarkHealthy t j))"
proof (cases "j = i \<and> ht_status t i = Some False")
  case True
  then show ?thesis
    using edge_inv_snoc(2) [OF assms(1), of "fst (MarkHealthy t j)"] assms(2)
    by (simp add: MarkHealthy_def back_event_def)
next
  case False
  have "edges i (ev @ snd (MarkHealthy t j)) = edges i ev"
    using False event_texts(2) [of j i] event_texts(4) [of j i]
    by (auto simp: edges_def MarkHealthy_def back_event_def down_event_def)
  moreover have "ht_status (fst (MarkHealthy t j)) i = ht_status t i \<or>
      (ht_status t i = None \<and> ht_status (fst (MarkHealthy t j)) i = Some True)"
    using False by (cases "ht_status t i") (auto simp: MarkHealthy_def)
  ultimately show ?thesis using assms(1) by (auto simp: edge_inv_def)
qed

lemma MarkUnhealthy_edges:
  assumes "edge_inv i t ev" "ht_alerter t"
  shows "edge_inv i (fst (MarkUnhealthy t j)) (ev @ snd (MarkUnhealthy t j))"
proof (cases "j = i \<and> ht_status t i = Some True")
  case True
  then show ?thesis
    using edge_inv_snoc(1) [OF assms(1), of "fst (MarkUnhealthy t j)"] assms(2)
    by (simp add: MarkUnhealthy_def IsHealthy_def down_event_def)
next
  case False
  have "edges i (ev @ snd (MarkUnhealthy t j)) = edges i ev"
    using False event_texts(1) [of j i] event_texts(3) [of j i]
    by (auto simp: edges_def MarkUnhealthy_def IsHealthy_def back_event_def down_event_def)
  moreover have "ht_status (fst (MarkUnhealthy t j)) i = ht_status t i \<or>
      (ht_status t i = None \<and> ht_status (fst (MarkUnhealthy t j)) i = Some False)"
    using False by (cases "ht_status t i") (auto simp: MarkUnhealthy_def)
  ultimately show ?thesis using assms(1) by (auto simp: edge_inv_def)
qed

lemma Mark_alerter [simp]:
  "ht_alerter (fst (MarkHealthy t j)) = ht_alerter t" "ht_alerter (fst (MarkUnhealthy t j)) = ht_alerter t"
  by (simp_all add: MarkHealthy_def MarkUnhealthy_def)

lemma checkServer_frame:
  "ht_status (fst (checkServer pt net now t caps srv)) = ht_status t"
  "ht_alerter (fst (checkServer pt net now t caps srv)) = ht_alerter t"
  "ht_probePath (fst (checkServer pt net now t caps srv)) = ht_probePath t"
  by (auto simp: checkServer_def Let_def split: option.split)

text \<open>The tracker's part of one server of a tick, through its two primitive steps.\<close>

lemma check_one_cases:
  obtains (kept) caps' where "check_one pt net now (j, srv) (t, caps, ev) = (t, caps', ev)"
    | (marked) t1 caps' where "check_one pt net now (j, srv) (t, caps, ev) =
        (fst (MarkHealthy t1 j), caps', ev @ snd (MarkHealthy t1 j))"
      "ht_status t1 = ht_status t" "ht_alerter t1 = ht_alerter t" "ht_probePath t1 = ht_probePath t"
      "\<And>k. k \<noteq> srv_ID srv \<Longrightarrow> ht_throttled t1 k = ht_throttled t k"
proof -
  obtain t1 caps1 up where c: "checkServer pt net now t caps srv = (t1, caps1, up)"
    by (metis prod_cases3)
  have up: "\<not> up \<Longrightarrow> t1 = t"
    using c by (auto simp: checkServer_def Let_def split: option.splits if_splits)
  have th: "\<And>k. k \<noteq> srv_ID srv \<Longrightarrow> ht_throttled t1 k = ht_throttled t k"
    using c by (auto simp: checkServer_def Let_def split: option.splits if_splits)
  have fr: "ht_status t1 = ht_status t" "ht_alerter t1 = ht_alerter t" "ht_probePath t1 = ht_probePath t"
    using checkServer_frame [of pt net now t caps srv] c by simp_all
  show thesis
  proof (cases "IsHealthy t j \<or> (case ht_throttled t j of None \<Rightarrow> False | Some u \<Rightarrow> now < u)")
    case True
    then show thesis by (intro kept [of caps]) (auto simp: check_one_def)
  next
    case False
    show thesis
    proof (cases up)
      case True
      then show thesis using False c fr th
        by (intro marked [of t1 caps1]) (auto simp: check_one_def split: prod.splits)
    next
      case down: False
      then show thesis using False c up by (intro kept [of caps1]) (auto simp: check_one_def)
    qed
  qed
qed

lemma check_all_invariant:
  assumes start: "P (forgetRemoved t cfg) ev0"
    and marks: "\<And>j srv t1 t ev. (j, srv) \<in> set (cfg_Servers cfg) \<Longrightarrow> P t ev \<Longrightarrow>
       ht_status t1 = ht_status t \<Longrightarrow> ht_alerter t1 = ht_alerter t \<Longrightarrow> ht_probePath t1 = ht_probePath t \<Longrightarrow>
       (\<And>k. k \<noteq> srv_ID srv \<Longrightarrow> ht_throttled t1 k = ht_throttled t k) \<Longrightarrow>
       P (fst (MarkHealthy t1 j)) (ev @ snd (MarkHealthy t1 j))"
  shows "case checkAll pt net now cfg t caps of (t', _, ev') \<Rightarrow> P t' (ev0 @ ev')"
proof -
  have "case fold (check_one pt net now) es (t, caps, ev) of (t', _, ev') \<Rightarrow> P t' (ev0 @ ev')"
    if "set es \<subseteq> set (cfg_Servers cfg)" "P t (ev0 @ ev)" for es t caps ev
    using that
  proof (induction es arbitrary: t caps ev)
    case Nil
    then show ?case by simp
  next
    case (Cons e es)
    obtain j srv where e: "e = (j, srv)" by (cases e)
    show ?case
    proof (cases rule: check_one_cases [of pt net now j srv t caps ev])
      case (kept caps')
      then show ?thesis using Cons by (simp add: e)
    next
      case (marked t1 caps')
      have "P (fst (MarkHealthy t1 j)) ((ev0 @ ev) @ snd (MarkHealthy t1 j))"
        using Cons.prems marked(2-5) by (intro marks [of j srv t]) (auto simp: e)
      then show ?thesis using Cons marked(1) by (simp add: e)
    qed
  qed
  from this [of "cfg_Servers cfg" "forgetRemoved t cfg" "[]" caps] start show ?thesis
    by (simp add: checkAll_def)
qed

lemma checkAll_edges:
  assumes "edge_inv i t ev" "ht_alerter t" "gm_get (cfg_Servers cfg) i \<noteq> None"
  shows "case checkAll pt net now cfg t caps of (t', _, ev') \<Rightarrow> edge_inv i t' (ev @ ev') \<and> ht_alerter t'"
proof (rule check_all_invariant)
  show "edge_inv i (forgetRemoved t cfg) ev \<and> ht_alerter (forgetRemoved t cfg)"
    using assms by (auto simp: edge_inv_def forgetRemoved_def)
next
  fix j srv and t1 t :: HealthTracker and ev
  assume "edge_inv i t ev \<and> ht_alerter t" "ht_status t1 = ht_status t" "ht_alerter t1 = ht_alerter t"
  then show "edge_inv i (fst (MarkHealthy t1 j)) (ev @ snd (MarkHealthy t1 j)) \<and> ht_alerter (fst (MarkHealthy t1 j))"
    using MarkHealthy_edges [of i t1 ev j] by (simp add: edge_inv_def)
qed

text \<open>
  Health alerts are edge-triggered: over any interleaving of request outcomes and probe
  ticks, as long as a server stays configured, its \<open>is down\<close> and \<open>is back\<close> notices
  alternate, and the last one names the state the tracker holds.
\<close>
theorem health_alerts_alternate:
  assumes "\<forall>now net cfg. HTick now net cfg \<in> set ops \<longrightarrow> gm_get (cfg_Servers cfg) i \<noteq> None"
  shows "case ht_run pt ops (ht_SetAlerter (Start (NewHealthTracker interval) cfg0) True, caps, []) of
     (t, _, ev) \<Rightarrow> distinct_adj (edges i ev) \<and>
       (edges i ev = [] \<or> (last (edges i ev) = back_event i \<longleftrightarrow> IsHealthy t i))"
proof -
  have "case ht_run pt ops (t, caps, ev) of (t', _, ev') \<Rightarrow> edge_inv i t' ev'"
    if "edge_inv i t ev" "ht_alerter t" for t caps ev
    using that assms
  proof (induction ops arbitrary: t caps ev)
    case Nil
    then show ?case by (simp add: ht_run_def)
  next
    case (Cons x ops)
    obtain t' caps' ev' where s: "ht_step pt x (t, caps, ev) = (t', caps', ev')" by (metis prod_cases3)
    have "edge_inv i t' ev' \<and> ht_alerter t'"
    proof (cases x)
      case (HUp j)
      then show ?thesis using s Cons.prems MarkHealthy_edges [of i t ev j] Mark_alerter(1) [of t j]
        by (cases "MarkHealthy t j") auto
    next
      case (HDown j)
      then show ?thesis using s Cons.prems MarkUnhealthy_edges [of i t ev j] Mark_alerter(2) [of t j]
        by (cases "MarkUnhealthy t j") auto
    next
      case (HTick now net cfg)
      then have "gm_get (cfg_Servers cfg) i \<noteq> None" using Cons.prems(3) by auto
      from checkAll_edges [OF Cons.prems(1,2) this, of pt net now caps] show ?thesis
        using s HTick by (auto split: prod.splits)
    qed
    then show ?case using Cons.IH [of t' ev' caps'] Cons.prems(3) s by (simp add: ht_run_def)
  qed
  from this [of "ht_SetAlerter (Start (NewHealthTracker interval) cfg0) True" "[]" caps]
  have "case ht_run pt ops (ht_SetAlerter (Start (NewHealthTracker interval) cfg0) True, caps, []) of
     (t, _, ev) \<Rightarrow> edge_inv i t ev"
    by (simp add: edge_inv_def edges_def ht_SetAlerter_def)
  then show ?thesis by (auto simp: edge_inv_def IsHealthy_def split: prod.splits)
qed

theorem health_alerts_alternate_witness:
  "case ht_run (\<lambda>_. None) [HUp ''a'', HDown ''a'', HDown ''a'', HUp ''a'']
      (ht_SetAlerter (Start (NewHealthTracker 30) example_config) True, NewCapabilitiesCache, []) of
     (t, _, ev) \<Rightarrow> distinct_adj (edges ''a'' ev)"
  using health_alerts_alternate
    [of "[HUp ''a'', HDown ''a'', HDown ''a'', HUp ''a'']" "''a''" "\<lambda>_. None" 30 example_config NewCapabilitiesCache]
  by (auto split: prod.splits)

subsection \<open>Recovery\<close>

definition probe_request :: "HealthTracker \<Rightarrow> Server \<Rightarrow> ProbeRequest" where
  "probe_request t srv =
     \<lparr>pr_url = probeURL srv (ht_probePath t), pr_proxy = ProxyURL srv,
      pr_headers = (if srv_APIKey srv \<noteq> [] then [(''Authorization'', ''Bearer '' @ srv_APIKey srv)] else [])\<rparr>"

definition answers_probe :: "network \<Rightarrow> HealthTracker \<Rightarrow> Server \<Rightarrow> bool" where
  "answers_probe net t srv \<longleftrightarrow>
     (case net (probe_request t srv) of None \<Rightarrow> False | Some a \<Rightarrow> pa_status a \<in> {200, 401, 403, 429})"

definition throttled_at :: "HealthTracker \<Rightarrow> gotime \<Rightarrow> string \<Rightarrow> bool" where
  "throttled_at t now i \<longleftrightarrow> (case ht_throttled t i of None \<Rightarrow> False | Some u \<Rightarrow> now < u)"

lemma checkServer_up: "snd (snd (checkServer pt net now t caps srv)) \<longleftrightarrow> answers_probe net t srv"
  by (auto simp: checkServer_def answers_probe_def probe_request_def Let_def split: option.split)

lemma check_one_status:
  "ht_status (fst (check_one pt net now (j, srv) (t, caps, ev))) i =
     (if i = j \<and> \<not> IsHealthy t j \<and> \<not> throttled_at t now j \<and> answers_probe net t srv
      then Some True else ht_status t i)"
  using checkServer_up [of pt net now t caps srv] checkServer_frame(1) [of pt net now t caps srv]
  by (cases "checkServer pt net now t caps srv")
    (auto simp: check_one_def throttled_at_def MarkHealthy_def split: prod.splits)

lemma check_one_frame:
  "ht_probePath (fst (check_one pt net now (j, srv) (t, caps, ev))) = ht_probePath t"
  "i \<noteq> j \<Longrightarrow> i \<noteq> srv_ID srv \<Longrightarrow>
     ht_throttled (fst (check_one pt net now (j, srv) (t, caps, ev))) i = ht_throttled t i"
  by (cases rule: check_one_cases [of pt net now j srv t caps ev], simp, simp add: MarkHealthy_def)+

definition keyed_by_id :: "Config \<Rightarrow> bool" where
  "keyed_by_id cfg \<longleftrightarrow> gm_wf (cfg_Servers cfg) \<and> (\<forall>e \<in> set (cfg_Servers cfg). srv_ID (snd e) = fst e)"

lemma fold_check_status:
  assumes "gm_wf es" "\<forall>e \<in> set es. srv_ID (snd e) = fst e"
  shows "IsHealthy (fst (fold (check_one pt net now) es (t, caps, ev))) i \<longleftrightarrow>
     IsHealthy t i \<or> (\<exists>srv. gm_get es i = Some srv \<and> \<not> throttled_at t now i \<and> answers_probe net t srv)"
  using assms
proof (induction es arbitrary: t caps ev)
  case Nil
  then show ?case by simp
next
  case (Cons e es)
  obtain j srv where e: "e = (j, srv)" by (cases e)
  obtain t1 caps1 ev1 where s: "check_one pt net now (j, srv) (t, caps, ev) = (t1, caps1, ev1)"
    by (metis prod_cases3)
  have id: "srv_ID srv = j" and fresh: "gm_get es j = None"
    using Cons.prems by (auto simp: e map_of_eq_None_iff)
  have "ht_probePath t1 = ht_probePath t" "i \<noteq> j \<Longrightarrow> ht_throttled t1 i = ht_throttled t i"
    using check_one_frame(1) [of pt net now j srv t caps ev]
      check_one_frame(2) [of i j srv pt net now t caps ev] s id by auto
  then have "answers_probe net t1 = answers_probe net t"
    "i \<noteq> j \<Longrightarrow> throttled_at t1 now i = throttled_at t now i"
    by (auto simp: answers_probe_def probe_request_def throttled_at_def fun_eq_iff)
  moreover have "IsHealthy t1 i \<longleftrightarrow>
      IsHealthy t i \<or> (i = j \<and> \<not> throttled_at t now j \<and> answers_probe net t srv)"
    using check_one_status [of pt net now j srv t caps ev i] s by (auto simp: IsHealthy_def)
  ultimately show ?case
    using Cons.IH [of t1 caps1 ev1] Cons.prems s fresh by (auto simp: e)
qed

text \<open>
  What a probe tick does to every server's health: a configured server is up afterwards
  exactly when it was up before, or its probe was answered with 200, 401, 403 or 429 (an
  answer that refuses us is not an outage); a server that left the configuration is
  forgotten; no tick ever takes a healthy server down.
\<close>
theorem checkAll_health:
  assumes "keyed_by_id cfg"
  shows "IsHealthy (fst (checkAll pt net now cfg t caps)) i \<longleftrightarrow>
     (\<exists>srv. gm_get (cfg_Servers cfg) i = Some srv \<and>
        (IsHealthy t i \<or> (\<not> throttled_at t now i \<and> answers_probe net t srv)))"
proof -
  have "IsHealthy (fst (checkAll pt net now cfg t caps)) i \<longleftrightarrow>
      IsHealthy (forgetRemoved t cfg) i \<or>
      (\<exists>srv. gm_get (cfg_Servers cfg) i = Some srv \<and> \<not> throttled_at (forgetRemoved t cfg) now i
        \<and> answers_probe net (forgetRemoved t cfg) srv)"
    unfolding checkAll_def using assms by (intro fold_check_status) (simp_all add: keyed_by_id_def)
  moreover have "answers_probe net (forgetRemoved t cfg) = answers_probe net t"
    by (simp add: answers_probe_def probe_request_def forgetRemoved_def fun_eq_iff)
  moreover have "gm_get (cfg_Servers cfg) i \<noteq> None \<Longrightarrow>
      throttled_at (forgetRemoved t cfg) now i = throttled_at t now i"
    by (auto simp: throttled_at_def forgetRemoved_def)
  moreover have "IsHealthy (forgetRemoved t cfg) i \<longleftrightarrow> IsHealthy t i \<and> gm_get (cfg_Servers cfg) i \<noteq> None"
    by (simp add: IsHealthy_def forgetRemoved_def)
  ultimately show ?thesis by fastforce
qed

lemma example_config_keyed: "keyed_by_id example_config"
  by (simp add: keyed_by_id_def example_config_def example_server_def)

theorem checkAll_health_witness:
  "IsHealthy (fst (checkAll (\<lambda>_. None)
      (\<lambda>_. Some \<lparr>pa_status = 401, pa_retry_after = [], pa_body = []\<rparr>) 5 example_config
      (fst (MarkUnhealthy (NewHealthTracker 30) ''a'')) NewCapabilitiesCache)) ''a''"
  using checkAll_health [OF example_config_keyed, of "\<lambda>_. None"
      "\<lambda>_. Some \<lparr>pa_status = 401, pa_retry_after = [], pa_body = []\<rparr>" 5
      "fst (MarkUnhealthy (NewHealthTracker 30) ''a'')" NewCapabilitiesCache "''a''"]
  by (simp add: example_config_def throttled_at_def answers_probe_def MarkUnhealthy_def NewHealthTracker_def)

text \<open>
  The Retry-After window of a throttled probe is never obeyed: \<open>checkServer\<close> stores it and
  reports the server up, and the \<open>MarkHealthy\<close> that follows at once deletes it, so no tick of
  any run finds a throttle entry and the branch that skips a probe is dead.
\<close>
theorem throttle_window_never_applies:
  assumes "\<forall>now net cfg. HTick now net cfg \<in> set ops \<longrightarrow> keyed_by_id cfg"
  shows "ht_throttled (fst (ht_run pt ops (Start (NewHealthTracker interval) cfg0, caps, []))) = Map.empty"
proof -
  have "ht_throttled (fst (ht_run pt ops (t, caps, ev))) = Map.empty"
    if "ht_throttled t = Map.empty" for t caps ev
    using that assms
  proof (induction ops arbitrary: t caps ev)
    case Nil
    then show ?case by (simp add: ht_run_def)
  next
    case (Cons x ops)
    obtain t' caps' ev' where s: "ht_step pt x (t, caps, ev) = (t', caps', ev')" by (metis prod_cases3)
    have "ht_throttled t' = Map.empty"
    proof (cases x)
      case (HTick now net cfg)
      then have keyed: "\<forall>e \<in> set (cfg_Servers cfg). srv_ID (snd e) = fst e"
        using Cons.prems by (auto simp: keyed_by_id_def)
      have "case checkAll pt net now cfg t caps of (t', _, ev') \<Rightarrow> ht_throttled t' = Map.empty"
        by (rule check_all_invariant [where P = "\<lambda>t _. ht_throttled t = Map.empty"])
          (use Cons.prems(1) keyed in \<open>auto simp: forgetRemoved_def MarkHealthy_def fun_eq_iff\<close>)
      then show ?thesis using s HTick by (auto split: prod.splits)
    qed (use s Cons.prems(1) in \<open>auto simp: MarkHealthy_def MarkUnhealthy_def\<close>)
    then show ?case using Cons.IH [of t' caps' ev'] Cons.prems(2) s by (simp add: ht_run_def)
  qed
  moreover have "ht_throttled (Start (NewHealthTracker interval) cfg0) = Map.empty"
  proof -
    have "ht_throttled (fold (\<lambda>(i, _) t. t\<lparr>ht_status := (ht_status t)(i \<mapsto> True)\<rparr>) es t) = ht_throttled t"
      for es :: "(string \<times> Server) list" and t :: HealthTracker
      by (induction es arbitrary: t) auto
    then show ?thesis by (simp add: Start_def NewHealthTracker_def)
  qed
  ultimately show ?thesis by simp
qed

theorem throttle_window_never_applies_witness:
  "ht_throttled (fst (ht_run (\<lambda>_. None)
     [HDown ''a'', HTick 5 (\<lambda>_. Some \<lparr>pa_status = 429, pa_retry_after = ''30'', pa_body = []\<rparr>) example_config]
     (Start (NewHealthTracker 30) example_config, NewCapabilitiesCache, []))) = Map.empty"
  by (rule throttle_window_never_applies) (simp add: example_config_keyed)

end
