(* ===== verification/Prometheus.thy ===== *)
theory Prometheus
  imports Metrics RateLimit Health
begin

text \<open>
  \<open>src/metrics/prometheus.go\<close> and \<open>serverStateMetrics\<close> of \<open>src/main.go\<close>: the text a
  scrape of \<open>/metrics\<close> gets. The order in which Go walks the summaries is an argument (a list
  of their keys), and so is \<open>strconv.FormatFloat\<close>, of which the development uses only that a
  number is rendered without a line break. The reader of the exposition format, which gives
  the written text its meaning, is the specification.
\<close>

subsection \<open>Writing\<close>

definition escape_char :: "char \<Rightarrow> string" where
  "escape_char c =
     (if c = CHR 0x5C then [CHR 0x5C, CHR 0x5C] else if c = CHR 0x22 then [CHR 0x5C, CHR 0x22]
      else if c = CHR 0x0A then [CHR 0x5C, CHR ''n''] else [c])"

definition escapeLabel :: "string \<Rightarrow> string" where
  "escapeLabel v = concat (map escape_char v)"

definition groupLabels :: "string \<Rightarrow> string" where
  "groupLabels key =
     (if HasPrefix key ''server:'' then ''server=\"'' @ escapeLabel (TrimPrefix key ''server:'') @ ''\"''
      else if HasPrefix key ''target:'' then
        (let after = TrimPrefix key ''target:'' in
         case Cut after '':'' of (server, target, found) \<Rightarrow>
           if \<not> found then ''server=\"'' @ escapeLabel after @ ''\"''
           else ''server=\"'' @ escapeLabel server @ ''\",target_model=\"'' @ escapeLabel target @ ''\"'')
      else if HasPrefix key ''class:'' then ''class=\"'' @ escapeLabel (TrimPrefix key ''class:'') @ ''\"''
      else if key \<noteq> [] then ''model=\"'' @ escapeLabel key @ ''\"''
      else [])"

definition formatFloat :: "(gofloat \<Rightarrow> string) \<Rightarrow> gofloat \<Rightarrow> string" where
  "formatFloat g f = (if f = NaN \<or> f = PInf then ''0'' else g f)"

text \<open>The two comment lines in front of a family.\<close>

definition head_lines :: "string \<Rightarrow> string \<Rightarrow> string \<Rightarrow> string" where
  "head_lines name help typ =
     ''# HELP '' @ name @ '' '' @ help @ [CHR 0x0A] @ ''# TYPE '' @ name @ '' '' @ typ @ [CHR 0x0A]"

definition emit :: "string \<Rightarrow> string \<Rightarrow> string \<Rightarrow> string \<Rightarrow> string \<Rightarrow> string" where
  "emit name help typ labels val =
     head_lines name help typ @ name @ ''{'' @ labels @ ''} '' @ val @ [CHR 0x0A]"

text \<open>The families with one sample per group: name, help, type and value.\<close>

definition plain_families :: "(gofloat \<Rightarrow> string) \<Rightarrow> Summary \<Rightarrow> (string \<times> string \<times> string \<times> string) list" where
  "plain_families g s =
    [(''llm_router_requests_total'', ''Total requests routed.'', ''counter'', Itoa (sum_TotalRequests s)),
     (''llm_router_requests_success_total'', ''Successful (2xx) requests.'', ''counter'', Itoa (sum_SuccessCount s)),
     (''llm_router_requests_errors_total'', ''Errored requests (non-2xx).'', ''counter'', Itoa (sum_ErrorCount s)),
     (''llm_router_requests_fallback_total'', ''Requests served by a fallback attempt.'', ''counter'', Itoa (sum_FallbackCount s)),
     (''llm_router_latency_avg_ms'', ''Average request latency in milliseconds.'', ''gauge'', formatFloat g (Fin (sum_AvgLatencyMs s))),
     (''llm_router_latency_min_ms'', ''Minimum request latency in milliseconds.'', ''gauge'', Itoa (sum_MinLatencyMs s)),
     (''llm_router_latency_max_ms'', ''Maximum request latency in milliseconds.'', ''gauge'', Itoa (sum_MaxLatencyMs s)),
     (''llm_router_ttfb_avg_ms'', ''Average time-to-first-byte in milliseconds.'', ''gauge'', formatFloat g (Fin (sum_AvgTTFBMs s))),
     (''llm_router_response_bytes_total'', ''Total response bytes.'', ''counter'', Itoa (sum_TotalBytes s)),
     (''llm_router_prompt_tokens_total'', ''Total prompt tokens.'', ''counter'', Itoa (sum_TotalPromptTok s)),
     (''llm_router_completion_tokens_total'', ''Total completion tokens.'', ''counter'', Itoa (sum_TotalCompleteTok s)),
     (''llm_router_tokens_total'', ''Total tokens (prompt + completion).'', ''counter'', Itoa (sum_TotalTokens s)),
     (''llm_router_cached_tokens_total'', ''Total cached (context) tokens.'', ''counter'', Itoa (sum_TotalCachedTok s)),
     (''llm_router_prefill_tok_per_sec'', ''Average prefill throughput in tokens/sec.'', ''gauge'', formatFloat g (sum_AvgPrefillTokSec s)),
     (''llm_router_decode_tok_per_sec'', ''Average decode throughput in tokens/sec.'', ''gauge'', formatFloat g (sum_AvgDecodeTokSec s))]"

text \<open>
  The classes of the summary's class map in sorted order. The map has an entry for a class
  exactly when it counted a request of it, and \<open>StatusClass\<close> makes no other classes.
\<close>

definition status_classes :: "Summary \<Rightarrow> string list" where
  "status_classes s = filter (\<lambda>c. sum_StatusClassCount s c \<noteq> 0) [''2xx'', ''3xx'', ''4xx'', ''5xx'', ''transport'']"

definition histogram :: "string \<Rightarrow> string \<Rightarrow> string \<Rightarrow> int list \<Rightarrow> int \<Rightarrow> string" where
  "histogram lbl name help buckets sumMs =
     (if buckets = [] then []
      else head_lines name help ''histogram'' @
        concat (map (\<lambda>i. name @ ''_bucket{'' @ lbl @ '',le=\"'' @ Itoa (LatencyBucketsMs ! i) @ ''\"} '' @
                         Itoa (buckets ! i) @ [CHR 0x0A]) [0..<length LatencyBucketsMs]) @
        name @ ''_bucket{'' @ lbl @ '',le=\"+Inf\"} '' @ Itoa (last buckets) @ [CHR 0x0A] @
        name @ ''_sum{'' @ lbl @ ''} '' @ Itoa sumMs @ [CHR 0x0A] @
        name @ ''_count{'' @ lbl @ ''} '' @ Itoa (last buckets) @ [CHR 0x0A])"

definition group_text :: "(gofloat \<Rightarrow> string) \<Rightarrow> string \<Rightarrow> Summary \<Rightarrow> string" where
  "group_text g key s =
     (let lbl = groupLabels key in
      if lbl = [] then []
      else concat (map (\<lambda>(name, help, typ, val). emit name help typ lbl val) (plain_families g s)) @
        concat (map (\<lambda>c. emit ''llm_router_requests_by_status_total'' ''Requests by HTTP status class.'' ''counter''
                           (lbl @ '',status_class=\"'' @ escapeLabel c @ ''\"'') (Itoa (sum_StatusClassCount s c)))
                  (status_classes s)) @
        histogram lbl ''llm_router_latency_ms'' ''Request latency distribution in milliseconds.''
          (sum_LatencyMsBuckets s) (sum_LatencyMsSum s) @
        histogram lbl ''llm_router_ttfb_ms'' ''Time-to-first-byte distribution in milliseconds.''
          (sum_TTFBMsBuckets s) (sum_TTFBMsSum s))"

definition PrometheusMetrics :: "(gofloat \<Rightarrow> string) \<Rightarrow> string list \<Rightarrow> metrics_store \<Rightarrow> string" where
  "PrometheusMetrics g order s =
     concat (map (\<lambda>key. case Summaries s key of None \<Rightarrow> [] | Some sm \<Rightarrow> group_text g key sm) order)"

text \<open>\<open>d.Round(time.Second).Seconds()\<close>, half away from zero.\<close>

definition round_seconds :: "duration \<Rightarrow> int" where
  "round_seconds d = (if d < 0 then - ((- d + Second div 2) div Second) else (d + Second div 2) div Second)"

definition serverStateMetrics :: "HealthTracker \<Rightarrow> RateLimiter \<Rightarrow> gotime \<Rightarrow> (string, Server) gomap \<Rightarrow> int \<Rightarrow> string" where
  "serverStateMetrics health rl now servers inboundDenied =
     (let ids = sort (map fst servers) in
      head_lines ''llm_router_server_healthy'' ''Server marked healthy by the health tracker (1) or not (0).'' ''gauge'' @
      concat (map (\<lambda>i. ''llm_router_server_healthy{server=\"'' @ i @ ''\"} '' @
        Itoa (if IsHealthy health i then 1 else 0) @ [CHR 0x0A]) ids) @
      head_lines ''llm_router_server_cooldown_seconds'' ''Remaining rate-limit cooldown per server.'' ''gauge'' @
      concat (map (\<lambda>i. if CooldownRemaining rl now i > 0
        then ''llm_router_server_cooldown_seconds{server=\"'' @ i @ ''\"} '' @
             Itoa (round_seconds (CooldownRemaining rl now i)) @ [CHR 0x0A] else []) ids) @
      head_lines ''llm_router_inbound_denied_total'' ''Requests the inbound rate limit turned away.'' ''counter'' @
      ''llm_router_inbound_denied_total '' @ Itoa inboundDenied @ [CHR 0x0A])"

subsection \<open>Reading\<close>

text \<open>A sample: metric name, labels in order, and the text of the value.\<close>

type_synonym prom_sample = "string \<times> (string \<times> string) list \<times> string"

text \<open>A label value up to its closing quote, and what follows the quote.\<close>

fun read_value :: "string \<Rightarrow> (string \<times> string) option" where
  "read_value [] = None"
| "read_value (c # cs) =
     (if c = CHR 0x22 then Some ([], cs)
      else if c = CHR 0x5C then
        (case cs of
           [] \<Rightarrow> None
         | d # ds \<Rightarrow>
             if d = CHR 0x5C \<or> d = CHR 0x22 then map_option (apfst (Cons d)) (read_value ds)
             else if d = CHR ''n'' then map_option (apfst (Cons (CHR 0x0A))) (read_value ds)
             else None)
      else map_option (apfst (Cons c)) (read_value cs))"

lemma read_value_shorter: "read_value s = Some (v, r) \<Longrightarrow> length r < length s"
  by (induction s arbitrary: v r rule: read_value.induct) (auto split: if_splits list.splits, fastforce+)

text \<open>The labels after an opening brace, and what follows the closing one.\<close>

function read_labels :: "string \<Rightarrow> ((string \<times> string) list \<times> string) option" where
  "read_labels s =
     (let name = takeWhile (\<lambda>c. c \<noteq> CHR ''='') s; rest = dropWhile (\<lambda>c. c \<noteq> CHR ''='') s in
      if \<not> HasPrefix rest ''=\"'' then None
      else case read_value (drop 2 rest) of
        None \<Rightarrow> None
      | Some (v, r) \<Rightarrow>
          (case r of
             [] \<Rightarrow> None
           | c # cs \<Rightarrow>
               if c = CHR ''}'' then Some ([(name, v)], cs)
               else if c = CHR '','' then map_option (apfst (Cons (name, v))) (read_labels cs)
               else None))"
  by pat_completeness auto
termination
proof (relation "measure length", goal_cases)
  case (2 s name rest p v r c cs)
  have "read_value (drop 2 rest) = Some (v, r)" using 2 by simp
  from read_value_shorter [OF this] have "length r < length (drop 2 rest)" .
  moreover have "length rest \<le> length s" using 2(2) by (simp add: length_dropWhile_le)
  ultimately show ?case using 2 by simp
qed simp

declare read_labels.simps [simp del]

text \<open>A line: \<open>None\<close> when it is malformed, \<open>Some None\<close> for a comment.\<close>

definition read_line :: "string \<Rightarrow> prom_sample option option" where
  "read_line l =
     (if HasPrefix l ''#'' then Some None
      else case dropWhile (\<lambda>c. c \<noteq> CHR ''{'' \<and> c \<noteq> CHR '' '') l of
        [] \<Rightarrow> None
      | c # cs \<Rightarrow>
          (let name = takeWhile (\<lambda>c. c \<noteq> CHR ''{'' \<and> c \<noteq> CHR '' '') l in
           if c = CHR '' '' then Some (Some (name, [], cs))
           else case read_labels cs of
             None \<Rightarrow> None
           | Some (ls, r) \<Rightarrow> if HasPrefix r '' '' then Some (Some (name, ls, drop 1 r)) else None))"

fun read_lines :: "string list \<Rightarrow> prom_sample list option" where
  "read_lines [] = Some []"
| "read_lines (l # ls) =
     (case (read_line l, read_lines ls) of
        (Some x, Some ss) \<Rightarrow> Some (case x of None \<Rightarrow> ss | Some y \<Rightarrow> y # ss)
      | _ \<Rightarrow> None)"

text \<open>Every line ends with a line feed, so the last piece of the split is empty.\<close>

definition read_exposition :: "string \<Rightarrow> prom_sample list option" where
  "read_exposition s =
     (let ls = split_on (CHR 0x0A) s in if last ls = [] then read_lines (butlast ls) else None)"

subsection \<open>What is written is what is read\<close>

definition unlines :: "string list \<Rightarrow> string" where
  "unlines ls = concat (map (\<lambda>l. l @ [CHR 0x0A]) ls)"

lemma split_on_not_Nil: "split_on c s \<noteq> []"
  by (induction s) (simp_all split: list.split)

lemma split_on_line: "c \<notin> set l \<Longrightarrow> split_on c (l @ c # s) = l # split_on c s"
  using split_on_not_Nil [of c s] by (induction l) (auto split: list.split)

lemma split_on_unlines: "\<forall>l \<in> set ls. CHR 0x0A \<notin> set l \<Longrightarrow> split_on (CHR 0x0A) (unlines ls) = ls @ [[]]"
  by (induction ls) (simp_all add: unlines_def split_on_line)

text \<open>A text of whole lines that reads as the given samples.\<close>

definition writes :: "string \<Rightarrow> prom_sample list \<Rightarrow> bool" where
  "writes t ss \<longleftrightarrow> (\<exists>ls. t = unlines ls \<and> (\<forall>l \<in> set ls. CHR 0x0A \<notin> set l) \<and> read_lines ls = Some ss)"

lemma writes_read: "writes t ss \<Longrightarrow> read_exposition t = Some ss"
  by (auto simp: writes_def read_exposition_def split_on_unlines)

lemma read_lines_append:
  "read_lines xs = Some ss \<Longrightarrow> read_lines ys = Some ts \<Longrightarrow> read_lines (xs @ ys) = Some (ss @ ts)"
  by (induction xs arbitrary: ss) (auto split: option.splits)

lemma writes_Nil [simp]: "writes [] []"
  by (auto simp: writes_def unlines_def intro: exI [of _ "[]"])

lemma writes_append [intro]:
  assumes "writes t ss" "writes u ts"
  shows "writes (t @ u) (ss @ ts)"
proof -
  obtain xs ys where "t = unlines xs" "\<forall>l \<in> set xs. CHR 0x0A \<notin> set l" "read_lines xs = Some ss"
    "u = unlines ys" "\<forall>l \<in> set ys. CHR 0x0A \<notin> set l" "read_lines ys = Some ts"
    using assms by (auto simp: writes_def)
  then show ?thesis
    by (auto simp: writes_def unlines_def read_lines_append intro!: exI [of _ "xs @ ys"])
qed

lemma writes_concat:
  "(\<And>x. x \<in> set xs \<Longrightarrow> writes (f x) (g x)) \<Longrightarrow> writes (concat (map f xs)) (concat (map g xs))"
  by (induction xs) auto

lemma writes_comment: "CHR 0x0A \<notin> set l \<Longrightarrow> writes (CHR ''#'' # l @ [CHR 0x0A]) []"
  by (auto simp: writes_def unlines_def read_line_def intro!: exI [of _ "[CHR ''#'' # l]"])

definition metric_name :: "string \<Rightarrow> bool" where
  "metric_name n \<longleftrightarrow> \<not> HasPrefix n ''#'' \<and> set n \<inter> {CHR ''{'', CHR '' '', CHR 0x0A} = {}"

lemma writes_head:
  assumes "metric_name n" "CHR 0x0A \<notin> set help" "CHR 0x0A \<notin> set typ"
  shows "writes (head_lines n help typ) []"
proof -
  have "writes ((CHR ''#'' # ('' HELP '' @ n @ '' '' @ help) @ [CHR 0x0A]) @
      (CHR ''#'' # ('' TYPE '' @ n @ '' '' @ typ) @ [CHR 0x0A])) ([] @ [])"
    using assms by (intro writes_append writes_comment) (auto simp: metric_name_def)
  then show ?thesis by (simp add: head_lines_def)
qed

lemma writes_headed: "writes h [] \<Longrightarrow> writes t ss \<Longrightarrow> writes (h @ t) ss"
  using writes_append [of h "[]" t ss] by simp

subsection \<open>Labels\<close>

definition label_text :: "(string \<times> string) list \<Rightarrow> string" where
  "label_text ps = Join (map (\<lambda>(n, v). n @ ''=\"'' @ escapeLabel v @ ''\"'') ps) '',''"

definition label_name :: "string \<Rightarrow> bool" where
  "label_name n \<longleftrightarrow> CHR ''='' \<notin> set n \<and> CHR 0x0A \<notin> set n"

lemma read_value_escaped: "read_value (escapeLabel v @ CHR 0x22 # r) = Some (v, r)"
  by (induction v) (auto simp: escapeLabel_def escape_char_def)

lemma takeWhile_name: "c \<notin> set n \<Longrightarrow> takeWhile (\<lambda>x. x \<noteq> c) (n @ c # r) = n"
  by (induction n) auto

lemma dropWhile_name: "c \<notin> set n \<Longrightarrow> dropWhile (\<lambda>x. x \<noteq> c) (n @ c # r) = c # r"
  by (induction n) auto

lemma read_labels_one:
  assumes "label_name n"
  shows "read_labels (n @ ''=\"'' @ escapeLabel v @ CHR 0x22 # CHR ''}'' # r) = Some ([(n, v)], r)"
    and "read_labels (n @ ''=\"'' @ escapeLabel v @ CHR 0x22 # CHR '','' # r) =
      map_option (apfst (Cons (n, v))) (read_labels r)"
  using assms
  by (subst read_labels.simps,
      simp add: label_name_def takeWhile_name dropWhile_name read_value_escaped Let_def)+

lemma read_labels_text:
  "ps \<noteq> [] \<Longrightarrow> \<forall>p \<in> set ps. label_name (fst p) \<Longrightarrow> read_labels (label_text ps @ CHR ''}'' # r) = Some (ps, r)"
proof (induction ps rule: induct_list012)
  case (2 p)
  then show ?case using read_labels_one(1) [of "fst p" "snd p" r] by (simp add: label_text_def split_beta)
next
  case (3 p q ps)
  then show ?case
    using read_labels_one(2) [of "fst p" "snd p" "label_text (q # ps) @ CHR ''}'' # r"]
    by (simp add: label_text_def split_beta)
qed simp

lemma escapeLabel_one_line: "CHR 0x0A \<notin> set (escapeLabel v)"
  by (induction v) (auto simp: escapeLabel_def escape_char_def)

lemma label_text_one_line: "\<forall>p \<in> set ps. label_name (fst p) \<Longrightarrow> CHR 0x0A \<notin> set (label_text ps)"
  by (induction ps rule: induct_list012)
    (auto simp: label_text_def label_name_def escapeLabel_one_line split: prod.splits)

lemma name_split:
  assumes "metric_name n" "c \<in> {CHR ''{'', CHR '' ''}"
  shows "takeWhile (\<lambda>c. c \<noteq> CHR ''{'' \<and> c \<noteq> CHR '' '') (n @ c # r) = n"
    "dropWhile (\<lambda>c. c \<noteq> CHR ''{'' \<and> c \<noteq> CHR '' '') (n @ c # r) = c # r"
  using assms by (auto simp: metric_name_def takeWhile_append dropWhile_append)

lemma writes_sample:
  assumes "metric_name n" "ps \<noteq> []" "\<forall>p \<in> set ps. label_name (fst p)" "CHR 0x0A \<notin> set v"
  shows "writes (n @ ''{'' @ label_text ps @ ''} '' @ v @ [CHR 0x0A]) [(n, ps, v)]"
proof -
  have "\<not> HasPrefix (n @ CHR ''{'' # r) ''#''" for r
    using assms(1) by (cases n) (auto simp: metric_name_def)
  then have "read_line (n @ ''{'' @ label_text ps @ ''} '' @ v) = Some (Some (n, ps, v))"
    using assms name_split [of n "CHR ''{''"]
    by (simp add: read_line_def read_labels_text Let_def)
  moreover have "CHR 0x0A \<notin> set (n @ ''{'' @ label_text ps @ ''} '' @ v)"
    using assms label_text_one_line by (auto simp: metric_name_def)
  ultimately show ?thesis
    by (auto simp: writes_def unlines_def intro!: exI [of _ "[n @ ''{'' @ label_text ps @ ''} '' @ v]"])
qed

lemma label_text_snoc: "ps \<noteq> [] \<Longrightarrow> label_text ps @ CHR '','' # n @ ''=\"'' @ escapeLabel v @ ''\"'' = label_text (ps @ [(n, v)])"
  by (induction ps rule: induct_list012) (auto simp: label_text_def)

text \<open>The labels a summary key stands for.\<close>

definition label_pairs :: "string \<Rightarrow> (string \<times> string) list" where
  "label_pairs key =
     (if HasPrefix key ''server:'' then [(''server'', TrimPrefix key ''server:'')]
      else if HasPrefix key ''target:'' then
        (case Cut (TrimPrefix key ''target:'') '':'' of (server, target, found) \<Rightarrow>
           if found then [(''server'', server), (''target_model'', target)]
           else [(''server'', TrimPrefix key ''target:'')])
      else if HasPrefix key ''class:'' then [(''class'', TrimPrefix key ''class:'')]
      else [(''model'', key)])"

lemma groupLabels_text: "groupLabels key = (if key = [] then [] else label_text (label_pairs key))"
  by (simp add: groupLabels_def label_pairs_def label_text_def Let_def split: prod.split)

lemma label_pairs_wf: "label_pairs key \<noteq> []" "\<forall>p \<in> set (label_pairs key). label_name (fst p)"
  by (auto simp: label_pairs_def label_name_def split: prod.splits)

lemma label_pairs_cover: "key \<noteq> [] \<Longrightarrow> groupLabels key \<noteq> []"
  by (simp add: groupLabels_def Let_def split: prod.split)

subsection \<open>The samples of a group\<close>

lemma show_nat_digits: "c \<in> set (show_nat n) \<Longrightarrow> is_digit c"
proof (induction n rule: show_nat.induct)
  case (1 n)
  have "is_digit (digit_char d)" if "d < 10" for d using that by (simp add: is_digit_def digit_char_def)
  with 1 show ?case by (cases "n < 10") (auto simp: show_nat.simps [of n])
qed

lemma Itoa_chars: "c \<in> set (Itoa i) \<Longrightarrow> is_digit c \<or> c = CHR ''-''"
  by (auto simp: Itoa_def dest: show_nat_digits split: if_splits)

lemma Itoa_one_line [simp]: "CHR 0x0A \<notin> set (Itoa i)"
  using Itoa_chars [of "CHR 0x0A" i] by (auto simp: is_digit_def)

lemma escapeLabel_id: "set v \<inter> {CHR 0x5C, CHR 0x22, CHR 0x0A} = {} \<Longrightarrow> escapeLabel v = v"
  by (induction v) (auto simp: escapeLabel_def escape_char_def)

lemma escapeLabel_Itoa [simp]: "escapeLabel (Itoa i) = Itoa i"
  by (rule escapeLabel_id) (auto dest!: Itoa_chars simp: is_digit_def)

definition histogram_samples :: "(string \<times> string) list \<Rightarrow> string \<Rightarrow> int list \<Rightarrow> int \<Rightarrow> prom_sample list" where
  "histogram_samples ps name buckets sumMs =
     (if buckets = [] then []
      else map (\<lambda>i. (name @ ''_bucket'', ps @ [(''le'', Itoa (LatencyBucketsMs ! i))], Itoa (buckets ! i)))
             [0..<length LatencyBucketsMs] @
        [(name @ ''_bucket'', ps @ [(''le'', ''+Inf'')], Itoa (last buckets)),
         (name @ ''_sum'', ps, Itoa sumMs), (name @ ''_count'', ps, Itoa (last buckets))])"

definition group_samples :: "(gofloat \<Rightarrow> string) \<Rightarrow> string \<Rightarrow> Summary \<Rightarrow> prom_sample list" where
  "group_samples g key s =
     (let ps = label_pairs key in
      if key = [] then []
      else map (\<lambda>(name, _, _, val). (name, ps, val)) (plain_families g s) @
        map (\<lambda>c. (''llm_router_requests_by_status_total'', ps @ [(''status_class'', c)], Itoa (sum_StatusClassCount s c)))
          (status_classes s) @
        histogram_samples ps ''llm_router_latency_ms'' (sum_LatencyMsBuckets s) (sum_LatencyMsSum s) @
        histogram_samples ps ''llm_router_ttfb_ms'' (sum_TTFBMsBuckets s) (sum_TTFBMsSum s))"

lemma writes_emit:
  assumes "metric_name n" "ps \<noteq> []" "\<forall>p \<in> set ps. label_name (fst p)"
    and "CHR 0x0A \<notin> set v" "CHR 0x0A \<notin> set help" "CHR 0x0A \<notin> set typ"
  shows "writes (emit n help typ (label_text ps) v) [(n, ps, v)]"
  unfolding emit_def using assms by (intro writes_headed [OF writes_head] writes_sample)

lemma writes_histogram:
  assumes "metric_name n" "ps \<noteq> []" "\<forall>p \<in> set ps. label_name (fst p)" "CHR 0x0A \<notin> set help"
  shows "writes (histogram (label_text ps) n help b sumMs) (histogram_samples ps n b sumMs)"
proof (cases "b = []")
  case False
  have n: "CHR 0x0A \<notin> set n" "metric_name (n @ ''_bucket'')" "metric_name (n @ ''_sum'')" "metric_name (n @ ''_count'')"
    using assms(1) by (auto simp: metric_name_def HasPrefix_def) (cases n; simp)+
  have le: "writes ((n @ ''_bucket'') @ ''{'' @ label_text (ps @ [(''le'', v)]) @ ''} '' @ Itoa x @ [CHR 0x0A])
      [(n @ ''_bucket'', ps @ [(''le'', v)], Itoa x)]" for v x
    using assms n by (intro writes_sample) (auto simp: label_name_def)
  have "writes (head_lines n help ''histogram'' @
      concat (map (\<lambda>i. (n @ ''_bucket'') @ ''{'' @ label_text (ps @ [(''le'', Itoa (LatencyBucketsMs ! i))]) @ ''} '' @
        Itoa (b ! i) @ [CHR 0x0A]) [0..<length LatencyBucketsMs]) @
      ((n @ ''_bucket'') @ ''{'' @ label_text (ps @ [(''le'', ''+Inf'')]) @ ''} '' @ Itoa (last b) @ [CHR 0x0A]) @
      ((n @ ''_sum'') @ ''{'' @ label_text ps @ ''} '' @ Itoa sumMs @ [CHR 0x0A]) @
      ((n @ ''_count'') @ ''{'' @ label_text ps @ ''} '' @ Itoa (last b) @ [CHR 0x0A]))
    (concat (map (\<lambda>i. [(n @ ''_bucket'', ps @ [(''le'', Itoa (LatencyBucketsMs ! i))], Itoa (b ! i))])
        [0..<length LatencyBucketsMs]) @
      [(n @ ''_bucket'', ps @ [(''le'', ''+Inf'')], Itoa (last b))] @ [(n @ ''_sum'', ps, Itoa sumMs)] @
      [(n @ ''_count'', ps, Itoa (last b))])"
    using assms n by (intro writes_headed [OF writes_head] writes_append writes_concat le writes_sample) auto
  moreover have "escapeLabel ''+Inf'' = ''+Inf''" by (rule escapeLabel_id) simp
  ultimately show ?thesis
    using False assms(2) by (simp add: histogram_def histogram_samples_def flip: label_text_snoc)
qed (simp add: histogram_def histogram_samples_def)

lemma formatFloat_one_line: "\<forall>f. CHR 0x0A \<notin> set (g f) \<Longrightarrow> CHR 0x0A \<notin> set (formatFloat g x)"
  by (simp add: formatFloat_def)

lemma plain_families_lines:
  assumes "\<forall>f. CHR 0x0A \<notin> set (g f)"
  shows "list_all (\<lambda>(n, help, typ, val). metric_name n \<and> CHR 0x0A \<notin> set help \<and> CHR 0x0A \<notin> set typ \<and> CHR 0x0A \<notin> set val)
    (plain_families g s)"
  using formatFloat_one_line [OF assms] by (simp add: plain_families_def metric_name_def)

lemma writes_map: "(\<And>x. x \<in> set xs \<Longrightarrow> writes (f x) [h x]) \<Longrightarrow> writes (concat (map f xs)) (map h xs)"
  using writes_concat [of xs f "\<lambda>x. [h x]"] by (simp add: concat_map_singleton)

lemma writes_group:
  assumes "\<forall>f. CHR 0x0A \<notin> set (g f)"
  shows "writes (group_text g key s) (group_samples g key s)"
proof (cases "key = []")
  case False
  define ps where "ps = label_pairs key"
  note ps = label_pairs_wf [of key, folded ps_def]
  have emits: "writes (concat (map (\<lambda>(n, h, t, v). emit n h t (label_text ps) v) (plain_families g s)))
      (map (\<lambda>(n, h, t, v). (n, ps, v)) (plain_families g s))"
    by (intro writes_map) (use plain_families_lines [OF assms, of s] in \<open>auto simp: list_all_iff intro!: writes_emit ps\<close>)
  have by_status: "writes (concat (map (\<lambda>c. emit ''llm_router_requests_by_status_total'' ''Requests by HTTP status class.''
        ''counter'' (label_text (ps @ [(''status_class'', c)])) (Itoa (sum_StatusClassCount s c))) (status_classes s)))
      (map (\<lambda>c. (''llm_router_requests_by_status_total'', ps @ [(''status_class'', c)],
        Itoa (sum_StatusClassCount s c))) (status_classes s))"
    using ps by (intro writes_map writes_emit) (auto simp: metric_name_def label_name_def)
  have hists: "writes (histogram (label_text ps) n h b x) (histogram_samples ps n b x)"
    if "metric_name n" "CHR 0x0A \<notin> set h" for n h b x
    using that ps by (intro writes_histogram) auto
  have "writes (group_text g key s) (map (\<lambda>(n, h, t, v). (n, ps, v)) (plain_families g s) @
      map (\<lambda>c. (''llm_router_requests_by_status_total'', ps @ [(''status_class'', c)],
        Itoa (sum_StatusClassCount s c))) (status_classes s) @
      histogram_samples ps ''llm_router_latency_ms'' (sum_LatencyMsBuckets s) (sum_LatencyMsSum s) @
      histogram_samples ps ''llm_router_ttfb_ms'' (sum_TTFBMsBuckets s) (sum_TTFBMsSum s))"
    unfolding group_text_def Let_def groupLabels_text
    using False ps(1) label_pairs_cover [OF False] emits by_status
    by (simp add: groupLabels_text ps_def [symmetric] label_text_snoc [symmetric] del: append_assoc)
      (intro writes_append emits by_status hists; simp add: metric_name_def label_text_snoc ps)
  then show ?thesis by (simp add: group_samples_def Let_def False ps_def)
qed (simp add: group_text_def group_samples_def groupLabels_def)

subsection \<open>A scrape tells the truth\<close>

definition scrape_samples :: "(gofloat \<Rightarrow> string) \<Rightarrow> string list \<Rightarrow> metrics_store \<Rightarrow> prom_sample list" where
  "scrape_samples g order s =
     concat (map (\<lambda>key. case Summaries s key of None \<Rightarrow> [] | Some sm \<Rightarrow> group_samples g key sm) order)"

lemma writes_scrape:
  "\<forall>f. CHR 0x0A \<notin> set (g f) \<Longrightarrow> writes (PrometheusMetrics g order s) (scrape_samples g order s)"
  unfolding PrometheusMetrics_def scrape_samples_def
  by (intro writes_concat) (simp add: writes_group split: option.split)

lemma group_totals:
  "(''llm_router_requests_total'', ls, v) \<in> set (group_samples g key s) \<longleftrightarrow>
     key \<noteq> [] \<and> ls = label_pairs key \<and> v = Itoa (sum_TotalRequests s)"
  "(''llm_router_requests_errors_total'', ls, v) \<in> set (group_samples g key s) \<longleftrightarrow>
     key \<noteq> [] \<and> ls = label_pairs key \<and> v = Itoa (sum_ErrorCount s)"
  by (auto simp: group_samples_def plain_families_def histogram_samples_def Let_def)

lemma group_buckets:
  assumes "key \<noteq> []" "sum_LatencyMsBuckets s \<noteq> []" "i < bucket_count"
  shows "(''llm_router_latency_ms_bucket'', label_pairs key @ [(''le'', Itoa (LatencyBucketsMs ! i))],
    Itoa (sum_LatencyMsBuckets s ! i)) \<in> set (group_samples g key s)"
  using assms by (auto simp: group_samples_def histogram_samples_def Let_def bucket_count_def)



subsection \<open>Series\<close>

text \<open>Two keys give one series only by way of a \<open>target:\<close> key that names no target.\<close>

definition proper_key :: "string \<Rightarrow> bool" where
  "proper_key key \<longleftrightarrow> key \<noteq> [] \<and> (HasPrefix key ''target:'' \<longrightarrow> Contains (TrimPrefix key ''target:'') '':'')"

lemma TrimPrefix_inj: "HasPrefix a p \<Longrightarrow> HasPrefix b p \<Longrightarrow> TrimPrefix a p = TrimPrefix b p \<Longrightarrow> a = b"
  by (auto simp: TrimPrefix_def HasPrefix_iff)

lemma Cut_inj: "Cut a s = (x, y, True) \<Longrightarrow> Cut b s = (x, y, True) \<Longrightarrow> a = b"
  by (auto simp: Cut_def split: option.splits) (metis Index_split)

lemma Cut_found: "Contains a s \<Longrightarrow> snd (snd (Cut a s))"
  by (auto simp: Cut_def Contains_def split: option.split)

lemma label_pairs_target:
  assumes "HasPrefix key ''target:''" "proper_key key"
  obtains x y where "Cut (TrimPrefix key ''target:'') '':'' = (x, y, True)"
    "label_pairs key = [(''server'', x), (''target_model'', y)]"
proof -
  obtain x y f where c: "Cut (TrimPrefix key ''target:'') '':'' = (x, y, f)" by (metis prod_cases3)
  have "f" using Cut_found [of "TrimPrefix key ''target:''" "'':''"] assms c by (simp add: proper_key_def)
  moreover have "\<not> HasPrefix key ''server:''" using assms(1) by (auto simp: HasPrefix_iff)
  ultimately show ?thesis using that c assms(1) by (simp add: label_pairs_def)
qed

theorem series_distinct:
  assumes "proper_key k1" "proper_key k2" "label_pairs k1 = label_pairs k2"
  shows "k1 = k2"
proof (cases "HasPrefix k1 ''target:'' \<or> HasPrefix k2 ''target:''")
  case True
  have other: "length (label_pairs k) = 1" if "\<not> HasPrefix k ''target:''" for k
    using that by (simp add: label_pairs_def)
  have "HasPrefix k ''target:'' \<Longrightarrow> proper_key k \<Longrightarrow> length (label_pairs k) = 2" for k
    by (erule label_pairs_target) simp_all
  with True assms other have t: "HasPrefix k1 ''target:''" "HasPrefix k2 ''target:''"
    by (metis numeral_eq_one_iff semiring_norm(83))+
  obtain x y where "Cut (TrimPrefix k1 ''target:'') '':'' = (x, y, True)"
      "label_pairs k1 = [(''server'', x), (''target_model'', y)]"
    by (rule label_pairs_target [OF t(1) assms(1)])
  moreover obtain x' y' where "Cut (TrimPrefix k2 ''target:'') '':'' = (x', y', True)"
      "label_pairs k2 = [(''server'', x'), (''target_model'', y')]"
    by (rule label_pairs_target [OF t(2) assms(2)])
  ultimately have "TrimPrefix k1 ''target:'' = TrimPrefix k2 ''target:''"
    using assms(3) Cut_inj by simp
  then show ?thesis using t TrimPrefix_inj by blast
next
  case False
  then show ?thesis
    using assms(3) TrimPrefix_inj [of k1 _ k2] by (auto simp: label_pairs_def split: if_splits)
qed

theorem series_distinct_witness: "label_pairs ''m'' \<noteq> label_pairs ''server:m''"
  using series_distinct [of "''m''" "''server:m''"] by (auto simp: proper_key_def)

text \<open>
  A model that a client calls \<open>target:a\<close> is written as the series of server \<open>a\<close> a second
  time, and a server whose id has a colon is written under another server's name.
\<close>
lemma colliding_series:
  "label_pairs ''target:a'' = label_pairs ''server:a''"
  "label_pairs (''target:'' @ ''a:b'' @ '':'' @ ''m'') = [(''server'', ''a''), (''target_model'', ''b:m'')]"
  by (simp_all add: label_pairs_def TrimPrefix_def Cut_def)

text \<open>
  Every group repeats the \<open>HELP\<close> and \<open>TYPE\<close> lines of every family, of which the format
  allows one per metric name.
\<close>
lemma repeated_help:
  assumes "key \<noteq> []"
  shows "HasPrefix (group_text g key s) (''# HELP llm_router_requests_total Total requests routed.'' @ [CHR 0x0A])"
  using label_pairs_cover [OF assms] by (simp add: group_text_def plain_families_def emit_def head_lines_def Let_def)

subsection \<open>The live state of the servers\<close>

definition plain_id :: "string \<Rightarrow> bool" where
  "plain_id i \<longleftrightarrow> set i \<inter> {CHR 0x5C, CHR 0x22, CHR 0x0A} = {}"

definition state_samples :: "HealthTracker \<Rightarrow> RateLimiter \<Rightarrow> gotime \<Rightarrow> (string, Server) gomap \<Rightarrow> int \<Rightarrow> prom_sample list" where
  "state_samples health rl now servers inboundDenied =
     (let ids = sort (map fst servers) in
      map (\<lambda>i. (''llm_router_server_healthy'', [(''server'', i)], Itoa (if IsHealthy health i then 1 else 0))) ids @
      map (\<lambda>i. (''llm_router_server_cooldown_seconds'', [(''server'', i)], Itoa (round_seconds (CooldownRemaining rl now i))))
        (filter (\<lambda>i. CooldownRemaining rl now i > 0) ids) @
      [(''llm_router_inbound_denied_total'', [], Itoa inboundDenied)])"

lemma writes_id_sample:
  assumes "metric_name n" "plain_id i" "CHR 0x0A \<notin> set v"
  shows "writes (n @ ''{server=\"'' @ i @ ''\"} '' @ v @ [CHR 0x0A]) [(n, [(''server'', i)], v)]"
  using writes_sample [of n "[(''server'', i)]" v] assms
  by (simp add: label_text_def label_name_def plain_id_def escapeLabel_id)

lemma writes_state:
  assumes "\<forall>i \<in> fst ` set servers. plain_id i"
  shows "writes (serverStateMetrics health rl now servers d) (state_samples health rl now servers d)"
proof -
  let ?ids = "sort (map fst servers)"
  have healthy: "writes (concat (map (\<lambda>i. ''llm_router_server_healthy{server=\"'' @ i @ ''\"} '' @
      Itoa (if IsHealthy health i then 1 else 0) @ [CHR 0x0A]) ?ids))
      (map (\<lambda>i. (''llm_router_server_healthy'', [(''server'', i)], Itoa (if IsHealthy health i then 1 else 0))) ?ids)"
    using assms writes_id_sample [of "''llm_router_server_healthy''"]
    by (intro writes_map) (auto simp: metric_name_def)
  have cool: "writes (concat (map (\<lambda>i. if CooldownRemaining rl now i > 0
      then ''llm_router_server_cooldown_seconds{server=\"'' @ i @ ''\"} '' @
           Itoa (round_seconds (CooldownRemaining rl now i)) @ [CHR 0x0A] else []) ?ids))
      (concat (map (\<lambda>i. if CooldownRemaining rl now i > 0 then [(''llm_router_server_cooldown_seconds'', [(''server'', i)],
         Itoa (round_seconds (CooldownRemaining rl now i)))] else []) ?ids))"
    using assms writes_id_sample [of "''llm_router_server_cooldown_seconds''"]
    by (intro writes_concat) (auto simp: metric_name_def)
  have filt: "concat (map (\<lambda>i. if P i then [f i] else []) xs) = map f (filter P xs)" for P and f :: "string \<Rightarrow> prom_sample" and xs
    by (induction xs) auto
  have denied: "writes (''llm_router_inbound_denied_total '' @ Itoa d @ [CHR 0x0A]) [(''llm_router_inbound_denied_total'', [], Itoa d)]"
    unfolding writes_def
    by (rule exI [of _ "[''llm_router_inbound_denied_total '' @ Itoa d]"]) (simp add: unlines_def read_line_def)
  have m: "metric_name ''llm_router_server_healthy''" "metric_name ''llm_router_server_cooldown_seconds''"
    "metric_name ''llm_router_inbound_denied_total''"
    by (simp_all add: metric_name_def)
  show ?thesis
    unfolding serverStateMetrics_def state_samples_def Let_def
    by (intro writes_headed [OF writes_head] m writes_append healthy cool [unfolded filt] denied) simp_all
qed

text \<open>
  The whole page of the \<open>/metrics\<close> endpoint reads as both lists of samples, as long as no
  server id has a character that the label needs escaped: the second part does not escape
  it, and such an id makes the page unreadable.
\<close>
lemma metrics_page_reads:
  assumes "\<forall>f. CHR 0x0A \<notin> set (g f)" "\<forall>i \<in> fst ` set servers. plain_id i"
  shows "read_exposition (PrometheusMetrics g order s @ serverStateMetrics health rl now servers d) =
    Some (scrape_samples g order s @ state_samples health rl now servers d)"
  using assms by (intro writes_read writes_append writes_scrape writes_state)

lemma quoted_id_unreadable:
  "read_exposition (serverStateMetrics (NewHealthTracker Minute) (NewRateLimiter 5 Minute Minute) 0
     [(''a\"'', example_server)] 0) = None"
  by (simp add: serverStateMetrics_def NewHealthTracker_def NewRateLimiter_def IsHealthy_def CooldownRemaining_def
      head_lines_def read_exposition_def Itoa_def show_nat.simps read_line_def read_labels.simps Let_def)

end
