(* ===== verification/Quota.thy ===== *)
theory Quota
  imports Domain Interfaces
begin

text \<open>
  \<open>src/config/quota.go\<close>: per-server token and request limits over a sliding minute, with
  in-flight reservations. Sums of token counts are \<open>int64\<close> and wrap. A missing map entry
  reads as the empty slice or as 0, so the three maps are total functions. The prune helpers
  compact a slice in place; every caller but \<open>Usage\<close> stores the shortened slice back, and
  \<open>Usage\<close> leaves the old length over the compacted array, which \<open>compacted\<close> spells out.
\<close>

record tokenEvent =
  te_at :: gotime
  te_tokens :: int

record QuotaTracker =
  q_tokens :: "string \<Rightarrow> tokenEvent list"
  q_requests :: "string \<Rightarrow> gotime list"
  q_reserved :: "string \<Rightarrow> int"
  q_limits :: "(string \<Rightarrow> int \<times> int) option"

definition NewQuotaTracker :: QuotaTracker where
  "NewQuotaTracker = \<lparr>q_tokens = (\<lambda>_. []), q_requests = (\<lambda>_. []), q_reserved = (\<lambda>_. 0), q_limits = None\<rparr>"

definition SetLimitOverride :: "QuotaTracker \<Rightarrow> (string \<Rightarrow> int \<times> int) \<Rightarrow> QuotaTracker" where
  "SetLimitOverride q fn = q\<lparr>q_limits := Some fn\<rparr>"

definition limitsFor :: "QuotaTracker \<Rightarrow> string \<Rightarrow> int \<times> int" where
  "limitsFor q i = (case q_limits q of Some f \<Rightarrow> f i | None \<Rightarrow> (0, 0))"

definition window60s :: duration where "window60s = 60 * Second"

fun pruneEvents :: "tokenEvent list \<Rightarrow> gotime \<Rightarrow> tokenEvent list" where
  "pruneEvents [] cutoff = []"
| "pruneEvents (e # es) cutoff =
     (if te_at e > cutoff then e # pruneEvents es cutoff else pruneEvents es cutoff)"

fun pruneTimes :: "gotime list \<Rightarrow> gotime \<Rightarrow> gotime list" where
  "pruneTimes [] cutoff = []"
| "pruneTimes (t # ts) cutoff = (if t > cutoff then t # pruneTimes ts cutoff else pruneTimes ts cutoff)"

text \<open>What a slice of the old length reads after its array was compacted to \<open>valid\<close>.\<close>

definition compacted :: "'a list \<Rightarrow> 'a list \<Rightarrow> 'a list" where
  "compacted old valid = valid @ drop (length valid) old"

fun sum_tokens :: "tokenEvent list \<Rightarrow> int \<Rightarrow> int" where
  "sum_tokens [] used = used"
| "sum_tokens (e # es) used = sum_tokens es (wrap64 (used + te_tokens e))"

definition Allow :: "QuotaTracker \<Rightarrow> gotime \<Rightarrow> string \<Rightarrow> QuotaTracker \<times> bool" where
  "Allow q now i =
     (case limitsFor q i of (tpm, rpm) \<Rightarrow>
        if tpm \<le> 0 \<and> rpm \<le> 0 then (q, True)
        else
          let cutoff = now - window60s;
              reqs = pruneTimes (q_requests q i) cutoff;
              q1 = (if rpm > 0 then q\<lparr>q_requests := (q_requests q)(i := reqs)\<rparr> else q)
          in if rpm > 0 \<and> int (length reqs) \<ge> rpm then (q1, False)
             else if tpm > 0 then
               (let evs = pruneEvents (q_tokens q1 i) cutoff;
                    q2 = q1\<lparr>q_tokens := (q_tokens q1)(i := evs)\<rparr>
                in if sum_tokens evs 0 \<ge> tpm then (q2, False) else (q2, True))
             else (q1, True))"

definition RecordRequest :: "QuotaTracker \<Rightarrow> gotime \<Rightarrow> string \<Rightarrow> QuotaTracker" where
  "RecordRequest q now i =
     q\<lparr>q_requests := (q_requests q)(i := pruneTimes (q_requests q i) (now - window60s) @ [now])\<rparr>"

definition RecordTokens :: "QuotaTracker \<Rightarrow> gotime \<Rightarrow> string \<Rightarrow> int \<Rightarrow> QuotaTracker" where
  "RecordTokens q now i tokens =
     (if tokens \<le> 0 then q
      else q\<lparr>q_tokens := (q_tokens q)(i := pruneEvents (q_tokens q i) (now - window60s)
                                          @ [\<lparr>te_at = now, te_tokens = tokens\<rparr>])\<rparr>)"

definition Reserve :: "QuotaTracker \<Rightarrow> gotime \<Rightarrow> string \<Rightarrow> int \<Rightarrow> QuotaTracker \<times> bool" where
  "Reserve q now i estimate =
     (if estimate \<le> 0 then (q, True)
      else let tpm = fst (limitsFor q i) in
        if tpm \<le> 0 then (q, True)
        else let evs = pruneEvents (q_tokens q i) (now - window60s);
                 q1 = q\<lparr>q_tokens := (q_tokens q)(i := evs)\<rparr>;
                 used = sum_tokens evs 0
             in if wrap64 (wrap64 (used + q_reserved q1 i) + estimate) > tpm then (q1, False)
                else (q1\<lparr>q_reserved := (q_reserved q1)(i := wrap64 (q_reserved q1 i + estimate))\<rparr>, True))"

definition Complete :: "QuotaTracker \<Rightarrow> gotime \<Rightarrow> string \<Rightarrow> int \<Rightarrow> int \<Rightarrow> QuotaTracker" where
  "Complete q now i reservedTokens actual =
     (let q1 = (if reservedTokens > 0 then
                  (let r = wrap64 (q_reserved q i - reservedTokens)
                   in q\<lparr>q_reserved := (q_reserved q)(i := (if r < 0 then 0 else r))\<rparr>)
                else q)
      in if actual > 0 then
           q1\<lparr>q_tokens := (q_tokens q1)(i := pruneEvents (q_tokens q1 i) (now - window60s)
                                            @ [\<lparr>te_at = now, te_tokens = actual\<rparr>])\<rparr>
         else q1)"

definition Usage :: "QuotaTracker \<Rightarrow> gotime \<Rightarrow> string \<Rightarrow> QuotaTracker \<times> int \<times> int" where
  "Usage q now i =
     (let cutoff = now - window60s;
          evs = pruneEvents (q_tokens q i) cutoff;
          reqs = pruneTimes (q_requests q i) cutoff
      in (q\<lparr>q_tokens := (q_tokens q)(i := compacted (q_tokens q i) evs),
            q_requests := (q_requests q)(i := compacted (q_requests q i) reqs)\<rparr>,
          sum_tokens evs 0, int (length reqs)))"

subsection \<open>Both logs are sliding windows\<close>

interpretation toks: sliding_window te_at pruneEvents
proof
  fix es :: "tokenEvent list" and c
  show "pruneEvents es c = filter (\<lambda>e. c < te_at e) es"
    by (induction es) auto
qed

interpretation reqs: sliding_window "\<lambda>t. t" pruneTimes
proof
  fix ts :: "gotime list" and c
  show "pruneTimes ts c = filter (\<lambda>t. c < t) ts"
    by (induction ts) auto
qed

definition token_sum :: "tokenEvent list \<Rightarrow> int" where
  "token_sum es = sum_list (map te_tokens es)"

lemma token_sum_simps [simp]:
  "token_sum [] = 0" "token_sum (e # es) = te_tokens e + token_sum es"
  "token_sum (es @ fs) = token_sum es + token_sum fs"
  by (simp_all add: token_sum_def)

lemma sum_tokens_wrap: "sum_tokens es u = (if es = [] then u else wrap64 (u + token_sum es))"
proof (induction es arbitrary: u)
  case Nil
  then show ?case by simp
next
  case (Cons e es)
  then show ?case by (auto simp: wrap64_add_wrap64 add.assoc)
qed

lemma sum_tokens_exact:
  assumes "0 \<le> token_sum es" "token_sum es < 2 ^ 63"
  shows "sum_tokens es 0 = token_sum es"
  using assms by (simp add: sum_tokens_wrap wrap64_id)

subsection \<open>The logs against the history of operations\<close>

datatype q_op =
    QAllow string
  | QRequest string
  | QTokens string int
  | QReserve string int
  | QComplete string int int

fun q_step :: "gotime \<times> q_op \<Rightarrow> QuotaTracker \<Rightarrow> QuotaTracker" where
  "q_step (now, QAllow i) q = fst (Allow q now i)"
| "q_step (now, QRequest i) q = RecordRequest q now i"
| "q_step (now, QTokens i n) q = RecordTokens q now i n"
| "q_step (now, QReserve i e) q = fst (Reserve q now i e)"
| "q_step (now, QComplete i r a) q = Complete q now i r a"

definition q_run :: "(gotime \<times> q_op) list \<Rightarrow> QuotaTracker \<Rightarrow> QuotaTracker" where
  "q_run ops q = fold q_step ops q"

fun requests_of :: "string \<Rightarrow> gotime \<times> q_op \<Rightarrow> gotime list" where
  "requests_of i (now, QRequest j) = (if j = i then [now] else [])"
| "requests_of i _ = []"

fun tokens_of :: "string \<Rightarrow> gotime \<times> q_op \<Rightarrow> tokenEvent list" where
  "tokens_of i (now, QTokens j n) = (if j = i \<and> n > 0 then [\<lparr>te_at = now, te_tokens = n\<rparr>] else [])"
| "tokens_of i (now, QComplete j r a) = (if j = i \<and> a > 0 then [\<lparr>te_at = now, te_tokens = a\<rparr>] else [])"
| "tokens_of i _ = []"

lemma Allow_frame:
  "q_limits (fst (Allow q now i)) = q_limits q" "q_reserved (fst (Allow q now i)) = q_reserved q"
  by (auto simp: Allow_def Let_def split: prod.splits)

lemma Allow_logs:
  assumes "now - window60s \<le> c"
  shows "pruneTimes (q_requests (fst (Allow q now i)) j) c = pruneTimes (q_requests q j) c"
    and "pruneEvents (q_tokens (fst (Allow q now i)) j) c = pruneEvents (q_tokens q j) c"
  using assms
  by (auto simp: Allow_def Let_def reqs.prune_prune toks.prune_prune split: prod.splits)

lemma Reserve_frame:
  "q_limits (fst (Reserve q now i e)) = q_limits q" "q_requests (fst (Reserve q now i e)) = q_requests q"
  by (auto simp: Reserve_def Let_def)

lemma Reserve_logs:
  "now - window60s \<le> c \<Longrightarrow>
     pruneEvents (q_tokens (fst (Reserve q now i e)) j) c = pruneEvents (q_tokens q j) c"
  by (auto simp: Reserve_def Let_def toks.prune_prune)

lemma Complete_frame:
  "q_limits (Complete q now i r a) = q_limits q" "q_requests (Complete q now i r a) = q_requests q"
  by (simp_all add: Complete_def Let_def)

lemma q_step_logs:
  assumes "fst x - window60s \<le> c"
  shows "pruneTimes (q_requests (q_step x q) i) c = pruneTimes (q_requests q i @ requests_of i x) c"
    and "pruneEvents (q_tokens (q_step x q) i) c = pruneEvents (q_tokens q i @ tokens_of i x) c"
    and "q_limits (q_step x q) = q_limits q"
proof -
  obtain now oper where x: "x = (now, oper)" by (cases x)
  show "pruneTimes (q_requests (q_step x q) i) c = pruneTimes (q_requests q i @ requests_of i x) c"
    using assms unfolding x
    by (cases oper) (auto simp: Allow_logs Reserve_frame Complete_frame RecordRequest_def
        RecordTokens_def reqs.prune_append reqs.prune_prune)
  show "pruneEvents (q_tokens (q_step x q) i) c = pruneEvents (q_tokens q i @ tokens_of i x) c"
    using assms unfolding x
    by (cases oper) (auto simp: Allow_logs Reserve_logs Complete_def Let_def RecordRequest_def
        RecordTokens_def toks.prune_append toks.prune_prune)
  show "q_limits (q_step x q) = q_limits q"
    unfolding x by (cases oper) (simp_all add: Allow_frame Reserve_frame Complete_frame
        RecordRequest_def RecordTokens_def)
qed

lemma q_run_logs:
  assumes "\<forall>x \<in> set ops. fst x - window60s \<le> c"
  shows "pruneTimes (q_requests (q_run ops q) i) c =
           pruneTimes (q_requests q i @ concat (map (requests_of i) ops)) c \<and>
         pruneEvents (q_tokens (q_run ops q) i) c =
           pruneEvents (q_tokens q i @ concat (map (tokens_of i) ops)) c \<and>
         q_limits (q_run ops q) = q_limits q"
  using assms
proof (induction ops rule: rev_induct)
  case Nil
  then show ?case by (simp add: q_run_def)
next
  case (snoc x ops)
  have run: "q_run (ops @ [x]) q = q_step x (q_run ops q)" by (simp add: q_run_def)
  have "fst x - window60s \<le> c" using snoc.prems by simp
  from q_step_logs [OF this] snoc show ?case
    by (simp add: run reqs.prune_append toks.prune_append)
qed

lemma Allow_result:
  "snd (Allow q now i) \<longleftrightarrow>
     (snd (limitsFor q i) \<le> 0 \<or>
        int (length (pruneTimes (q_requests q i) (now - window60s))) < snd (limitsFor q i)) \<and>
     (fst (limitsFor q i) \<le> 0 \<or>
        sum_tokens (pruneEvents (q_tokens q i) (now - window60s)) 0 < fst (limitsFor q i))"
  by (auto simp: Allow_def Let_def split: prod.splits)



subsection \<open>Reservations\<close>

text \<open>
  The tracker beside the ledger of the reservations its callers hold: a request that
  \<open>Reserve\<close> admitted holds \<open>(server, estimate)\<close> until its one \<open>Complete\<close>, which is how
  the attempt loop of the router uses it. Estimates and the minute's usage stay below
  \<open>2 ^ 61\<close>; what happens beyond is \<open>Reserve_overflow\<close>.
\<close>

definition estimate_bound :: int where "estimate_bound = 2 ^ 61"

inductive ledger :: "(string \<Rightarrow> int \<times> int) \<Rightarrow> QuotaTracker \<Rightarrow> (string \<times> int) list \<Rightarrow> bool"
  for lims where
  start: "ledger lims (SetLimitOverride NewQuotaTracker lims) []"
| reserved: "ledger lims q outs \<Longrightarrow> 0 < e \<Longrightarrow> e \<le> estimate_bound \<Longrightarrow>
     token_sum (pruneEvents (q_tokens q i) (now - window60s)) \<le> estimate_bound \<Longrightarrow>
     snd (Reserve q now i e) \<Longrightarrow> ledger lims (fst (Reserve q now i e)) ((i, e) # outs)"
| refused: "ledger lims q outs \<Longrightarrow> \<not> snd (Reserve q now i e) \<Longrightarrow>
     ledger lims (fst (Reserve q now i e)) outs"
| completed: "ledger lims q outs \<Longrightarrow> (i, e) \<in> set outs \<Longrightarrow>
     ledger lims (Complete q now i e actual) (remove1 (i, e) outs)"
| completed_unreserved: "ledger lims q outs \<Longrightarrow> ledger lims (Complete q now i 0 actual) outs"
| asked: "ledger lims q outs \<Longrightarrow> ledger lims (fst (Allow q now i)) outs"
| sent: "ledger lims q outs \<Longrightarrow> ledger lims (RecordRequest q now i) outs"

definition held :: "string \<Rightarrow> (string \<times> int) list \<Rightarrow> int" where
  "held i outs = sum_list (map snd (filter (\<lambda>r. fst r = i) outs))"

lemma held_simps [simp]:
  "held i [] = 0" "held i ((j, e) # outs) = (if j = i then e else 0) + held i outs"
  by (simp_all add: held_def)

lemma held_remove1: "(j, e) \<in> set outs \<Longrightarrow> held i (remove1 (j, e) outs) = held i outs - (if j = i then e else 0)"
  by (induction outs) auto

lemma held_ge: "\<forall>r \<in> set outs. 0 < snd r \<Longrightarrow> (i, e) \<in> set outs \<Longrightarrow> e \<le> held i outs"
  and held_nonneg: "\<forall>r \<in> set outs. 0 < snd r \<Longrightarrow> 0 \<le> held i outs"
proof -
  show nn: "\<forall>r \<in> set outs. 0 < snd r \<Longrightarrow> 0 \<le> held i outs" for outs
    by (induction outs) auto
  show "\<forall>r \<in> set outs. 0 < snd r \<Longrightarrow> (i, e) \<in> set outs \<Longrightarrow> e \<le> held i outs"
    by (induction outs) (auto dest: nn)
qed

definition ledger_inv :: "(string \<Rightarrow> int \<times> int) \<Rightarrow> QuotaTracker \<Rightarrow> (string \<times> int) list \<Rightarrow> bool" where
  "ledger_inv lims q outs \<longleftrightarrow>
     q_limits q = Some lims \<and> (\<forall>r \<in> set outs. 0 < snd r \<and> snd r \<le> estimate_bound) \<and>
     (\<forall>i. \<forall>e \<in> set (q_tokens q i). 0 < te_tokens e) \<and>
     (\<forall>i. q_reserved q i = (if 0 < fst (lims i) then held i outs else 0)) \<and>
     (\<forall>i. held i outs \<le> fst (lims i) \<or> fst (lims i) \<le> 0)"

lemma held_le_bound:
  assumes "ledger_inv lims q outs" "0 < fst (lims i)" "fst (lims i) \<le> estimate_bound"
  shows "held i outs \<le> estimate_bound"
proof -
  have "held i outs \<le> fst (lims i) \<or> fst (lims i) \<le> 0"
    using assms(1) by (simp add: ledger_inv_def)
  with assms show ?thesis by linarith
qed

lemma token_sum_nonneg: "\<forall>e \<in> set es. 0 < te_tokens e \<Longrightarrow> 0 \<le> token_sum es"
  by (induction es) auto

lemma Reserve_result:
  "snd (Reserve q now i e) \<longleftrightarrow> e \<le> 0 \<or> fst (limitsFor q i) \<le> 0 \<or>
     wrap64 (sum_tokens (pruneEvents (q_tokens q i) (now - window60s)) 0 + q_reserved q i + e)
       \<le> fst (limitsFor q i)"
  by (auto simp: Reserve_def Let_def wrap64_add_wrap64)

lemma Reserve_reserved:
  "q_reserved (fst (Reserve q now i e)) =
     (if snd (Reserve q now i e) \<and> 0 < e \<and> 0 < fst (limitsFor q i)
      then (q_reserved q)(i := wrap64 (q_reserved q i + e)) else q_reserved q)"
  by (auto simp: Reserve_def Let_def)

lemma Reserve_exact:
  assumes inv: "ledger_inv lims q outs" and lim: "0 < fst (lims i)" "fst (lims i) \<le> estimate_bound"
    and e: "0 < e" "e \<le> estimate_bound"
    and u: "token_sum (pruneEvents (q_tokens q i) (now - window60s)) \<le> estimate_bound"
  shows "snd (Reserve q now i e) \<longleftrightarrow>
           token_sum (pruneEvents (q_tokens q i) (now - window60s)) + held i outs + e \<le> fst (lims i)"
    and "wrap64 (held i outs + e) = held i outs + e"
proof -
  let ?u = "token_sum (pruneEvents (q_tokens q i) (now - window60s))"
  have "0 \<le> ?u"
    using inv toks.prune_subset by (intro token_sum_nonneg) (fastforce simp: ledger_inv_def)
  moreover have h: "0 \<le> held i outs" "held i outs \<le> estimate_bound"
    using inv held_nonneg [of outs i] held_le_bound [OF inv lim] by (simp_all add: ledger_inv_def)
  ultimately have "wrap64 (sum_tokens (pruneEvents (q_tokens q i) (now - window60s)) 0 + held i outs + e)
      = ?u + held i outs + e"
    using e u by (simp add: sum_tokens_exact estimate_bound_def wrap64_id)
  moreover have "limitsFor q i = lims i" "q_reserved q i = held i outs"
    using inv lim by (simp_all add: ledger_inv_def limitsFor_def)
  ultimately show "snd (Reserve q now i e) \<longleftrightarrow> ?u + held i outs + e \<le> fst (lims i)"
    using lim e by (simp add: Reserve_result)
  show "wrap64 (held i outs + e) = held i outs + e"
    using h e by (simp add: estimate_bound_def wrap64_id)
qed

lemma logs_stay_positive:
  assumes "\<forall>j. \<forall>e \<in> set (q_tokens q j). 0 < te_tokens e"
  shows "\<forall>j. \<forall>e \<in> set (q_tokens (fst (Reserve q now i est)) j). 0 < te_tokens e"
    and "\<forall>j. \<forall>e \<in> set (q_tokens (Complete q now i r a) j). 0 < te_tokens e"
    and "\<forall>j. \<forall>e \<in> set (q_tokens (fst (Allow q now i)) j). 0 < te_tokens e"
    and "\<forall>j. \<forall>e \<in> set (q_tokens (RecordRequest q now i) j). 0 < te_tokens e"
  using assms
  by (auto simp: Reserve_def Complete_def Allow_def RecordRequest_def Let_def toks.prune_keeps
      split: prod.splits)

lemma Complete_reserved:
  assumes "ledger_inv lims q outs" "(i, e) \<in> set outs" "\<forall>i. fst (lims i) \<le> estimate_bound"
  shows "q_reserved (Complete q now i e a) j =
           (if 0 < fst (lims j) then held j (remove1 (i, e) outs) else 0)"
proof -
  have e: "0 < e" "e \<le> estimate_bound" and pos: "\<forall>r \<in> set outs. 0 < snd r" using assms by (auto simp: ledger_inv_def)
  have "q_reserved q i - e = (if 0 < fst (lims i) then held i outs - e else - e)"
    using assms by (simp add: ledger_inv_def)
  moreover have "e \<le> held i outs" using held_ge [OF pos] assms(2) .
  moreover have "held i outs \<le> estimate_bound" if "0 < fst (lims i)"
    using held_le_bound [OF assms(1) that] assms(3) by simp
  ultimately show ?thesis
    using assms(1,2) e
    by (auto simp: Complete_def Let_def ledger_inv_def held_remove1 wrap64_id estimate_bound_def)
qed

lemma ledger_keeps_inv:
  assumes "ledger lims q outs" and lim: "\<forall>i. fst (lims i) \<le> estimate_bound"
  shows "ledger_inv lims q outs"
  using assms(1)
proof induction
  case start
  then show ?case by (simp add: ledger_inv_def SetLimitOverride_def NewQuotaTracker_def linear)
next
  case (reserved q outs e i now)
  note logs = logs_stay_positive(1) [of q now i e]
  show ?case
  proof (cases "0 < fst (lims i)")
    case True
    note ex = Reserve_exact [OF reserved.IH True _ reserved.hyps(2-4)]
    have "held i outs + e \<le> fst (lims i)"
      using ex(1) reserved.hyps(5) lim reserved.IH
        token_sum_nonneg [of "pruneEvents (q_tokens q i) (now - window60s)"] toks.prune_subset
      by (fastforce simp: ledger_inv_def)
    then show ?thesis
      using reserved.IH reserved.hyps ex(2) lim logs True
      by (auto simp: ledger_inv_def Reserve_frame Reserve_reserved limitsFor_def)
  next
    case False
    then show ?thesis
      using reserved.IH reserved.hyps logs
      by (auto simp: ledger_inv_def Reserve_frame Reserve_reserved limitsFor_def)
  qed
next
  case (refused q outs now i e)
  then show ?case
    using logs_stay_positive(1) [of q now i e] by (simp add: ledger_inv_def Reserve_frame Reserve_reserved)
next
  case (completed q outs i e now actual)
  have "held j (remove1 (i, e) outs) \<le> fst (lims j) \<or> fst (lims j) \<le> 0" for j
  proof -
    have "held j outs \<le> fst (lims j) \<or> fst (lims j) \<le> 0" "0 < e"
      using completed by (auto simp: ledger_inv_def)
    then show ?thesis using completed.hyps(2) by (auto simp: held_remove1)
  qed
  then show ?case
    using completed logs_stay_positive(2) [of q now i e actual] Complete_reserved [OF completed.IH completed.hyps(2) lim]
    by (simp add: ledger_inv_def Complete_frame) (meson notin_set_remove1)
next
  case (completed_unreserved q outs now i actual)
  then show ?case
    using logs_stay_positive(2) [of q now i 0 actual]
    by (simp add: ledger_inv_def Complete_frame) (simp add: Complete_def)
next
  case (asked q outs now i)
  then show ?case
    using logs_stay_positive(3) [of q now i] by (simp add: ledger_inv_def Allow_frame)
next
  case (sent q outs now i)
  then show ?case
    using logs_stay_positive(4) [of q now i] by (simp add: ledger_inv_def) (simp add: RecordRequest_def)
qed


text \<open>
  The reservation that is admitted is exactly the one that fits: with the minute's completed
  usage and the estimates of all requests in flight, the new estimate stays within the
  server's TPM, so concurrent requests cannot collectively exceed it.
\<close>
theorem Reserve_admits_what_fits:
  assumes "ledger lims q outs" "\<forall>i. fst (lims i) \<le> estimate_bound"
    and "0 < fst (lims i)" "0 < e" "e \<le> estimate_bound"
    and "token_sum (pruneEvents (q_tokens q i) (now - window60s)) \<le> estimate_bound"
  shows "snd (Reserve q now i e) \<longleftrightarrow>
           token_sum (pruneEvents (q_tokens q i) (now - window60s)) + held i outs + e \<le> fst (lims i)"
  using Reserve_exact(1) [OF ledger_keeps_inv [OF assms(1,2)] assms(3) _ assms(4-6)] assms(2) by simp

definition ledger_example :: QuotaTracker where
  "ledger_example = fst (Reserve (SetLimitOverride NewQuotaTracker (\<lambda>_. (100, 0))) 1 ''a'' 60)"

lemma ledger_example_reached: "ledger (\<lambda>_. (100, 0)) ledger_example [(''a'', 60)]"
  unfolding ledger_example_def
  by (rule ledger.reserved [OF ledger.start])
    (simp_all add: estimate_bound_def SetLimitOverride_def NewQuotaTracker_def Reserve_def Let_def
      limitsFor_def wrap64_def)


theorem Reserve_admits_what_fits_witness:
  "\<not> snd (Reserve ledger_example 2 ''a'' 50) \<and> snd (Reserve ledger_example 2 ''a'' 40)"
proof -
  have t: "q_tokens ledger_example ''a'' = []"
    by (simp add: ledger_example_def Reserve_def Let_def SetLimitOverride_def NewQuotaTracker_def limitsFor_def)
  show ?thesis
    using Reserve_admits_what_fits [OF ledger_example_reached, where i = "''a''" and e = 50 and now = 2]
      Reserve_admits_what_fits [OF ledger_example_reached, where i = "''a''" and e = 40 and now = 2]
    by (simp add: estimate_bound_def t)
qed

subsection \<open>Where the accounting goes wrong\<close>

text \<open>
  \<open>Usage\<close> returns the right numbers but corrupts the log it reads: events that survived
  the pruning are left a second time behind the compacted prefix, so the next reading counts
  their tokens twice, and a server with 60 of its 100 tokens used is refused.
\<close>
theorem Usage_duplicates_events:
  "\<exists>ops now. let q = q_run ops (SetLimitOverride NewQuotaTracker (\<lambda>_. (100, 0))) in
     (fst (snd (Usage q now ''a'')) = 60 \<and> snd (Allow q now ''a'')) \<and>
     (fst (snd (Usage (fst (Usage q now ''a'')) now ''a'')) = 120 \<and>
      \<not> snd (Allow (fst (Usage q now ''a'')) now ''a''))"
proof -
  let ?ops = "[(0::int, QTokens ''a'' 1), (59 * Second, QTokens ''a'' 60)]"
  show ?thesis
    by (rule exI [of _ ?ops], rule exI [of _ "61 * Second"])
      (simp add: q_run_def RecordTokens_def Usage_def Allow_def Let_def SetLimitOverride_def
        NewQuotaTracker_def limitsFor_def window60s_def Second_def wrap64_def compacted_def)
qed

text \<open>
  The admission sum is an \<open>int64\<close> sum of a client-supplied number: with any usage on the
  books, an estimate of \<open>2 ^ 63 - 1\<close> wraps below zero and passes a TPM limit of 100.
\<close>
theorem Reserve_overflow:
  "snd (Reserve (q_run [(0, QTokens ''a'' 99)] (SetLimitOverride NewQuotaTracker (\<lambda>_. (100, 0))))
     1 ''a'' (2 ^ 63 - 1))"
  by (simp add: Reserve_result q_run_def RecordTokens_def SetLimitOverride_def
      NewQuotaTracker_def limitsFor_def window60s_def Second_def wrap64_def)

end
