(* ===== verification/JevText.thy ===== *)
theory JevText
  imports Json
begin

text \<open>
  How the router reads a chat request it has to judge or pin (\<open>src/router/jev.go\<close> from
  \<open>jevSessionKey\<close> on, and \<open>conversationKey\<close> of \<open>src/router/sticky.go\<close>): the last user
  text, the images, a context-size estimate and the conversation's identity. SHA-256 is the
  argument \<open>sha256\<close> (message to digest); nothing is assumed of it.
\<close>

subsection \<open>Raw values\<close>

text \<open>
  A \<open>json.RawMessage\<close> field keeps the bytes of its value, from the first byte of its first
  token to the last byte of its last. \<open>lex_pos\<close> pairs every token with the input left before
  and after it; \<open>raw_members\<close> lists the members of the object a text holds with their bytes.
\<close>

type_synonym pos_tok = "json_tok \<times> string \<times> string"

function lex_pos :: "string \<Rightarrow> pos_tok list" where
  "lex_pos s = (case s of
     [] \<Rightarrow> []
   | c # cs \<Rightarrow>
       if json_space c then lex_pos cs
       else case lex_tok s of
              None \<Rightarrow> []
            | Some (k, t) \<Rightarrow> (k, s, t) # lex_pos t)"
  by pat_completeness auto
termination
  by (relation "measure length") (auto dest: lex_tok_shorter)

declare lex_pos.simps [simp del]

fun skip_value :: "nat \<Rightarrow> pos_tok list \<Rightarrow> string \<times> pos_tok list" where
  "skip_value d [] = ([], [])"
| "skip_value d ((k, b, e) # ts) =
     (let d' = (if k = TLBrace \<or> k = TLBracket then d + 1
                else if k = TRBrace \<or> k = TRBracket then d - 1 else d)
      in if d' = 0 then (e, ts) else skip_value d' ts)"

lemma skip_value_length: "length (snd (skip_value d ts)) \<le> length ts"
  by (induction d ts rule: skip_value.induct) (auto simp: Let_def)

text \<open>The members of an object, from the token that starts the first key.\<close>

function raw_members :: "pos_tok list \<Rightarrow> (string \<times> string) list" where
  "raw_members ts = (case ts of
     (TStr key, _, _) # (TColon, _, _) # (k, b, e) # rest \<Rightarrow>
       (case skip_value 0 ((k, b, e) # rest) of (after, ts') \<Rightarrow>
          (key, take (length b - length after) b) #
          (case ts' of (TComma, _, _) # ts'' \<Rightarrow> raw_members ts'' | _ \<Rightarrow> []))
   | _ \<Rightarrow> [])"
  by pat_completeness auto
termination
proof (relation "measure length", goal_cases)
  case 2
  then show ?case
    by (metis (no_types, lifting) in_measure length_Cons less_Suc_eq_le list.size(4) skip_value_length snd_conv
        le_imp_less_Suc Suc_le_lessD le_SucI add.commute plus_1_eq_Suc)
qed simp

declare raw_members.simps [simp del]

text \<open>
  Decoding a body into a struct of raw fields: the members of an object, none for \<open>null\<close>, an
  error for anything else. A field takes the last member its name matches under case folding.
\<close>

definition raw_struct :: "string \<Rightarrow> (string \<times> string) list option" where
  "raw_struct body = (case Unmarshal body of
     Some (JObj _) \<Rightarrow> Some (raw_members (tl (lex_pos body)))
   | Some JNull \<Rightarrow> Some []
   | _ \<Rightarrow> None)"

definition raw_field :: "string \<Rightarrow> (string \<times> string) list \<Rightarrow> string" where
  "raw_field name ms = (case find (\<lambda>m. foldName (fst m) = foldName name) (rev ms) of
     None \<Rightarrow> [] | Some m \<Rightarrow> snd m)"

subsection \<open>Message content\<close>

record jev_message =
  msg_Role :: string
  msg_Content :: "json option"

definition dec_raw :: "(json option \<Rightarrow> 'a \<Rightarrow> 'a) \<Rightarrow> 'a decoder" where
  "dec_raw upd v x = Some (upd (Some v) x)"

definition dec_messages :: "jev_message list decoder" where
  "dec_messages = dec_slice
     (dec_struct [(''role'', dec_string (\<lambda>s m. m\<lparr>msg_Role := s\<rparr>)), (''content'', dec_raw (\<lambda>c m. m\<lparr>msg_Content := c\<rparr>))])
     \<lparr>msg_Role = [], msg_Content = None\<rparr> (\<lambda>ms _. ms)"

definition dec_text :: "string decoder" where
  "dec_text = dec_string (\<lambda>s _. s)"

record jev_block =
  blk_Type :: string
  blk_Text :: string

definition dec_blocks :: "jev_block list decoder" where
  "dec_blocks = dec_slice
     (dec_struct [(''type'', dec_string (\<lambda>s b. b\<lparr>blk_Type := s\<rparr>)), (''text'', dec_string (\<lambda>s b. b\<lparr>blk_Text := s\<rparr>))])
     \<lparr>blk_Type = [], blk_Text = []\<rparr> (\<lambda>bs _. bs)"

definition is_text_block :: "jev_block \<Rightarrow> bool" where
  "is_text_block b \<longleftrightarrow>
     (blk_Type b = ''text'' \<or> blk_Type b = ''input_text'' \<or> blk_Type b = ''output_text'') \<and> blk_Text b \<noteq> []"

definition jevContentText :: "json option \<Rightarrow> string" where
  "jevContentText raw = (case raw of
     None \<Rightarrow> []
   | Some v \<Rightarrow> (case dec_text v [] of
       Some s \<Rightarrow> s
     | None \<Rightarrow> (case dec_blocks v [] of
         None \<Rightarrow> []
       | Some bs \<Rightarrow> Join (map blk_Text (filter is_text_block bs)) [CHR 0x0A])))"

text \<open>\<open>strings.Index\<close> and slicing make every round of the loop shorter.\<close>

definition reminder_open :: string where "reminder_open = ''<system-reminder>''"
definition reminder_close :: string where "reminder_close = ''</system-reminder>''"

function jevStripReminders :: "string \<Rightarrow> string" where
  "jevStripReminders s = (case Index s reminder_open of
     None \<Rightarrow> s
   | Some i \<Rightarrow> (case Index (drop i s) reminder_close of
       None \<Rightarrow> take i s
     | Some j \<Rightarrow> jevStripReminders (take i s @ drop (i + j + length reminder_close) s)))"
  by pat_completeness auto
termination
proof (relation "measure length", goal_cases)
  case (2 s i j)
  have "j + length reminder_close \<le> length (drop i s)" using 2(2) by (rule Index_bound)
  then show ?case by (auto simp: reminder_close_def)
qed simp

declare jevStripReminders.simps [simp del]

definition jevDefaultStateChars :: int where "jevDefaultStateChars = 8000"

function ValidString :: "string \<Rightarrow> bool" where
  "ValidString s = (if s = [] then True else if rune_size s = 0 then False else ValidString (drop (rune_size s) s))"
  by pat_completeness auto
termination
  by (relation "measure length") auto

declare ValidString.simps [simp del]

fun trim_invalid :: "nat \<Rightarrow> string \<Rightarrow> string" where
  "trim_invalid 0 text = take 0 text"
| "trim_invalid (Suc n) text =
     (if ValidString (take (Suc n) text) then take (Suc n) text else trim_invalid n text)"

definition jevTruncate :: "string \<Rightarrow> int \<Rightarrow> string" where
  "jevTruncate text maxChars0 =
     (let maxChars = (if maxChars0 \<le> 0 then jevDefaultStateChars else maxChars0)
      in if int (length text) > maxChars then trim_invalid (nat maxChars) text else text)"

definition last_user_text :: "jev_message list \<Rightarrow> string" where
  "last_user_text ms = (case find (\<lambda>m. msg_Role m = ''user'' \<and> jevContentText (msg_Content m) \<noteq> []) (rev ms) of
     None \<Rightarrow> [] | Some m \<Rightarrow> jevContentText (msg_Content m))"

definition jevRequestText :: "string \<Rightarrow> string \<times> int" where
  "jevRequestText body = (case raw_struct body of
     None \<Rightarrow> ([], 0)
   | Some mbs \<Rightarrow>
       let messages = raw_field ''messages'' mbs;
           raw = (if messages = [] then raw_field ''input'' mbs else messages);
           tokens = int (length raw div 4)
       in if raw = [] then ([], 0)
          else case decode dec_messages [] raw of
            None \<Rightarrow> (jevStripReminders (case decode dec_text [] raw of Some s \<Rightarrow> s | None \<Rightarrow> raw), tokens)
          | Some msgs \<Rightarrow> (jevStripReminders (last_user_text msgs), tokens))"

subsection \<open>Images\<close>

record jev_part =
  part_Type :: string
  part_ImageURL :: "json option"
  part_SrcType :: string
  part_MediaType :: string
  part_Data :: string

definition dec_parts :: "jev_part list decoder" where
  "dec_parts = dec_slice
     (dec_struct
        [(''type'', dec_string (\<lambda>s p. p\<lparr>part_Type := s\<rparr>)), (''image_url'', dec_raw (\<lambda>u p. p\<lparr>part_ImageURL := u\<rparr>)),
         (''source'', dec_struct
            [(''type'', dec_string (\<lambda>s p. p\<lparr>part_SrcType := s\<rparr>)),
             (''media_type'', dec_string (\<lambda>s p. p\<lparr>part_MediaType := s\<rparr>)),
             (''data'', dec_string (\<lambda>s p. p\<lparr>part_Data := s\<rparr>))])])
     \<lparr>part_Type = [], part_ImageURL = None, part_SrcType = [], part_MediaType = [], part_Data = []\<rparr> (\<lambda>ps _. ps)"

definition dec_url :: "string decoder" where
  "dec_url = dec_struct [(''url'', dec_string (\<lambda>s _. s))]"

definition part_url :: "jev_part \<Rightarrow> string" where
  "part_url b =
     (if part_Type b = ''image_url'' \<or> part_Type b = ''input_image'' then
        (case part_ImageURL b of
           None \<Rightarrow> []
         | Some v \<Rightarrow> (case dec_text v [] of
             Some s \<Rightarrow> s
           | None \<Rightarrow> (case dec_url v [] of Some u \<Rightarrow> u | None \<Rightarrow> [])))
      else if part_Type b = ''image'' \<and> part_SrcType b = ''base64'' \<and> part_Data b \<noteq> [] then
        ''data:'' @ part_MediaType b @ '';base64,'' @ part_Data b
      else [])"

definition jevMaxImages :: nat where "jevMaxImages = 8"

fun collect_images :: "jev_part list \<Rightarrow> string list \<Rightarrow> string list" where
  "collect_images [] out = out"
| "collect_images (b # bs) out =
     (let out' = (if HasPrefix (part_url b) ''data:image/'' then out @ [part_url b] else out)
      in if length out' \<ge> jevMaxImages then out' else collect_images bs out')"

definition jevRequestImages :: "string \<Rightarrow> string list" where
  "jevRequestImages body = (case raw_struct body of
     None \<Rightarrow> []
   | Some mbs \<Rightarrow>
       let messages = raw_field ''messages'' mbs;
           raw = (if messages = [] then raw_field ''input'' mbs else messages)
       in if raw = [] then []
          else case decode dec_messages [] raw of
            None \<Rightarrow> []
          | Some msgs \<Rightarrow> (case find (\<lambda>m. msg_Role m = ''user'') (rev msgs) of
              None \<Rightarrow> []
            | Some m \<Rightarrow> (case msg_Content m of
                None \<Rightarrow> []
              | Some v \<Rightarrow> (case dec_parts v [] of None \<Rightarrow> [] | Some ps \<Rightarrow> collect_images ps []))))"

subsection \<open>Conversation identity\<close>

definition hex_EncodeToString :: "string \<Rightarrow> string" where
  "hex_EncodeToString s = concat (map (\<lambda>c. [hex_digit (byte_of c div 16), hex_digit (byte_of c mod 16)]) s)"

definition jevUserKey :: "json option \<Rightarrow> string" where
  "jevUserKey raw = (case raw of
     None \<Rightarrow> []
   | Some v \<Rightarrow> (case dec_text v [] of
       Some s \<Rightarrow> s
     | None \<Rightarrow> (case dec_struct [(''id'', dec_text)] v [] of Some i \<Rightarrow> i | None \<Rightarrow> [])))"

record session_req =
  sq_PromptCacheKey :: string
  sq_User :: "json option"
  sq_SafetyIdentifier :: string
  sq_Metadata :: "json option"
  sq_Messages :: "json option"
  sq_Input :: "json option"

definition dec_session :: "session_req decoder" where
  "dec_session = dec_struct
     [(''prompt_cache_key'', dec_string (\<lambda>s r. r\<lparr>sq_PromptCacheKey := s\<rparr>)),
      (''user'', dec_raw (\<lambda>v r. r\<lparr>sq_User := v\<rparr>)),
      (''safety_identifier'', dec_string (\<lambda>s r. r\<lparr>sq_SafetyIdentifier := s\<rparr>)),
      (''metadata'', dec_raw (\<lambda>v r. r\<lparr>sq_Metadata := v\<rparr>)),
      (''messages'', dec_raw (\<lambda>v r. r\<lparr>sq_Messages := v\<rparr>)),
      (''input'', dec_raw (\<lambda>v r. r\<lparr>sq_Input := v\<rparr>))]"

definition metadata_session :: "json option \<Rightarrow> string" where
  "metadata_session raw = (case raw of
     None \<Rightarrow> []
   | Some v \<Rightarrow> (case dec_struct [(''user_id'', dec_text)] v [] of
       None \<Rightarrow> []
     | Some uid \<Rightarrow> (case decode (dec_struct [(''session_id'', dec_text)]) [] uid of
         None \<Rightarrow> [] | Some sid \<Rightarrow> sid)))"

definition first_user_text :: "jev_message list \<Rightarrow> string" where
  "first_user_text ms = (case find (\<lambda>m. msg_Role m = ''user'' \<and> jevContentText (msg_Content m) \<noteq> []) ms of
     None \<Rightarrow> [] | Some m \<Rightarrow> jevContentText (msg_Content m))"

text \<open>The text that identifies one raw list of turns: its first user text, or the whole string.\<close>

definition opening_text :: "json option \<Rightarrow> string" where
  "opening_text raw = (case raw of
     None \<Rightarrow> []
   | Some v \<Rightarrow> (case dec_messages v [] of
       Some ms \<Rightarrow> first_user_text ms
     | None \<Rightarrow> (case dec_text v [] of Some s \<Rightarrow> s | None \<Rightarrow> [])))"

definition session_key :: "(string \<Rightarrow> string) \<Rightarrow> session_req \<Rightarrow> string" where
  "session_key sha256 r =
     (if sq_PromptCacheKey r \<noteq> [] then sq_PromptCacheKey r
      else if jevUserKey (sq_User r) \<noteq> [] then jevUserKey (sq_User r)
      else if sq_SafetyIdentifier r \<noteq> [] then sq_SafetyIdentifier r
      else if metadata_session (sq_Metadata r) \<noteq> [] then metadata_session (sq_Metadata r)
      else if opening_text (sq_Messages r) \<noteq> [] then hex_EncodeToString (sha256 (opening_text (sq_Messages r)))
      else if opening_text (sq_Input r) \<noteq> [] then hex_EncodeToString (sha256 (opening_text (sq_Input r)))
      else [])"

definition zero_session :: session_req where
  "zero_session = \<lparr>sq_PromptCacheKey = [], sq_User = None, sq_SafetyIdentifier = [], sq_Metadata = None,
     sq_Messages = None, sq_Input = None\<rparr>"

definition jevSessionKey :: "(string \<Rightarrow> string) \<Rightarrow> string \<Rightarrow> string" where
  "jevSessionKey sha256 body = (case decode dec_session zero_session body of
     None \<Rightarrow> [] | Some r \<Rightarrow> session_key sha256 r)"

definition sessionHeaders :: "string list" where
  "sessionHeaders = [''X-Claude-Code-Session-Id'', ''X-Session-Id'', ''Session-Id'', ''Session_id'',
     ''X-Thread-Id'', ''Thread-Id'', ''X-Conversation-Id'', ''Conversation-Id'', ''X-Openai-Conversation-Id'']"

text \<open>\<open>http.Header.Get\<close>: the first value under the (canonical) name, or the empty string.\<close>

definition header_get :: "(string \<times> string) list \<Rightarrow> string \<Rightarrow> string" where
  "header_get hs name = (case map_of hs name of None \<Rightarrow> [] | Some v \<Rightarrow> v)"

definition hashKey :: "(string \<Rightarrow> string) \<Rightarrow> string \<Rightarrow> string \<Rightarrow> string" where
  "hashKey sha256 kind key = hex_EncodeToString (sha256 (kind @ '':'' @ key))"

definition conversationKey :: "(string \<Rightarrow> string) \<Rightarrow> (string \<times> string) list \<Rightarrow> string \<Rightarrow> string" where
  "conversationKey sha256 hs body =
     (case find (\<lambda>h. header_get hs h \<noteq> []) sessionHeaders of
        Some h \<Rightarrow> hashKey sha256 ''h'' (header_get hs h)
      | None \<Rightarrow> if jevSessionKey sha256 body \<noteq> [] then hashKey sha256 ''b'' (jevSessionKey sha256 body) else [])"

subsection \<open>What the readers guarantee\<close>

lemma stripped_no_reminder: "Index (jevStripReminders s) reminder_open = None"
proof (induction s rule: jevStripReminders.induct)
  case (1 s)
  show ?case
  proof (cases "Index s reminder_open")
    case None
    then show ?thesis by (simp add: jevStripReminders.simps)
  next
    case (Some i)
    show ?thesis
    proof (cases "Index (drop i s) reminder_close")
      case None
      have "Index (take i s) reminder_open = None"
      proof (rule ccontr)
        assume "Index (take i s) reminder_open \<noteq> None"
        then obtain k where k: "Index (take i s) reminder_open = Some k" by auto
        have "Index (take i s @ drop i s) reminder_open = Some k" using k by (rule Index_append)
        then have "k = i" using Some by simp
        moreover have "k + length reminder_open \<le> length (take i s)" using k by (rule Index_bound)
        ultimately show False by (simp add: reminder_open_def)
      qed
      then show ?thesis using None Some by (simp add: jevStripReminders.simps [of s])
    next
      case (Some j)
      then show ?thesis
        using 1 \<open>Index s reminder_open = Some i\<close> by (simp add: jevStripReminders.simps [of s])
    qed
  qed
qed

lemma strip_unchanged: "Index s reminder_open = None \<Longrightarrow> jevStripReminders s = s"
  by (simp add: jevStripReminders.simps)

lemma rune_size_le4: "rune_size s \<le> 4"
  by (simp add: rune_size_def Let_def split: list.splits)

lemma rune_size_length: "rune_size s \<le> length s"
  by (auto simp: rune_size_def Let_def is_cont_def split: list.splits)

lemma is_cont_Cons [simp]: "is_cont lo hi (c # cs) \<longleftrightarrow> lo \<le> byte_of c \<and> byte_of c \<le> hi"
  and is_cont_Nil [simp]: "\<not> is_cont lo hi []"
  by (simp_all add: is_cont_def)

lemma rune_size_take:
  assumes "rune_size s \<noteq> 0"
  shows "rune_size (take (rune_size s) s @ t) = rune_size s"
proof -
  obtain c cs where s: "s = c # cs" using assms by (cases s) (auto simp: rune_size_def)
  let ?b = "byte_of c"
  consider "?b < 0x80" | "0xC2 \<le> ?b" "?b \<le> 0xDF" | "0xE0 \<le> ?b" "?b \<le> 0xEF" | "0xF0 \<le> ?b" "?b \<le> 0xF4"
    using assms by (auto simp: rune_size_def s Let_def split: if_splits)
  then show ?thesis
  proof cases
    case 1
    then show ?thesis by (simp add: rune_size_def s Let_def)
  next
    case 2
    then obtain d ds where "cs = d # ds" using assms by (cases cs) (auto simp: rune_size_def s Let_def)
    then show ?thesis using 2 assms by (auto simp: rune_size_def s Let_def)
  next
    case 3
    then obtain d e ds where "cs = d # e # ds"
      using assms by (cases cs; cases "tl cs") (auto simp: rune_size_def s Let_def split: if_splits)
    then show ?thesis using 3 assms by (auto simp: rune_size_def s Let_def)
  next
    case 4
    then obtain d e f ds where "cs = d # e # f # ds"
      using assms by (cases cs; cases "tl cs"; cases "tl (tl cs)") (auto simp: rune_size_def s Let_def split: if_splits)
    then show ?thesis using 4 assms by (auto simp: rune_size_def s Let_def)
  qed
qed

lemma ValidString_Nil [simp]: "ValidString []"
  by (simp add: ValidString.simps)

lemma ValidString_rune_append:
  "rune_size s \<noteq> 0 \<Longrightarrow> ValidString t \<Longrightarrow> ValidString (take (rune_size s) s @ t)"
  using rune_size_length [of s]
  by (subst ValidString.simps) (auto simp: rune_size_take)

lemma boundary_within_three:
  "ValidString s \<Longrightarrow> n \<le> length s \<Longrightarrow> \<exists>k \<le> 3. k \<le> n \<and> ValidString (take (n - k) s)"
proof (induction s arbitrary: n rule: ValidString.induct)
  case (1 s)
  show ?case
  proof (cases "s = [] \<or> n < rune_size s")
    case True
    then have "n \<le> 3" using rune_size_le4 [of s] 1(3) by auto
    then show ?thesis by (intro exI [of _ n]) simp
  next
    case False
    have r: "rune_size s \<noteq> 0" "ValidString (drop (rune_size s) s)"
      using 1(2) False by (simp_all add: ValidString.simps [of s] split: if_splits)
    have le: "n - rune_size s \<le> length (drop (rune_size s) s)" using 1(3) False by simp
    obtain k where k: "k \<le> 3" "k \<le> n - rune_size s" "ValidString (take (n - rune_size s - k) (drop (rune_size s) s))"
      using 1(1) [OF _ r le] False by blast
    have "take (n - k) s = take (rune_size s) s @ take (n - rune_size s - k) (drop (rune_size s) s)"
    proof -
      have "n - k = rune_size s + (n - rune_size s - k)" using False k(2) by linarith
      then show ?thesis by (metis take_add)
    qed
    then show ?thesis using ValidString_rune_append [OF r(1) k(3)] k False by auto
  qed
qed

lemma trim_invalid_prefix: "\<exists>m \<le> n. trim_invalid n text = take m text \<and> ValidString (take m text) \<and>
    (\<forall>j. m < j \<and> j \<le> n \<longrightarrow> \<not> ValidString (take j text))"
proof (induction n)
  case 0
  then show ?case by (intro exI [of _ 0]) auto
next
  case (Suc n)
  show ?case
  proof (cases "ValidString (take (Suc n) text)")
    case True
    then show ?thesis by (intro exI [of _ "Suc n"]) auto
  next
    case False
    obtain m where "m \<le> n" "trim_invalid n text = take m text" "ValidString (take m text)"
      "\<forall>j. m < j \<and> j \<le> n \<longrightarrow> \<not> ValidString (take j text)" using Suc by blast
    then show ?thesis using False by (intro exI [of _ m]) (auto simp: le_Suc_eq)
  qed
qed

text \<open>
  The text handed to the decision model is cut without breaking a character. It is never
  longer than the configured limit (the default 8000 bytes when none is set), a text within the
  limit is kept whole, a longer one is cut to a valid prefix, and cutting valid text loses at
  most three bytes of the limit.
\<close>
theorem jevTruncate_rune_safe:
  assumes "ValidString text"
  shows "let m = (if limit \<le> 0 then jevDefaultStateChars else limit); out = jevTruncate text limit in
    ValidString out \<and> int (length out) \<le> m \<and> (\<exists>rest. text = out @ rest) \<and>
    (int (length text) \<le> m \<longrightarrow> out = text) \<and>
    (int (length text) > m \<longrightarrow> m - 3 \<le> int (length out))"
proof -
  define m where "m = (if limit \<le> 0 then jevDefaultStateChars else limit)"
  have m: "0 < m" by (simp add: m_def jevDefaultStateChars_def)
  have out: "jevTruncate text limit = (if int (length text) > m then trim_invalid (nat m) text else text)"
    by (simp add: jevTruncate_def m_def Let_def)
  show ?thesis
  proof (cases "int (length text) > m")
    case False
    then show ?thesis using assms out by (simp add: Let_def m_def [symmetric])
  next
    case True
    obtain k where k: "k \<le> nat m" "trim_invalid (nat m) text = take k text" "ValidString (take k text)"
      "\<forall>j. k < j \<and> j \<le> nat m \<longrightarrow> \<not> ValidString (take j text)"
      using trim_invalid_prefix by blast
    obtain d where "d \<le> 3" "d \<le> nat m" "ValidString (take (nat m - d) text)"
    proof -
      have "nat m \<le> length text" using True by linarith
      then show ?thesis using boundary_within_three [OF assms] that by blast
    qed
    then have "nat m - d \<le> k" using k(4) by (metis diff_le_self not_less)
    then have "m - 3 \<le> int k" using \<open>d \<le> 3\<close> \<open>d \<le> nat m\<close> by linarith
    moreover have "k \<le> length text" "int k \<le> m" using k(1) True m by linarith+
    moreover have "text = take k text @ drop k text" by simp
    ultimately show ?thesis
      using k out True by (auto simp: Let_def m_def [symmetric] intro: exI [of _ "drop k text"])
  qed
qed

theorem jevTruncate_rune_safe_witness:
  "ValidString (jevTruncate [CHR ''a'', CHR 0xC3, CHR 0xA9] 2) \<and>
   length (jevTruncate [CHR ''a'', CHR 0xC3, CHR 0xA9] 2) \<le> 2"
proof -
  have "ValidString [CHR ''a'', CHR 0xC3, CHR 0xA9]" by code_simp
  from jevTruncate_rune_safe [OF this, of 2] show ?thesis by (simp add: Let_def)
qed

lemma first_user_text_append:
  "first_user_text ms \<noteq> [] \<Longrightarrow> first_user_text (ms @ ms') = first_user_text ms"
  by (induction ms) (auto simp: first_user_text_def)

text \<open>
  A conversation keeps its identity as it grows. When a later request of the conversation
  repeats the earlier turns and appends more, and the earlier turns hold a user text, both
  requests have the same session key, whatever the hash function is.
\<close>
theorem session_key_stable:
  assumes "sq_Messages r = Some v" "dec_messages v [] = Some ms" "first_user_text ms \<noteq> []"
    and "dec_messages v' [] = Some (ms @ later)"
  shows "session_key sha256 (r\<lparr>sq_Messages := Some v'\<rparr>) = session_key sha256 r"
  using assms by (simp add: session_key_def opening_text_def first_user_text_append)

theorem session_key_stable_witness:
  "let u = JObj [(''role'', JStr ''user''), (''content'', JStr ''hi'')];
       a = JObj [(''role'', JStr ''assistant''), (''content'', JStr ''yes'')]
   in session_key (\<lambda>s. s) (zero_session\<lparr>sq_Messages := Some (JArr [u, a])\<rparr>) =
      session_key (\<lambda>s. s) (zero_session\<lparr>sq_Messages := Some (JArr [u])\<rparr>)"
  unfolding Let_def
proof -
  let ?u = "JObj [(''role'', JStr ''user''), (''content'', JStr ''hi'')]"
  let ?a = "JObj [(''role'', JStr ''assistant''), (''content'', JStr ''yes'')]"
  let ?mu = "\<lparr>msg_Role = ''user'', msg_Content = Some (JStr ''hi'')\<rparr>"
  let ?ma = "\<lparr>msg_Role = ''assistant'', msg_Content = Some (JStr ''yes'')\<rparr>"
  have "dec_messages (JArr [?u]) [] = Some [?mu]" "dec_messages (JArr [?u, ?a]) [] = Some ([?mu] @ [?ma])"
    "first_user_text [?mu] \<noteq> []"
    by (simp_all add: dec_messages_def dec_slice_def dec_struct_def find_field_def dec_string_def dec_raw_def
        first_user_text_def jevContentText_def dec_text_def)
  from session_key_stable [OF _ this(1,3,2), of "zero_session\<lparr>sq_Messages := Some (JArr [?u])\<rparr>" "\<lambda>s. s"]
  show "session_key (\<lambda>s. s) (zero_session\<lparr>sq_Messages := Some (JArr [?u, ?a])\<rparr>) =
      session_key (\<lambda>s. s) (zero_session\<lparr>sq_Messages := Some (JArr [?u])\<rparr>)"
    by simp
qed

end
