(* ===== verification/ByteScan.thy ===== *)
theory ByteScan
  imports JevText
begin

text \<open>
  The byte scanners that find and replace model names without decoding JSON:
  \<open>extractModel\<close> of \<open>src/router/router.go\<close>, the response rewriting of
  \<open>src/proxy/proxy.go\<close> (\<open>FindJSONStringEnd\<close> to \<open>modelRewriteWriter\<close>) and
  \<open>src/proxy/multipart.go\<close>. A scanner that keeps an index into its input works here on the
  input left from that index.
\<close>

definition quote :: char where "quote = CHR 0x22"
definition bslash :: char where "bslash = CHR 0x5C"
definition model_key :: string where "model_key = [quote] @ ''model'' @ [quote]"

definition IsJSONNameChar :: "char \<Rightarrow> bool" where
  "IsJSONNameChar c \<longleftrightarrow> (let b = byte_of c in
     (97 \<le> b \<and> b \<le> 122) \<or> (65 \<le> b \<and> b \<le> 90) \<or> (48 \<le> b \<and> b \<le> 57) \<or> c = CHR ''_'' \<or> c = CHR ''-'')"

definition isWhitespace :: "char \<Rightarrow> bool" where
  "isWhitespace c \<longleftrightarrow> c = CHR 0x20 \<or> c = CHR 0x09 \<or> c = CHR 0x0A \<or> c = CHR 0x0D"

text \<open>The offset of the closing quote of a string, from just past its opening quote.\<close>

fun FindJSONStringEnd :: "string \<Rightarrow> nat option" where
  "FindJSONStringEnd [] = None"
| "FindJSONStringEnd [c] = (if c = quote then Some 0 else None)"
| "FindJSONStringEnd (c # d # ds) =
     (if c = bslash then map_option (\<lambda>n. n + 2) (FindJSONStringEnd ds)
      else if c = quote then Some 0
      else map_option Suc (FindJSONStringEnd (d # ds)))"

lemma quote_neq_bslash [simp]: "quote \<noteq> bslash" "bslash \<noteq> quote"
  by (simp_all add: quote_def bslash_def)

lemma FindJSONStringEnd_bound: "FindJSONStringEnd s = Some n \<Longrightarrow> n < length s"
  by (induction s arbitrary: n rule: FindJSONStringEnd.induct) (auto split: if_splits)

subsection \<open>The model a request names (router.go)\<close>

fun skipString :: "string \<Rightarrow> string" where
  "skipString [] = []"
| "skipString [c] = []"
| "skipString (c # d # ds) =
     (if c = bslash then skipString ds
      else if c = quote then d # ds
      else skipString (d # ds))"

lemma skipString_length: "length (skipString s) \<le> length s"
  by (induction s rule: skipString.induct) auto

datatype model_error = MissingModel | InvalidModelValue

fun model_error_text :: "model_error \<Rightarrow> string" where
  "model_error_text MissingModel = ''missing '' @ [CHR 0x27] @ ''model'' @ [CHR 0x27] @ '' field''"
| "model_error_text InvalidModelValue = ''invalid model value''"

definition parseModelValue :: "string \<Rightarrow> model_error + string option" where
  "parseModelValue after = (case Index after '':'' of
     None \<Rightarrow> Inr None
   | Some colon \<Rightarrow>
       (case dropWhile isWhitespace (drop (colon + 1) after) of
          [] \<Rightarrow> Inr None
        | c # str \<Rightarrow>
            if c \<noteq> quote then Inr None
            else (case FindJSONStringEnd str of
              None \<Rightarrow> Inl InvalidModelValue
            | Some n \<Rightarrow> Inr (Some (TrimSpace (take n str))))))"

definition model_key_here :: "string \<Rightarrow> bool" where
  "model_key_here s \<longleftrightarrow> HasPrefix s model_key \<and>
     (case drop (length model_key) s of [] \<Rightarrow> True | c # _ \<Rightarrow> \<not> IsJSONNameChar c)"

function scan_model :: "int \<Rightarrow> string \<Rightarrow> model_error + string" where
  "scan_model depth s = (case s of
     [] \<Rightarrow> Inl MissingModel
   | c # cs \<Rightarrow>
       if c = CHR ''{'' then scan_model (depth + 1) cs
       else if c = CHR ''}'' then scan_model (depth - 1) cs
       else if c = quote then
         (if depth = 1 \<and> model_key_here s then
            (case parseModelValue (drop (length model_key) s) of
               Inl e \<Rightarrow> Inl e
             | Inr (Some m) \<Rightarrow> Inr m
             | Inr None \<Rightarrow> scan_model depth (skipString cs))
          else scan_model depth (skipString cs))
       else scan_model depth cs)"
  by pat_completeness auto
termination
  by (relation "measure (\<lambda>(d, s). length s)") (auto simp: less_Suc_eq_le skipString_length)

declare scan_model.simps [simp del]

definition extractModel :: "string \<Rightarrow> model_error + string" where
  "extractModel body = scan_model 0 body"

subsection \<open>Multipart bodies (multipart.go)\<close>

definition crlf :: string where "crlf = [CHR 0x0D, CHR 0x0A]"

definition marker_span :: "string \<Rightarrow> string \<Rightarrow> (nat \<times> nat) option" where
  "marker_span body marker = (case Index body marker of
     None \<Rightarrow> None
   | Some i \<Rightarrow>
       let rest = i + length marker;
           start = (case Index (drop rest body) (crlf @ crlf) of
             Some j \<Rightarrow> Some (rest + j + 4)
           | None \<Rightarrow> (case Index (drop rest body) [CHR 0x0A, CHR 0x0A] of
               Some j \<Rightarrow> Some (rest + j + 2) | None \<Rightarrow> None))
       in case start of
            None \<Rightarrow> None
          | Some st \<Rightarrow>
              (case (case Index (drop st body) (crlf @ ''--'') of
                       Some j \<Rightarrow> Some (st + j)
                     | None \<Rightarrow> (case Index (drop st body) ([CHR 0x0A] @ ''--'') of
                         Some j \<Rightarrow> Some (st + j) | None \<Rightarrow> None)) of
                 None \<Rightarrow> None
               | Some en \<Rightarrow> if en \<le> st then None else Some (st, en)))"

definition multipartModelSpan :: "string \<Rightarrow> (nat \<times> nat) option" where
  "multipartModelSpan body = (case marker_span body (''name='' @ [quote] @ ''model'' @ [quote]) of
     Some se \<Rightarrow> Some se
   | None \<Rightarrow> marker_span body ''name=model'')"

definition ExtractModelFromMultipart :: "string \<Rightarrow> string option" where
  "ExtractModelFromMultipart body = (case multipartModelSpan body of
     None \<Rightarrow> None
   | Some (st, en) \<Rightarrow>
       let model = TrimSpace (take (en - st) (drop st body))
       in if model = [] then None else Some model)"

definition RewriteModelInMultipart :: "string \<Rightarrow> string \<Rightarrow> model_error + string" where
  "RewriteModelInMultipart body newModel =
     (if newModel = [] then Inr body
      else case multipartModelSpan body of
        None \<Rightarrow> Inl MissingModel
      | Some (st, en) \<Rightarrow> Inr (take st body @ newModel @ drop en body))"

subsection \<open>Model names in responses (proxy.go)\<close>

definition hex_nibble :: "nat \<Rightarrow> char" where
  "hex_nibble n = (if n < 10 then char_of (48 + n) else char_of (87 + n))"

definition escape_char :: "char \<Rightarrow> string" where
  "escape_char c =
     (if c = quote then [bslash, quote]
      else if c = bslash then [bslash, bslash]
      else if c = CHR 0x0A then [bslash, CHR ''n'']
      else if c = CHR 0x0D then [bslash, CHR ''r'']
      else if c = CHR 0x09 then [bslash, CHR ''t'']
      else if c = CHR 0x08 then [bslash, CHR ''b'']
      else if c = CHR 0x0C then [bslash, CHR ''f'']
      else if byte_of c < 0x20 then
        [bslash, CHR ''u'', CHR ''0'', CHR ''0'', hex_nibble (byte_of c div 16), hex_nibble (byte_of c mod 16)]
      else [c])"

definition escapeJSONString :: "string \<Rightarrow> string" where
  "escapeJSONString s = concat (map escape_char s)"

text \<open>
  Where a scan stands after one key: done, or going on from a later offset, with the offsets of
  a quoted value when there is one. Both replacement loops look for their key this way.
\<close>

datatype key_scan = NoKey | NoColon | SkipTo nat | ValueAt nat

definition next_key :: "string \<Rightarrow> key_scan" where
  "next_key s = (case Index s model_key of
     None \<Rightarrow> NoKey
   | Some k \<Rightarrow>
       let e = k + length model_key in
       if (case drop e s of [] \<Rightarrow> False | c # _ \<Rightarrow> IsJSONNameChar c) then SkipTo e
       else (case Index (drop e s) '':'' of
               None \<Rightarrow> NoColon
             | Some colon \<Rightarrow>
                 let v0 = e + colon + 1;
                     v = v0 + length (takeWhile isWhitespace (drop v0 s))
                 in (case drop v s of
                       [] \<Rightarrow> SkipTo v
                     | c # _ \<Rightarrow> if c \<noteq> quote then SkipTo v else ValueAt v)))"

lemma next_key_cases:
  obtains "next_key s = NoKey" | "next_key s = NoColon"
  | e where "next_key s = SkipTo e" "0 < e" "e \<le> length s"
  | v where "next_key s = ValueAt v" "0 < v" "v < length s" "hd (drop v s) = quote"
proof (cases "Index s model_key")
  case None
  then show ?thesis using that(1) by (simp add: next_key_def)
next
  case (Some k)
  define e where "e = k + length model_key"
  have e: "0 < e" "e \<le> length s" using Index_bound [OF Some] by (simp_all add: e_def model_key_def)
  show ?thesis
  proof (cases "(case drop e s of [] \<Rightarrow> False | c # _ \<Rightarrow> IsJSONNameChar c)")
    case True
    then have "next_key s = SkipTo e" by (simp add: next_key_def Some e_def [symmetric])
    then show ?thesis using that(3) e by blast
  next
    case notname: False
    show ?thesis
    proof (cases "Index (drop e s) '':''")
      case None
      then have "next_key s = NoColon" using notname by (simp add: next_key_def Some e_def [symmetric])
      then show ?thesis using that(2) by blast
    next
      case colon: (Some c)
      define v where "v = e + c + 1 + length (takeWhile isWhitespace (drop (e + c + 1) s))"
      have nk: "next_key s = (case drop v s of [] \<Rightarrow> SkipTo v | x # _ \<Rightarrow> if x \<noteq> quote then SkipTo v else ValueAt v)"
        using notname colon unfolding v_def
        by (simp add: next_key_def Some e_def [symmetric] Let_def cong: list.case_cong if_cong)
      have "e + c + 1 \<le> length s" using Index_bound [OF colon] e by simp
      then have v: "0 < v" "v \<le> length s"
        using length_takeWhile_le [of isWhitespace "drop (e + c + 1) s"] by (simp_all add: v_def)
      show ?thesis
      proof (cases "drop v s")
        case Nil
        then show ?thesis using nk v that(3) by simp
      next
        case (Cons x xs)
        then have "v < length s" by (metis drop_all list.distinct(1) not_less)
        then show ?thesis using nk v Cons that(3) [of v] that(4) [of v] by (cases "x = quote") auto
      qed
    qed
  qed
qed

lemma next_key_bounds:
  "next_key s = SkipTo n \<Longrightarrow> 0 < n \<and> n \<le> length s"
  "next_key s = ValueAt n \<Longrightarrow> 0 < n \<and> n < length s \<and> hd (drop n s) = quote"
  by (cases s rule: next_key_cases; simp)+

text \<open>
  \<open>replaceAnyModelValue\<close>: the output for the input left, and the first value replaced.
\<close>

function any_scan :: "string \<Rightarrow> string \<Rightarrow> string \<times> string" where
  "any_scan escaped s = (case next_key s of
     NoKey \<Rightarrow> (s, [])
   | NoColon \<Rightarrow> (s, [])
   | SkipTo n \<Rightarrow> (case any_scan escaped (drop n s) of (r, c) \<Rightarrow> (take n s @ r, c))
   | ValueAt v \<Rightarrow>
       (case FindJSONStringEnd (drop (v + 1) s) of
          None \<Rightarrow> (case any_scan escaped (drop v s) of (r, c) \<Rightarrow> (take v s @ r, c))
        | Some e \<Rightarrow>
            let cur = take e (drop (v + 1) s)
            in case any_scan escaped (drop (v + 1 + e + 1) s) of (r, c) \<Rightarrow>
                 if cur = escaped then (take (v + 1 + e + 1) s @ r, c)
                 else (take v s @ [quote] @ escaped @ [quote] @ r, if cur = [] then c else cur)))"
  by pat_completeness auto
termination
  by (relation "measure (\<lambda>(e, s). length s)") (auto dest: next_key_bounds)

declare any_scan.simps [simp del]

definition replaceAnyModelValue :: "string \<Rightarrow> string \<Rightarrow> string \<times> string" where
  "replaceAnyModelValue data newModel = any_scan (escapeJSONString newModel) data"

function exact_scan :: "string \<Rightarrow> string \<Rightarrow> string \<Rightarrow> string \<times> nat" where
  "exact_scan pattern repl s = (case next_key s of
     NoKey \<Rightarrow> (s, 0)
   | NoColon \<Rightarrow> (s, 0)
   | SkipTo n \<Rightarrow> (case exact_scan pattern repl (drop n s) of (r, c) \<Rightarrow> (take n s @ r, c))
   | ValueAt v \<Rightarrow>
       if v + length pattern > length s then (s, 0)
       else if \<not> HasPrefix (drop v s) pattern then
         (case exact_scan pattern repl (drop (v + 1) s) of (r, c) \<Rightarrow> (take (v + 1) s @ r, c))
       else (case exact_scan pattern repl (drop (v + length pattern) s) of
               (r, c) \<Rightarrow> (take v s @ repl @ r, c + 1)))"
  by pat_completeness auto
termination
  by (relation "measure (\<lambda>(p, r, s). length s)") (auto dest: next_key_bounds)

declare exact_scan.simps [simp del]

definition replaceJSONModelValue :: "string \<Rightarrow> string \<Rightarrow> string \<Rightarrow> string \<times> nat" where
  "replaceJSONModelValue data oldModel newModel =
     exact_scan ([quote] @ escapeJSONString oldModel @ [quote]) ([quote] @ escapeJSONString newModel @ [quote]) data"

definition rewriteModelInResponse :: "string \<Rightarrow> string \<Rightarrow> string \<Rightarrow> string \<times> string" where
  "rewriteModelInResponse data oldModel newModel =
     (if oldModel = [] \<or> newModel = [] then (data, [])
      else if oldModel = newModel then replaceAnyModelValue data newModel
      else (fst (replaceJSONModelValue data oldModel newModel), []))"

text \<open>
  How much of the end of a chunk must wait for the next one. The loop over keys returns the
  held length, or nothing when the last key's value is complete.
\<close>

fun last_index :: "string \<Rightarrow> string \<Rightarrow> nat \<Rightarrow> nat option" where
  "last_index s p 0 = (if HasPrefix s p then Some 0 else None)"
| "last_index s p (Suc n) = (if HasPrefix (drop (Suc n) s) p then Some (Suc n) else last_index s p n)"

definition LastIndex :: "string \<Rightarrow> string \<Rightarrow> nat option" where
  "LastIndex s p = last_index s p (length s)"

lemma last_index_bound: "last_index s p n = Some k \<Longrightarrow> k \<le> n \<and> HasPrefix (drop k s) p"
  by (induction n) (auto split: if_splits)

lemma LastIndex_key_bound: "LastIndex s model_key = Some k \<Longrightarrow> k < length s"
proof -
  assume "LastIndex s model_key = Some k"
  then have "HasPrefix (drop k s) model_key" unfolding LastIndex_def by (blast dest: last_index_bound)
  then have "length model_key \<le> length (drop k s)" by (rule HasPrefix_length)
  then show ?thesis by (simp add: model_key_def)
qed

function open_value :: "string \<Rightarrow> nat option" where
  "open_value b = (case LastIndex b model_key of
     None \<Rightarrow> None
   | Some k \<Rightarrow>
       let e = k + length model_key in
       if (case drop e b of [] \<Rightarrow> False | c # _ \<Rightarrow> IsJSONNameChar c) then open_value (take k b)
       else (case Index (drop e b) '':'' of
               None \<Rightarrow> Some (length b - k)
             | Some colon \<Rightarrow>
                 (case dropWhile isWhitespace (drop (e + colon + 1) b) of
                    [] \<Rightarrow> Some (length b - k)
                  | c # str \<Rightarrow> if c \<noteq> quote then Some (length b - k)
                              else if FindJSONStringEnd str = None then Some (length b - k)
                              else None)))"
  by pat_completeness auto
termination
  by (relation "measure length") (auto dest: LastIndex_key_bound)

declare open_value.simps [simp del]

definition pendingModelHold :: "string \<Rightarrow> nat" where
  "pendingModelHold b = (case open_value b of
     Some n \<Rightarrow> n
   | None \<Rightarrow> (case find (\<lambda>l. HasSuffix b (take l model_key)) [6, 5, 4, 3, 2, 1] of
       Some l \<Rightarrow> l | None \<Rightarrow> 0))"

text \<open>The writer's state and what one chunk makes it pass on.\<close>

record modelRewriteWriter =
  mw_oldModel :: string
  mw_newModel :: string
  mw_capturedModel :: string
  mw_carry :: string

definition modelRewrite_Write :: "string \<Rightarrow> modelRewriteWriter \<Rightarrow> modelRewriteWriter \<times> string" where
  "modelRewrite_Write data w =
     (let buf = mw_carry w @ data;
          (rewritten, captured) = rewriteModelInResponse buf (mw_oldModel w) (mw_newModel w);
          w1 = w\<lparr>mw_carry := [],
                 mw_capturedModel := (if mw_capturedModel w = [] \<and> captured \<noteq> [] then captured else mw_capturedModel w)\<rparr>;
          hold = pendingModelHold rewritten
      in if hold = 0 then (w1, rewritten)
         else (w1\<lparr>mw_carry := drop (length rewritten - hold) rewritten\<rparr>, take (length rewritten - hold) rewritten))"

definition modelRewrite_Finish :: "modelRewriteWriter \<Rightarrow> modelRewriteWriter \<times> string" where
  "modelRewrite_Finish w = (w\<lparr>mw_carry := []\<rparr>, mw_carry w)"

definition truncateBytes :: "string \<Rightarrow> nat \<Rightarrow> string" where
  "truncateBytes b n = (if length b \<le> n then b else take n b @ ''...'')"

subsection \<open>The declared output budget\<close>

record token_budget =
  tb_MaxTokens :: "int option"
  tb_MaxCompletionTokens :: "int option"

definition DeclaredOutputBudget :: "string \<Rightarrow> int" where
  "DeclaredOutputBudget body =
     (case decode (dec_struct [(''max_tokens'', dec_int_ptr (\<lambda>v r. r\<lparr>tb_MaxTokens := v\<rparr>)),
                               (''max_completion_tokens'', dec_int_ptr (\<lambda>v r. r\<lparr>tb_MaxCompletionTokens := v\<rparr>))])
             \<lparr>tb_MaxTokens = None, tb_MaxCompletionTokens = None\<rparr> body of
        None \<Rightarrow> 0
      | Some s \<Rightarrow>
          let m1 = (case tb_MaxTokens s of Some n \<Rightarrow> max n 0 | None \<Rightarrow> 0)
          in (case tb_MaxCompletionTokens s of Some n \<Rightarrow> max n m1 | None \<Rightarrow> m1))"

lemma DeclaredOutputBudget_nonneg: "0 \<le> DeclaredOutputBudget body"
  by (auto simp: DeclaredOutputBudget_def Let_def split: option.splits)

subsection \<open>An escaped model name reads back as itself\<close>

lemma byte_of_char_of [simp]: "n < 256 \<Longrightarrow> byte_of (char_of n) = n"
  by simp

lemma hex_value_nibble: "n < 16 \<Longrightarrow> hex_value (hex_nibble n) = Some n"
  by (simp add: hex_value_def hex_nibble_def Let_def)

lemma lex_unit_escape_ascii:
  assumes "byte_of c < 0x80"
  shows "lex_unit (escape_char c @ t) = Some (Some [c], t)"
proof -
  consider "c = quote" | "c = bslash" | "c = CHR 0x0A" | "c = CHR 0x0D" | "c = CHR 0x09" | "c = CHR 0x08" | "c = CHR 0x0C"
    | "c \<notin> {quote, bslash, CHR 0x0A, CHR 0x0D, CHR 0x09, CHR 0x08, CHR 0x0C}" "byte_of c < 0x20"
    | "c \<notin> {quote, bslash}" "0x20 \<le> byte_of c" by fastforce
  then show ?thesis
  proof cases
    case 8
    let ?h = "hex_nibble (byte_of c div 16)" and ?l = "hex_nibble (byte_of c mod 16)"
    have "escape_char c = [bslash, CHR ''u'', CHR ''0'', CHR ''0'', ?h, ?l]"
      using 8 by (simp add: escape_char_def)
    moreover have "hex4 (CHR ''0'' # CHR ''0'' # ?h # ?l # t) = Some (byte_of c)"
      using 8(2) hex_value_nibble [of "byte_of c div 16"] hex_value_nibble [of "byte_of c mod 16"]
      by (simp add: hex_value_def [of "CHR ''0''"])
    ultimately show ?thesis
      using 8(2) by (simp add: lex_unit_def bslash_def EncodeRune_def)
  next
    case 9
    then have "escape_char c = [c]" by (auto simp: escape_char_def)
    then show ?thesis
      using 9 assms by (simp add: lex_unit_def rune_size_def quote_def bslash_def)
  qed (simp_all add: escape_char_def quote_def bslash_def lex_unit_def escape_value_def)
qed

lemma rune_bytes_high:
  assumes "rune_size s \<noteq> 0" "0x80 \<le> byte_of (hd s)"
  shows "\<forall>c \<in> set (take (rune_size s) s). 0x80 \<le> byte_of c"
proof -
  obtain c cs where s: "s = c # cs" using assms(1) by (cases s) (auto simp: rune_size_def)
  let ?b = "byte_of c"
  consider "0xC2 \<le> ?b" "?b \<le> 0xDF" | "0xE0 \<le> ?b" "?b \<le> 0xEF" | "0xF0 \<le> ?b" "?b \<le> 0xF4"
    using assms by (auto simp: rune_size_def s Let_def split: if_splits)
  then show ?thesis
  proof cases
    case 1
    then obtain d ds where "cs = d # ds" "0x80 \<le> byte_of d" "rune_size s = 2"
      using assms(1) by (cases cs) (auto simp: rune_size_def s Let_def split: if_splits)
    then show ?thesis using 1 by (simp add: s)
  next
    case 2
    then obtain d e ds where "cs = d # e # ds" "0x80 \<le> byte_of d" "0x80 \<le> byte_of e" "rune_size s = 3"
      using assms(1) by (cases cs; cases "tl cs") (auto simp: rune_size_def s Let_def split: if_splits)
    then show ?thesis using 2 by (simp add: s)
  next
    case 3
    then obtain d e f ds where "cs = d # e # f # ds" "0x80 \<le> byte_of d" "0x80 \<le> byte_of e"
      "0x80 \<le> byte_of f" "rune_size s = 4"
      using assms(1)
      by (cases cs; cases "tl cs"; cases "tl (tl cs)") (auto simp: rune_size_def s Let_def split: if_splits)
    then show ?thesis using 3 by (simp add: s)
  qed
qed

lemma escape_char_high:
  assumes "0x80 \<le> byte_of c"
  shows "escape_char c = [c]"
proof -
  have "c \<noteq> d" if "byte_of d < 0x80" for d using that assms by fastforce
  then have "c \<noteq> quote" "c \<noteq> bslash" "c \<noteq> CHR 0x0A" "c \<noteq> CHR 0x0D" "c \<noteq> CHR 0x09" "c \<noteq> CHR 0x08" "c \<noteq> CHR 0x0C"
    by (simp_all add: quote_def bslash_def)
  then show ?thesis using assms by (simp add: escape_char_def)
qed

lemma lex_unit_rune:
  assumes "rune_size s \<noteq> 0" "0x80 \<le> byte_of (hd s)"
  shows "lex_unit (take (rune_size s) s @ t) = Some (Some (take (rune_size s) s), t)"
proof -
  have le: "rune_size s \<le> length s" by (rule rune_size_length)
  obtain c cs where s: "take (rune_size s) s @ t = c # cs" "c = hd s"
    using assms(1) le by (cases s; cases "rune_size s") auto
  have "byte_of c \<ge> 0x80" using s(2) assms(2) by simp
  then have "c \<noteq> CHR 0x22" "c \<noteq> CHR 0x5C" "\<not> byte_of c < 0x20" by auto
  moreover have "rune_size (c # cs) = rune_size s" using rune_size_take [OF assms(1), of t] s(1) by simp
  moreover have "take (rune_size s) (c # cs) = take (rune_size s) s" "drop (rune_size s) (c # cs) = t"
    using le by (simp_all flip: s(1))
  ultimately show ?thesis using assms(1) unfolding s(1) by (simp add: lex_unit_def)
qed

lemma lex_escaped:
  assumes "ValidString s"
  shows "lex_string (escapeJSONString s @ [quote] @ t) = Some (s, t)"
  using assms
proof (induction s rule: ValidString.induct)
  case (1 s)
  show ?case
  proof (cases "s = []")
    case True
    then show ?thesis
      by (subst lex_string.simps) (simp add: escapeJSONString_def lex_unit_def quote_def)
  next
    case False
    define r where "r = take (rune_size s) s"
    define rest where "rest = drop (rune_size s) s"
    have rs: "rune_size s \<noteq> 0" "ValidString rest"
      using 1(2) False by (simp_all add: ValidString.simps [of s] rest_def split: if_splits)
    have split: "s = r @ rest" by (simp add: r_def rest_def)
    have IH: "lex_string (escapeJSONString rest @ [quote] @ t) = Some (rest, t)"
      using 1(1) [OF False] rs by (simp add: rest_def)
    have "lex_unit (escapeJSONString r @ u) = Some (Some r, u)" for u
    proof (cases "byte_of (hd s) < 0x80")
      case True
      then obtain c cs where "s = c # cs" "rune_size s = 1" using False by (cases s) (auto simp: rune_size_def)
      then show ?thesis using lex_unit_escape_ascii [of c u] True by (simp add: r_def escapeJSONString_def)
    next
      case hi: False
      then have "\<forall>c \<in> set r. 0x80 \<le> byte_of c" using rune_bytes_high [OF rs(1)] by (simp add: r_def)
      then have "escapeJSONString r = r"
        unfolding escapeJSONString_def by (induction r) (auto simp: escape_char_high)
      then show ?thesis using lex_unit_rune [OF rs(1)] hi by (simp add: r_def)
    qed
    moreover have "escapeJSONString s = escapeJSONString r @ escapeJSONString rest"
      by (subst split) (simp add: escapeJSONString_def)
    ultimately show ?thesis using IH split by (subst lex_string.simps) simp
  qed
qed

lemma nibble_plain:
  assumes "n < 16"
  shows "hex_nibble n \<noteq> quote \<and> hex_nibble n \<noteq> bslash"
proof -
  have "byte_of (hex_nibble n) \<in> {48..57} \<union> {97..102}" using assms by (simp add: hex_nibble_def)
  then show ?thesis by (auto simp: quote_def bslash_def)
qed

lemma end_after_plain: "c \<noteq> quote \<Longrightarrow> c \<noteq> bslash \<Longrightarrow> FindJSONStringEnd (c # s) = map_option Suc (FindJSONStringEnd s)"
  by (cases s) auto

lemma end_after_pair: "FindJSONStringEnd (bslash # d # s) = map_option ((+) 2) (FindJSONStringEnd s)"
  by (cases "FindJSONStringEnd s") auto

lemma escape_char_cases:
  obtains d where "escape_char c = [bslash, d]"
  | d e where "escape_char c = [bslash, CHR ''u'', CHR ''0'', CHR ''0'', d, e]"
      "d \<notin> {quote, bslash}" "e \<notin> {quote, bslash}"
  | "escape_char c = [c]" "c \<notin> {quote, bslash}"
proof (cases "c \<in> {quote, bslash, CHR 0x0A, CHR 0x0D, CHR 0x09, CHR 0x08, CHR 0x0C}")
  case True
  then have "\<exists>d. escape_char c = [bslash, d]" unfolding escape_char_def by fastforce
  then show ?thesis using that(1) by blast
next
  case False
  show ?thesis
  proof (cases "byte_of c < 0x20")
    case True
    then show ?thesis
      using that(2) False nibble_plain [of "byte_of c div 16"] nibble_plain [of "byte_of c mod 16"]
      by (simp add: escape_char_def)
  next
    case big: False
    then show ?thesis using that(3) False by (simp add: escape_char_def)
  qed
qed

lemma end_after_escape:
  "FindJSONStringEnd (escape_char c @ s) = map_option ((+) (length (escape_char c))) (FindJSONStringEnd s)"
proof (cases c rule: escape_char_cases)
  case (1 d)
  then show ?thesis by (simp add: end_after_pair numeral_2_eq_2 del: FindJSONStringEnd.simps)
next
  case (2 d e)
  have "FindJSONStringEnd (CHR ''0'' # x) = map_option Suc (FindJSONStringEnd x)" for x
    by (rule end_after_plain) (simp_all add: quote_def bslash_def)
  then show ?thesis
    using 2 by (cases "FindJSONStringEnd s") (simp_all add: end_after_pair end_after_plain del: FindJSONStringEnd.simps)
next
  case 3
  then show ?thesis by (cases "FindJSONStringEnd s") (simp_all add: end_after_plain del: FindJSONStringEnd.simps)
qed

lemma end_of_escaped: "FindJSONStringEnd (escapeJSONString s @ [quote] @ t) = Some (length (escapeJSONString s))"
proof (induction s)
  case Nil
  then show ?case by (cases t) (simp_all add: escapeJSONString_def)
next
  case (Cons c s)
  then show ?case by (simp add: escapeJSONString_def end_after_escape)
qed

text \<open>
  Escaping is the inverse of JSON string decoding: the escaped form of any valid UTF-8 text,
  followed by a closing quote, is read back by the JSON lexer as exactly that text, and the byte
  scanner that looks for the end of a string stops at that closing quote.
\<close>
theorem escape_roundtrip:
  assumes "ValidString s"
  shows "lex_string (escapeJSONString s @ [quote] @ t) = Some (s, t) \<and>
    FindJSONStringEnd (escapeJSONString s @ [quote] @ t) = Some (length (escapeJSONString s))"
  using lex_escaped [OF assms] end_of_escaped by blast

theorem escape_roundtrip_witness:
  "lex_string (escapeJSONString [CHR ''a'', quote, CHR 0x0A, CHR 0x01, CHR 0xC3, CHR 0xA9] @ [quote] @ ''}'') =
     Some ([CHR ''a'', quote, CHR 0x0A, CHR 0x01, CHR 0xC3, CHR 0xA9], ''}'')"
proof -
  have "ValidString [CHR ''a'', quote, CHR 0x0A, CHR 0x01, CHR 0xC3, CHR 0xA9]" by code_simp
  from escape_roundtrip [OF this, of "''}''"] show ?thesis by blast
qed

subsection \<open>A stream without model names is relayed byte for byte\<close>

fun write_all :: "string list \<Rightarrow> modelRewriteWriter \<Rightarrow> modelRewriteWriter \<times> string" where
  "write_all [] w = (w, [])"
| "write_all (d # ds) w =
     (case modelRewrite_Write d w of (w1, out) \<Rightarrow> case write_all ds w1 of (w2, outs) \<Rightarrow> (w2, out @ outs))"

lemma no_key_prefix: "Index (s @ t) model_key = None \<Longrightarrow> Index s model_key = None"
  using Index_append [of s model_key _ t] by fastforce

lemma no_key_suffix: "Index (s @ t) p = None \<Longrightarrow> Index t p = None"
  unfolding Index_None_iff
  by (metis add_le_cancel_left drop_append drop_eq_Nil2 append_Nil diff_add_inverse le_add1 length_append drop_drop)

lemma rewrite_no_key:
  "Index s model_key = None \<Longrightarrow> fst (rewriteModelInResponse s old new) = s"
  by (simp add: rewriteModelInResponse_def replaceAnyModelValue_def replaceJSONModelValue_def
      any_scan.simps [of _ s] exact_scan.simps [of _ _ s] next_key_def)

lemma write_keeps_bytes:
  assumes "Index (mw_carry w @ d) model_key = None" "modelRewrite_Write d w = (w', out)"
  shows "out @ mw_carry w' = mw_carry w @ d"
  using assms rewrite_no_key [OF assms(1), of "mw_oldModel w" "mw_newModel w"]
  by (auto simp: modelRewrite_Write_def Let_def split_beta simp del: take_append drop_append split: if_splits)

lemma write_all_keeps_bytes:
  "Index (mw_carry w @ concat ds) model_key = None \<Longrightarrow> write_all ds w = (w', out) \<Longrightarrow>
     out @ mw_carry w' = mw_carry w @ concat ds"
proof (induction ds arbitrary: w out)
  case Nil
  then show ?case by simp
next
  case (Cons d ds)
  obtain w1 o1 where 1: "modelRewrite_Write d w = (w1, o1)" by fastforce
  obtain o2 where 2: "write_all ds w1 = (w', o2)" "out = o1 @ o2"
    using Cons.prems(2) 1 by (auto split: prod.splits)
  have "Index (mw_carry w @ d) model_key = None"
    using Cons.prems(1) no_key_prefix [of "mw_carry w @ d" "concat ds"] by simp
  then have k: "o1 @ mw_carry w1 = mw_carry w @ d" using 1 by (rule write_keeps_bytes)
  then have "Index (o1 @ (mw_carry w1 @ concat ds)) model_key = None"
    using Cons.prems(1) by (simp flip: append_assoc)
  then have "Index (mw_carry w1 @ concat ds) model_key = None" by (rule no_key_suffix)
  then have "o2 @ mw_carry w' = mw_carry w1 @ concat ds" using 2(1) by (rule Cons.IH)
  then show ?case using 2(2) k by (metis append_assoc concat.simps(2))
qed

text \<open>
  Holding back a possible key never loses, repeats or reorders a byte: however the upstream
  reads split a response that names no model, what the writer passes on, with what it delivers
  at the end, is exactly the response.
\<close>
theorem rewrite_writer_transparent:
  assumes "\<not> Contains (mw_carry w @ concat chunks) model_key"
  shows "snd (write_all chunks w) @ snd (modelRewrite_Finish (fst (write_all chunks w))) =
    mw_carry w @ concat chunks"
  using write_all_keeps_bytes [of w chunks "fst (write_all chunks w)" "snd (write_all chunks w)"] assms
  by (simp add: Contains_def modelRewrite_Finish_def)

theorem rewrite_writer_transparent_witness:
  "snd (write_all [''{'' @ [quote] @ ''mod'', ''e'' @ [quote] @ '':1}'']
      \<lparr>mw_oldModel = ''a'', mw_newModel = ''b'', mw_capturedModel = [], mw_carry = []\<rparr>) @
    snd (modelRewrite_Finish (fst (write_all [''{'' @ [quote] @ ''mod'', ''e'' @ [quote] @ '':1}'']
      \<lparr>mw_oldModel = ''a'', mw_newModel = ''b'', mw_capturedModel = [], mw_carry = []\<rparr>))) =
    ''{'' @ [quote] @ ''mode'' @ [quote] @ '':1}''"
  using rewrite_writer_transparent [of "\<lparr>mw_oldModel = ''a'', mw_newModel = ''b'', mw_capturedModel = [], mw_carry = []\<rparr>"
      "[''{'' @ [quote] @ ''mod'', ''e'' @ [quote] @ '':1}'']"]
  by (simp add: Contains_def model_key_def quote_def)

subsection \<open>The model of a request\<close>

lemma end_of_plain:
  "\<forall>c \<in> set v. c \<noteq> quote \<and> c \<noteq> bslash \<Longrightarrow> FindJSONStringEnd (v @ quote # t) = Some (length v)"
proof (induction v)
  case Nil
  then show ?case by (cases t) auto
next
  case (Cons c v)
  then show ?case by (simp add: end_after_plain del: FindJSONStringEnd.simps)
qed

lemma scan_skip_space: "\<forall>c \<in> set ws. isWhitespace c \<Longrightarrow> scan_model d (ws @ s) = scan_model d s"
proof (induction ws)
  case (Cons c ws)
  then have "c \<noteq> CHR ''{'' \<and> c \<noteq> CHR ''}'' \<and> c \<noteq> quote" by (auto simp: isWhitespace_def quote_def)
  then show ?case using Cons by (subst scan_model.simps) simp
qed simp

lemma scan_at_key:
  assumes "s = quote # cs" "model_key_here s" "parseModelValue (drop (length model_key) s) = Inr (Some m)"
  shows "scan_model 1 s = Inr m"
  using assms by (subst scan_model.simps) (simp add: quote_def)

text \<open>
  A request whose object leads with its model is routed by that model, whatever follows and
  whatever JSON white space is used, when the name needs no escape; blanks around the name are
  trimmed.
\<close>
theorem extractModel_leading:
  assumes "\<forall>c \<in> set v. c \<noteq> quote \<and> c \<noteq> bslash" "\<forall>c \<in> set (w1 @ w2 @ w3 @ w4). isWhitespace c"
  shows "extractModel (w1 @ ''{'' @ w2 @ model_key @ w3 @ '':'' @ w4 @ [quote] @ v @ [quote] @ rest) = Inr (TrimSpace v)"
proof -
  let ?val = "[quote] @ v @ [quote] @ rest" and ?tail = "w3 @ '':'' @ w4 @ [quote] @ v @ [quote] @ rest"
  have ws: "\<And>c. isWhitespace c \<Longrightarrow> c \<noteq> CHR '':'' \<and> \<not> IsJSONNameChar c \<and> c \<noteq> quote"
    by (auto simp: isWhitespace_def IsJSONNameChar_def quote_def)
  have "Index (w3 @ '':'' @ w4 @ ?val) '':'' = Some (length w3)"
    using assms(2) ws by (induction w3) (auto simp: HasPrefix_def)
  moreover have "dropWhile isWhitespace (w4 @ ?val) = ?val"
    using assms(2) by (induction w4) (auto simp: isWhitespace_def quote_def)
  ultimately have val: "parseModelValue ?tail = Inr (Some (TrimSpace v))"
    using end_of_plain [OF assms(1), of rest] by (simp add: parseModelValue_def)
  have "(case ?tail of [] \<Rightarrow> True | c # _ \<Rightarrow> \<not> IsJSONNameChar c)"
    using assms(2) ws by (cases w3) (auto simp: IsJSONNameChar_def)
  then have here: "model_key_here (model_key @ ?tail)"
    by (simp add: model_key_here_def HasPrefix_iff)
  have "scan_model 0 (w1 @ ''{'' @ w2 @ model_key @ ?tail) = scan_model 0 (''{'' @ w2 @ model_key @ ?tail)"
    using assms(2) by (intro scan_skip_space) simp
  also have "\<dots> = scan_model 1 (w2 @ model_key @ ?tail)"
    by (subst scan_model.simps) simp
  also have "\<dots> = scan_model 1 (model_key @ ?tail)"
    using assms(2) by (intro scan_skip_space) simp
  also have "\<dots> = Inr (TrimSpace v)"
  proof (rule scan_at_key [OF _ here])
    show "model_key @ ?tail = quote # (''model'' @ [quote] @ ?tail)" by (simp add: model_key_def)
  qed (use val in simp)
  finally show ?thesis by (simp add: extractModel_def)
qed

theorem extractModel_leading_witness:
  "extractModel (''{'' @ model_key @ '': '' @ [quote] @ ''gpt'' @ [quote] @ '',x}'') = Inr ''gpt''"
  using extractModel_leading [of "''gpt''" "[]" "[]" "[]" "'' ''" "'',x}''"]
  by (simp add: isWhitespace_def quote_def bslash_def TrimSpace_def TrimLeft_def TrimRight_def go_space_def)

text \<open>
  A top-level string \<^emph>\<open>value\<close> that reads model is taken for the key: the member after it names
  the model.
\<close>

lemma extractModel_value_mistaken:
  "extractModel (''{'' @ [quote] @ ''a'' @ [quote] @ '':'' @ model_key @ '','' @ [quote] @ ''b'' @ [quote] @ '':'' @
      [quote] @ ''x'' @ [quote] @ '','' @ model_key @ '':'' @ [quote] @ ''gpt'' @ [quote] @ ''}'') = Inr ''x''"
  by code_simp

end
