(* ===== verification/Redact.thy ===== *)
theory Redact
  imports ByteScan PathMatch "HOL-Library.Sublist"
begin

text \<open>
  \<open>src/trace/entry.go\<close>, \<open>src/trace/redact.go\<close> and \<open>src/trace/classify.go\<close>: what a traced
  request keeps of its body. A scanner that keeps an index into the body works here on the
  bytes left from that index, and a slice expression whose bounds cross, which panics in Go,
  is \<open>None\<close>. The hash function and the case mapping of the runes beyond ASCII are the
  members of \<open>trace_env\<close>.
\<close>

record trace_env =
  te_sha256 :: "string \<Rightarrow> string"
  te_lower :: "nat \<Rightarrow> nat"

subsection \<open>Rendering (entry.go)\<close>

definition itoa :: "int \<Rightarrow> string" where
  "itoa n = (if n = 0 then ''0'' else if n > 0 then show_nat (nat n) else [])"

definition humanBytes :: "int \<Rightarrow> string" where
  "humanBytes n =
     (if n \<ge> 1048576 then itoa (n div 1024 div 1024) @ ''MB''
      else if n \<ge> 1024 then itoa (n div 1024) @ ''KB''
      else itoa n @ ''B'')"

definition ellipsis :: string where "ellipsis = [CHR 0xE2, CHR 0x80, CHR 0xA6]"

definition truncationMarker :: "int \<Rightarrow> string" where
  "truncationMarker dropped = ellipsis @ ''[truncated '' @ itoa dropped @ '' bytes]''"

definition truncatePrefix :: "string \<Rightarrow> nat \<Rightarrow> string \<times> bool" where
  "truncatePrefix b m =
     (if length b \<le> m then (b, False)
      else (take m b @ truncationMarker (int (length b - m)), True))"

definition stub :: "trace_env \<Rightarrow> string \<Rightarrow> int \<Rightarrow> string \<Rightarrow> string" where
  "stub v kind sz raw =
     (let sum = te_sha256 v (if length raw < 32 then raw @ replicate (32 - length raw) (CHR 0x00) else raw)
      in ''<'' @ kind @ '' '' @ humanBytes sz @ '' sha256:'' @ hex_EncodeToString (take 4 sum) @ ellipsis @ ''>'')"

subsection \<open>Strings as the redaction reads them\<close>

text \<open>\<open>strings.ToLower\<close> and \<open>bytes.ToLower\<close>: rune by rune, and a byte that starts no valid rune becomes U+FFFD.\<close>

definition lower_rune :: "trace_env \<Rightarrow> nat \<Rightarrow> nat" where
  "lower_rune v r = (if r < 128 then (if 65 \<le> r \<and> r \<le> 90 then r + 32 else r) else te_lower v r)"

function ToLower :: "trace_env \<Rightarrow> string \<Rightarrow> string" where
  "ToLower v [] = []"
| "ToLower v (c # cs) = (case rune_value (c # cs) of
     (r, n) \<Rightarrow> EncodeRune (lower_rune v r) @ ToLower v (drop n (c # cs)))"
  by pat_completeness auto
termination
  by (relation "measure (\<lambda>(v, s). length s)") (auto dest!: rune_value_pos sym [of "(_, _)"])

declare ToLower.simps [simp del]

definition Ext :: "string \<Rightarrow> string" where
  "Ext name =
     (let suf = takeWhile (\<lambda>c. c \<noteq> CHR ''.'' \<and> c \<noteq> CHR ''/'') (rev name)
      in if length suf < length name \<and> rev name ! length suf = CHR ''.''
         then drop (length name - length suf - 1) name else [])"

text \<open>The number of bytes of the string that starts at an opening quote, its quotes included.\<close>

definition skipJSONString :: "string \<Rightarrow> nat" where
  "skipJSONString s = length s - length (skipString (tl s))"

definition skipSpaceBytes :: "string \<Rightarrow> string" where
  "skipSpaceBytes s = dropWhile isWhitespace s"

lemma skipJSONString_pos: "s \<noteq> [] \<Longrightarrow> 0 < skipJSONString s"
  using skipString_length [of "tl s"] by (cases s) (auto simp: skipJSONString_def)

lemma skipJSONString_le: "skipJSONString s \<le> length s"
  by (simp add: skipJSONString_def)

subsection \<open>Binary leaves of a JSON body (redact.go)\<close>

definition isBase64Byte :: "char \<Rightarrow> bool" where
  "isBase64Byte c \<longleftrightarrow> (let b = byte_of c in
     (65 \<le> b \<and> b \<le> 90) \<or> (97 \<le> b \<and> b \<le> 122) \<or> (48 \<le> b \<and> b \<le> 57)
     \<or> c = CHR ''+'' \<or> c = CHR ''/'' \<or> c = CHR ''='')"

definition decodedLen :: "nat \<Rightarrow> int" where
  "decodedLen n = int n * 3 div 4"

definition kindForKey :: "string \<Rightarrow> string" where
  "kindForKey key =
     (if key \<in> {''audio'', ''audio_data'', ''input_audio''} then ''audio''
      else if key \<in> {''data'', ''image'', ''image_data''} then ''image''
      else if key = ''pdf_data'' then ''document'' else [])"

definition coarseKind :: "trace_env \<Rightarrow> string \<Rightarrow> string" where
  "coarseKind v mediaType =
     (case Cut (ToLower v (TrimSpace mediaType)) '';'' of (base, _, _) \<Rightarrow>
      case Cut base ''/'' of (family, sub, hasSub) \<Rightarrow>
        if family \<in> {''image'', ''audio'', ''video'', ''text''} then family
        else if \<not> hasSub then ''binary''
        else if sub \<in> {''wav'', ''mp3'', ''ogg'', ''opus'', ''flac'', ''pcm'', ''mpeg''} then ''audio''
        else sub)"

definition binaryString :: "trace_env \<Rightarrow> string \<Rightarrow> string \<Rightarrow> (string \<times> int \<times> string) option" where
  "binaryString v key s =
     (case (if HasPrefix s ''data:'' then Index s '';base64,'' else None) of
        Some i \<Rightarrow>
          (let payload = drop (i + 8) s
           in Some (coarseKind v (take (i - 5) (drop 5 s)), decodedLen (length payload), payload))
      | None \<Rightarrow>
          (let kind = kindForKey key
           in if kind = [] \<or> length s < 512 then None
              else if \<not> list_all isBase64Byte (take 64 s) then None
              else Some (kind, decodedLen (length s), s)))"

text \<open>
  A member as the scan sees it: its key and its value between the quotes, from the opening
  quote of the key; \<open>None\<close> when the bytes are no member with a string value.
\<close>

definition unquoted :: "string \<Rightarrow> nat \<Rightarrow> string option" where
  "unquoted s n = (if n < 2 then None else Some (take (n - 2) (tl s)))"

definition value_here :: "string \<Rightarrow> string option" where
  "value_here s =
     (let a = skipSpaceBytes (drop (skipJSONString s) s)
      in if a = [] \<or> hd a \<noteq> CHR '':'' then None
         else let b = skipSpaceBytes (tl a) in if b = [] \<or> hd b \<noteq> quote then None else Some b)"

lemma skipSpaceBytes_le: "length (skipSpaceBytes s) \<le> length s"
  by (simp add: skipSpaceBytes_def length_dropWhile_le)

lemma value_here_le: "value_here s = Some b \<Longrightarrow> b \<noteq> [] \<and> length b < length s"
proof -
  assume *: "value_here s = Some b"
  let ?a = "skipSpaceBytes (drop (skipJSONString s) s)"
  from * have "?a \<noteq> []" "b = skipSpaceBytes (tl ?a)" "b \<noteq> []"
    by (auto simp: value_here_def Let_def split: if_splits)
  moreover have "length ?a \<le> length s"
    using skipSpaceBytes_le [of "drop (skipJSONString s) s"] by simp
  moreover have "length b \<le> length (tl ?a)"
    unfolding \<open>b = _\<close> by (rule skipSpaceBytes_le)
  ultimately show ?thesis by (cases ?a) auto
qed

text \<open>
  \<open>buf\<close> is the output buffer, \<open>cur\<close> the bytes of the body since the last one written to it.
\<close>

function redact_scan :: "trace_env \<Rightarrow> string \<Rightarrow> string \<Rightarrow> string \<Rightarrow> (string \<times> string) option" where
  "redact_scan v buf cur s = (case s of
     [] \<Rightarrow> Some (buf, cur)
   | c # cs \<Rightarrow>
      if c \<noteq> quote then redact_scan v buf (cur @ [c]) cs
      else let n = skipJSONString s in
        case value_here s of
          None \<Rightarrow> redact_scan v buf (cur @ take n s) (drop n s)
        | Some b \<Rightarrow>
           (let m = skipJSONString b; before = take (length s - length b) s in
            case unquoted s n of
              None \<Rightarrow> None
            | Some key \<Rightarrow>
               (case unquoted b m of
                  None \<Rightarrow> None
                | Some val \<Rightarrow>
                   (case binaryString v key val of
                      Some (kind, sz, raw) \<Rightarrow>
                        redact_scan v (buf @ cur @ before @ [quote] @ stub v kind sz raw @ [quote]) [] (drop m b)
                    | None \<Rightarrow> redact_scan v buf (cur @ before @ take m b) (drop m b)))))"
  by pat_completeness auto
termination
proof (relation "measure (\<lambda>(v, buf, cur, s). length s)", goal_cases)
  case (3 v buf cur s c cs n)
  then show ?case using skipJSONString_pos [of s] by auto
qed (use skipJSONString_le in \<open>auto dest!: value_here_le\<close>)

declare redact_scan.simps [simp del]

definition redactJSON :: "trace_env \<Rightarrow> string \<Rightarrow> string option" where
  "redactJSON v body = (case redact_scan v [] [] body of
     None \<Rightarrow> None
   | Some (buf, cur) \<Rightarrow> Some (if buf = [] then body else buf @ cur))"

subsection \<open>File parts of a multipart body (redact.go)\<close>

definition splitPart :: "string \<Rightarrow> (string \<times> string) option" where
  "splitPart part = (case Index part (crlf @ crlf) of
     Some i \<Rightarrow> Some (take (i + 4) part, drop (i + 4) part)
   | None \<Rightarrow> (case Index part [CHR 0x0A, CHR 0x0A] of
       Some i \<Rightarrow> Some (take (i + 2) part, drop (i + 2) part)
     | None \<Rightarrow> None))"

definition isTextPart :: "trace_env \<Rightarrow> string \<Rightarrow> string \<Rightarrow> bool" where
  "isTextPart v mediaType ext \<longleftrightarrow> (let mt = ToLower v mediaType in
     HasPrefix mt ''text/'' \<or> Contains mt ''json'' \<or> Contains mt ''xml'' \<or> Contains mt ''yaml''
     \<or> ext \<in> {''.json'', ''.jsonl'', ''.txt'', ''.csv'', ''.md'', ''.xml'', ''.yaml'', ''.yml'', ''.srt'', ''.vtt''})"

definition kindForExt :: "trace_env \<Rightarrow> string \<Rightarrow> string" where
  "kindForExt v name = (let ext = ToLower v (Ext name) in
     if ext \<in> {''.wav'', ''.mp3'', ''.ogg'', ''.oga'', ''.opus'', ''.flac'', ''.pcm'', ''.m4a'', ''.aac'', ''.amr''}
     then ''audio''
     else if ext \<in> {''.png'', ''.jpg'', ''.jpeg'', ''.gif'', ''.webp'', ''.bmp'', ''.tif'', ''.tiff''} then ''image''
     else if ext \<in> {''.mp4'', ''.mov'', ''.avi'', ''.mkv'', ''.webm''} then ''video''
     else if ext = ''.pdf'' then ''document'' else [])"

definition cut_before :: "string \<Rightarrow> string \<Rightarrow> string" where
  "cut_before sep s = (case Index s sep of Some i \<Rightarrow> take i s | None \<Rightarrow> s)"

definition quotedValue :: "string \<Rightarrow> string" where
  "quotedValue s =
     TrimRight (TrimLeft (TrimSpace (fold cut_before ['';'', [CHR 0x0D], [CHR 0x0A]] s)) [quote]) [quote]"

text \<open>\<open>head[i:]\<close>, which panics for an offset past the end.\<close>

definition slice_from :: "nat \<Rightarrow> string \<Rightarrow> string option" where
  "slice_from i s = (if i \<le> length s then Some (drop i s) else None)"

definition name_kind :: "trace_env \<Rightarrow> string \<Rightarrow> string option" where
  "name_kind v head = (case Index (ToLower v head) ''filename='' of
     None \<Rightarrow> Some []
   | Some i \<Rightarrow> (case slice_from (i + 9) head of
       None \<Rightarrow> None
     | Some r \<Rightarrow>
        (let name = quotedValue r; kind = kindForExt v name
         in Some (if isTextPart v [] (ToLower v (Ext name)) then []
                  else if kind \<noteq> [] then kind else ''file''))))"

definition partKind :: "trace_env \<Rightarrow> string \<Rightarrow> string option" where
  "partKind v head = (case Index (ToLower v head) ''content-type:'' of
     None \<Rightarrow> name_kind v head
   | Some i \<Rightarrow> (case slice_from (i + 13) head of
       None \<Rightarrow> None
     | Some r \<Rightarrow>
        (let val = TrimSpace (fst (Cut r [CHR 0x0A])); kind = coarseKind v val
         in if isTextPart v val [] then Some []
            else if kind = ''binary'' \<or> kind = ''octet-stream'' then name_kind v head
            else Some kind)))"

definition redact_part :: "trace_env \<Rightarrow> string \<Rightarrow> string option" where
  "redact_part v part = (case splitPart part of
     None \<Rightarrow> Some part
   | Some (head, payload) \<Rightarrow> (case partKind v head of
       None \<Rightarrow> None
     | Some kind \<Rightarrow>
        (let data = TrimRight payload crlf
         in Some (head @ (if kind = [] then payload else stub v kind (int (length data)) data @ crlf)))))"

fun redact_parts :: "trace_env \<Rightarrow> string \<Rightarrow> string list \<Rightarrow> string option" where
  "redact_parts v delim [] = Some []"
| "redact_parts v delim (p # ps) = (case redact_part v p of
     None \<Rightarrow> None
   | Some out \<Rightarrow> map_option (\<lambda>rest. delim @ out @ rest) (redact_parts v delim ps))"

definition redactMultipart :: "trace_env \<Rightarrow> string \<Rightarrow> string option" where
  "redactMultipart v body = (case Index body [CHR 0x0A] of
     None \<Rightarrow> Some body
   | Some nl \<Rightarrow>
      (let delim = TrimRight (take nl body) crlf
       in redact_parts v delim (Split (drop (nl + 1) body) (CHR 0x0A # delim))))"

definition MaxRequestBytes :: nat where "MaxRequestBytes = 524288"
definition MaxResponseBytes :: nat where "MaxResponseBytes = 524288"

definition RedactRequest :: "trace_env \<Rightarrow> string \<Rightarrow> string \<Rightarrow> (string \<times> bool) option" where
  "RedactRequest v body contentType =
     (if body = [] then Some ([], False)
      else map_option (\<lambda>out. truncatePrefix out MaxRequestBytes)
             (if HasPrefix contentType ''multipart/'' then redactMultipart v body else redactJSON v body))"

subsection \<open>Classification (classify.go)\<close>

definition EndpointLabel :: "string \<Rightarrow> string" where
  "EndpointLabel path =
     (if Contains path ''/count_tokens'' then ''count_tokens''
      else if Contains path ''/messages'' then ''messages''
      else if Contains path ''/chat/completions'' then ''chat''
      else if Contains path ''/responses'' then ''responses''
      else if Contains path ''/embeddings'' then ''embeddings''
      else if Contains path ''/audio/speech'' then ''speech''
      else if Contains path ''/audio/transcriptions'' then ''transcriptions''
      else if Contains path ''/audio/voices'' then ''voices''
      else if HasSuffix path ''/tts'' then ''tts''
      else if Contains path ''/completions'' then ''completions''
      else case Cut path ''/v1/'' of
             (_, after, ok) \<Rightarrow> if ok \<and> fst (Cut after ''/'') \<noteq> [] then fst (Cut after ''/'') else ''unknown'')"

definition isNameByte :: "char \<Rightarrow> bool" where
  "isNameByte c \<longleftrightarrow> (let b = byte_of c in
     c = CHR ''_'' \<or> c = CHR ''-'' \<or> (48 \<le> b \<and> b \<le> 57) \<or> (65 \<le> b \<and> b \<le> 90) \<or> (97 \<le> b \<and> b \<le> 122))"

definition isSpaceByte :: "char \<Rightarrow> bool" where
  "isSpaceByte c \<longleftrightarrow> c = CHR 0x20 \<or> c = CHR 0x09 \<or> c = CHR 0x0A \<or> c = CHR 0x0D"

abbreviation opens :: "char \<Rightarrow> bool" where "opens c \<equiv> c = CHR 0x7B \<or> c = CHR 0x5B"
abbreviation closes :: "char \<Rightarrow> bool" where "closes c \<equiv> c = CHR 0x7D \<or> c = CHR 0x5D"

function container_end :: "int \<Rightarrow> string \<Rightarrow> nat" where
  "container_end depth s = (case s of
     [] \<Rightarrow> 0
   | c # cs \<Rightarrow>
      if opens c then Suc (container_end (depth + 1) cs)
      else if closes c then (if depth - 1 = 0 then 1 else Suc (container_end (depth - 1) cs))
      else if c = quote then skipJSONString s + container_end depth (drop (skipJSONString s) s)
      else Suc (container_end depth cs))"
  by pat_completeness auto
termination
proof (relation "measure (\<lambda>(d, s). length s)", goal_cases)
  case (4 depth s c cs)
  then show ?case using skipJSONString_pos [of s] by auto
qed auto

declare container_end.simps [simp del]

text \<open>The offset of the end of a value from its start.\<close>

definition valueEnd :: "string \<Rightarrow> int" where
  "valueEnd s = (case s of
     [] \<Rightarrow> 0
   | c # _ \<Rightarrow>
      if c = quote then int (skipJSONString s) - 1
      else if opens c then int (container_end 0 s)
      else int (length (takeWhile (\<lambda>d. d \<noteq> CHR '','' \<and> \<not> closes d) s)))"

text \<open>The value of a top-level key: the bytes from its start, and its length (\<open>end - start\<close>).\<close>

function value_span :: "string \<Rightarrow> int \<Rightarrow> string \<Rightarrow> (string \<times> int) option" where
  "value_span needle depth s = (case s of
     [] \<Rightarrow> None
   | c # cs \<Rightarrow>
      if opens c then value_span needle (depth + 1) cs
      else if closes c then value_span needle (depth - 1) cs
      else if c = quote then
        (let after = drop (length needle) s; a = dropWhile isSpaceByte after in
         if \<not> (depth = 1 \<and> HasPrefix s needle \<and> \<not> (after \<noteq> [] \<and> isNameByte (hd after)))
         then value_span needle depth (drop (skipJSONString s) s)
         else if a = [] \<or> hd a \<noteq> CHR '':'' then value_span needle depth (tl a)
         else let val = dropWhile isSpaceByte (tl a) in
           if val \<noteq> [] \<and> hd val = quote then Some (tl val, valueEnd val - 1) else Some (val, valueEnd val))
      else value_span needle depth cs)"
  by pat_completeness auto
termination
proof (relation "measure (\<lambda>(n, d, s). length s)", goal_cases)
  case (4 needle depth s c cs after a)
  then show ?case using skipJSONString_pos [of s] by auto
next
  case (5 needle depth s c cs after a)
  have "length a \<le> length after"
    using 5(6) by (simp add: length_dropWhile_le)
  with 5 show ?case by (cases a) auto
qed auto

declare value_span.simps [simp del]

definition topLevelValueSpan :: "string \<Rightarrow> string \<Rightarrow> (string \<times> int) option" where
  "topLevelValueSpan body key = value_span ([quote] @ key @ [quote]) 0 body"

definition jsonKeyIsTrue :: "string \<Rightarrow> string \<Rightarrow> bool option" where
  "jsonKeyIsTrue body key = (case topLevelValueSpan body key of
     None \<Rightarrow> Some False
   | Some (s, n) \<Rightarrow> if n < 0 then None else Some (TrimSpace (take (nat n) s) = ''true''))"

function Count :: "string \<Rightarrow> string \<Rightarrow> nat" where
  "Count s sep = (case Index s sep of
     None \<Rightarrow> 0
   | Some i \<Rightarrow> if sep = [] then length s + 1 else Suc (Count (drop (i + length sep) s) sep))"
  by pat_completeness auto
termination
  by (relation "measure (\<lambda>(s, sep). length s)") (auto dest!: Index_bound simp: less_imp_diff_less neq_Nil_conv)

declare Count.simps [simp del]

definition quoted :: "string \<Rightarrow> string" where "quoted s = [quote] @ s @ [quote]"

text \<open>The class of a request and the signs listed beside it; \<open>None\<close> where the scan panics.\<close>

definition Classify :: "string \<Rightarrow> string \<Rightarrow> string \<Rightarrow> (string \<times> string list) option" where
  "Classify path contentType body =
     (let class = EndpointLabel path;
          tools = Count body (quoted ''input_schema'') + Count body (quoted ''type'' @ '':'' @ quoted ''function'');
          images = max (max (Count body ''data:image/'') (Count body (quoted ''image_url''))) (Count body (quoted ''media_type''))
      in if body = [] then Some (class, [])
         else case jsonKeyIsTrue body ''stream'' of
           None \<Rightarrow> None
         | Some stream \<Rightarrow> Some (class,
             (if stream then [''stream''] else [])
             @ (if tools > 0 then [''tools:'' @ itoa (int tools)] else [])
             @ (if Contains body (quoted ''tool_result'') then [''tool_result''] else [])
             @ (if images > 0 then [''images:'' @ itoa (int images)] else [])
             @ (case topLevelValueSpan body ''system'' of Some (_, n) \<Rightarrow> [''system:'' @ itoa n] | None \<Rightarrow> [])
             @ (if Contains body ([quote] @ ''reasoning'') \<or> Contains body (quoted ''thinking'') then [''reasoning''] else [])
             @ (if HasPrefix contentType ''multipart/'' then [''audio-upload'']
                else if HasPrefix contentType ''application/json'' \<or> contentType = []
                then [''json:'' @ itoa (int (length body))] else [])))"

subsection \<open>What redaction keeps\<close>

text \<open>
  The body cut into pieces: a run of bytes, or a member with a string value (its key, the
  value between the quotes, the bytes up to the value and the value's own bytes).
\<close>

datatype piece = Plain string | Member string string string string

function pieces :: "string \<Rightarrow> piece list option" where
  "pieces s = (case s of
     [] \<Rightarrow> Some []
   | c # cs \<Rightarrow>
      if c \<noteq> quote then map_option (Cons (Plain [c])) (pieces cs)
      else case value_here s of
        None \<Rightarrow> map_option (Cons (Plain (take (skipJSONString s) s))) (pieces (drop (skipJSONString s) s))
      | Some b \<Rightarrow> (case (unquoted s (skipJSONString s), unquoted b (skipJSONString b)) of
          (Some key, Some val) \<Rightarrow>
            map_option (Cons (Member key val (take (length s - length b) s) (take (skipJSONString b) b)))
              (pieces (drop (skipJSONString b) b))
        | _ \<Rightarrow> None))"
  by pat_completeness auto
termination
proof (relation "measure length", goal_cases)
  case (3 s c cs)
  then show ?case using skipJSONString_pos [of s] by auto
qed (use skipJSONString_le in \<open>auto dest!: value_here_le\<close>)

declare pieces.simps [simp del]

fun written :: "piece \<Rightarrow> string" where
  "written (Plain s) = s"
| "written (Member key val before raw) = before @ raw"

fun shown :: "trace_env \<Rightarrow> piece \<Rightarrow> string" where
  "shown v (Plain s) = s"
| "shown v (Member key val before raw) = before @ (case binaryString v key val of
     Some (kind, sz, payload) \<Rightarrow> quoted (stub v kind sz payload) | None \<Rightarrow> raw)"

lemma value_here_suffix: "value_here s = Some b \<Longrightarrow> take (length s - length b) s @ b = s"
proof -
  assume *: "value_here s = Some b"
  define a where "a = skipSpaceBytes (drop (skipJSONString s) s)"
  have suf: "suffix (skipSpaceBytes t) t" for t
    by (simp add: skipSpaceBytes_def suffix_dropWhile)
  from * have "b = skipSpaceBytes (tl a)"
    by (auto simp: value_here_def Let_def a_def split: if_splits)
  then have "suffix b (tl a)" by (simp add: suf)
  then have "suffix b s"
    using suf [of "drop (skipJSONString s) s"] suffix_tl [of a] suffix_drop [of "skipJSONString s" s]
    by (metis a_def suffix_order.trans)
  then show ?thesis by (auto simp: suffix_def)
qed

lemma pieces_written: "pieces s = Some ps \<Longrightarrow> concat (map written ps) = s"
proof (induction s arbitrary: ps rule: pieces.induct)
  case (1 s)
  show ?case
  proof (cases s)
    case Nil
    with "1.prems" show ?thesis by (simp add: pieces.simps)
  next
    case (Cons c cs)
    show ?thesis
    proof (cases "c = quote")
      case False
      with Cons "1.prems" obtain qs where "ps = Plain [c] # qs" "pieces cs = Some qs"
        by (subst (asm) pieces.simps) auto
      with "1.IH"(1) [OF Cons False] Cons show ?thesis by simp
    next
      case q: True
      show ?thesis
      proof (cases "value_here s")
        case None
        with Cons q "1.prems" obtain qs where ps: "ps = Plain (take (skipJSONString s) s) # qs"
          and qs: "pieces (drop (skipJSONString s) s) = Some qs"
          by (subst (asm) pieces.simps) auto
        from "1.IH"(2) [OF Cons _ None qs] q ps show ?thesis by simp
      next
        case (Some b)
        with Cons q "1.prems" obtain key val qs where keys: "unquoted s (skipJSONString s) = Some key"
          "unquoted b (skipJSONString b) = Some val"
          and ps: "ps = Member key val (take (length s - length b) s) (take (skipJSONString b) b) # qs"
          and qs: "pieces (drop (skipJSONString b) b) = Some qs"
          by (subst (asm) pieces.simps) (auto split: option.splits)
        from "1.IH"(3) [OF Cons _ Some _ _ _ qs] q keys have "concat (map written qs) = drop (skipJSONString b) b"
          by auto
        with ps value_here_suffix [OF Some] show ?thesis by simp
      qed
    qed
  qed
qed

definition shows_pieces :: "trace_env \<Rightarrow> string \<Rightarrow> string \<Rightarrow> string \<Rightarrow> bool" where
  "shows_pieces v buf cur s \<longleftrightarrow> (case pieces s of
     None \<Rightarrow> redact_scan v buf cur s = None
   | Some ps \<Rightarrow> (\<exists>b c. redact_scan v buf cur s = Some (b, c) \<and> b @ c = buf @ cur @ concat (map (shown v) ps)
       \<and> (b = [] \<longrightarrow> concat (map (shown v) ps) = s) \<and> (buf \<noteq> [] \<longrightarrow> b \<noteq> [])))"

lemma scan_shows_pieces: "shows_pieces v buf cur s"
proof (induction v buf cur s rule: redact_scan.induct)
  case (1 v buf cur s)
  note step = redact_scan.simps [of v buf cur s] pieces.simps [of s]
  show ?case
  proof (cases s)
    case Nil
    then show ?thesis unfolding shows_pieces_def step by simp
  next
    case (Cons c cs)
    show ?thesis
    proof (cases "c = quote")
      case False
      from "1.IH"(1) [OF Cons False] False Cons show ?thesis
        unfolding shows_pieces_def step by (auto split: option.splits)
    next
      case q: True
      show ?thesis
      proof (cases "value_here s")
        case None
        from "1.IH"(2) [OF Cons _ refl None] None q Cons show ?thesis
          unfolding shows_pieces_def step by (auto split: option.splits)
      next
        case (Some b)
        note IH = "1.IH"(3,4) [OF Cons _ refl Some refl refl]
        have suf: "take (length s - length b) s @ take (skipJSONString b) b @ drop (skipJSONString b) b = s"
          using value_here_suffix [OF Some] by simp
        show ?thesis
        proof (cases "unquoted s (skipJSONString s)")
          case None
          with Some q Cons show ?thesis unfolding shows_pieces_def step by simp
        next
          case key: (Some key)
          show ?thesis
          proof (cases "unquoted b (skipJSONString b)")
            case None
            with Some key q Cons show ?thesis unfolding shows_pieces_def step by simp
          next
            case val: (Some val)
            show ?thesis
            proof (cases "binaryString v key val")
              case None
              from IH(1) [OF _ key val None] None Some key val q Cons suf show ?thesis
                unfolding shows_pieces_def step by (auto split: option.splits)
            next
              case (Some t)
              then obtain kind sz raw where t: "binaryString v key val = Some (kind, sz, raw)"
                by (cases t) auto
              from IH(2) [OF _ key val t refl refl] t \<open>value_here s = _\<close> key val q Cons show ?thesis
                unfolding shows_pieces_def step by (auto simp: quoted_def split: option.splits)
            qed
          qed
        qed
      qed
    qed
  qed
qed

lemma skipString_shrinks: "s \<noteq> [] \<Longrightarrow> length (skipString s) < length s"
  using skipString_length by (induction s rule: skipString.induct) (auto simp: less_Suc_eq_le le_SucI)

lemma unquoted_None: "s \<noteq> [] \<Longrightarrow> unquoted s (skipJSONString s) = None \<Longrightarrow> tl s = []"
  using skipString_shrinks [of "tl s"]
  by (cases s; cases "tl s = []") (auto simp: unquoted_def skipJSONString_def split: if_splits)

lemma value_here_open: "value_here s = Some b \<Longrightarrow> hd b = quote"
  by (auto simp: value_here_def Let_def split: if_splits)

lemma pieces_None: "pieces s = None \<Longrightarrow> s \<noteq> [] \<and> last s = quote"
proof (induction s rule: pieces.induct)
  case (1 s)
  show ?case
  proof (cases s)
    case Nil
    with "1.prems" show ?thesis by (simp add: pieces.simps)
  next
    case (Cons c cs)
    have suffix_last: "t \<noteq> [] \<and> last t = quote \<Longrightarrow> suffix t s \<Longrightarrow> last s = quote" for t
      by (auto simp: suffix_def)
    consider (byte) "c \<noteq> quote" "pieces cs = None"
      | (lone) "c = quote" "value_here s = None" "pieces (drop (skipJSONString s) s) = None"
      | (member) b where "c = quote" "value_here s = Some b"
          "unquoted s (skipJSONString s) = None \<or> unquoted b (skipJSONString b) = None \<or> pieces (drop (skipJSONString b) b) = None"
      using "1.prems" Cons by (subst (asm) pieces.simps) (auto split: if_splits option.splits)
    then have "last s = quote"
    proof cases
      case byte
      with "1.IH"(1) [OF Cons] Cons show ?thesis by simp
    next
      case lone
      with "1.IH"(2) [OF Cons] show ?thesis
        by (intro suffix_last [of "drop (skipJSONString s) s"]) (auto simp: suffix_drop)
    next
      case member
      note b = value_here_le [OF member(2)] value_here_open [OF member(2)] value_here_suffix [OF member(2)]
      then have suf: "suffix b s" by (metis suffixI)
      from b Cons have "tl s \<noteq> []" by (cases b) auto
      then have "unquoted s (skipJSONString s) \<noteq> None" using unquoted_None Cons by blast
      then consider "tl b = []" | "unquoted b (skipJSONString b) \<noteq> None" "pieces (drop (skipJSONString b) b) = None"
        using member(3) unquoted_None [of b] b(1) by auto
      then show ?thesis
      proof cases
        case 1
        with b suf show ?thesis by (intro suffix_last [of b]) (cases b, auto)
      next
        case 2
        with \<open>unquoted s _ \<noteq> None\<close> "1.IH"(3) [OF Cons _ member(2) refl] member(1)
        have "drop (skipJSONString b) b \<noteq> [] \<and> last (drop (skipJSONString b) b) = quote" by auto
        with suf show ?thesis using suffix_last suffix_drop suffix_order.trans by blast
      qed
    qed
    with Cons show ?thesis by simp
  qed
qed


lemma open_value_panics:
  "redactJSON v (''{'' @ quoted ''model'' @ '':'' @ quoted ''x'' @ '','' @ quoted ''a'' @ '':'' @ [quote]) = None"
  by (simp add: redactJSON_def) code_simp

lemma open_stream_value_panics: "Classify path ct (''{'' @ quoted ''stream'' @ '':'' @ [quote]) = None"
proof -
  have "jsonKeyIsTrue (''{'' @ quoted ''stream'' @ '':'' @ [quote]) ''stream'' = None" by code_simp
  then show ?thesis by (simp add: Classify_def)
qed

text \<open>
  A Latin-1 file name: each of its bytes lengthens the lowered copy the header is searched in,
  so the offsets found there point past the end of the header itself.
\<close>

lemma ToLower_ascii:
  "list_all (\<lambda>c. byte_of c < 128) s \<Longrightarrow> ToLower v (s @ t) = map to_lower s @ ToLower v t"
  by (induction s) (simp_all add: ToLower.simps rune_value_def rune_size_def lower_rune_def EncodeRune_def
    to_lower_def byte_of_char_of)

lemma char_facts:
  "char_of (239 :: nat) = CHR 0xEF" "char_of (191 :: nat) = CHR 0xBF" "char_of (189 :: nat) = CHR 0xBD"
  "char_of (99 :: nat) = CHR 0x63" "char_of (100 :: nat) = CHR 0x64" "char_of (116 :: nat) = CHR 0x74"
  by code_simp+

lemma ToLower_latin1:
  assumes "te_lower v 0xFFFD = 0xFFFD"
  shows "byte_of c < 128 \<or> c = CHR 0xE9 \<Longrightarrow> ToLower v (CHR 0xE9 # c # t) = RuneError @ ToLower v (c # t)"
  using assms by (auto simp: ToLower.simps(2) [of v "CHR 0xE9"] rune_value_def rune_size_def is_cont_def lower_rune_def
    EncodeRune_def RuneError_def char_facts)

definition latin1_head :: string where
  "latin1_head = ''Content-Disposition: form-data; filename='' @ [CHR 0xE9, CHR 0xE9, CHR 0xE9, CHR 0xE9, CHR 0xE9, CHR 0xE9, CHR 0xE9, CHR 0xE9] @ crlf @
     ''Content-Type: audio/wav'' @ crlf @ crlf"

lemma latin1_filename_panics:
  assumes "te_lower v 0xFFFD = 0xFFFD"
  shows "partKind v latin1_head = None"
proof -
  have "ToLower v latin1_head = ''content-disposition: form-data; filename='' @ concat [RuneError, RuneError, RuneError, RuneError, RuneError, RuneError, RuneError, RuneError] @
          crlf @ ''content-type: audio/wav'' @ crlf @ crlf"
  proof -
    let ?tail = "crlf @ ''Content-Type: audio/wav'' @ crlf @ crlf"
    have "ToLower v ?tail = crlf @ ''content-type: audio/wav'' @ crlf @ crlf"
      using ToLower_ascii [of ?tail v "[]"] by (simp add: crlf_def to_lower_def char_facts ToLower.simps(1))
    then show ?thesis
      unfolding latin1_head_def
      by (subst ToLower_ascii) (simp_all add: ToLower_latin1 [OF assms] crlf_def to_lower_def char_facts)
  qed
  then have "Index (ToLower v latin1_head) ''content-type:'' = Some 67"
    by (simp add: crlf_def RuneError_def HasPrefix_def)
  then show ?thesis
    by (simp add: partKind_def slice_from_def latin1_head_def crlf_def)
qed

end
