(* ===== verification/TraceStore.thy ===== *)
theory TraceStore
  imports Domain Ring
begin

text \<open>
  \<open>src/trace/store.go\<close>: the ring of traced requests and the live capture window, which
  expires lazily, on the next read. The zero \<open>time.Time\<close> is \<open>None\<close>.
\<close>

record Digest =
  dg_Text :: string
  dg_Events :: "(string, int) gomap"
  dg_FinishReason :: string
  dg_AudioDeltas :: int

record Entry =
  en_ID :: string
  en_Timestamp :: gotime
  en_Method :: string
  en_Path :: string
  en_Model :: string
  en_TargetModel :: string
  en_ServerID :: string
  en_Class :: string
  en_Features :: "string list"
  en_StatusCode :: int
  en_LatencyMs :: int
  en_TTFBMs :: int
  en_JevChoice :: string
  en_Request :: string
  en_Response :: string
  en_Digest :: Digest
  en_RequestTruncated :: bool
  en_ResponseTruncated :: bool

definition zero_digest :: Digest where
  "zero_digest = \<lparr>dg_Text = [], dg_Events = [], dg_FinishReason = [], dg_AudioDeltas = 0\<rparr>"

definition zero_entry :: Entry where
  "zero_entry =
     \<lparr>en_ID = [], en_Timestamp = 0, en_Method = [], en_Path = [], en_Model = [], en_TargetModel = [],
      en_ServerID = [], en_Class = [], en_Features = [], en_StatusCode = 0, en_LatencyMs = 0, en_TTFBMs = 0,
      en_JevChoice = [], en_Request = [], en_Response = [], en_Digest = zero_digest,
      en_RequestTruncated = False, en_ResponseTruncated = False\<rparr>"

record trace_store =
  tr_ring :: "Entry ring"
  tr_enabled :: bool
  tr_expiresAt :: "gotime option"
  tr_models :: "string list"
  tr_servers :: "string list"

record Window =
  win_Enabled :: bool
  win_ExpiresAt :: "gotime option"
  win_Models :: "string list"
  win_Servers :: "string list"

definition trace_New :: "gotime \<Rightarrow> nat \<Rightarrow> TraceSettings \<Rightarrow> trace_store" where
  "trace_New now n st =
     \<lparr>tr_ring = ring_new zero_entry n, tr_enabled = ts_Enabled st,
      tr_expiresAt = (if ts_Enabled st \<and> ts_Seconds st > 0
                      then Some (now + wrap64 (ts_Seconds st * Second)) else None),
      tr_models = ts_Models st, tr_servers = ts_Servers st\<rparr>"

definition trace_Start :: "gotime \<Rightarrow> int \<Rightarrow> string list \<Rightarrow> string list \<Rightarrow> trace_store \<Rightarrow> trace_store" where
  "trace_Start now seconds models servers s =
     s\<lparr>tr_enabled := True, tr_models := models, tr_servers := servers,
       tr_expiresAt := (if seconds > 0 then Some (now + wrap64 (seconds * Second)) else None)\<rparr>"

definition trace_Stop :: "trace_store \<Rightarrow> trace_store" where
  "trace_Stop s = s\<lparr>tr_enabled := False, tr_expiresAt := None\<rparr>"

definition expireLocked :: "gotime \<Rightarrow> trace_store \<Rightarrow> trace_store \<times> bool" where
  "expireLocked now s =
     (if \<not> tr_enabled s then (s, True)
      else case tr_expiresAt s of
        Some e \<Rightarrow> if \<not> now < e then (s\<lparr>tr_enabled := False, tr_expiresAt := None\<rparr>, True) else (s, False)
      | None \<Rightarrow> (s, False))"

definition trace_Window :: "gotime \<Rightarrow> trace_store \<Rightarrow> trace_store \<times> Window" where
  "trace_Window now s = (case expireLocked now s of (s', _) \<Rightarrow>
     (s', \<lparr>win_Enabled = tr_enabled s', win_ExpiresAt = tr_expiresAt s', win_Models = tr_models s',
           win_Servers = tr_servers s'\<rparr>))"

fun matches :: "string list \<Rightarrow> string \<Rightarrow> bool" where
  "matches [] v = True"
| "matches (f # fs) v = (v \<in> set (f # fs))"

definition Armed :: "gotime \<Rightarrow> string \<Rightarrow> string \<Rightarrow> trace_store \<Rightarrow> trace_store \<times> bool" where
  "Armed now model serverID s = (case expireLocked now s of (s', off) \<Rightarrow>
     (s', if off then False else matches (tr_models s') model \<and> matches (tr_servers s') serverID))"

definition trace_Add :: "Entry \<Rightarrow> trace_store \<Rightarrow> trace_store" where
  "trace_Add e s = s\<lparr>tr_ring := ring_add e (tr_ring s)\<rparr>"

definition trace_List :: "trace_store \<Rightarrow> Entry list" where
  "trace_List s = ring_list (tr_ring s)"

definition trace_Get :: "string \<Rightarrow> trace_store \<Rightarrow> Entry option" where
  "trace_Get i s = find (\<lambda>e. en_ID e = i) (rev (take (r_count (tr_ring s)) (r_slots (tr_ring s))))"

definition trace_Len :: "trace_store \<Rightarrow> nat" where
  "trace_Len s = r_count (tr_ring s)"

definition trace_Reset :: "trace_store \<Rightarrow> trace_store" where
  "trace_Reset s = s\<lparr>tr_ring := ring_new zero_entry (r_max (tr_ring s))\<rparr>"

subsection \<open>Lazy expiry cannot be observed\<close>

datatype trace_op =
    TStart int "string list" "string list"
  | TStop
  | TWindow
  | TArmed string string
  | TAdd Entry
  | TReset

fun trace_step :: "gotime \<times> trace_op \<Rightarrow> trace_store \<Rightarrow> trace_store" where
  "trace_step (now, TStart n ms ss) s = trace_Start now n ms ss s"
| "trace_step (now, TStop) s = trace_Stop s"
| "trace_step (now, TWindow) s = fst (trace_Window now s)"
| "trace_step (now, TArmed m i) s = fst (Armed now m i s)"
| "trace_step (now, TAdd e) s = trace_Add e s"
| "trace_step (now, TReset) s = trace_Reset s"

text \<open>
  The specification of the window: only \<open>Start\<close> and \<open>Stop\<close> change it, and a request is
  traced as long as the window it was last given has not ended.
\<close>

fun window_spec :: "gotime \<times> trace_op \<Rightarrow> Window \<Rightarrow> Window" where
  "window_spec (now, TStart n ms ss) w =
     \<lparr>win_Enabled = True,
      win_ExpiresAt = (if n > 0 then Some (now + wrap64 (n * Second)) else None),
      win_Models = ms, win_Servers = ss\<rparr>"
| "window_spec (now, TStop) w = w\<lparr>win_Enabled := False, win_ExpiresAt := None\<rparr>"
| "window_spec (now, _) w = w"

definition open_at :: "gotime \<Rightarrow> Window \<Rightarrow> bool" where
  "open_at now w \<longleftrightarrow> win_Enabled w \<and> (case win_ExpiresAt w of None \<Rightarrow> True | Some e \<Rightarrow> now < e)"

definition window_of :: "trace_store \<Rightarrow> Window" where
  "window_of s = \<lparr>win_Enabled = tr_enabled s, win_ExpiresAt = tr_expiresAt s, win_Models = tr_models s,
     win_Servers = tr_servers s\<rparr>"

definition closed :: "Window \<Rightarrow> Window" where
  "closed w = w\<lparr>win_Enabled := False, win_ExpiresAt := None\<rparr>"

definition window_rel :: "gotime \<Rightarrow> trace_store \<Rightarrow> Window \<Rightarrow> bool" where
  "window_rel now s w \<longleftrightarrow> window_of s = w \<or> (\<not> open_at now w \<and> window_of s = closed w)"

lemma expireLocked_window:
  "window_of (fst (expireLocked now s)) =
     (if open_at now (window_of s) \<or> \<not> tr_enabled s then window_of s else closed (window_of s))"
  "snd (expireLocked now s) \<longleftrightarrow> \<not> open_at now (window_of s)"
  by (auto simp: expireLocked_def window_of_def open_at_def closed_def split: option.splits)

lemma open_at_closed [simp]: "\<not> open_at now (closed w)"
  by (simp add: open_at_def closed_def)

lemma closed_closed [simp]: "closed (closed w) = closed w"
  by (simp add: closed_def)

lemma open_at_earlier: "open_at t' w \<Longrightarrow> t \<le> t' \<Longrightarrow> open_at t w"
  by (auto simp: open_at_def split: option.splits)

lemma window_rel_expire:
  assumes "window_rel now s w"
  shows "window_rel now (fst (expireLocked now s)) w" "snd (expireLocked now s) \<longleftrightarrow> \<not> open_at now w"
  using assms by (auto simp: window_rel_def expireLocked_window)

lemma window_rel_later: "window_rel t s w \<Longrightarrow> t \<le> t' \<Longrightarrow> window_rel t' s w"
  by (auto simp: window_rel_def dest: open_at_earlier)

lemma window_rel_filters:
  assumes "window_rel now s w" "open_at now w"
  shows "tr_models s = win_Models w" "tr_servers s = win_Servers w"
  using assms by (auto simp: window_rel_def window_of_def)

lemma trace_step_rel:
  assumes "window_rel now s w"
  shows "window_rel now (trace_step (now, oper) s) (window_spec (now, oper) w)"
proof (cases oper)
  case TWindow
  then show ?thesis using window_rel_expire(1) [OF assms] by (cases "expireLocked now s") (simp add: trace_Window_def)
next
  case (TArmed m i)
  then show ?thesis using window_rel_expire(1) [OF assms] by (cases "expireLocked now s") (simp add: Armed_def)
next
  case TStop
  then show ?thesis
    using assms by (cases w) (auto simp: window_rel_def window_of_def closed_def trace_Stop_def)
qed (use assms in \<open>auto simp: window_rel_def window_of_def closed_def trace_Start_def trace_Stop_def
      trace_Add_def trace_Reset_def open_at_def\<close>)

text \<open>
  The window that expires only when somebody looks is indistinguishable from one that
  expires on time: after any timestamped history of arming, disarming and reading, a request
  is traced at an instant exactly when the last \<open>Start\<close> is still running then and its
  model and server pass that window's filters. (Clearing the ring changes nothing.)
\<close>
theorem trace_window_refines:
  assumes "sorted (map fst ops)" "\<forall>x \<in> set ops. fst x \<le> now"
  shows "snd (Armed now model srv (fold trace_step ops (trace_New t0 n st))) \<longleftrightarrow>
     (let w = fold window_spec ops (window_of (trace_New t0 n st))
      in open_at now w \<and> matches (win_Models w) model \<and> matches (win_Servers w) srv)"
proof -
  have "window_rel now (fold trace_step ops s) (fold window_spec ops w)"
    if "window_rel t s w" "sorted (t # map fst ops)" "\<forall>x \<in> set ops. fst x \<le> now" "t \<le> now" for t s w
    using that
  proof (induction ops arbitrary: t s w)
    case Nil
    then show ?case by (auto intro: window_rel_later)
  next
    case (Cons x ops)
    obtain t' oper where x: "x = (t', oper)" by (cases x)
    have "window_rel t' (trace_step x s) (window_spec x w)"
      unfolding x by (rule trace_step_rel) (use Cons.prems x in \<open>auto intro: window_rel_later\<close>)
    then show ?case using Cons.IH [of t'] Cons.prems by (auto simp: x)
  qed
  from this [of "if ops = [] then now else fst (hd ops)" "trace_New t0 n st" "window_of (trace_New t0 n st)"]
  have R: "window_rel now (fold trace_step ops (trace_New t0 n st)) (fold window_spec ops (window_of (trace_New t0 n st)))"
    using assms by (cases ops) (auto simp: window_rel_def)
  let ?s = "fold trace_step ops (trace_New t0 n st)" and ?w = "fold window_spec ops (window_of (trace_New t0 n st))"
  have m: "tr_models (fst (expireLocked now ?s)) = win_Models ?w" "tr_servers (fst (expireLocked now ?s)) = win_Servers ?w"
    if "open_at now ?w"
    using window_rel_filters [OF window_rel_expire(1) [OF R] that] by simp_all
  show ?thesis
    using window_rel_expire(2) [OF R] m
    by (cases "expireLocked now ?s") (auto simp: Armed_def Let_def)
qed

theorem trace_window_refines_witness:
  "\<not> snd (Armed (11 * Second) ''m'' ''a'' (fold trace_step [(Second, TStart 10 [] []), (2 * Second, TWindow)]
      (trace_New 0 100 \<lparr>ts_Enabled = False, ts_Seconds = 0, ts_Models = [], ts_Servers = []\<rparr>)))"
proof -
  have s: "sorted (map fst [(Second, TStart 10 [] []), (2 * Second, TWindow)])"
    and b: "\<forall>x \<in> set [(Second, TStart 10 [] []), (2 * Second, TWindow)]. fst x \<le> 11 * Second"
    by (simp_all add: Second_def)
  show ?thesis
    unfolding trace_window_refines [OF s b] by (simp add: Let_def open_at_def Second_def wrap64_def)
qed

text \<open>
  The trace ring lists the newest entries, oldest first: after any number of additions the
  list is the last \<open>max\<close> of them in the order they were added.
\<close>
theorem trace_List_newest:
  assumes "0 < n"
  shows "trace_List (fold trace_Add es (trace_New t0 n st)) = last_n n es"
proof -
  have "tr_ring (fold trace_Add es s) = fold ring_add es (tr_ring s)" for s
    by (induction es arbitrary: s) (simp_all add: trace_Add_def)
  then show ?thesis using ring_run [OF assms] by (simp add: trace_List_def trace_New_def)
qed

theorem trace_List_newest_witness:
  "trace_List (fold trace_Add [zero_entry, zero_entry\<lparr>en_ID := ''b''\<rparr>, zero_entry\<lparr>en_ID := ''c''\<rparr>]
     (trace_New 0 2 \<lparr>ts_Enabled = False, ts_Seconds = 0, ts_Models = [], ts_Servers = []\<rparr>)) =
   [zero_entry\<lparr>en_ID := ''b''\<rparr>, zero_entry\<lparr>en_ID := ''c''\<rparr>]"
  by (subst trace_List_newest) (simp_all add: last_n_def)

text \<open>
  \<open>Get\<close> does not return the newest entry on an id collision once the ring has wrapped: it
  scans slots from the highest index, not from the newest entry.
\<close>
theorem trace_Get_returns_older_entry:
  "\<exists>es e. let s = fold trace_Add es (trace_New 0 3 \<lparr>ts_Enabled = False, ts_Seconds = 0, ts_Models = [], ts_Servers = []\<rparr>)
     in trace_Get ''a'' s = Some e \<and> last (trace_List s) \<noteq> e \<and> en_ID (last (trace_List s)) = ''a'' \<and>
        e \<in> set (trace_List s)"
proof -
  let ?e = "\<lambda>i t. zero_entry\<lparr>en_ID := i, en_Timestamp := t\<rparr>"
  let ?es = "[?e ''x'' 1, ?e ''a'' 2, ?e ''y'' 3, ?e ''a'' 4]"
  let ?s = "fold trace_Add ?es (trace_New 0 3 \<lparr>ts_Enabled = False, ts_Seconds = 0, ts_Models = [], ts_Servers = []\<rparr>)"
  have "trace_Get ''a'' ?s = Some (?e ''a'' 2)" by code_simp
  moreover have "trace_List ?s = [?e ''a'' 2, ?e ''y'' 3, ?e ''a'' 4]" by code_simp
  ultimately show ?thesis
    by (intro exI [of _ ?es] exI [of _ "?e ''a'' 2"]) (simp add: Let_def zero_entry_def)
qed

end
