(* ===== verification/JsonAny.thy ===== *)
theory JsonAny
  imports Json Complex_Main
begin

text \<open>
  JSON decoded into \<open>map[string]any\<close>, and the field readers of \<open>src/proxy/usage.go\<close> on
  such values. A number is the exact value of its literal (the rounding to \<open>float64\<close> is not
  modelled); one beyond the range of \<open>float64\<close> is the decoding error it is in Go.
\<close>

definition digits_nat :: "string \<Rightarrow> nat" where
  "digits_nat ds = (case digits_value 0 ds of Some n \<Rightarrow> n | None \<Rightarrow> 0)"

definition exponent_of :: "string \<Rightarrow> int" where
  "exponent_of e = (case e of
     [] \<Rightarrow> 0
   | c # cs \<Rightarrow> if c = CHR ''-'' then - int (digits_nat cs) else if c = CHR ''+'' then int (digits_nat cs)
              else int (digits_nat e))"

definition pow10 :: "int \<Rightarrow> rat" where
  "pow10 e = (if e \<ge> 0 then 10 ^ nat e else 1 / 10 ^ nat (- e))"

definition num_rat :: "string \<Rightarrow> rat" where
  "num_rat s =
     (let neg = (case s of c # _ \<Rightarrow> c = CHR ''-'' | [] \<Rightarrow> False);
          s1 = (if neg then tl s else s);
          ip = takeWhile is_digit s1;
          r1 = dropWhile is_digit s1;
          fp = (case r1 of c # cs \<Rightarrow> if c = CHR ''.'' then takeWhile is_digit cs else [] | [] \<Rightarrow> []);
          r2 = (if fp = [] then r1 else drop (Suc (length fp)) r1);
          ex = (case r2 of [] \<Rightarrow> 0 | _ # cs \<Rightarrow> exponent_of cs);
          v = of_nat (digits_nat (ip @ fp)) * pow10 (ex - int (length fp))
      in if neg then - v else v)"

text \<open>The least magnitude that rounds to infinity.\<close>

definition float64_limit :: rat where "float64_limit = 2 ^ 1024 - 2 ^ 970"

fun floats_ok :: "json \<Rightarrow> bool" where
  "floats_ok (JNum n) = (\<bar>num_rat n\<bar> < float64_limit)"
| "floats_ok (JArr vs) = list_all floats_ok vs"
| "floats_ok (JObj kvs) = list_all (\<lambda>kv. floats_ok (snd kv)) kvs"
| "floats_ok _ = True"

type_synonym any_map = "(string \<times> json) list"

text \<open>\<open>null\<close> decodes to the nil map, which reads like an empty one.\<close>

definition UnmarshalMap :: "string \<Rightarrow> any_map option" where
  "UnmarshalMap body = (case Unmarshal body of
     Some (JObj kvs) \<Rightarrow> if floats_ok (JObj kvs) then Some kvs else None
   | Some JNull \<Rightarrow> Some []
   | _ \<Rightarrow> None)"

text \<open>Indexing a decoded map: the last duplicate wins, an absent key reads as \<open>nil\<close>.\<close>

definition any_get :: "any_map \<Rightarrow> string \<Rightarrow> json" where
  "any_get m k = (case map_of (rev m) k of Some v \<Rightarrow> v | None \<Rightarrow> JNull)"

definition any_string :: "json \<Rightarrow> string option" where
  "any_string v = (case v of JStr s \<Rightarrow> Some s | _ \<Rightarrow> None)"

definition any_has :: "any_map \<Rightarrow> string \<Rightarrow> bool" where
  "any_has m k \<longleftrightarrow> map_of m k \<noteq> None"

definition any_object :: "json \<Rightarrow> any_map option" where
  "any_object v = (case v of JObj m \<Rightarrow> Some m | _ \<Rightarrow> None)"

definition any_array :: "json \<Rightarrow> json list option" where
  "any_array v = (case v of JArr vs \<Rightarrow> Some vs | _ \<Rightarrow> None)"

fun walk_path :: "string list \<Rightarrow> json \<Rightarrow> json option" where
  "walk_path [] v = Some v"
| "walk_path (p # ps) v = (case v of JObj m \<Rightarrow> walk_path ps (any_get m p) | _ \<Rightarrow> None)"

definition getField :: "any_map \<Rightarrow> string \<Rightarrow> any_map option" where
  "getField obj path = (case walk_path (split_on CHR ''.'' path) (JObj obj) of
     Some (JObj m) \<Rightarrow> Some m | _ \<Rightarrow> None)"

definition floatToFloat64 :: "json \<Rightarrow> rat" where
  "floatToFloat64 v = (case v of JNum n \<Rightarrow> num_rat n | _ \<Rightarrow> 0)"

definition trunc :: "rat \<Rightarrow> int" where
  "trunc q = (if q \<ge> 0 then \<lfloor>q\<rfloor> else - \<lfloor>- q\<rfloor>)"

definition intToFloat64 :: "json \<Rightarrow> int" where
  "intToFloat64 v = trunc (floatToFloat64 v)"

lemma num_rat_examples:
  "num_rat ''0.3'' = 3 / 10" "num_rat ''-12'' = - 12" "num_rat ''1.5e-1'' = 3 / 20"
  by code_simp+

end
