(* ===== verification/Usage.thy ===== *)
theory Usage
  imports JsonAny Health Quota
begin

text \<open>
  Token usage and timings read from a response (\<open>src/proxy/usage.go\<close>), and the writer that
  collects the response for it (\<open>metricsWriter\<close> of \<open>src/proxy/proxy.go\<close>). Numbers are exact;
  \<open>int(f)\<close> is truncation (out of range it is implementation-defined in Go). The
  decompressors and \<open>strconv.ParseFloat\<close> are arguments.
\<close>

record ProxyMetrics =
  pm_StatusCode :: int
  pm_ErrorBody :: string
  pm_TTFBMs :: int
  pm_ResponseSize :: int
  pm_PromptTokens :: int
  pm_CompletionTokens :: int
  pm_TotalTokens :: int
  pm_CachedTokens :: int
  pm_ReasoningTokens :: int
  pm_CacheCreationTokens :: int
  pm_DraftTokens :: int
  pm_DraftTokensAccepted :: int
  pm_PromptMs :: rat
  pm_PredictedMs :: rat
  pm_PromptPerSec :: rat
  pm_TokensPerSec :: rat
  pm_QueueMs :: rat
  pm_BackendModel :: string
  pm_AudioDurationMs :: int
  pm_AudioRTF :: rat
  pm_RetryAfterMs :: int

definition zero_pm :: ProxyMetrics where
  "zero_pm = \<lparr>pm_StatusCode = 0, pm_ErrorBody = [], pm_TTFBMs = 0, pm_ResponseSize = 0, pm_PromptTokens = 0,
     pm_CompletionTokens = 0, pm_TotalTokens = 0, pm_CachedTokens = 0, pm_ReasoningTokens = 0,
     pm_CacheCreationTokens = 0, pm_DraftTokens = 0, pm_DraftTokensAccepted = 0, pm_PromptMs = 0, pm_PredictedMs = 0,
     pm_PromptPerSec = 0, pm_TokensPerSec = 0, pm_QueueMs = 0, pm_BackendModel = [], pm_AudioDurationMs = 0,
     pm_AudioRTF = 0, pm_RetryAfterMs = 0\<rparr>"

subsection \<open>A usage object\<close>

definition usagePaths :: "string list" where
  "usagePaths = [''usage'', ''response.usage'', ''message.usage'']"

definition llamaTimingsPaths :: "string list" where
  "llamaTimingsPaths = [''timings'', ''response.timings'', ''data.timings'']"

definition vllmMetricsPaths :: "string list" where
  "vllmMetricsPaths = [''metrics'', ''response.metrics'', ''data.metrics'']"

record usageCounts =
  uc_input :: int
  uc_output :: int
  uc_cached :: int
  uc_cacheCreation :: int
  uc_reasoning :: int
  uc_promptPerSec :: rat
  uc_tokensPerSec :: rat

definition no_usage :: usageCounts where
  "no_usage = \<lparr>uc_input = 0, uc_output = 0, uc_cached = - 1, uc_cacheCreation = 0, uc_reasoning = 0,
     uc_promptPerSec = 0, uc_tokensPerSec = 0\<rparr>"

definition nestedInt :: "any_map \<Rightarrow> string \<Rightarrow> string \<Rightarrow> int" where
  "nestedInt obj container key =
     (case any_object (any_get obj container) of Some m \<Rightarrow> intToFloat64 (any_get m key) | None \<Rightarrow> 0)"

definition firstPositive :: "'a :: {zero, ord} \<Rightarrow> 'a list \<Rightarrow> 'a" where
  "firstPositive fallback vals = (case find (\<lambda>v. v > 0) vals of Some v \<Rightarrow> v | None \<Rightarrow> fallback)"

definition cached_tokens :: "any_map \<Rightarrow> int" where
  "cached_tokens usage =
     (let c0 = (if any_has usage ''cache_read_input_tokens''
                then intToFloat64 (any_get usage ''cache_read_input_tokens'') else - 1);
          c1 = (case any_object (any_get usage ''input_tokens_details'') of
                  Some d \<Rightarrow> if c0 < 0 then intToFloat64 (any_get d ''cached_tokens'') else c0
                | None \<Rightarrow> c0)
      in case any_object (any_get usage ''prompt_tokens_details'') of
           Some d \<Rightarrow> if c1 < 0 then intToFloat64 (any_get d ''cached_tokens'') else c1
         | None \<Rightarrow> c1)"

definition extractUsageTokens :: "any_map option \<Rightarrow> usageCounts" where
  "extractUsageTokens u = (case u of
     None \<Rightarrow> no_usage
   | Some usage \<Rightarrow>
       \<lparr>uc_input = intToFloat64 (any_get usage ''prompt_tokens'') + intToFloat64 (any_get usage ''input_tokens''),
        uc_output = intToFloat64 (any_get usage ''completion_tokens'') + intToFloat64 (any_get usage ''output_tokens''),
        uc_cached = cached_tokens usage,
        uc_cacheCreation = firstPositive 0
          [intToFloat64 (any_get usage ''cache_creation_input_tokens''),
           nestedInt usage ''prompt_tokens_details'' ''created_cache_tokens'',
           nestedInt usage ''input_tokens_details'' ''cache_write_tokens''],
        uc_reasoning = firstPositive 0
          [nestedInt usage ''completion_tokens_details'' ''reasoning_tokens'',
           nestedInt usage ''output_tokens_details'' ''reasoning_tokens'',
           intToFloat64 (any_get usage ''reasoning_tokens'')],
        uc_promptPerSec = firstPositive 0
          [floatToFloat64 (any_get usage ''prompt_tokens_per_sec''),
           floatToFloat64 (any_get usage ''prompt_tokens_per_second'')],
        uc_tokensPerSec = firstPositive 0
          [floatToFloat64 (any_get usage ''completion_tokens_per_sec''),
           floatToFloat64 (any_get usage ''generation_tokens_per_second'')]\<rparr>)"

definition sglangMetaInfo :: "any_map \<Rightarrow> any_map option" where
  "sglangMetaInfo obj = (case any_array (any_get obj ''choices'') of
     Some (c # _) \<Rightarrow>
       (case any_object c of Some choice \<Rightarrow> any_object (any_get choice ''meta_info'') | None \<Rightarrow> None)
   | _ \<Rightarrow> None)"

subsection \<open>Composing the metrics\<close>

abbreviation num_or :: "any_map \<Rightarrow> string \<Rightarrow> rat \<Rightarrow> rat" where
  "num_or m k old \<equiv> (let v = floatToFloat64 (any_get m k) in if v > 0 then v else old)"

abbreviation count_or :: "any_map \<Rightarrow> string \<Rightarrow> int \<Rightarrow> int" where
  "count_or m k old \<equiv> (let n = intToFloat64 (any_get m k) in if n > 0 then n else old)"

definition apply_vllm :: "any_map \<Rightarrow> ProxyMetrics \<Rightarrow> ProxyMetrics" where
  "apply_vllm v pm =
     (let pm1 = pm\<lparr>pm_PromptMs := num_or v ''time_to_first_token_ms'' (pm_PromptMs pm),
                   pm_PredictedMs := num_or v ''generation_time_ms'' (pm_PredictedMs pm),
                   pm_TokensPerSec := num_or v ''tokens_per_second'' (pm_TokensPerSec pm),
                   pm_QueueMs := floatToFloat64 (any_get v ''queue_time_ms'')\<rparr>
      in case any_object (any_get v ''speculative_decoding'') of
           None \<Rightarrow> pm1
         | Some spec \<Rightarrow> pm1\<lparr>pm_DraftTokens := count_or spec ''num_draft_tokens'' (pm_DraftTokens pm1),
                            pm_DraftTokensAccepted := count_or spec ''num_accepted_draft_tokens'' (pm_DraftTokensAccepted pm1)\<rparr>)"

definition apply_sglang :: "any_map \<Rightarrow> ProxyMetrics \<Rightarrow> ProxyMetrics" where
  "apply_sglang g pm =
     (let lat = floatToFloat64 (any_get g ''first_token_latency''); qt = floatToFloat64 (any_get g ''queue_time'');
          cv = intToFloat64 (any_get g ''cached_tokens'')
      in pm\<lparr>pm_PromptMs := (if lat > 0 then lat * 1000 else pm_PromptMs pm),
            pm_TokensPerSec := num_or g ''decode_throughput'' (pm_TokensPerSec pm),
            pm_QueueMs := (if qt > 0 then qt * 1000 else pm_QueueMs pm),
            pm_CachedTokens := (if cv \<ge> 0 \<and> pm_CachedTokens pm < 0 then cv else pm_CachedTokens pm),
            pm_DraftTokens := count_or g ''spec_num_proposed_drafts'' (pm_DraftTokens pm),
            pm_DraftTokensAccepted := count_or g ''spec_num_correct_drafts'' (pm_DraftTokensAccepted pm)\<rparr>)"

definition apply_timings :: "any_map \<Rightarrow> ProxyMetrics \<Rightarrow> ProxyMetrics" where
  "apply_timings t pm =
     (let cv = intToFloat64 (any_get t ''cache_n'')
      in pm\<lparr>pm_PromptTokens := count_or t ''prompt_n'' (pm_PromptTokens pm),
            pm_CompletionTokens := count_or t ''predicted_n'' (pm_CompletionTokens pm),
            pm_PromptPerSec := num_or t ''prompt_per_second'' (pm_PromptPerSec pm),
            pm_TokensPerSec := num_or t ''predicted_per_second'' (pm_TokensPerSec pm),
            pm_PromptMs := floatToFloat64 (any_get t ''prompt_ms''),
            pm_PredictedMs := floatToFloat64 (any_get t ''predicted_ms''),
            pm_CachedTokens := (if any_has t ''cache_n'' \<and> cv \<ge> 0 then cv else pm_CachedTokens pm),
            pm_DraftTokens := intToFloat64 (any_get t ''draft_n''),
            pm_DraftTokensAccepted := intToFloat64 (any_get t ''draft_n_accepted'')\<rparr>)"

definition apply_audio :: "any_map \<Rightarrow> ProxyMetrics \<Rightarrow> ProxyMetrics" where
  "apply_audio a pm = pm\<lparr>pm_AudioDurationMs := intToFloat64 (any_get a ''audio_duration_ms''),
                        pm_AudioRTF := floatToFloat64 (any_get a ''rtf'')\<rparr>"

definition if_some :: "('a \<Rightarrow> 'b \<Rightarrow> 'b) \<Rightarrow> 'a option \<Rightarrow> 'b \<Rightarrow> 'b" where
  "if_some f x b = (case x of None \<Rightarrow> b | Some a \<Rightarrow> f a b)"

definition buildMetricsFromData ::
  "usageCounts \<Rightarrow> int \<Rightarrow> any_map option \<Rightarrow> any_map option \<Rightarrow> any_map option \<Rightarrow> any_map option \<Rightarrow> ProxyMetrics" where
  "buildMetricsFromData uc totalTokens timings vllmMetrics sglangMeta audioTiming =
     if_some apply_audio audioTiming (if_some apply_timings timings (if_some apply_sglang sglangMeta
       (if_some apply_vllm vllmMetrics
         (zero_pm\<lparr>pm_PromptTokens := uc_input uc, pm_CompletionTokens := uc_output uc, pm_TotalTokens := totalTokens,
                  pm_CachedTokens := uc_cached uc, pm_ReasoningTokens := uc_reasoning uc,
                  pm_CacheCreationTokens := uc_cacheCreation uc, pm_PromptPerSec := uc_promptPerSec uc,
                  pm_TokensPerSec := uc_tokensPerSec uc\<rparr>))))"

subsection \<open>A JSON response\<close>

definition nothing_reported :: ProxyMetrics where
  "nothing_reported = zero_pm\<lparr>pm_CachedTokens := - 1\<rparr>"

definition extractUsageFromJSON :: "string \<Rightarrow> ProxyMetrics" where
  "extractUsageFromJSON body = (case UnmarshalMap body of
     None \<Rightarrow> nothing_reported
   | Some obj \<Rightarrow>
       let usage = any_object (any_get obj ''usage''); timings = any_object (any_get obj ''timings'');
           vllm = any_object (any_get obj ''metrics''); sglang = sglangMetaInfo obj;
           audio = any_object (any_get obj ''timing'')
       in if usage = None \<and> timings = None \<and> vllm = None \<and> sglang = None \<and> audio = None then nothing_reported
          else buildMetricsFromData (extractUsageTokens usage)
                 (intToFloat64 (any_get (case usage of Some u \<Rightarrow> u | None \<Rightarrow> []) ''total_tokens''))
                 timings vllm sglang audio)"

subsection \<open>A stream\<close>

text \<open>The payloads \<open>forEachDataLine\<close> hands to its callback, in order.\<close>

definition data_payload :: "string \<Rightarrow> string option" where
  "data_payload l =
     (let line = TrimSpace l; payload = TrimSpace (drop 5 line)
      in if line = [] \<or> \<not> HasPrefix line ''data:'' \<or> payload = [] then None else Some payload)"

definition forEachDataLine :: "string \<Rightarrow> string list" where
  "forEachDataLine body = List.map_filter data_payload (split_on (CHR 0x0A) body)"

record stream_usage =
  su_uc :: usageCounts
  su_timings :: "any_map option"
  su_vllm :: "any_map option"
  su_audio :: "any_map option"
  su_hasAny :: bool

definition merge_usage :: "usageCounts \<Rightarrow> usageCounts \<Rightarrow> usageCounts" where
  "merge_usage c uc =
     uc\<lparr>uc_input := (if uc_input c > 0 then uc_input c else uc_input uc),
        uc_output := (if uc_output c > 0 then uc_output c else uc_output uc),
        uc_cached := (if uc_cached c \<ge> 0 then uc_cached c else uc_cached uc),
        uc_cacheCreation := (if uc_cacheCreation c > 0 then uc_cacheCreation c else uc_cacheCreation uc),
        uc_reasoning := (if uc_reasoning c > 0 then uc_reasoning c else uc_reasoning uc)\<rparr>"

definition fields_at :: "string list \<Rightarrow> any_map \<Rightarrow> any_map list" where
  "fields_at paths obj = List.map_filter (getField obj) paths"

definition stream_object :: "any_map \<Rightarrow> stream_usage \<Rightarrow> stream_usage" where
  "stream_object obj s =
     (let us = fields_at usagePaths obj; ts = fields_at llamaTimingsPaths obj; vs = fields_at vllmMetricsPaths obj;
          au = getField obj ''timing''
      in s\<lparr>su_uc := fold (\<lambda>u. merge_usage (extractUsageTokens (Some u))) us (su_uc s),
           su_timings := (if ts = [] then su_timings s else Some (last ts)),
           su_vllm := (if vs = [] then su_vllm s else Some (last vs)),
           su_audio := (if au = None then su_audio s else au),
           su_hasAny := (su_hasAny s \<or> us \<noteq> [] \<or> ts \<noteq> [] \<or> vs \<noteq> [] \<or> au \<noteq> None)\<rparr>)"

definition stream_line :: "string \<Rightarrow> stream_usage \<Rightarrow> stream_usage" where
  "stream_line payload s =
     (if payload = ''[DONE]'' then s
      else case UnmarshalMap payload of None \<Rightarrow> s | Some obj \<Rightarrow> stream_object obj s)"

definition extractUsageFromStream :: "string \<Rightarrow> ProxyMetrics" where
  "extractUsageFromStream body =
     (let s = fold stream_line (forEachDataLine body)
                \<lparr>su_uc = no_usage, su_timings = None, su_vllm = None, su_audio = None, su_hasAny = False\<rparr>
      in if \<not> su_hasAny s then nothing_reported
         else buildMetricsFromData (su_uc s) 0 (su_timings s) (su_vllm s) None (su_audio s))"

subsection \<open>The collecting writer\<close>

definition decompressBody :: "(string \<Rightarrow> string \<Rightarrow> string option) \<Rightarrow> string \<Rightarrow> string \<Rightarrow> string option" where
  "decompressBody inflate body encoding =
     (let e = map to_lower (TrimSpace encoding)
      in if e = ''gzip'' \<or> e = ''deflate'' then inflate e body else Some body)"

definition extractUsageFromResponse :: "(string \<Rightarrow> string \<Rightarrow> string option) \<Rightarrow> string \<Rightarrow> string \<Rightarrow> bool \<Rightarrow> ProxyMetrics" where
  "extractUsageFromResponse inflate body contentEncoding isStream =
     (case (if contentEncoding \<noteq> [] then decompressBody inflate body contentEncoding else Some body) of
        None \<Rightarrow> nothing_reported
      | Some b \<Rightarrow> if isStream then extractUsageFromStream b else extractUsageFromJSON b)"

record metricsWriter =
  mw_statusCode :: int
  mw_firstWrite :: "gotime option"
  mw_startTime :: gotime
  mw_responseSize :: int
  mw_bodyBuffer :: string
  mw_contentType :: string
  mw_contentEncoding :: string
  mw_retryAfter :: duration
  mw_header :: "string \<Rightarrow> string"
  mw_traceType :: string
  mw_traced :: string

definition newMetricsWriter :: "gotime \<Rightarrow> (string \<Rightarrow> string) \<Rightarrow> metricsWriter" where
  "newMetricsWriter start hdr =
     \<lparr>mw_statusCode = 200, mw_firstWrite = None, mw_startTime = start, mw_responseSize = 0, mw_bodyBuffer = [],
      mw_contentType = [], mw_contentEncoding = [], mw_retryAfter = 0, mw_header = hdr, mw_traceType = [], mw_traced = []\<rparr>"

definition metrics_WriteHeader :: "(string \<Rightarrow> gotime option) \<Rightarrow> gotime \<Rightarrow> int \<Rightarrow> bool \<Rightarrow> metricsWriter \<Rightarrow> metricsWriter" where
  "metrics_WriteHeader parseTime now code injectStatus m =
     (let ct = mw_header m ''Content-Type''; ce = mw_header m ''Content-Encoding''
      in m\<lparr>mw_statusCode := code, mw_contentType := ct, mw_contentEncoding := ce,
           mw_retryAfter := ParseRetryAfter parseTime now (mw_header m ''Retry-After''),
           mw_traceType := (if ce \<noteq> [] \<and> ce \<noteq> ''identity'' then ''application/'' @ ce else ct),
           mw_header := (if injectStatus then (mw_header m)(''X-Router-Status'' := Itoa code) else mw_header m)\<rparr>)"

definition bodyLimit :: nat where "bodyLimit = 256 * 1024"

definition keep_body :: "string \<Rightarrow> string \<Rightarrow> string" where
  "keep_body buf data =
     (if length buf + length data > bodyLimit
      then (if length data < bodyLimit then drop (bodyLimit - length data) buf else [])
      else buf) @ data"

text \<open>\<open>n\<close> is what the writer below reports as written.\<close>

definition metrics_Write :: "gotime \<Rightarrow> int \<Rightarrow> string \<Rightarrow> metricsWriter \<Rightarrow> metricsWriter" where
  "metrics_Write now n data m =
     m\<lparr>mw_firstWrite := (if mw_firstWrite m = None then Some now else mw_firstWrite m),
       mw_bodyBuffer := keep_body (mw_bodyBuffer m) data,
       mw_traced := mw_traced m @ data,
       mw_responseSize := mw_responseSize m + n\<rparr>"

definition writer_metrics ::
  "(string \<Rightarrow> string \<Rightarrow> string option) \<Rightarrow> (string \<Rightarrow> rat option) \<Rightarrow> metricsWriter \<Rightarrow> ProxyMetrics" where
  "writer_metrics inflate parseFloat m =
     (let pm = extractUsageFromResponse inflate (mw_bodyBuffer m) (mw_contentEncoding m)
                 (Contains (mw_contentType m) ''text/event-stream'');
          pm1 = pm\<lparr>pm_StatusCode := mw_statusCode m,
                   pm_ErrorBody := (if mw_statusCode m \<ge> 400 then take 4096 (mw_bodyBuffer m) else pm_ErrorBody pm),
                   pm_TTFBMs := (case mw_firstWrite m of Some t \<Rightarrow> (t - mw_startTime m) div Millisecond | None \<Rightarrow> 0),
                   pm_ResponseSize := mw_responseSize m, pm_RetryAfterMs := mw_retryAfter m div Millisecond\<rparr>
      in pm1\<lparr>pm_AudioDurationMs := (if pm_AudioDurationMs pm1 = 0
               then (case ParseInt (mw_header m ''X-AudioCPP-Audio-Duration-Ms'') of Some v \<Rightarrow> v | None \<Rightarrow> 0)
               else pm_AudioDurationMs pm1),
             pm_AudioRTF := (if pm_AudioRTF pm1 = 0
               then (case parseFloat (mw_header m ''X-AudioCPP-RTF'') of Some v \<Rightarrow> v | None \<Rightarrow> 0)
               else pm_AudioRTF pm1)\<rparr>)"

subsection \<open>What the stream reports\<close>

text \<open>The last of a list of reports that satisfies \<open>P\<close>, or a default.\<close>

definition last_such :: "('a \<Rightarrow> bool) \<Rightarrow> 'a \<Rightarrow> 'a list \<Rightarrow> 'a" where
  "last_such P d xs = last (d # filter P xs)"

lemma last_such_simps [simp]:
  "last_such P d [] = d" "last_such P d (x # xs) = last_such P (if P x then x else d) xs"
  by (simp_all add: last_such_def)

lemma last_such_append: "last_such P d (xs @ ys) = last_such P (last_such P d xs) ys"
  by (induction xs arbitrary: d) simp_all

text \<open>Every usage object of a stream, in the order the frames report them.\<close>

definition stream_objects :: "string \<Rightarrow> any_map list" where
  "stream_objects body = List.map_filter (\<lambda>p. if p = ''[DONE]'' then None else UnmarshalMap p) (forEachDataLine body)"

definition stream_usages :: "any_map list \<Rightarrow> usageCounts list" where
  "stream_usages objs = map (\<lambda>u. extractUsageTokens (Some u)) (concat (map (fields_at usagePaths) objs))"

lemma fold_merge_usage:
  "fold merge_usage cs uc =
     uc\<lparr>uc_input := last_such (\<lambda>n. n > 0) (uc_input uc) (map uc_input cs),
        uc_output := last_such (\<lambda>n. n > 0) (uc_output uc) (map uc_output cs),
        uc_cached := last_such (\<lambda>n. n \<ge> 0) (uc_cached uc) (map uc_cached cs),
        uc_cacheCreation := last_such (\<lambda>n. n > 0) (uc_cacheCreation uc) (map uc_cacheCreation cs),
        uc_reasoning := last_such (\<lambda>n. n > 0) (uc_reasoning uc) (map uc_reasoning cs)\<rparr>"
  by (induction cs arbitrary: uc) (simp_all add: merge_usage_def)

lemma fold_stream_line:
  "fold stream_line (forEachDataLine body) s = fold stream_object (stream_objects body) s"
proof -
  have "fold stream_line ps s =
      fold stream_object (List.map_filter (\<lambda>p. if p = ''[DONE]'' then None else UnmarshalMap p) ps) s" for ps
    by (induction ps arbitrary: s) (simp_all add: stream_line_def List.map_filter_simps split: option.splits)
  then show ?thesis by (simp add: stream_objects_def)
qed

lemma fold_stream_object_uc:
  "su_uc (fold stream_object objs s) = fold merge_usage (stream_usages objs) (su_uc s)"
proof (induction objs arbitrary: s)
  case (Cons obj objs)
  have "su_uc (stream_object obj s) = fold merge_usage (stream_usages [obj]) (su_uc s)"
    by (simp add: stream_object_def stream_usages_def Let_def fold_map o_def)
  then show ?case by (simp add: Cons.IH stream_usages_def)
qed (simp add: stream_usages_def)

lemma fold_stream_object_timings:
  "su_timings (fold stream_object objs s) =
     (let ts = concat (map (fields_at llamaTimingsPaths) objs) in if ts = [] then su_timings s else Some (last ts))"
  by (induction objs arbitrary: s) (auto simp: stream_object_def Let_def)

lemma fold_stream_object_any:
  "su_hasAny (fold stream_object objs s) \<longleftrightarrow>
     su_hasAny s \<or> (\<exists>obj \<in> set objs. fields_at usagePaths obj \<noteq> [] \<or> fields_at llamaTimingsPaths obj \<noteq> [] \<or>
       fields_at vllmMetricsPaths obj \<noteq> [] \<or> getField obj ''timing'' \<noteq> None)"
  by (induction objs arbitrary: s) (auto simp: stream_object_def Let_def)

lemma no_usage_simps [simp]:
  "uc_input no_usage = 0" "uc_output no_usage = 0" "uc_cached no_usage = - 1" "uc_cacheCreation no_usage = 0"
  "uc_reasoning no_usage = 0" "uc_promptPerSec no_usage = 0" "uc_tokensPerSec no_usage = 0"
  by (simp_all add: no_usage_def)

lemma fold_stream_object_vllm:
  "su_vllm (fold stream_object objs s) =
     (let vs = concat (map (fields_at vllmMetricsPaths) objs) in if vs = [] then su_vllm s else Some (last vs))"
  by (induction objs arbitrary: s) (auto simp: stream_object_def Let_def)

abbreviation timing_count :: "any_map list \<Rightarrow> string \<Rightarrow> int" where
  "timing_count ts k \<equiv> (if ts = [] then 0 else intToFloat64 (any_get (last ts) k))"

lemma build_counts:
  "pm_PromptTokens (buildMetricsFromData uc n t v g a) =
     (case t of Some m \<Rightarrow> count_or m ''prompt_n'' (uc_input uc) | None \<Rightarrow> uc_input uc)"
  "pm_CompletionTokens (buildMetricsFromData uc n t v g a) =
     (case t of Some m \<Rightarrow> count_or m ''predicted_n'' (uc_output uc) | None \<Rightarrow> uc_output uc)"
  "pm_ReasoningTokens (buildMetricsFromData uc n t v g a) = uc_reasoning uc"
  "pm_CacheCreationTokens (buildMetricsFromData uc n t v g a) = uc_cacheCreation uc"
  "pm_TotalTokens (buildMetricsFromData uc n t v g a) = n"
  by (simp_all add: buildMetricsFromData_def if_some_def apply_audio_def apply_timings_def apply_sglang_def apply_vllm_def
      Let_def zero_pm_def split: option.splits)

lemma silent_stream:
  assumes "\<not> su_hasAny (fold stream_object objs s)"
  shows "stream_usages objs = []" "concat (map (fields_at llamaTimingsPaths) objs) = []"
  using assms by (auto simp: fold_stream_object_any stream_usages_def)

lemma stream_counts:
  fixes body :: string
  defines "us \<equiv> stream_usages (stream_objects body)"
    and "ts \<equiv> concat (map (fields_at llamaTimingsPaths) (stream_objects body))"
  shows "pm_PromptTokens (extractUsageFromStream body) =
           (if timing_count ts ''prompt_n'' > 0 then timing_count ts ''prompt_n''
            else last_such (\<lambda>n. n > 0) 0 (map uc_input us))"
    and "pm_CompletionTokens (extractUsageFromStream body) =
           (if timing_count ts ''predicted_n'' > 0 then timing_count ts ''predicted_n''
            else last_such (\<lambda>n. n > 0) 0 (map uc_output us))"
    and "pm_ReasoningTokens (extractUsageFromStream body) = last_such (\<lambda>n. n > 0) 0 (map uc_reasoning us)"
    and "pm_CacheCreationTokens (extractUsageFromStream body) = last_such (\<lambda>n. n > 0) 0 (map uc_cacheCreation us)"
    and "pm_TotalTokens (extractUsageFromStream body) = 0"
proof -
  let ?s0 = "\<lparr>su_uc = no_usage, su_timings = None, su_vllm = None, su_audio = None, su_hasAny = False\<rparr>"
  let ?s = "fold stream_object (stream_objects body) ?s0"
  have pm: "extractUsageFromStream body = (if \<not> su_hasAny ?s then nothing_reported
      else buildMetricsFromData (su_uc ?s) 0 (su_timings ?s) (su_vllm ?s) None (su_audio ?s))"
    by (simp add: extractUsageFromStream_def fold_stream_line Let_def)
  have uc: "su_uc ?s = fold merge_usage us no_usage" by (simp add: fold_stream_object_uc us_def)
  have tm: "su_timings ?s = (if ts = [] then None else Some (last ts))"
    by (simp add: fold_stream_object_timings ts_def Let_def)
  have none: "us = [] \<and> ts = []" if "\<not> su_hasAny ?s"
    using silent_stream [OF that] by (simp add: us_def ts_def)
  note facts = pm build_counts uc tm fold_merge_usage
  show "pm_PromptTokens (extractUsageFromStream body) =
           (if timing_count ts ''prompt_n'' > 0 then timing_count ts ''prompt_n''
            else last_such (\<lambda>n. n > 0) 0 (map uc_input us))"
    using none by (cases "su_hasAny ?s") (auto simp: facts nothing_reported_def zero_pm_def Let_def)
  show "pm_CompletionTokens (extractUsageFromStream body) =
           (if timing_count ts ''predicted_n'' > 0 then timing_count ts ''predicted_n''
            else last_such (\<lambda>n. n > 0) 0 (map uc_output us))"
    using none by (cases "su_hasAny ?s") (auto simp: facts nothing_reported_def zero_pm_def Let_def)
  show "pm_ReasoningTokens (extractUsageFromStream body) = last_such (\<lambda>n. n > 0) 0 (map uc_reasoning us)"
    using none by (cases "su_hasAny ?s") (auto simp: facts nothing_reported_def zero_pm_def)
  show "pm_CacheCreationTokens (extractUsageFromStream body) = last_such (\<lambda>n. n > 0) 0 (map uc_cacheCreation us)"
    using none by (cases "su_hasAny ?s") (auto simp: facts nothing_reported_def zero_pm_def)
  show "pm_TotalTokens (extractUsageFromStream body) = 0"
    by (cases "su_hasAny ?s") (simp_all add: facts nothing_reported_def zero_pm_def)
qed

text \<open>
  The token counts of a stream are the last positive ones its usage objects report, in
  whatever frame and under whichever of the three paths they come, so neither a final chunk
  that repeats zero nor frames without usage erase a count; the prompt and completion counts
  of the last llama.cpp \<open>timings\<close> object outrank them when positive.
\<close>
theorem stream_token_counts:
  "let us = stream_usages (stream_objects body);
       ts = concat (map (fields_at llamaTimingsPaths) (stream_objects body))
   in pm_PromptTokens (extractUsageFromStream body) =
        (if timing_count ts ''prompt_n'' > 0 then timing_count ts ''prompt_n''
         else last_such (\<lambda>n. n > 0) 0 (map uc_input us)) \<and>
      pm_CompletionTokens (extractUsageFromStream body) =
        (if timing_count ts ''predicted_n'' > 0 then timing_count ts ''predicted_n''
         else last_such (\<lambda>n. n > 0) 0 (map uc_output us)) \<and>
      pm_ReasoningTokens (extractUsageFromStream body) = last_such (\<lambda>n. n > 0) 0 (map uc_reasoning us) \<and>
      pm_CacheCreationTokens (extractUsageFromStream body) = last_such (\<lambda>n. n > 0) 0 (map uc_cacheCreation us)"
  unfolding Let_def by (intro conjI stream_counts)

text \<open>
  A streamed response is never charged to the token quota: its total is 0 whatever usage
  the stream reports, so releasing its reservation adds nothing to the server's token log.
\<close>
theorem streams_are_not_charged:
  "pm_TotalTokens (extractUsageFromStream body) = 0 \<and>
   q_tokens (Complete q now i reserved (pm_TotalTokens (extractUsageFromStream body))) = q_tokens q"
  by (simp add: stream_counts Complete_def Let_def)

text \<open>Throughput a usage object reports is kept for a JSON response and lost for a stream.\<close>

lemma stream_rates_lost:
  assumes "concat (map (fields_at llamaTimingsPaths) (stream_objects body)) = []"
    and "concat (map (fields_at vllmMetricsPaths) (stream_objects body)) = []"
  shows "pm_PromptPerSec (extractUsageFromStream body) = 0 \<and> pm_TokensPerSec (extractUsageFromStream body) = 0"
proof -
  let ?s = "fold stream_object (stream_objects body)
    \<lparr>su_uc = no_usage, su_timings = None, su_vllm = None, su_audio = None, su_hasAny = False\<rparr>"
  have "su_timings ?s = None" "su_vllm ?s = None"
    using assms by (simp_all add: fold_stream_object_timings fold_stream_object_vllm)
  moreover have "uc_promptPerSec (su_uc ?s) = 0 \<and> uc_tokensPerSec (su_uc ?s) = 0"
    by (simp add: fold_stream_object_uc fold_merge_usage)
  ultimately show ?thesis
    by (simp add: extractUsageFromStream_def fold_stream_line Let_def nothing_reported_def zero_pm_def
        buildMetricsFromData_def if_some_def apply_audio_def split: option.splits)
qed

text \<open>
  The buffer the usage is read from means to keep the newest 256 KiB; once full, a write drops
  \<open>256 KiB - len(data)\<close> bytes instead of keeping them, so about twice the write is left.
\<close>

lemma body_buffer_shrinks:
  assumes "length buf = bodyLimit" "data \<noteq> []" "length data < bodyLimit"
  shows "length (keep_body buf data) = 2 * length data"
  using assms by (simp add: keep_body_def)

end
