(* ===== verification/TraceCapture.thy ===== *)
theory TraceCapture
  imports Redact TraceStore Usage
begin

text \<open>
  \<open>src/trace/digest.go\<close> and \<open>src/trace/capture.go\<close>: the capture of one traced request, which
  the relay feeds chunk by chunk, and the digest computed once from what was stored. The
  running hash is the bytes written to it so far.
\<close>

subsection \<open>Reading a response (digest.go)\<close>

definition joinChannels :: "string \<Rightarrow> string \<Rightarrow> string" where
  "joinChannels body think = (if think = [] then body else if body = [] then think else body @ '' '' @ think)"

definition str_or :: "json \<Rightarrow> string" where
  "str_or j = (case any_string j of Some s \<Rightarrow> s | None \<Rightarrow> [])"

text \<open>What \<open>writeStrings\<close> appends for one value.\<close>

definition writeStrings :: "json \<Rightarrow> string" where
  "writeStrings j = (case j of
     JStr s \<Rightarrow> s
   | JArr items \<Rightarrow> concat (map str_or items)
   | _ \<Rightarrow> [])"

definition sub_object :: "any_map \<Rightarrow> string \<Rightarrow> any_map" where
  "sub_object obj k = (case any_object (any_get obj k) of Some m \<Rightarrow> m | None \<Rightarrow> [])"

definition firstFinishReason :: "any_map \<Rightarrow> string" where
  "firstFinishReason obj =
     (let s = str_or (any_get (sub_object obj ''delta'') ''stop_reason'')
      in if s \<noteq> [] then s else str_or (any_get (sub_object obj ''response'') ''status''))"

record digest_state =
  ds_body :: string
  ds_think :: string
  ds_digest :: Digest
  ds_event :: string

definition set_finish :: "string \<Rightarrow> digest_state \<Rightarrow> digest_state" where
  "set_finish fr s = (if fr = [] then s else s\<lparr>ds_digest := ds_digest s\<lparr>dg_FinishReason := fr\<rparr>\<rparr>)"

definition say :: "string \<Rightarrow> string \<Rightarrow> digest_state \<Rightarrow> digest_state" where
  "say body think s = s\<lparr>ds_body := ds_body s @ body, ds_think := ds_think s @ think\<rparr>"

definition openAIChunkText :: "any_map \<Rightarrow> digest_state \<Rightarrow> digest_state" where
  "openAIChunkText obj s = (case any_array (any_get obj ''choices'') of
     Some (c0 # _) \<Rightarrow> (case any_object c0 of
       None \<Rightarrow> s
     | Some c \<Rightarrow>
         set_finish (str_or (any_get c ''finish_reason''))
           (say (writeStrings (any_get (sub_object c ''delta'') ''content'')
                 @ writeStrings (any_get (sub_object c ''message'') ''content''))
                (writeStrings (any_get (sub_object c ''delta'') ''reasoning_content'')) s))
   | _ \<Rightarrow> s)"

definition count_event :: "string \<Rightarrow> digest_state \<Rightarrow> digest_state" where
  "count_event name s =
     (let ev = dg_Events (ds_digest s); n = (case gm_get ev name of Some k \<Rightarrow> k | None \<Rightarrow> 0)
      in s\<lparr>ds_digest := ds_digest s\<lparr>dg_Events := gm_put name (n + 1) ev\<rparr>\<rparr>)"

definition digest_named :: "string \<Rightarrow> any_map \<Rightarrow> digest_state \<Rightarrow> digest_state" where
  "digest_named name obj s =
     (if name = ''response.output_text.delta'' \<or> name = ''transcript.text.delta'' then
        say (str_or (any_get obj ''delta'')) [] s
      else if name = ''speech.audio.delta'' then
        s\<lparr>ds_digest := ds_digest s\<lparr>dg_AudioDeltas := dg_AudioDeltas (ds_digest s) + 1\<rparr>\<rparr>
      else if name = ''content_block_delta'' then
        say (writeStrings (any_get (sub_object obj ''delta'') ''text''))
            (writeStrings (any_get (sub_object obj ''delta'') ''thinking'')) s
      else if name = ''message_delta'' \<or> name = ''response.completed'' then
        set_finish (firstFinishReason obj) s
      else s)"

definition frame_name :: "string \<Rightarrow> any_map \<Rightarrow> string" where
  "frame_name event obj =
     (let t = str_or (any_get obj ''type'')
      in if t \<noteq> [] then t else if event = [] then ''data'' else event)"

definition digest_object :: "any_map \<Rightarrow> digest_state \<Rightarrow> digest_state" where
  "digest_object obj s =
     (let name = frame_name (ds_event s) obj;
          s1 = (if ds_event s = [] \<or> name \<noteq> ds_event s then count_event name s else s);
          s2 = digest_named name obj s1;
          s3 = (if any_has obj ''choices'' then openAIChunkText obj s2 else s2)
      in s3\<lparr>ds_event := []\<rparr>)"

definition digest_line :: "string \<Rightarrow> digest_state \<Rightarrow> digest_state" where
  "digest_line line s =
     (if HasPrefix line ''event:'' then
        (let event = TrimSpace (drop 6 line) in count_event event (s\<lparr>ds_event := event\<rparr>))
      else if \<not> HasPrefix line ''data:'' then s
      else let payload = TrimSpace (drop 5 line) in
        if payload = [] \<or> payload = ''[DONE]'' then s
        else case UnmarshalMap payload of
          None \<Rightarrow> count_event ''unparsed'' s
        | Some obj \<Rightarrow> digest_object obj s)"

text \<open>The lines \<open>forEachLine\<close> hands to its callback, in order.\<close>

definition forEachLine :: "string \<Rightarrow> string list" where
  "forEachLine body = filter (\<lambda>l. l \<noteq> []) (map TrimSpace (split_on (CHR 0x0A) body))"

definition no_digest :: digest_state where
  "no_digest = \<lparr>ds_body = [], ds_think = [], ds_digest = zero_digest, ds_event = []\<rparr>"

definition digest_done :: "digest_state \<Rightarrow> Digest" where
  "digest_done s = ds_digest s\<lparr>dg_Text := joinChannels (ds_body s) (ds_think s)\<rparr>"

definition digestStream :: "string \<Rightarrow> Digest" where
  "digestStream raw = digest_done (fold digest_line (forEachLine raw) no_digest)"

definition content_text :: "json \<Rightarrow> digest_state \<Rightarrow> digest_state" where
  "content_text j s = (case j of
     JStr t \<Rightarrow> say t [] s
   | JArr blks \<Rightarrow> fold (\<lambda>blk s. case any_object blk of
         None \<Rightarrow> s
       | Some m \<Rightarrow> say (writeStrings (any_get m ''text'')) (writeStrings (any_get m ''thinking'')) s) blks s
   | _ \<Rightarrow> s)"

definition digestJSONResponse :: "string \<Rightarrow> Digest" where
  "digestJSONResponse raw = (case UnmarshalMap raw of
     None \<Rightarrow> zero_digest
   | Some obj \<Rightarrow>
      (let s1 = (if any_has obj ''choices'' then openAIChunkText obj no_digest else no_digest);
           s2 = content_text (any_get obj ''content'') (say (writeStrings (any_get obj ''output_text'')) [] s1)
       in digest_done
            (set_finish (str_or (any_get obj ''stop_reason''))
              (set_finish (str_or (any_get obj ''finish_reason'')) (set_finish (firstFinishReason obj) s2)))))"

definition DigestResponse :: "trace_env \<Rightarrow> string \<Rightarrow> string \<Rightarrow> Digest" where
  "DigestResponse v raw contentType =
     (let ct = ToLower v contentType
      in if Contains ct ''text/event-stream'' then digestStream raw
         else if Contains ct ''json'' then digestJSONResponse raw
         else zero_digest)"

subsection \<open>The capture of one request (capture.go)\<close>

record Capture =
  cap_id :: string
  cap_ts :: gotime
  cap_method :: string
  cap_path :: string
  cap_model :: string
  cap_request :: string
  cap_reqTrunc :: bool
  cap_class :: string
  cap_features :: "string list"
  cap_resp :: string
  cap_respBytes :: int
  cap_respType :: string
  cap_sha :: string

text \<open>\<open>entropy\<close> is what \<open>rand.Read\<close> gives: four bytes, or \<open>None\<close> for its error.\<close>

definition NewCapture ::
  "trace_env \<Rightarrow> string option \<Rightarrow> gotime \<Rightarrow> string \<Rightarrow> string \<Rightarrow> string \<Rightarrow> string \<Rightarrow> string \<Rightarrow> Capture option" where
  "NewCapture v entropy now method path model contentType body =
     (case RedactRequest v body contentType of
        None \<Rightarrow> None
      | Some (req, clipped) \<Rightarrow> (case Classify path contentType body of
          None \<Rightarrow> None
        | Some (class, features) \<Rightarrow> Some
            \<lparr>cap_id = hex_EncodeToString (case entropy of Some b \<Rightarrow> b | None \<Rightarrow> replicate 4 (CHR 0x00)),
             cap_ts = now, cap_method = method, cap_path = path, cap_model = model,
             cap_request = req, cap_reqTrunc = clipped, cap_class = class, cap_features = features,
             cap_resp = [], cap_respBytes = 0, cap_respType = [], cap_sha = []\<rparr>))"

definition ResponseContentType :: "string \<Rightarrow> Capture \<Rightarrow> Capture" where
  "ResponseContentType ct c = c\<lparr>cap_respType := ct\<rparr>"

definition isBinaryType :: "trace_env \<Rightarrow> string \<Rightarrow> bool" where
  "isBinaryType v contentType \<longleftrightarrow> (let ct = ToLower v contentType in
     \<not> Contains ct ''json'' \<and> \<not> Contains ct ''text/event-stream'' \<and> \<not> Contains ct ''text/'')"

definition WriteResponse :: "trace_env \<Rightarrow> string \<Rightarrow> Capture \<Rightarrow> Capture" where
  "WriteResponse v p c =
     (let c1 = c\<lparr>cap_respBytes := wrap64 (cap_respBytes c + int (length p)), cap_sha := cap_sha c @ p\<rparr>;
          room = MaxResponseBytes - length (cap_resp c)
      in if isBinaryType v (cap_respType c) then c1
         else if room > 0 then c1\<lparr>cap_resp := cap_resp c @ (if length p > room then take room p else p)\<rparr>
         else c1)"

definition HasResponse :: "Capture \<Rightarrow> bool" where
  "HasResponse c \<longleftrightarrow> cap_respBytes c > 0"

definition capture_Entry :: "trace_env \<Rightarrow> Capture \<Rightarrow> Entry" where
  "capture_Entry v c =
     (let e = zero_entry\<lparr>en_ID := cap_id c, en_Timestamp := cap_ts c, en_Method := cap_method c,
                en_Path := cap_path c, en_Model := cap_model c, en_Class := cap_class c,
                en_Features := cap_features c, en_Request := cap_request c, en_RequestTruncated := cap_reqTrunc c\<rparr>
      in if cap_respBytes c = 0 then e
         else if isBinaryType v (cap_respType c) then
           e\<lparr>en_Response := stub v (coarseKind v (cap_respType c)) (cap_respBytes c) (te_sha256 v (cap_sha c))\<rparr>
         else
           (let e1 = e\<lparr>en_Digest := DigestResponse v (cap_resp c) (cap_respType c), en_Response := cap_resp c\<rparr>;
                dropped = wrap64 (cap_respBytes c - int (length (cap_resp c)))
            in if dropped > 0
               then e1\<lparr>en_Response := en_Response e1 @ truncationMarker dropped, en_ResponseTruncated := True\<rparr>
               else e1))"

subsection \<open>What a capture holds\<close>

lemma WriteResponse_type [simp]: "cap_respType (WriteResponse v p c) = cap_respType c"
  by (simp add: WriteResponse_def Let_def)

lemma fold_WriteResponse:
  assumes "sum_list (map length ps) < 2 ^ 63"
    and "cap_resp c = []" "cap_respBytes c = 0" "cap_sha c = []"
  shows "fold (WriteResponse v) ps c =
     c\<lparr>cap_resp := (if isBinaryType v (cap_respType c) then [] else take MaxResponseBytes (concat ps)),
       cap_respBytes := int (length (concat ps)), cap_sha := concat ps\<rparr>"
  using assms(1)
proof (induction ps rule: rev_induct)
  case Nil
  then show ?case using assms by (cases c) auto
next
  case (snoc p ps)
  then have "wrap64 (int (length (concat ps)) + int (length p)) = int (length (concat ps)) + int (length p)"
    by (intro wrap64_id) (auto simp: length_concat)
  with snoc show ?case
    by (auto simp: WriteResponse_def Let_def MaxResponseBytes_def)
qed

lemma DigestResponse_empty [simp]: "DigestResponse v [] ct = zero_digest"
proof -
  have "digestStream [] = zero_digest" "digestJSONResponse [] = zero_digest" by code_simp+
  then show ?thesis by (simp add: DigestResponse_def Let_def)
qed

lemma NewCapture_fresh:
  "NewCapture v entropy now method path model contentType body = Some c \<Longrightarrow>
     cap_resp c = [] \<and> cap_respBytes c = 0 \<and> cap_sha c = []"
  by (auto simp: NewCapture_def split: option.splits prod.splits)

text \<open>
  C36: A traced answer is recorded whatever chunks it arrived in. Unless its type is binary, the
  entry holds the answer itself, cut to 512 KiB with a marker that states exactly how many bytes
  were dropped, and the digest of that prefix; a binary answer is a stub with its true size.
\<close>

theorem capture_holds_answer:
  assumes "NewCapture v entropy now method path model rct body = Some c"
    and "sum_list (map length ps) < 2 ^ 63"
  shows "let e = capture_Entry v (fold (WriteResponse v) ps (ResponseContentType ct c)); answer = concat ps in
    if isBinaryType v ct
    then en_Response e = (if answer = [] then [] else stub v (coarseKind v ct) (int (length answer)) (te_sha256 v answer))
      \<and> en_Digest e = zero_digest
    else (en_Response e, en_ResponseTruncated e) = truncatePrefix answer MaxResponseBytes
      \<and> en_Digest e = DigestResponse v (take MaxResponseBytes answer) ct"
proof -
  define answer where "answer = concat ps"
  have "length answer < 2 ^ 63" using assms(2) by (simp add: length_concat answer_def)
  then have room: "length answer > MaxResponseBytes \<Longrightarrow>
      wrap64 (int (length answer) - int MaxResponseBytes) = int (length answer - MaxResponseBytes)"
    by (subst wrap64_id) (auto simp: MaxResponseBytes_def)
  have "fold (WriteResponse v) ps (ResponseContentType ct c) = (ResponseContentType ct c)
     \<lparr>cap_resp := (if isBinaryType v ct then [] else take MaxResponseBytes answer),
      cap_respBytes := int (length answer), cap_sha := answer\<rparr>"
    using fold_WriteResponse [OF assms(2), of "ResponseContentType ct c"] NewCapture_fresh [OF assms(1)]
    by (simp add: ResponseContentType_def answer_def)
  then show ?thesis
    unfolding answer_def [symmetric]
    using room by (cases "answer = []") (auto simp: capture_Entry_def zero_entry_def truncatePrefix_def
      ResponseContentType_def Let_def wrap64_def min_def not_le)
qed

text \<open>A short answer in two chunks, on a hash that returns its argument.\<close>

definition plain_env :: trace_env where
  "plain_env = \<lparr>te_sha256 = id, te_lower = id\<rparr>"

theorem capture_holds_answer_witness:
  "\<exists>c. NewCapture plain_env None 5 ''POST'' ''/v1/chat/completions'' ''m'' [] [] = Some c \<and>
     en_Response (capture_Entry plain_env (fold (WriteResponse plain_env) [''hel'', ''lo'']
       (ResponseContentType ''text/plain'' c))) = ''hello''"
proof -
  have new: "NewCapture plain_env None 5 ''POST'' ''/v1/chat/completions'' ''m'' [] [] \<noteq> None"
    by (simp add: NewCapture_def RedactRequest_def Classify_def)
  have "\<not> isBinaryType plain_env ''text/plain''"
    using ToLower_ascii [of "''text/plain''" plain_env "[]"]
    by (simp add: isBinaryType_def ToLower.simps(1) to_lower_def Contains_def)
  with new capture_holds_answer [of plain_env None 5 "''POST''" "''/v1/chat/completions''" "''m''" "[]" "[]"
      _ "[''hel'', ''lo'']" "''text/plain''"]
  show ?thesis by (force simp: Let_def truncatePrefix_def MaxResponseBytes_def)
qed

end
