(* ===== verification/Relay.thy ===== *)
theory Relay
  imports Usage Ring
begin

text \<open>
  The writers of a streamed response (\<open>src/proxy/streamusage.go\<close>, \<open>src/proxy/proxy.go\<close>):
  \<open>sseRelay\<close>, which delivers whole frames and filters the injected usage chunk, and the
  \<open>loopDetector\<close>. A writer keeps the list of writes it made to the writer below. How that
  writer answers the \<open>k\<close>-th of them is the argument \<open>down\<close>: accepted, or failed after \<open>n\<close> bytes.
\<close>

type_synonym downstream = "nat \<Rightarrow> nat option"

definition all_accepted :: downstream where "all_accepted = (\<lambda>_. None)"

subsection \<open>Frames\<close>

abbreviation lf :: char where "lf \<equiv> CHR 0x0A"
abbreviation cr :: char where "cr \<equiv> CHR 0x0D"

definition frame_terminators :: "string list" where
  "frame_terminators = [[cr, lf, cr, lf], [lf, lf], [cr, cr]]"

definition nearer :: "string \<Rightarrow> string \<Rightarrow> (nat \<times> nat) option \<Rightarrow> (nat \<times> nat) option" where
  "nearer b sep best = (case Index b sep of
     None \<Rightarrow> best
   | Some i \<Rightarrow> if (case best of None \<Rightarrow> True | Some (j, _) \<Rightarrow> i < j) then Some (i, length sep) else best)"

definition findSSEFrameEnd :: "string \<Rightarrow> nat option" where
  "findSSEFrameEnd b = map_option (\<lambda>(i, n). i + n) (fold (nearer b) frame_terminators None)"

definition any_values :: "any_map \<Rightarrow> json list" where
  "any_values m = map (any_get m) (remdups (map fst m))"

definition choiceIsEmpty :: "any_map \<Rightarrow> bool" where
  "choiceIsEmpty c =
     (if any_get c ''finish_reason'' \<noteq> JNull then False
      else if any_get c ''logprobs'' \<noteq> JNull then False
      else if \<not> any_has c ''delta'' then True
      else case any_object (any_get c ''delta'') of
             None \<Rightarrow> False
           | Some dm \<Rightarrow> list_all (\<lambda>v. v = JNull) (any_values dm))"

definition isUsageArtifact :: "string \<Rightarrow> bool" where
  "isUsageArtifact frame =
     (let line = TrimSpace (TrimPrefix (TrimSpace frame) ''data:'')
      in if line = [] \<or> line = ''[DONE]'' then False
         else case UnmarshalMap line of
           None \<Rightarrow> False
         | Some obj \<Rightarrow>
             (case any_array (any_get obj ''choices'') of
                None \<Rightarrow> False
              | Some arr \<Rightarrow>
                  list_all (\<lambda>c. case any_object c of Some cm \<Rightarrow> choiceIsEmpty cm | None \<Rightarrow> False) arr))"

subsection \<open>The relay\<close>

record sseRelay =
  sr_pending :: string
  sr_strip :: bool
  sr_dropped :: bool
  sr_raw :: bool
  sr_sent :: "string list"

definition newSSERelay :: "bool \<Rightarrow> sseRelay" where
  "newSSERelay strip = \<lparr>sr_pending = [], sr_strip = strip, sr_dropped = False, sr_raw = False, sr_sent = []\<rparr>"

definition setRaw :: "bool \<Rightarrow> sseRelay \<Rightarrow> sseRelay" where
  "setRaw raw s = s\<lparr>sr_raw := raw\<rparr>"

text \<open>One write below: the bytes it took, and whether it failed.\<close>

definition send_frame :: "downstream \<Rightarrow> string \<Rightarrow> sseRelay \<Rightarrow> sseRelay \<times> nat \<times> bool" where
  "send_frame down frame s = (case down (length (sr_sent s)) of
     None \<Rightarrow> (s\<lparr>sr_sent := sr_sent s @ [frame]\<rparr>, length frame, False)
   | Some n \<Rightarrow> (s\<lparr>sr_sent := sr_sent s @ [take n frame]\<rparr>, min n (length frame), True))"

lemma fold_nearer_bound:
  assumes "list_all (\<lambda>t. 2 \<le> length t) ts" "\<And>i n. best = Some (i, n) \<Longrightarrow> 2 \<le> n \<and> i + n \<le> length b"
    and "fold (nearer b) ts best = Some (i, n)"
  shows "2 \<le> n \<and> i + n \<le> length b"
  using assms
proof (induction ts arbitrary: best)
  case (Cons t ts)
  show ?case
  proof (rule Cons.IH)
    show "2 \<le> n \<and> i + n \<le> length b" if "nearer b t best = Some (i, n)" for i n
      using that Cons.prems(1,2) Index_bound [of b t] by (auto simp: nearer_def split: option.splits if_splits)
  qed (use Cons.prems in simp_all)
qed simp

lemma findSSEFrameEnd_bound: "findSSEFrameEnd b = Some e \<Longrightarrow> 2 \<le> e \<and> e \<le> length b"
  using fold_nearer_bound [of frame_terminators None b] by (auto simp: findSSEFrameEnd_def frame_terminators_def)

function relay_loop :: "downstream \<Rightarrow> nat \<Rightarrow> sseRelay \<Rightarrow> sseRelay \<times> nat option" where
  "relay_loop down sofar s = (case findSSEFrameEnd (sr_pending s) of
     None \<Rightarrow> (s, None)
   | Some e \<Rightarrow>
       let frame = take e (sr_pending s); s1 = s\<lparr>sr_pending := drop e (sr_pending s)\<rparr> in
       if sr_strip s \<and> isUsageArtifact frame then relay_loop down sofar (s1\<lparr>sr_dropped := True\<rparr>)
       else case send_frame down frame s1 of
              (s2, n, err) \<Rightarrow> if err then (s2, Some (sofar + n)) else relay_loop down (sofar + n) s2)"
  by pat_completeness auto
termination
  by (relation "measure (\<lambda>(down, sofar, s). length (sr_pending s))")
    (auto simp: send_frame_def dest!: findSSEFrameEnd_bound split: option.splits)

declare relay_loop.simps [simp del]

definition relay_Write :: "downstream \<Rightarrow> string \<Rightarrow> sseRelay \<Rightarrow> sseRelay \<times> nat \<times> bool" where
  "relay_Write down data s =
     (if sr_raw s then send_frame down data s
      else case relay_loop down 0 (s\<lparr>sr_pending := sr_pending s @ data\<rparr>) of
             (s1, Some n) \<Rightarrow> (s1, n, True)
           | (s1, None) \<Rightarrow> (s1, length data, False))"

definition relay_finish :: "downstream \<Rightarrow> sseRelay \<Rightarrow> sseRelay" where
  "relay_finish down s =
     (if sr_pending s = [] then s else (fst (send_frame down (sr_pending s) s))\<lparr>sr_pending := []\<rparr>)"

subsection \<open>How the backend cuts its stream does not matter\<close>

text \<open>The frames of a stream and what is left over, by one scan from the left.\<close>

fun frame_end :: "string \<Rightarrow> nat option" where
  "frame_end [] = None"
| "frame_end (c # cs) =
     (if HasPrefix (c # cs) [cr, lf, cr, lf] then Some 4
      else if HasPrefix (c # cs) [lf, lf] \<or> HasPrefix (c # cs) [cr, cr] then Some 2
      else map_option Suc (frame_end cs))"

definition shift :: "(nat \<times> nat) option \<Rightarrow> (nat \<times> nat) option" where
  "shift = map_option (\<lambda>(i, n). (Suc i, n))"

lemma nearer_shift:
  "\<not> HasPrefix (c # cs) sep \<Longrightarrow> nearer (c # cs) sep (shift best) = shift (nearer cs sep best)"
  by (auto simp: nearer_def shift_def split: option.splits)

lemma nearer_keeps_0: "nearer b sep (Some (0, n)) = Some (0, n)"
  by (auto simp: nearer_def split: option.splits)

lemma nearer_hits: "HasPrefix (c # cs) sep \<Longrightarrow> nearer (c # cs) sep (shift best) = Some (0, length sep)"
  by (cases best) (auto simp: nearer_def shift_def)

lemma findSSEFrameEnd_scan: "findSSEFrameEnd b = frame_end b"
proof (induction b)
  case Nil
  show ?case by (simp add: findSSEFrameEnd_def frame_terminators_def nearer_def)
next
  case (Cons c cs)
  let ?b = "c # cs"
  have sh: "shift None = None" by (simp add: shift_def)
  have step: "fold (nearer ?b) ts (shift best) = shift (fold (nearer cs) ts best)"
    if "list_all (\<lambda>t. \<not> HasPrefix ?b t) ts" for ts best
    using that by (induction ts arbitrary: best) (simp_all add: nearer_shift)
  consider "HasPrefix ?b [cr, lf, cr, lf]" "\<not> HasPrefix ?b [lf, lf]" "\<not> HasPrefix ?b [cr, cr]"
    | "\<not> HasPrefix ?b [cr, lf, cr, lf]" "HasPrefix ?b [lf, lf]" "\<not> HasPrefix ?b [cr, cr]"
    | "\<not> HasPrefix ?b [cr, lf, cr, lf]" "\<not> HasPrefix ?b [lf, lf]" "HasPrefix ?b [cr, cr]"
    | "\<not> HasPrefix ?b [cr, lf, cr, lf]" "\<not> HasPrefix ?b [lf, lf]" "\<not> HasPrefix ?b [cr, cr]"
    by (cases cs) auto
  then show ?case
  proof cases
    case 1
    then show ?thesis
      using nearer_hits [OF 1(1), of None]
      by (simp add: findSSEFrameEnd_def frame_terminators_def sh nearer_keeps_0 del: HasPrefix_Cons)
  next
    case 2
    then show ?thesis
      using step [of "[[cr, lf, cr, lf]]" None] nearer_hits [OF 2(2)]
      by (simp add: findSSEFrameEnd_def frame_terminators_def sh nearer_keeps_0 del: HasPrefix_Cons)
  next
    case 3
    then show ?thesis
      using step [of "[[cr, lf, cr, lf], [lf, lf]]" None] nearer_hits [OF 3(3)]
      by (simp add: findSSEFrameEnd_def frame_terminators_def sh nearer_keeps_0 del: HasPrefix_Cons)
  next
    case 4
    have "findSSEFrameEnd ?b = map_option (\<lambda>(i, n). i + n) (shift (fold (nearer cs) frame_terminators None))"
      using step [of frame_terminators None] 4 by (simp add: findSSEFrameEnd_def sh frame_terminators_def del: HasPrefix_Cons)
    also have "\<dots> = map_option Suc (findSSEFrameEnd cs)"
      by (simp add: shift_def findSSEFrameEnd_def option.map_comp o_def split_beta)
    finally show ?thesis using 4 Cons.IH by (simp del: HasPrefix_Cons)
  qed
qed

lemma frame_end_append: "frame_end x = Some e \<Longrightarrow> frame_end (x @ y) = Some e"
proof (induction x arbitrary: e)
  case (Cons c x)
  consider "x = []" | a where "x = [a]" | a b where "x = [a, b]" | "3 \<le> length x"
    by (metis (no_types, opaque_lifting) One_nat_def Suc_1 Suc_le_mono length_Cons list.exhaust not_less_eq_eq numeral_3_eq_3 zero_le)
  then show ?case
  proof cases
    case 4
    then have "HasPrefix (c # x @ y) t \<longleftrightarrow> HasPrefix (c # x) t" if "length t \<le> 4" for t
      using HasPrefix_append_iff [of t "c # x" y] that by simp
    then show ?thesis using Cons by (auto simp del: HasPrefix_Cons split: if_splits)
  qed (use Cons.prems in \<open>auto split: if_splits\<close>)
qed simp

function frames :: "string \<Rightarrow> string list \<times> string" where
  "frames b = (case frame_end b of
     None \<Rightarrow> ([], b)
   | Some e \<Rightarrow> (case frames (drop e b) of (fs, rest) \<Rightarrow> (take e b # fs, rest)))"
  by pat_completeness auto
termination
  by (relation "measure length") (auto simp flip: findSSEFrameEnd_scan dest!: findSSEFrameEnd_bound)

declare frames.simps [simp del]

lemma frames_concat: "concat (fst (frames b)) @ snd (frames b) = b"
proof (induction b rule: frames.induct)
  case (1 b)
  show ?case
  proof (cases "frame_end b")
    case (Some e)
    then show ?thesis using 1 [OF Some] by (subst (1 2) frames.simps) (auto split: prod.splits)
  qed (simp add: frames.simps [of b])
qed

lemma frames_append:
  "frames (x @ y) = (case frames (snd (frames x) @ y) of (gs, rest) \<Rightarrow> (fst (frames x) @ gs, rest))"
proof (induction x rule: frames.induct)
  case (1 x)
  show ?case
  proof (cases "frame_end x")
    case None
    then show ?thesis by (simp add: frames.simps [of x])
  next
    case (Some e)
    have le: "e \<le> length x" using Some findSSEFrameEnd_bound by (auto simp flip: findSSEFrameEnd_scan)
    have "frames (x @ y) = (case frames (drop e x @ y) of (fs, rest) \<Rightarrow> (take e x # fs, rest))"
      using frame_end_append [OF Some, of y] le by (subst frames.simps) simp
    also have "\<dots> = (case frames (snd (frames (drop e x)) @ y) of (gs, rest) \<Rightarrow> (take e x # fst (frames (drop e x)) @ gs, rest))"
      using 1 [OF Some] by (simp split: prod.splits)
    also have "\<dots> = (case frames (snd (frames x) @ y) of (gs, rest) \<Rightarrow> (fst (frames x) @ gs, rest))"
      using Some by (simp add: frames.simps [of x] split: prod.splits)
    finally show ?thesis .
  qed
qed

text \<open>What is delivered of a stream when the writer below accepts everything.\<close>

definition delivered :: "bool \<Rightarrow> string list \<Rightarrow> string list" where
  "delivered strip fs = filter (\<lambda>f. \<not> (strip \<and> isUsageArtifact f)) fs"

lemma relay_loop_accepted:
  "relay_loop all_accepted n s =
     (s\<lparr>sr_pending := snd (frames (sr_pending s)),
        sr_dropped := (sr_dropped s \<or> sr_strip s \<and> list_ex isUsageArtifact (fst (frames (sr_pending s)))),
        sr_sent := sr_sent s @ delivered (sr_strip s) (fst (frames (sr_pending s)))\<rparr>, None)"
proof (induction "length (sr_pending s)" arbitrary: n s rule: less_induct)
  case less
  show ?case
  proof (cases "frame_end (sr_pending s)")
    case None
    then show ?thesis
      by (subst relay_loop.simps) (simp add: findSSEFrameEnd_scan frames.simps [of "sr_pending s"] delivered_def)
  next
    case (Some e)
    have "2 \<le> e" "e \<le> length (sr_pending s)" using Some findSSEFrameEnd_bound by (auto simp flip: findSSEFrameEnd_scan)
    then have IH: "sr_pending s' = drop e (sr_pending s) \<Longrightarrow> relay_loop all_accepted m s' =
     (s'\<lparr>sr_pending := snd (frames (sr_pending s')),
        sr_dropped := (sr_dropped s' \<or> sr_strip s' \<and> list_ex isUsageArtifact (fst (frames (sr_pending s')))),
        sr_sent := sr_sent s' @ delivered (sr_strip s') (fst (frames (sr_pending s')))\<rparr>, None)" for s' m
      by (intro less.hyps) auto
    show ?thesis
      using Some
      by (subst relay_loop.simps, cases "sr_strip s"; cases "isUsageArtifact (take e (sr_pending s))")
        (simp_all add: findSSEFrameEnd_scan Let_def IH send_frame_def all_accepted_def [THEN fun_cong] frames.simps [of "sr_pending s"]
          delivered_def split: prod.split)
  qed
qed

fun relay_writes :: "downstream \<Rightarrow> string list \<Rightarrow> sseRelay \<Rightarrow> sseRelay" where
  "relay_writes down [] s = s"
| "relay_writes down (d # ds) s = relay_writes down ds (fst (relay_Write down d s))"

lemma frames_rest: "frame_end (snd (frames b)) = None"
proof (induction b rule: frames.induct)
  case (1 b)
  then show ?case by (cases "frame_end b") (auto simp: frames.simps [of b] split: prod.splits)
qed

lemma relay_writes_accepted:
  assumes "\<not> sr_raw s"
  shows "frame_end (sr_pending s) = None \<Longrightarrow>
     sr_pending (relay_writes all_accepted ds s) = snd (frames (sr_pending s @ concat ds)) \<and>
     sr_sent (relay_writes all_accepted ds s) = sr_sent s @ delivered (sr_strip s) (fst (frames (sr_pending s @ concat ds)))"
  using assms
proof (induction ds arbitrary: s)
  case Nil
  then show ?case by (simp add: frames.simps [of "sr_pending s"] delivered_def)
next
  case (Cons d ds)
  let ?s = "fst (relay_Write all_accepted d s)" and ?x = "sr_pending s @ d"
  have s': "sr_pending ?s = snd (frames ?x)" "sr_sent ?s = sr_sent s @ delivered (sr_strip s) (fst (frames ?x))"
    "sr_strip ?s = sr_strip s" "sr_raw ?s = sr_raw s"
    using Cons.prems(2) by (simp_all add: relay_Write_def relay_loop_accepted)
  have "frame_end (sr_pending ?s) = None" by (simp add: s' frames_rest)
  then show ?case
    using Cons.IH [of ?s] Cons.prems(2) frames_append [of ?x "concat ds"]
    by (simp add: s' delivered_def split: prod.splits)
qed

lemma relay_delivers:
  "sr_sent (relay_finish all_accepted (relay_writes all_accepted chunks (newSSERelay strip))) =
     delivered strip (fst (frames (concat chunks))) @ filter (\<lambda>f. f \<noteq> []) [snd (frames (concat chunks))]"
  using relay_writes_accepted [of "newSSERelay strip" chunks]
  by (simp add: newSSERelay_def relay_finish_def send_frame_def all_accepted_def)

text \<open>
  A streamed response reaches the client in the same writes however the network cut it
  into reads: one write per complete event and one for an unterminated tail. Without
  stripping the bytes are the backend's, none lost, reordered or repeated; with stripping
  exactly the events that carry nothing but injected usage are missing.
\<close>
theorem relay_chunking_irrelevant:
  "let out = (\<lambda>strip cs. sr_sent (relay_finish all_accepted (relay_writes all_accepted cs (newSSERelay strip)))) in
   out strip chunks = out strip [concat chunks] \<and>
   concat (out False chunks) = concat chunks \<and>
   out False chunks = fst (frames (concat chunks)) @ filter (\<lambda>f. f \<noteq> []) [snd (frames (concat chunks))] \<and>
   out True chunks = filter (\<lambda>f. \<not> isUsageArtifact f) (fst (frames (concat chunks)))
                       @ filter (\<lambda>f. f \<noteq> []) [snd (frames (concat chunks))]"
proof -
  have "concat (fst (frames b)) @ concat (filter (\<lambda>f. f \<noteq> []) [snd (frames b)]) = b" for b
    using frames_concat [of b] by (cases "snd (frames b) = []") simp_all
  then show ?thesis by (simp add: Let_def relay_delivers delivered_def del: filter.simps)
qed

subsection \<open>Loop detection\<close>

definition sse_piece :: "string \<Rightarrow> string list" where
  "sse_piece l0 =
     (let l1 = TrimPrefix l0 '' '';
          l2 = (case Index l1 [lf] of Some nl \<Rightarrow> take nl l1 | None \<Rightarrow> l1)
      in if length l1 < 2 \<or> l2 = ''[DONE]'' \<or> length l2 < 2 \<or> \<not> HasPrefix l2 ''{'' then []
         else case UnmarshalMap l2 of
           None \<Rightarrow> []
         | Some obj \<Rightarrow>
             let choice = (case any_array (any_get obj ''choices'') of
                   Some (c # _) \<Rightarrow> (case any_object c of
                     Some choice \<Rightarrow> (case any_object (any_get choice ''delta'') of
                        Some delta \<Rightarrow> any_string (any_get delta ''content'') | None \<Rightarrow> None)
                   | None \<Rightarrow> None)
                 | _ \<Rightarrow> None);
                 block = (case any_object (any_get obj ''delta'') of
                   Some delta \<Rightarrow> any_string (any_get delta ''text'') | None \<Rightarrow> None)
             in filter (\<lambda>c. c \<noteq> []) (List.map_filter id [choice, block]))"

definition extractSSEContents :: "string \<Rightarrow> string list" where
  "extractSSEContents data = concat (map sse_piece (Split data ''data:''))"

definition extractModelFromJSON :: "string \<Rightarrow> string" where
  "extractModelFromJSON data = (case UnmarshalMap data of
     None \<Rightarrow> [] | Some obj \<Rightarrow> (case any_string (any_get obj ''model'') of Some m \<Rightarrow> m | None \<Rightarrow> []))"

definition extractModelFromData :: "string \<Rightarrow> string" where
  "extractModelFromData data =
     (case find (\<lambda>m. m \<noteq> []) (map extractModelFromJSON (forEachDataLine data)) of
        Some m \<Rightarrow> m
      | None \<Rightarrow> extractModelFromJSON data)"

definition loopDetectionWindow :: nat where "loopDetectionWindow = 20"

record loopDetector =
  ld_anthropic :: bool
  ld_recent :: "string list"
  ld_index :: nat
  ld_count :: nat
  ld_detected :: bool
  ld_written :: bool
  ld_capturedModel :: string
  ld_sent :: "string list"

definition newLoopDetector :: "bool \<Rightarrow> loopDetector" where
  "newLoopDetector anthropic =
     \<lparr>ld_anthropic = anthropic, ld_recent = replicate loopDetectionWindow [], ld_index = 0, ld_count = 0,
      ld_detected = False, ld_written = False, ld_capturedModel = [], ld_sent = []\<rparr>"

definition allRecentIdentical :: "string list \<Rightarrow> bool" where
  "allRecentIdentical recent \<longleftrightarrow> recent ! 0 \<noteq> [] \<and> (\<forall>i \<in> {1..<loopDetectionWindow}. recent ! i = recent ! 0)"

definition json_quoted :: "string \<Rightarrow> string" where
  "json_quoted s = [CHR 0x22] @ s @ [CHR 0x22]"

definition loop_event :: "bool \<Rightarrow> string" where
  "loop_event anthropic =
     (let message = json_quoted ''Generation stopped: model appears to be stuck in a loop.'' in
      if anthropic then
        ''event: error'' @ [lf] @ ''data: {'' @ json_quoted ''type'' @ '':'' @ json_quoted ''error'' @ '','' @
        json_quoted ''error'' @ '':{'' @ json_quoted ''type'' @ '':'' @ json_quoted ''api_error'' @ '','' @
        json_quoted ''message'' @ '':'' @ message @ ''}}'' @ [lf, lf]
      else
        ''data: {'' @ json_quoted ''choices'' @ '':[{'' @ json_quoted ''finish_reason'' @ '':'' @ json_quoted ''error'' @
        '','' @ json_quoted ''delta'' @ '':{'' @ json_quoted ''content'' @ '':'' @ message @ ''}}]}'' @ [lf, lf])"

text \<open>
  One content: kept in the ring; the answer is whether the detector trips. On tripping the
  error event goes to the writer below, with status 500 if no header was written yet.
\<close>

definition push_content :: "string \<Rightarrow> loopDetector \<Rightarrow> loopDetector \<times> bool" where
  "push_content content d =
     (let d1 = d\<lparr>ld_recent := (ld_recent d)[ld_index d mod loopDetectionWindow := take 1024 content],
                 ld_index := ld_index d + 1, ld_count := ld_count d + 1\<rparr>
      in if ld_count d1 \<ge> loopDetectionWindow \<and> allRecentIdentical (ld_recent d1)
         then (d1\<lparr>ld_detected := True, ld_written := True, ld_sent := ld_sent d1 @ [loop_event (ld_anthropic d1)]\<rparr>, True)
         else (d1, False))"

fun push_contents :: "string list \<Rightarrow> loopDetector \<Rightarrow> loopDetector \<times> bool" where
  "push_contents [] d = (d, False)"
| "push_contents (c # cs) d =
     (if c = [] then push_contents cs d
      else case push_content c d of (d1, tripped) \<Rightarrow> if tripped then (d1, True) else push_contents cs d1)"

text \<open>A write: the new state and whether the stream goes on.\<close>

definition detector_Write :: "string \<Rightarrow> loopDetector \<Rightarrow> loopDetector \<times> bool" where
  "detector_Write data d =
     (if ld_detected d then (d, False)
      else let d1 = (if ld_capturedModel d = [] then d\<lparr>ld_capturedModel := extractModelFromData data\<rparr> else d)
           in case push_contents (extractSSEContents data) d1 of
                (d2, tripped) \<Rightarrow> if tripped then (d2, False) else (d2\<lparr>ld_sent := ld_sent d2 @ [data]\<rparr>, True))"

text \<open>A list of contents in which some twenty consecutive ones are equal.\<close>

definition stuck :: "string list \<Rightarrow> bool" where
  "stuck cs \<longleftrightarrow> (\<exists>xs c ys. cs = xs @ replicate loopDetectionWindow c @ ys)"

lemma window_pos [simp]: "0 < loopDetectionWindow" "loopDetectionWindow \<noteq> 0"
  by (simp_all add: loopDetectionWindow_def)

lemma stuck_append: "stuck cs \<Longrightarrow> stuck (cs @ ds)"
  by (auto simp: stuck_def) (metis append.assoc)

lemma stuck_snoc:
  assumes "\<not> stuck cs"
  shows "stuck (cs @ [c]) \<longleftrightarrow> (\<exists>xs x. cs @ [c] = xs @ replicate loopDetectionWindow x)"
proof
  assume "stuck (cs @ [c])"
  then obtain xs x ys where e: "cs @ [c] = xs @ replicate loopDetectionWindow x @ ys" by (auto simp: stuck_def)
  show "\<exists>xs x. cs @ [c] = xs @ replicate loopDetectionWindow x"
  proof (cases ys rule: rev_cases)
    case Nil
    then show ?thesis using e by auto
  next
    case (snoc zs z)
    then have "cs = xs @ replicate loopDetectionWindow x @ zs" using e by (simp flip: append_assoc)
    then have False using assms unfolding stuck_def by blast
    then show ?thesis ..
  qed
qed (metis append_Nil2 stuck_def)

lemma ends_replicate:
  assumes "n \<le> length ys"
  shows "(\<exists>xs x. ys = xs @ replicate n x) \<longleftrightarrow> (\<exists>x. last_n n ys = replicate n x)"
proof
  assume "\<exists>x. last_n n ys = replicate n x"
  then show "\<exists>xs x. ys = xs @ replicate n x" by (metis append_take_drop_id last_n_def)
qed (auto simp: last_n_def)

definition recent_ring :: "loopDetector \<Rightarrow> string ring" where
  "recent_ring d = \<lparr>r_slots = ld_recent d, r_idx = ld_index d mod loopDetectionWindow,
     r_count = min (ld_count d) loopDetectionWindow, r_max = loopDetectionWindow\<rparr>"

definition watching :: "string list \<Rightarrow> loopDetector \<Rightarrow> bool" where
  "watching h d \<longleftrightarrow> \<not> ld_detected d \<and> ld_index d = length h \<and> ld_count d = length h \<and>
     recent_ring d = fold ring_add h (ring_new [] loopDetectionWindow) \<and> [] \<notin> set h"

lemma new_watching: "watching [] (newLoopDetector a)"
  by (simp add: watching_def newLoopDetector_def recent_ring_def ring_new_def)

lemma ring_fold_inv: "ring_inv r \<Longrightarrow> ring_inv (fold ring_add h r)"
  by (induction h arbitrary: r) (simp_all add: ring_add_inv)

lemma identical_iff:
  assumes "length slots = loopDetectionWindow" "[] \<notin> set slots"
  shows "allRecentIdentical slots \<longleftrightarrow> (\<exists>x. set slots = {x})"
proof
  assume "allRecentIdentical slots"
  then have eq: "slots ! i = slots ! 0" if "i < loopDetectionWindow" for i
    using that by (cases i) (auto simp: allRecentIdentical_def)
  have "set slots \<subseteq> {slots ! 0}"
  proof
    fix y
    assume "y \<in> set slots"
    then obtain i where "i < loopDetectionWindow" "y = slots ! i" using assms(1) by (auto simp: in_set_conv_nth)
    then show "y \<in> {slots ! 0}" using eq [of i] by blast
  qed
  moreover have "slots ! 0 \<in> set slots" using assms(1) by (intro nth_mem) simp
  ultimately have "set slots = {slots ! 0}" by blast
  then show "\<exists>x. set slots = {x}" by blast
next
  assume "\<exists>x. set slots = {x}"
  then obtain x where x: "set slots = {x}" by blast
  have "slots ! i = x" if "i < loopDetectionWindow" for i using nth_mem [of i slots] that x assms(1) by simp
  moreover have "x \<noteq> []" using x assms(2) by auto
  ultimately show "allRecentIdentical slots" by (simp add: allRecentIdentical_def)
qed

lemma replicate_set_iff: "0 < length xs \<Longrightarrow> (\<exists>x. xs = replicate (length xs) x) \<longleftrightarrow> (\<exists>x. set xs = {x})"
  by (metis empty_set length_greater_0_conv replicate_length_same set_empty set_replicate singleton_iff length_0_conv less_numeral_extra(3))

lemma watched_ring:
  assumes "watching h d" "loopDetectionWindow \<le> length h"
  shows "allRecentIdentical (ld_recent d) \<longleftrightarrow> (\<exists>xs x. h = xs @ replicate loopDetectionWindow x)"
proof -
  let ?r = "recent_ring d" and ?w = "last_n loopDetectionWindow h"
  have inv: "ring_inv ?r" using assms(1) by (simp add: watching_def ring_fold_inv ring_new_inv)
  have l: "ring_list ?r = ?w" using assms(1) ring_run [OF window_pos(1), of h "[]"] by (simp add: watching_def)
  have sel: "r_slots ?r = ld_recent d" "r_max ?r = loopDetectionWindow" by (simp_all add: recent_ring_def)
  have "r_count ?r = loopDetectionWindow" using assms by (simp add: recent_ring_def watching_def)
  then have "?w = drop (r_idx ?r) (ld_recent d) @ take (r_idx ?r) (ld_recent d)"
    using l sel by (simp add: ring_list_def)
  then have w: "set ?w = set (ld_recent d)" by (metis append_take_drop_id set_append sup_commute)
  have len: "length (ld_recent d) = loopDetectionWindow" "length ?w = loopDetectionWindow"
    using inv assms(2) by (simp_all add: ring_inv_def recent_ring_def)
  have ne: "[] \<notin> set (ld_recent d)"
    using assms(1) w set_drop_subset [of _ h] by (auto simp: watching_def last_n_def simp flip: w)
  have "allRecentIdentical (ld_recent d) \<longleftrightarrow> (\<exists>x. set ?w = {x})" using identical_iff [OF len(1) ne] w by simp
  also have "\<dots> \<longleftrightarrow> (\<exists>x. ?w = replicate loopDetectionWindow x)" using replicate_set_iff [of ?w, unfolded len(2), OF window_pos(1)] by blast
  also have "\<dots> \<longleftrightarrow> (\<exists>xs x. h = xs @ replicate loopDetectionWindow x)" using ends_replicate [OF assms(2)] by simp
  finally show ?thesis .
qed

lemma push_content_step:
  assumes "watching h d" "\<not> stuck h" "c \<noteq> []"
  shows "if stuck (h @ [take 1024 c])
         then \<exists>d'. push_content c d = (d', True) \<and> ld_detected d' \<and> ld_sent d' = ld_sent d @ [loop_event (ld_anthropic d)]
         else \<exists>d'. push_content c d = (d', False) \<and> watching (h @ [take 1024 c]) d' \<and> ld_sent d' = ld_sent d \<and>
                ld_anthropic d' = ld_anthropic d"
proof -
  let ?c = "take 1024 c" and ?h = "h @ [take 1024 c]"
  define d1 where "d1 = d\<lparr>ld_recent := (ld_recent d)[ld_index d mod loopDetectionWindow := ?c],
                 ld_index := ld_index d + 1, ld_count := ld_count d + 1\<rparr>"
  have "recent_ring d1 = ring_add ?c (recent_ring d)"
    by (auto simp: recent_ring_def d1_def ring_add_def mod_Suc_eq)
  then have w: "watching ?h d1" using assms(1,3) by (simp add: watching_def d1_def)
  have trip: "ld_count d1 \<ge> loopDetectionWindow \<and> allRecentIdentical (ld_recent d1) \<longleftrightarrow> stuck ?h"
  proof (cases "loopDetectionWindow \<le> length ?h")
    case True
    then show ?thesis using watched_ring [OF w True] stuck_snoc [OF assms(2)] w by (simp add: watching_def)
  next
    case False
    then have "\<not> stuck ?h" by (auto simp: stuck_def dest!: arg_cong [of _ _ length])
    then show ?thesis using False w by (simp add: watching_def)
  qed
  have p: "push_content c d = (if stuck ?h
      then (d1\<lparr>ld_detected := True, ld_written := True, ld_sent := ld_sent d1 @ [loop_event (ld_anthropic d1)]\<rparr>, True)
      else (d1, False))"
    unfolding push_content_def Let_def d1_def [symmetric] trip by (rule refl)
  show ?thesis using w by (simp add: p d1_def)
qed

lemma push_contents_step:
  assumes "watching h d" "\<not> stuck h" "[] \<notin> set cs"
  shows "if stuck (h @ map (take 1024) cs)
         then \<exists>d'. push_contents cs d = (d', True) \<and> ld_detected d' \<and> ld_sent d' = ld_sent d @ [loop_event (ld_anthropic d)]
         else \<exists>d'. push_contents cs d = (d', False) \<and> watching (h @ map (take 1024) cs) d' \<and> ld_sent d' = ld_sent d \<and>
                ld_anthropic d' = ld_anthropic d"
  using assms
proof (induction cs arbitrary: h d)
  case (Cons c cs)
  show ?case
  proof (cases "stuck (h @ [take 1024 c])")
    case True
    then show ?thesis
      using push_content_step [OF Cons.prems(1,2), of c] Cons.prems(3) stuck_append [OF True, of "map (take 1024) cs"] by auto
  next
    case False
    then obtain d' where d': "push_content c d = (d', False)" "watching (h @ [take 1024 c]) d'" "ld_sent d' = ld_sent d"
        "ld_anthropic d' = ld_anthropic d"
      using push_content_step [OF Cons.prems(1,2), of c] Cons.prems(3) by auto
    then show ?thesis using Cons.IH [OF d'(2) False] Cons.prems(3) by (simp split: if_splits)
  qed
qed simp

lemma contents_nonempty: "[] \<notin> set (extractSSEContents data)"
  by (auto simp: extractSSEContents_def sse_piece_def Let_def split: option.splits if_splits)

fun detector_run :: "string list \<Rightarrow> loopDetector \<Rightarrow> loopDetector" where
  "detector_run [] d = d"
| "detector_run (x # xs) d = detector_run xs (fst (detector_Write x d))"

abbreviation contents_of :: "string list \<Rightarrow> string list" where
  "contents_of ds \<equiv> map (take 1024) (concat (map extractSSEContents ds))"

lemma detected_stays: "ld_detected d \<Longrightarrow> detector_run ds d = d"
  by (induction ds) (simp_all add: detector_Write_def)

lemma watching_frame [simp]:
  "watching h (d\<lparr>ld_capturedModel := m\<rparr>) = watching h d" "watching h (d\<lparr>ld_sent := x\<rparr>) = watching h d"
  by (simp_all add: watching_def recent_ring_def)

lemma detector_Write_step:
  assumes "watching h d" "\<not> stuck h"
  shows "if stuck (h @ contents_of [x])
         then ld_detected (fst (detector_Write x d)) \<and>
              ld_sent (fst (detector_Write x d)) = ld_sent d @ [loop_event (ld_anthropic d)]
         else watching (h @ contents_of [x]) (fst (detector_Write x d)) \<and>
              ld_sent (fst (detector_Write x d)) = ld_sent d @ [x] \<and>
              ld_anthropic (fst (detector_Write x d)) = ld_anthropic d"
proof -
  define d1 where "d1 = (if ld_capturedModel d = [] then d\<lparr>ld_capturedModel := extractModelFromData x\<rparr> else d)"
  have d1: "watching h d1" "ld_sent d1 = ld_sent d" "ld_anthropic d1 = ld_anthropic d"
    using assms(1) by (simp_all add: d1_def)
  have "\<not> ld_detected d" using assms(1) by (simp add: watching_def)
  then have "detector_Write x d = (case push_contents (extractSSEContents x) d1 of
      (d2, tripped) \<Rightarrow> if tripped then (d2, False) else (d2\<lparr>ld_sent := ld_sent d2 @ [x]\<rparr>, True))"
    by (simp add: detector_Write_def Let_def d1_def)
  then show ?thesis
    using push_contents_step [OF d1(1) assms(2) contents_nonempty [of x]] d1(2,3) by (auto split: if_splits)
qed

lemma detector_run_spec:
  assumes "watching h d" "\<not> stuck h"
  shows "if stuck (h @ contents_of ds)
         then ld_detected (detector_run ds d) \<and>
              (\<exists>k < length ds. ld_sent (detector_run ds d) = ld_sent d @ take k ds @ [loop_event (ld_anthropic d)])
         else \<not> ld_detected (detector_run ds d) \<and> ld_sent (detector_run ds d) = ld_sent d @ ds"
  using assms
proof (induction ds arbitrary: h d)
  case (Cons x xs)
  let ?d = "fst (detector_Write x d)"
  show ?case
  proof (cases "stuck (h @ contents_of [x])")
    case True
    then have "stuck (h @ contents_of (x # xs))" using stuck_append [OF True, of "contents_of xs"] by simp
    moreover have "ld_detected ?d" "ld_sent ?d = ld_sent d @ [loop_event (ld_anthropic d)]"
      using detector_Write_step [OF Cons.prems, of x] True by simp_all
    ultimately show ?thesis by (auto simp: detected_stays intro!: exI [of _ 0])
  next
    case False
    then have d: "watching (h @ contents_of [x]) ?d" "ld_sent ?d = ld_sent d @ [x]" "ld_anthropic ?d = ld_anthropic d"
      using detector_Write_step [OF Cons.prems, of x] by simp_all
    show ?thesis
      using Cons.IH [OF d(1) False] d(2,3) by (force split: if_splits intro: exI [of _ "Suc k" for k])
  qed
qed (simp add: watching_def)

text \<open>
  C39: A stream is cut for looping exactly when some twenty consecutive text contents in it
  (compared on their first 1024 bytes) are equal, however the contents are spread over
  writes. Until then every write is passed on unchanged, a stream without such a run is
  passed on whole, and a stream that is cut ends with one error event in the client's dialect.
\<close>
theorem loop_detection_exact:
  "let d = detector_run ds (newLoopDetector anthropic) in
   if stuck (map (take 1024) (concat (map extractSSEContents ds)))
   then ld_detected d \<and> (\<exists>k < length ds. ld_sent d = take k ds @ [loop_event anthropic])
   else \<not> ld_detected d \<and> ld_sent d = ds"
proof -
  have new_fields: "ld_sent (newLoopDetector anthropic) = []" "ld_anthropic (newLoopDetector anthropic) = anthropic"
    by (simp_all add: newLoopDetector_def)
  have "\<not> stuck []" by (simp add: stuck_def)
  then show ?thesis
    using detector_run_spec [OF new_watching, of ds anthropic] by (simp add: Let_def new_fields split: if_splits)
qed

subsection \<open>Translation on the way to the client\<close>

text \<open>
  \<open>StreamTranslator\<close>: the operations of a response translator on its own state.
\<close>

record 't stream_translator =
  st_WriteFrame :: "string \<Rightarrow> 't \<Rightarrow> string list \<times> 't"
  st_FinishFrames :: "'t \<Rightarrow> string list \<times> 't"
  st_TranslateJSON :: "string \<Rightarrow> 't \<Rightarrow> string option \<times> 't"

record 't translateWriter =
  tw_tr :: 't
  tw_json :: bool
  tw_jsonBuf :: string
  tw_pass :: bool
  tw_sent :: "string list"

definition MaxTranslatedBody :: nat where "MaxTranslatedBody = 8 * 2 ^ 20"

definition newTranslateWriter :: "'t \<Rightarrow> 't translateWriter" where
  "newTranslateWriter tr = \<lparr>tw_tr = tr, tw_json = False, tw_jsonBuf = [], tw_pass = False, tw_sent = []\<rparr>"

definition setJSON :: "bool \<Rightarrow> 't translateWriter \<Rightarrow> 't translateWriter" where
  "setJSON on t = t\<lparr>tw_json := on\<rparr>"

definition write_below :: "downstream \<Rightarrow> string \<Rightarrow> 't translateWriter \<Rightarrow> 't translateWriter \<times> bool" where
  "write_below down b t = (case down (length (tw_sent t)) of
     None \<Rightarrow> (t\<lparr>tw_sent := tw_sent t @ [b]\<rparr>, True)
   | Some n \<Rightarrow> (t\<lparr>tw_sent := tw_sent t @ [take n b]\<rparr>, False))"

text \<open>A run of frames, up to the first the writer below refuses.\<close>

fun write_frames :: "downstream \<Rightarrow> string list \<Rightarrow> 't translateWriter \<Rightarrow> 't translateWriter \<times> bool" where
  "write_frames down [] t = (t, True)"
| "write_frames down (f # fs) t =
     (case write_below down f t of (t1, ok) \<Rightarrow> if ok then write_frames down fs t1 else (t1, False))"

definition passthrough :: "downstream \<Rightarrow> 't translateWriter \<Rightarrow> 't translateWriter" where
  "passthrough down t =
     (let t1 = t\<lparr>tw_pass := True, tw_jsonBuf := []\<rparr>
      in if tw_jsonBuf t \<noteq> [] then fst (write_below down (tw_jsonBuf t) t1) else t1)"

definition translate_Write ::
  "'t stream_translator \<Rightarrow> downstream \<Rightarrow> string \<Rightarrow> 't translateWriter \<Rightarrow> 't translateWriter \<times> bool" where
  "translate_Write ops down data t =
     (if tw_pass t then write_below down data t
      else if \<not> tw_json t then
        (case st_WriteFrame ops data (tw_tr t) of (fs, tr) \<Rightarrow> write_frames down fs (t\<lparr>tw_tr := tr\<rparr>))
      else if length (tw_jsonBuf t) + length data > MaxTranslatedBody then
        write_below down (tw_jsonBuf t @ data) (t\<lparr>tw_pass := True, tw_jsonBuf := []\<rparr>)
      else (t\<lparr>tw_jsonBuf := tw_jsonBuf t @ data\<rparr>, True))"

text \<open>At the end every remaining frame is tried, whatever the writer below answers.\<close>

definition translate_finish :: "'t stream_translator \<Rightarrow> downstream \<Rightarrow> 't translateWriter \<Rightarrow> 't translateWriter" where
  "translate_finish ops down t =
     (if tw_pass t then t
      else if \<not> tw_json t then
        (case st_FinishFrames ops (tw_tr t) of
           (fs, tr) \<Rightarrow> fold (\<lambda>f t. fst (write_below down f t)) fs (t\<lparr>tw_tr := tr\<rparr>))
      else if tw_jsonBuf t = [] then t
      else case st_TranslateJSON ops (tw_jsonBuf t) (tw_tr t) of
             (res, tr) \<Rightarrow> fst (write_below down (case res of Some b \<Rightarrow> b | None \<Rightarrow> tw_jsonBuf t)
                                  (t\<lparr>tw_tr := tr, tw_jsonBuf := []\<rparr>)))"

fun translate_writes :: "'t stream_translator \<Rightarrow> downstream \<Rightarrow> string list \<Rightarrow> 't translateWriter \<Rightarrow> 't translateWriter" where
  "translate_writes ops down [] t = t"
| "translate_writes ops down (d # ds) t = translate_writes ops down ds (fst (translate_Write ops down d t))"

lemma translate_passed:
  assumes "tw_pass t"
  shows "tw_sent (translate_writes ops all_accepted ds t) = tw_sent t @ ds \<and> tw_pass (translate_writes ops all_accepted ds t)"
  using assms
  by (induction ds arbitrary: t) (simp_all add: translate_Write_def write_below_def all_accepted_def)

lemma translate_buffers:
  assumes "tw_json t" "\<not> tw_pass t" "length (tw_jsonBuf t) \<le> MaxTranslatedBody"
  shows "if length (tw_jsonBuf t @ concat ds) \<le> MaxTranslatedBody
         then translate_writes ops all_accepted ds t = t\<lparr>tw_jsonBuf := tw_jsonBuf t @ concat ds\<rparr>
         else tw_pass (translate_writes ops all_accepted ds t) \<and>
              concat (tw_sent (translate_writes ops all_accepted ds t)) = concat (tw_sent t) @ tw_jsonBuf t @ concat ds"
  using assms
proof (induction ds arbitrary: t)
  case (Cons d ds)
  show ?case
  proof (cases "length (tw_jsonBuf t) + length d \<le> MaxTranslatedBody")
    case True
    let ?t = "t\<lparr>tw_jsonBuf := tw_jsonBuf t @ d\<rparr>"
    have "fst (translate_Write ops all_accepted d t) = ?t" using Cons.prems True by (simp add: translate_Write_def)
    then show ?thesis using Cons.IH [of ?t] Cons.prems True by (simp split: if_splits)
  next
    case False
    then have "fst (translate_Write ops all_accepted d t) =
        t\<lparr>tw_pass := True, tw_jsonBuf := [], tw_sent := tw_sent t @ [tw_jsonBuf t @ d]\<rparr>"
      using Cons.prems by (simp add: translate_Write_def write_below_def all_accepted_def)
    then show ?thesis using False translate_passed [of "fst (translate_Write ops all_accepted d t)" ops ds] by simp
  qed
qed simp

text \<open>
  A JSON answer is translated as one body or not at all: whatever the reads, an answer of
  at most 8 MiB reaches the client as the translation of the whole body (or as the body
  itself where it can not be translated), and a longer one byte for byte as the backend sent it.
\<close>
theorem json_answer_translated_whole:
  "let body = concat chunks;
       out = concat (tw_sent (translate_finish ops all_accepted
               (translate_writes ops all_accepted chunks (setJSON True (newTranslateWriter tr)))))
   in out = (if length body \<le> MaxTranslatedBody \<and> body \<noteq> []
             then (case fst (st_TranslateJSON ops body tr) of Some b \<Rightarrow> b | None \<Rightarrow> body)
             else body)"
proof -
  let ?t = "setJSON True (newTranslateWriter tr)"
  have t: "tw_json ?t" "\<not> tw_pass ?t" "tw_jsonBuf ?t = []" "tw_sent ?t = []" "tw_tr ?t = tr"
    by (simp_all add: setJSON_def newTranslateWriter_def)
  note run = translate_buffers [of ?t chunks ops, unfolded t(3,4)]
  show ?thesis
  proof (cases "length (concat chunks) \<le> MaxTranslatedBody")
    case True
    then show ?thesis
      using run t by (auto simp: Let_def translate_finish_def write_below_def all_accepted_def split: prod.splits option.splits)
  next
    case False
    then show ?thesis using run t by (simp add: Let_def translate_finish_def)
  qed
qed

end
