(* ===== verification/JsonPrint.thy ===== *)
theory JsonPrint
  imports JsonAny JevText
begin

text \<open>
  \<open>json.Marshal\<close> of a decoded \<open>map[string]any\<close> and the two request rewrites built on it:
  \<open>RewriteModelInBody\<close> of \<open>src/proxy/proxy.go\<close> and \<open>EnsureStreamUsage\<close> of
  \<open>src/proxy/streamusage.go\<close>. How a number's \<open>float64\<close> is rendered is the argument
  \<open>fnum\<close> (from the literal it was decoded from); everything else Marshal does is here: keys
  in byte order, the last duplicate of a key, HTML-safe escapes, U+FFFD for invalid bytes.
\<close>

definition hex_low :: "nat \<Rightarrow> char" where
  "hex_low n = hex_digit n"

definition u00 :: "nat \<Rightarrow> string" where
  "u00 b = [CHR 0x5C, CHR ''u'', CHR ''0'', CHR ''0'', hex_low (b div 16), hex_low (b mod 16)]"

definition marshal_ascii :: "char \<Rightarrow> string" where
  "marshal_ascii c =
     (if c = CHR 0x22 then [CHR 0x5C, CHR 0x22]
      else if c = CHR 0x5C then [CHR 0x5C, CHR 0x5C]
      else if c = CHR 0x08 then [CHR 0x5C, CHR ''b'']
      else if c = CHR 0x0C then [CHR 0x5C, CHR ''f'']
      else if c = CHR 0x0A then [CHR 0x5C, CHR ''n'']
      else if c = CHR 0x0D then [CHR 0x5C, CHR ''r'']
      else if c = CHR 0x09 then [CHR 0x5C, CHR ''t'']
      else if byte_of c < 0x20 \<or> c = CHR ''<'' \<or> c = CHR ''>'' \<or> c = CHR ''&'' then u00 (byte_of c)
      else [c])"

definition line_separators :: "string list" where
  "line_separators = [[CHR 0xE2, CHR 0x80, CHR 0xA8], [CHR 0xE2, CHR 0x80, CHR 0xA9]]"

definition marshal_rune :: "string \<Rightarrow> string" where
  "marshal_rune r =
     (if r = line_separators ! 0 then CHR 0x5C # ''u2028''
      else if r = line_separators ! 1 then CHR 0x5C # ''u2029''
      else if length r = 1 then marshal_ascii (hd r)
      else r)"

function marshal_chars :: "string \<Rightarrow> string" where
  "marshal_chars s =
     (if s = [] then []
      else if rune_size s = 0 then CHR 0x5C # ''ufffd'' @ marshal_chars (tl s)
      else marshal_rune (take (rune_size s) s) @ marshal_chars (drop (rune_size s) s))"
  by pat_completeness auto
termination
  by (relation "measure length") auto

declare marshal_chars.simps [simp del]

definition marshal_string :: "string \<Rightarrow> string" where
  "marshal_string s = [CHR 0x22] @ marshal_chars s @ [CHR 0x22]"

text \<open>The entries of a Go map in key order, from members in which a later one overwrites.\<close>

definition map_entries :: "(string \<times> 'a) list \<Rightarrow> (string \<times> 'a) list" where
  "map_entries kvs = map (\<lambda>k. (k, the (map_of (rev kvs) k))) (sort (remdups (map fst kvs)))"

fun Marshal :: "(string \<Rightarrow> string) \<Rightarrow> json \<Rightarrow> string" where
  "Marshal fnum JNull = ''null''"
| "Marshal fnum (JBool b) = (if b then ''true'' else ''false'')"
| "Marshal fnum (JNum n) = fnum n"
| "Marshal fnum (JStr s) = marshal_string s"
| "Marshal fnum (JArr vs) = ''['' @ Join (map (Marshal fnum) vs) '','' @ '']''"
| "Marshal fnum (JObj kvs) =
     ''{'' @ Join (map (\<lambda>(k, t). marshal_string k @ '':'' @ t)
                    (map_entries (map (\<lambda>kv. (fst kv, Marshal fnum (snd kv))) kvs))) '','' @ ''}''"

text \<open>Assigning to a key of a decoded map.\<close>

definition any_put :: "string \<Rightarrow> json \<Rightarrow> any_map \<Rightarrow> any_map" where
  "any_put k v m = m @ [(k, v)]"

datatype rewrite_error = UnmarshalBody | NilMapWrite

text \<open>A body \<open>null\<close> decodes without an error into a nil map, and writing to a nil map panics.\<close>

definition RewriteModelInBody :: "(string \<Rightarrow> string) \<Rightarrow> string \<Rightarrow> string \<Rightarrow> rewrite_error + string" where
  "RewriteModelInBody fnum body newModel = (case UnmarshalMap body of
     None \<Rightarrow> Inl UnmarshalBody
   | Some obj \<Rightarrow>
       if Unmarshal body = Some JNull then Inl NilMapWrite
       else Inr (Marshal fnum (JObj (any_put ''model'' (JStr newModel) obj))))"

definition EnsureStreamUsage :: "(string \<Rightarrow> string) \<Rightarrow> string \<Rightarrow> bool \<Rightarrow> string \<times> bool" where
  "EnsureStreamUsage fnum body alwaysInclude = (case UnmarshalMap body of
     None \<Rightarrow> (body, False)
   | Some obj \<Rightarrow>
       if any_get obj ''stream'' \<noteq> JBool True then (body, False)
       else let so = getField obj ''stream_options'';
                opts = (case so of Some m \<Rightarrow> m | None \<Rightarrow> [])
            in if any_get opts ''include_usage'' = JBool True then (body, False)
               else (Marshal fnum (JObj (any_put ''stream_options''
                       (JObj (any_put ''include_usage'' (JBool True) opts)) obj)), \<not> alwaysInclude))"

lemma Marshal_example:
  "Marshal id (JObj [(''b'', JNum ''1''), (''a'', JStr ''<x>''), (''b'', JArr [JNull, JBool True])]) =
     ''{'' @ [CHR 0x22] @ ''a'' @ [CHR 0x22] @ '':'' @ [CHR 0x22] @ u00 60 @ ''x'' @ u00 62 @ [CHR 0x22] @ '','' @
     [CHR 0x22] @ ''b'' @ [CHR 0x22] @ '':[null,true]}''"
  by code_simp

end
