(* ===== verification/StreamProxy.thy ===== *)
theory StreamProxy
  imports Store TraceCapture Relay ByteScan JsonPrint
begin

text \<open>
  \<open>StreamProxy\<close> of \<open>src/proxy/proxy.go\<close>: the upstream request, the peek at a 429 or 5xx, and
  the chunk loop through the chain of writers (loop detector, model rewriting, metrics and
  trace tap, relay, translator) to the client, with every way the exchange can end. The
  backend is a value: no response, or a status, headers, the reads of the body and how they
  end. The client is the answer of its writer to each write, and whether it has left.
  \<open>silenceWriter\<close>, which injects heartbeats below the translator, is a timed component of its own.
\<close>

subsection \<open>What the router asks for and gets back\<close>

record RouterHeaders =
  rh_ServerID :: string
  rh_ServerName :: string
  rh_Attempts :: string
  rh_Retries :: int
  rh_FallbackErrors :: "string list"
  rh_KeepAliveIdle :: duration
  rh_Headers :: "(string, string) gomap"
  rh_Proxy :: string
  rh_UpstreamPath :: string
  rh_Convert :: string
  rh_ConvertNotes :: "string list"

record send_request =
  sn_url :: string
  sn_apiKey :: string
  sn_body :: string
  sn_targetModel :: string
  sn_responseModel :: string
  sn_rh :: RouterHeaders
  sn_strip :: bool
  sn_ping :: string

text \<open>
  The ways \<open>StreamProxy\<close> returns: no error; a \<open>MidStreamError\<close>; an
  \<open>UpstreamResponseError\<close> (status, header, body, nothing sent to the client); any other error,
  with whether it is one of the connection errors \<open>sameServerRetries\<close> singles out.
\<close>

datatype sent =
    Served ProxyMetrics
  | MidStream ProxyMetrics string
  | Buffered ProxyMetrics int "(string \<times> string) list" string
  | Failed "ProxyMetrics option" bool string

text \<open>What the relay reports to the capture of a traced request (\<open>TraceTap\<close>).\<close>

datatype tap = TapType string | TapChunk string

fun tap_step :: "trace_env \<Rightarrow> tap \<Rightarrow> Capture \<Rightarrow> Capture" where
  "tap_step v (TapType ct) c = ResponseContentType ct c"
| "tap_step v (TapChunk p) c = WriteResponse v p c"

record exchange =
  ex_sent :: sent
  ex_gone :: bool
  ex_tap :: "tap list"

subsection \<open>The upstream request\<close>

text \<open>Request headers under their canonical names, a name once.\<close>

type_synonym headers = "(string, string list) gomap"

definition token_char :: "char \<Rightarrow> bool" where
  "token_char c \<longleftrightarrow> (let b = byte_of c in
     (97 \<le> b \<and> b \<le> 122) \<or> (65 \<le> b \<and> b \<le> 90) \<or> (48 \<le> b \<and> b \<le> 57) \<or> c \<in> set ''!#$%&*+-.^_`|~'' \<or> c = CHR 0x27)"

fun canon :: "bool \<Rightarrow> string \<Rightarrow> string" where
  "canon upper [] = []"
| "canon upper (c # cs) =
     (let b = byte_of c;
          d = (if upper \<and> 97 \<le> b \<and> b \<le> 122 then char_of (b - 32)
               else if \<not> upper \<and> 65 \<le> b \<and> b \<le> 90 then char_of (b + 32) else c)
      in d # canon (c = CHR ''-'') cs)"

definition CanonicalHeaderKey :: "string \<Rightarrow> string" where
  "CanonicalHeaderKey s = (if list_all token_char s then canon True s else s)"

definition header_Set :: "string \<Rightarrow> string \<Rightarrow> headers \<Rightarrow> headers" where
  "header_Set name value h = gm_put (CanonicalHeaderKey name) [value] h"

definition header_Del :: "string \<Rightarrow> headers \<Rightarrow> headers" where
  "header_Del name h = gm_del (CanonicalHeaderKey name) h"

definition drop_router_headers :: "headers \<Rightarrow> headers" where
  "drop_router_headers h = gm_filter (\<lambda>k _. \<not> HasPrefix k ''X-Router-'') h"

definition upstream_headers :: "string \<Rightarrow> RouterHeaders \<Rightarrow> headers \<Rightarrow> headers" where
  "upstream_headers apiKey rh h =
     (let h1 = (if apiKey \<noteq> [] then header_Set ''Authorization'' (''Bearer '' @ apiKey) (header_Set ''x-api-key'' apiKey h)
                else h);
          h2 = fold (\<lambda>(name, value). header_Set name value) (rh_Headers rh) h1
      in drop_router_headers (header_Del ''Host'' h2))"

definition target_path :: "string \<Rightarrow> string \<Rightarrow> string" where
  "target_path base reqPath =
     (let targetBase = TrimRight base ''/''
      in if HasSuffix targetBase ''/v1'' \<and> HasPrefix reqPath ''/v1'' then targetBase @ drop 3 reqPath
         else if HasSuffix targetBase ''/v1'' then TrimSuffix targetBase ''/v1'' @ reqPath
         else targetBase @ reqPath)"

definition keepalive_idle :: "duration \<Rightarrow> duration \<Rightarrow> string \<Rightarrow> duration" where
  "keepalive_idle global configured h =
     (let idle = (if configured > 0 then configured else global)
      in if h = [] then idle
         else case ParseInt h of
           None \<Rightarrow> idle
         | Some n \<Rightarrow> if n = 0 then 0 else if n < 1 then Second else if n > 300 then 300 * Second else n * Second)"

record upstream_request =
  ur_scheme :: string
  ur_host :: string
  ur_path :: string
  ur_query :: string
  ur_headers :: headers
  ur_body :: string
  ur_proxy :: string

subsection \<open>Answers the router may hand to another backend\<close>

definition retryableUpstreamStatus :: "int \<Rightarrow> bool" where
  "retryableUpstreamStatus status \<longleftrightarrow> status = 429 \<or> status \<ge> 500"

definition looksLikeStreamFrameBody :: "string \<Rightarrow> bool" where
  "looksLikeStreamFrameBody body \<longleftrightarrow> (let trimmed = TrimLeft body [CHR 0x20, CHR 0x09, CHR 0x0D, CHR 0x0A] in
     trimmed \<noteq> [] \<and> (HasPrefix trimmed ''data:'' \<or> HasPrefix trimmed ''event:'' \<or> HasPrefix trimmed '': ''))"

definition peekLimit :: nat where "peekLimit = 32 * 1024"

text \<open>The reads of a body from byte \<open>n\<close> on.\<close>

fun drop_bytes :: "nat \<Rightarrow> string list \<Rightarrow> string list" where
  "drop_bytes n [] = []"
| "drop_bytes n (c # cs) = (if n = 0 then c # cs else if length c \<le> n then drop_bytes (n - length c) cs else drop n c # cs)"

definition upstream_error_text :: "string \<Rightarrow> int \<Rightarrow> string \<Rightarrow> string" where
  "upstream_error_text form status body =
     ''backend returned HTTP '' @ Itoa status @ form @ '': '' @ go_quote (if length body > 512 then take 512 body @ ''...'' else body)"

subsection \<open>The surroundings of one exchange\<close>

datatype body_end = EOF | ReadError string

text \<open>
  No response (with whether the transport reported the backend unreachable), or a status, the
  header, the reads of the body and how they end.
\<close>

datatype upstream = NoResponse bool string | Answer int "(string \<times> string) list" "string list" body_end

record 't proxy_env =
  pv_parseURL :: "string \<Rightarrow> string + (string \<times> string \<times> string)"
  pv_fromURL :: "string \<Rightarrow> string option"
  pv_parseTime :: "string \<Rightarrow> gotime option"
  pv_parseFloat :: "string \<Rightarrow> rat option"
  pv_inflate :: "string \<Rightarrow> string \<Rightarrow> string option"
  pv_start :: gotime
  pv_clock :: gotime
  pv_header :: "string \<Rightarrow> string"
  pv_ops :: "'t stream_translator"
  pv_upstream :: "upstream_request \<Rightarrow> upstream"
  pv_down :: downstream
  pv_gone :: bool
  pv_writeErr :: string

subsection \<open>The writers\<close>

record 't chain =
  ch_ld :: loopDetector
  ch_mrw :: modelRewriteWriter
  ch_mw :: metricsWriter
  ch_relay :: sseRelay
  ch_tw :: "'t translateWriter option"
  ch_taps :: "tap list"

text \<open>
  The frames the relay hands to the translator, up to the first that is refused, with the
  bytes that were taken of it.
\<close>

fun tw_frames :: "'t stream_translator \<Rightarrow> downstream \<Rightarrow> string list \<Rightarrow> 't translateWriter \<Rightarrow>
    't translateWriter \<times> (nat \<times> nat) option" where
  "tw_frames ops down [] t = (t, None)"
| "tw_frames ops down (f # fs) t =
     (case translate_Write ops down f t of (t1, ok) \<Rightarrow>
        if ok then (case tw_frames ops down fs t1 of (t2, r) \<Rightarrow> (t2, map_option (\<lambda>(j, n). (Suc j, n)) r))
        else (t1, Some (0, if tw_pass t then (case down (length (tw_sent t)) of Some n \<Rightarrow> n | None \<Rightarrow> length f)
                           else if tw_json t then length f else 0)))"

text \<open>A write to the relay: the chain, the bytes reported as written and whether it failed.\<close>

definition relay_put :: "'t proxy_env \<Rightarrow> string \<Rightarrow> 't chain \<Rightarrow> 't chain \<times> nat \<times> bool" where
  "relay_put v data x =
     (let s = ch_relay x; k = length (sr_sent s) in
      case ch_tw x of
        None \<Rightarrow> (case relay_Write (pv_down v) data s of (s1, n, err) \<Rightarrow> (x\<lparr>ch_relay := s1\<rparr>, n, err))
      | Some t \<Rightarrow>
          (case tw_frames (pv_ops v) (pv_down v) (drop k (sr_sent (fst (relay_Write all_accepted data s)))) t of
             (t1, refused) \<Rightarrow>
               (case relay_Write (\<lambda>i. case refused of Some (j, n) \<Rightarrow> if i = k + j then Some n else None | None \<Rightarrow> None) data s of
                  (s1, n, err) \<Rightarrow> (x\<lparr>ch_relay := s1, ch_tw := Some t1\<rparr>, n, err))))"

definition relay_end :: "'t proxy_env \<Rightarrow> 't chain \<Rightarrow> 't chain" where
  "relay_end v x =
     (let s = ch_relay x in
      case ch_tw x of
        None \<Rightarrow> x\<lparr>ch_relay := relay_finish (pv_down v) s\<rparr>
      | Some t \<Rightarrow>
          x\<lparr>ch_relay := relay_finish all_accepted s,
            ch_tw := Some (translate_finish (pv_ops v) (pv_down v)
              (if sr_pending s = [] then t else fst (translate_Write (pv_ops v) (pv_down v) (sr_pending s) t)))\<rparr>)"

definition chain_WriteHeader :: "'t proxy_env \<Rightarrow> int \<Rightarrow> 't chain \<Rightarrow> 't chain" where
  "chain_WriteHeader v code x =
     (let m = metrics_WriteHeader (pv_parseTime v) (pv_clock v) code True (ch_mw x)
      in x\<lparr>ch_mw := m, ch_taps := ch_taps x @ [TapType (mw_traceType m)]\<rparr>)"

definition metrics_put :: "'t proxy_env \<Rightarrow> string \<Rightarrow> 't chain \<Rightarrow> 't chain \<times> bool" where
  "metrics_put v data x =
     (case relay_put v data x of (x1, n, err) \<Rightarrow>
        (x1\<lparr>ch_mw := metrics_Write (pv_clock v) (int n) data (ch_mw x1), ch_taps := ch_taps x1 @ [TapChunk data]\<rparr>, \<not> err))"

text \<open>A write to the rewriting writer, which may hold all of it back.\<close>

definition rewrite_put :: "'t proxy_env \<Rightarrow> string \<Rightarrow> 't chain \<Rightarrow> 't chain \<times> bool" where
  "rewrite_put v data x =
     (case modelRewrite_Write data (ch_mrw x) of (w, out) \<Rightarrow>
        if out = [] then (x\<lparr>ch_mrw := w\<rparr>, True) else metrics_put v out (x\<lparr>ch_mrw := w\<rparr>))"

text \<open>
  A write to the loop detector, at the top of the chain. When it trips it writes the header
  again, with status 500 (nothing records that the header was written), then the error event.
\<close>

definition chain_Write :: "'t proxy_env \<Rightarrow> string \<Rightarrow> 't chain \<Rightarrow> 't chain \<times> bool" where
  "chain_Write v data x =
     (if ld_detected (ch_ld x) then (x, False)
      else case detector_Write data (ch_ld x) of (d, goes_on) \<Rightarrow>
        if goes_on then rewrite_put v data (x\<lparr>ch_ld := d\<rparr>)
        else let m = ch_mw x;
                 x1 = x\<lparr>ch_ld := d, ch_mw := m\<lparr>mw_header := (mw_header m)(''Content-Type'' := ''text/event-stream'',
                                                                       ''Cache-Control'' := ''no-cache'')\<rparr>\<rparr>;
                 x2 = (if ld_written (ch_ld x) then x\<lparr>ch_ld := d\<rparr> else chain_WriteHeader v 500 x1)
             in (fst (rewrite_put v (loop_event (ld_anthropic d)) x2), False))"

definition client_writes :: "'t chain \<Rightarrow> string list" where
  "client_writes x = (case ch_tw x of None \<Rightarrow> sr_sent (ch_relay x) | Some t \<Rightarrow> tw_sent t)"

subsection \<open>The exchange\<close>

definition mid_stream_event :: "string \<Rightarrow> bool \<Rightarrow> string" where
  "mid_stream_event err anthropic =
     (if anthropic then
        ''event: error'' @ [lf] @ ''data: {'' @ json_quoted ''type'' @ '':'' @ json_quoted ''error'' @ '','' @
        json_quoted ''error'' @ '':{'' @ json_quoted ''type'' @ '':'' @ json_quoted ''api_error'' @ '','' @
        json_quoted ''message'' @ '':'' @ json_quoted (escapeJSONString err) @ ''}}'' @ [lf, lf]
      else
        ''data: {'' @ json_quoted ''choices'' @ '':[{'' @ json_quoted ''finish_reason'' @ '':'' @ json_quoted ''error'' @
        '','' @ json_quoted ''delta'' @ '':{'' @ json_quoted ''content'' @ '':'' @
        json_quoted (''[error: '' @ escapeJSONString err @ '']'') @ ''}}]}'' @ [lf, lf])"

datatype px_stop = Drained | Looped | WriteFailed

text \<open>The chunk loop, up to the end of the reads or the first write that fails.\<close>

fun relay_chunks :: "'t proxy_env \<Rightarrow> string list \<Rightarrow> 't chain \<Rightarrow> 't chain \<times> px_stop" where
  "relay_chunks v [] x = (x, Drained)"
| "relay_chunks v (c # cs) x =
     (case chain_Write v c x of (x1, ok) \<Rightarrow>
        if ok then relay_chunks v cs x1 else (x1, if ld_detected (ch_ld x1) then Looped else WriteFailed))"

definition chain_metrics :: "'t proxy_env \<Rightarrow> 't chain \<Rightarrow> ProxyMetrics" where
  "chain_metrics v x = (writer_metrics (pv_inflate v) (pv_parseFloat v) (ch_mw x))\<lparr>pm_BackendModel := mw_capturedModel (ch_mrw x)\<rparr>"

definition chain_finish :: "'t proxy_env \<Rightarrow> 't chain \<Rightarrow> 't chain" where
  "chain_finish v x =
     (case modelRewrite_Finish (ch_mrw x) of (w, out) \<Rightarrow>
        relay_end v (if out = [] then x\<lparr>ch_mrw := w\<rparr> else fst (metrics_put v out (x\<lparr>ch_mrw := w\<rparr>))))"

definition sendMidStreamError :: "'t proxy_env \<Rightarrow> string \<Rightarrow> bool \<Rightarrow> 't chain \<Rightarrow> 't chain" where
  "sendMidStreamError v err anthropic x =
     fst (chain_Write v (mid_stream_event err anthropic) (x\<lparr>ch_tw := map_option (passthrough (pv_down v)) (ch_tw x)\<rparr>))"

definition gone_text :: string where "gone_text = ''context canceled''"
definition loop_text :: string where "loop_text = ''stream loop detected: backend is repeating content''"

definition mid_stream_text :: "ProxyMetrics \<Rightarrow> string \<Rightarrow> string" where
  "mid_stream_text pm err = ''mid-stream error after '' @ Itoa (pm_ResponseSize pm) @ '' bytes: '' @ err"

text \<open>What an exchange left behind: the report to the router, the writes to the client, the status sent to it.\<close>

record 't proxied =
  pd_sent :: sent
  pd_chain :: "'t chain"
  pd_status :: "int option"

definition stream_body :: "'t proxy_env \<Rightarrow> bool \<Rightarrow> int \<Rightarrow> string list \<Rightarrow> body_end \<Rightarrow> 't chain \<Rightarrow> 't proxied" where
  "stream_body v anthropic status chunks fin x =
     (case relay_chunks v chunks x of (x1, stop) \<Rightarrow>
        let m = chain_metrics v x1 in
        case stop of
          Looped \<Rightarrow> \<lparr>pd_sent = MidStream m (mid_stream_text m loop_text), pd_chain = x1, pd_status = Some status\<rparr>
        | WriteFailed \<Rightarrow>
            \<lparr>pd_sent = Failed (Some m) False (if pv_gone v then gone_text else ''write to client: '' @ pv_writeErr v), pd_chain = x1,
             pd_status = Some status\<rparr>
        | Drained \<Rightarrow> (case fin of
            EOF \<Rightarrow> (let x2 = chain_finish v x1
                    in \<lparr>pd_sent = Served (chain_metrics v x2), pd_chain = x2, pd_status = Some status\<rparr>)
          | ReadError e \<Rightarrow>
              if pv_gone v then \<lparr>pd_sent = Failed (Some m) False gone_text, pd_chain = x1, pd_status = Some status\<rparr>
              else let x2 = sendMidStreamError v e anthropic x1; m2 = chain_metrics v x2
                   in \<lparr>pd_sent = MidStream m2 (mid_stream_text m2 e), pd_chain = x2, pd_status = Some status\<rparr>))"

subsection \<open>Headers for the client\<close>

definition MaxConvertNotesBytes :: nat where "MaxConvertNotesBytes = 512"

fun cap_notes :: "nat \<Rightarrow> bool \<Rightarrow> string list \<Rightarrow> string list" where
  "cap_notes n first [] = []"
| "cap_notes n first (s # ss) =
     (let n1 = (if first then n else n + 2)
      in if n1 + length s > MaxConvertNotesBytes then [] else s # cap_notes (n1 + length s) False ss)"

definition CapConvertNotes :: "string list \<Rightarrow> string list" where
  "CapConvertNotes ns = cap_notes 0 True ns"

definition set_if :: "bool \<Rightarrow> string \<Rightarrow> string \<Rightarrow> (string \<Rightarrow> string) \<Rightarrow> string \<Rightarrow> string" where
  "set_if b k x h = (if b then h(k := x) else h)"

definition SetRouterHeaders :: "RouterHeaders \<Rightarrow> (string \<Rightarrow> string) \<Rightarrow> string \<Rightarrow> string" where
  "SetRouterHeaders rh h =
     set_if (rh_ConvertNotes rh \<noteq> []) ''X-Router-Convert-Notes'' (Join (CapConvertNotes (rh_ConvertNotes rh)) '', '')
      (set_if (rh_Convert rh \<noteq> []) ''X-Router-Convert'' (rh_Convert rh)
        ((set_if (rh_FallbackErrors rh \<noteq> []) ''X-Router-Fallback-Errors'' (Marshal id (JArr (map JStr (rh_FallbackErrors rh))))
          ((set_if (rh_Attempts rh \<noteq> []) ''X-Router-Attempts'' (rh_Attempts rh)
             (h(''X-Router-Server'' := rh_ServerID rh, ''X-Router-Server-Name'' := rh_ServerName rh)))
           (''X-Router-Retries'' := Itoa (rh_Retries rh))))
         (''X-Router-Convert'' := [], ''X-Router-Convert-Notes'' := [])))"

subsection \<open>One exchange\<close>

record client_request =
  cr_path :: string
  cr_query :: string
  cr_headers :: headers

text \<open>The proxy of a request: an error, or the proxy URL to connect through.\<close>

definition TransportFor :: "'t proxy_env \<Rightarrow> string \<Rightarrow> string + string" where
  "TransportFor v proxyURL =
     (let raw = (if Contains proxyURL ''://'' then proxyURL else ''http://'' @ proxyURL);
          invalid = ''invalid proxy URL '' @ go_quote proxyURL
      in if proxyURL = [] then Inr []
         else case pv_parseURL v raw of
           Inl _ \<Rightarrow> Inl invalid
         | Inr (scheme, host, _) \<Rightarrow>
             if host = [] then Inl invalid
             else if scheme = ''http'' \<or> scheme = ''https'' then Inr raw
             else (case pv_fromURL v raw of Some e \<Rightarrow> Inl (invalid @ '': '' @ e) | None \<Rightarrow> Inr raw))"

definition new_chain :: "'t proxy_env \<Rightarrow> client_request \<Rightarrow> send_request \<Rightarrow> 't option \<Rightarrow> 't chain" where
  "new_chain v q sn tr =
     \<lparr>ch_ld = newLoopDetector (Contains (cr_path q) ''/messages''),
      ch_mrw = \<lparr>mw_oldModel = sn_targetModel sn, mw_newModel = sn_responseModel sn, mw_capturedModel = [], mw_carry = []\<rparr>,
      ch_mw = newMetricsWriter (pv_start v) (SetRouterHeaders (sn_rh sn) (pv_header v)),
      ch_relay = newSSERelay (sn_strip sn),
      ch_tw = map_option newTranslateWriter tr,
      ch_taps = []\<rparr>"

definition upstream_request_for :: "client_request \<Rightarrow> send_request \<Rightarrow> string \<times> string \<times> string \<Rightarrow> string \<Rightarrow> upstream_request" where
  "upstream_request_for q sn target via = (case target of (scheme, host, path) \<Rightarrow>
     \<lparr>ur_scheme = scheme, ur_host = host,
      ur_path = target_path path (if rh_UpstreamPath (sn_rh sn) \<noteq> [] then rh_UpstreamPath (sn_rh sn) else cr_path q),
      ur_query = cr_query q, ur_headers = upstream_headers (sn_apiKey sn) (sn_rh sn) (cr_headers q),
      ur_body = sn_body sn, ur_proxy = via\<rparr>)"

text \<open>The response headers on their way to the client, and what kind of body follows.\<close>

definition copy_headers :: "(string \<times> string) list \<Rightarrow> (string \<Rightarrow> string) \<Rightarrow> string \<Rightarrow> string" where
  "copy_headers hdr h = (\<lambda>k. case map_of hdr k of Some x \<Rightarrow> x | None \<Rightarrow> h k)(''Transfer-Encoding'' := [], ''Content-Length'' := [])"

definition is_event_stream :: "(string \<times> string) list \<Rightarrow> bool" where
  "is_event_stream hdr \<longleftrightarrow> Contains (case map_of hdr ''Content-Type'' of Some x \<Rightarrow> x | None \<Rightarrow> []) ''text/event-stream''"

definition open_answer :: "'t proxy_env \<Rightarrow> int \<Rightarrow> (string \<times> string) list \<Rightarrow> 't chain \<Rightarrow> 't chain" where
  "open_answer v status hdr x =
     (let m = ch_mw x; raw = \<not> is_event_stream hdr
      in chain_WriteHeader v status
           (x\<lparr>ch_mw := m\<lparr>mw_header := copy_headers hdr (mw_header m)\<rparr>, ch_relay := setRaw raw (ch_relay x),
              ch_tw := map_option (setJSON raw) (ch_tw x)\<rparr>))"

definition nothing_sent :: "sent \<Rightarrow> 't chain \<Rightarrow> 't proxied" where
  "nothing_sent r x = \<lparr>pd_sent = r, pd_chain = x, pd_status = None\<rparr>"

definition handle_answer :: "'t proxy_env \<Rightarrow> bool \<Rightarrow> int \<Rightarrow> (string \<times> string) list \<Rightarrow> string list \<Rightarrow> body_end \<Rightarrow> 't chain \<Rightarrow> 't proxied" where
  "handle_answer v anthropic status hdr reads fin x =
     (let retryable = retryableUpstreamStatus status;
          pre = take (peekLimit + 1) (concat reads);
          m = (writer_metrics (pv_inflate v) (pv_parseFloat v) (ch_mw x))\<lparr>pm_StatusCode := status\<rparr>;
          after = ParseRetryAfter (pv_parseTime v) (pv_clock v) (case map_of hdr ''Retry-After'' of Some h \<Rightarrow> h | None \<Rightarrow> [])
      in if retryable \<and> looksLikeStreamFrameBody pre then
           nothing_sent (Failed (Some m) False (upstream_error_text '' with SSE-form error body'' status pre)) x
         else if retryable \<and> length pre \<le> peekLimit then
           nothing_sent (Buffered (m\<lparr>pm_RetryAfterMs := after div Millisecond, pm_ErrorBody := take 4096 pre\<rparr>)
                           status hdr (take 4096 pre)) x
         else stream_body v anthropic status
                (if retryable then pre # drop_bytes (peekLimit + 1) reads else reads) fin (open_answer v status hdr x))"

definition StreamProxy :: "'t proxy_env \<Rightarrow> client_request \<Rightarrow> send_request \<Rightarrow> 't option \<Rightarrow> 't proxied" where
  "StreamProxy v q sn tr =
     (let url = (if Contains (sn_url sn) ''://'' then sn_url sn else ''https://'' @ sn_url sn);
          x = new_chain v q sn tr
      in case pv_parseURL v url of
           Inl e \<Rightarrow> nothing_sent (Failed None False (''parse target URL: '' @ e)) x
         | Inr target \<Rightarrow>
             (case TransportFor v (rh_Proxy (sn_rh sn)) of
                Inl e \<Rightarrow> nothing_sent (Failed None False e) x
              | Inr via \<Rightarrow>
                  (case pv_upstream v (upstream_request_for q sn target via) of
                     NoResponse unreachable e \<Rightarrow>
                       nothing_sent (if pv_gone v then Failed None False gone_text
                                     else Failed None unreachable (''upstream request failed: '' @ e)) x
                   | Answer status hdr reads fin \<Rightarrow>
                       handle_answer v (Contains (cr_path q) ''/messages'') status hdr reads fin x)))"

definition exchange_of :: "'t proxy_env \<Rightarrow> 't proxied \<Rightarrow> exchange" where
  "exchange_of v p = \<lparr>ex_sent = pd_sent p, ex_gone = pv_gone v, ex_tap = ch_taps (pd_chain p)\<rparr>"

end
