(* ===== verification/Balance.thy ===== *)
theory Balance
  imports Store "HOL-Library.Product_Lexorder"
begin

text \<open>
  The pool-balancing part of \<open>src/router/router.go\<close>: the order of fallbacks, weighted
  round-robin, least connections, and the sweep of rotation counters. A rotation counter is
  a \<open>uint64\<close>; \<open>sync.Map\<close> operations are atomic steps on the association list.
\<close>

record serverAttempt =
  at_server :: Server
  at_targetModel :: string
  at_convert :: string
  at_contextWindow :: int

abbreviation at_ID :: "serverAttempt \<Rightarrow> string" where
  "at_ID a \<equiv> srv_ID (at_server a)"

record rotation_state =
  rot_rotations :: "(string, int) gomap"
  rot_rotationKeys :: int

definition rotationSweepAt :: int where "rotationSweepAt = 256"

subsection \<open>Fallback order\<close>

definition fallback_less :: "FallbackEntry \<Rightarrow> FallbackEntry \<Rightarrow> bool" where
  "fallback_less x y =
     (let a = fb_Priority x; b = fb_Priority y
      in if a = b then False else if a = 0 then False else if b = 0 then True else a < b)"

definition orderedFallbacks :: "RoutingRule \<Rightarrow> FallbackEntry list" where
  "orderedFallbacks rule = SliceStable fallback_less (filter fb_IsEnabled (rule_Fallbacks rule))"

definition fallbackIDs :: "RoutingRule \<Rightarrow> string list" where
  "fallbackIDs rule = map fb_ServerID (orderedFallbacks rule)"

subsection \<open>Round robin\<close>

definition live_pools :: "Config \<Rightarrow> string list" where
  "live_pools cfg = (case GetRules cfg [] of
     Inl _ \<Rightarrow> []
   | Inr rules \<Rightarrow>
       remdups (concat (map (\<lambda>rule.
         if \<not> rule_Enabled rule \<or> \<not> Balances (rule_Balance rule) \<or> rule_ServerID rule = [] then []
         else let ids = rule_ServerID rule # fallbackIDs rule
              in if length ids > 1 then [Join ids '',''] else []) rules)))"

definition sweepRotations :: "Config \<Rightarrow> rotation_state \<Rightarrow> rotation_state" where
  "sweepRotations cfg st =
     st\<lparr>rot_rotations := gm_filter (\<lambda>k _. k \<in> set (live_pools cfg)) (rot_rotations st),
        rot_rotationKeys := int (length (live_pools cfg))\<rparr>"

definition rotate_to :: "nat \<Rightarrow> 'a list \<Rightarrow> 'a list" where
  "rotate_to i xs = (if i = 0 then xs else drop i xs @ take i xs)"

fun index_of_server :: "string \<Rightarrow> serverAttempt list \<Rightarrow> nat option" where
  "index_of_server i [] = None"
| "index_of_server i (a # as) = (if at_ID a = i then Some 0 else map_option Suc (index_of_server i as))"

definition pinned_start :: "string \<Rightarrow> serverAttempt list \<Rightarrow> nat option" where
  "pinned_start pinnedID attempts = (if pinnedID = [] then None else index_of_server pinnedID attempts)"

text \<open>Go's \<open>%\<close> truncates toward zero.\<close>

definition go_rem :: "int \<Rightarrow> int \<Rightarrow> int" where
  "go_rem a b = (if a \<ge> 0 then a mod b else - ((- a) mod b))"

fun start_slot :: "int list \<Rightarrow> int \<Rightarrow> nat option" where
  "start_slot [] slot = None"
| "start_slot (w # ws) slot = (if slot < w then Some 0 else map_option Suc (start_slot ws (slot - w)))"

definition pool_key :: "serverAttempt list \<Rightarrow> string" where
  "pool_key attempts = Join (map at_ID attempts) '',''"

text \<open>
  \<open>LoadOrStore\<close> with the sweep it may trigger. The second component is the counter this
  request goes on to use: the sweep may already have dropped its key from the map.
\<close>

definition load_counter :: "Config \<Rightarrow> string \<Rightarrow> rotation_state \<Rightarrow> rotation_state \<times> int" where
  "load_counter cfg key st = (case gm_get (rot_rotations st) key of
     Some c \<Rightarrow> (st, c)
   | None \<Rightarrow>
       let st1 = st\<lparr>rot_rotations := gm_put key 0 (rot_rotations st),
                    rot_rotationKeys := rot_rotationKeys st + 1\<rparr>
       in (if rot_rotationKeys st1 > rotationSweepAt then sweepRotations cfg st1 else st1, 0))"

definition bump_counter :: "string \<Rightarrow> int \<Rightarrow> rotation_state \<Rightarrow> rotation_state" where
  "bump_counter key c st =
     (if gm_get (rot_rotations st) key = None then st
      else st\<lparr>rot_rotations := gm_put key ((c + 1) mod 2 ^ 64) (rot_rotations st)\<rparr>)"

definition balanceRotation ::
  "Config \<Rightarrow> serverAttempt list \<Rightarrow> int list \<Rightarrow> string \<Rightarrow> rotation_state \<Rightarrow> rotation_state \<times> serverAttempt list" where
  "balanceRotation cfg attempts weights pinnedID st =
     (let key = pool_key attempts;
          slots = sum_list weights
      in case load_counter cfg key st of (st1, c) \<Rightarrow>
           case pinned_start pinnedID attempts of
             Some i \<Rightarrow> (st1, rotate_to i attempts)
           | None \<Rightarrow>
               let st2 = bump_counter key c st1;
                   slot = go_rem (wrap64 c) slots;
                   start = (case start_slot weights slot of None \<Rightarrow> 0 | Some i \<Rightarrow> i)
               in (st2, rotate_to start attempts))"

subsection \<open>Least connections\<close>

type_synonym inflight = "string \<Rightarrow> int"

definition countInflight :: "string \<Rightarrow> int \<Rightarrow> inflight \<Rightarrow> inflight" where
  "countInflight i delta fl = fl(i := fl i + delta)"

definition inflightCount :: "inflight \<Rightarrow> string \<Rightarrow> int" where
  "inflightCount fl i = fl i"

definition pool_capacity :: "int list \<Rightarrow> nat \<Rightarrow> rat" where
  "pool_capacity weights i = (if i < length weights then of_int (max (weights ! i) 1) else 1)"

definition pool_load :: "inflight \<Rightarrow> serverAttempt list \<Rightarrow> int list \<Rightarrow> nat \<Rightarrow> rat" where
  "pool_load fl attempts weights i = of_int (inflightCount fl (at_ID (attempts ! i))) / pool_capacity weights i"

definition balanceLeast :: "inflight \<Rightarrow> serverAttempt list \<Rightarrow> int list \<Rightarrow> string \<Rightarrow> serverAttempt list" where
  "balanceLeast fl attempts weights pinnedID = (case pinned_start pinnedID attempts of
     Some i \<Rightarrow> rotate_to i attempts
   | None \<Rightarrow>
       map ((!) attempts)
         (SliceStable (\<lambda>i j. pool_load fl attempts weights i < pool_load fl attempts weights j) [0..<length attempts]))"

subsection \<open>Fallbacks are tried in priority order\<close>

definition fallback_rank :: "FallbackEntry \<Rightarrow> bool \<times> int" where
  "fallback_rank f = (fb_Priority f = 0, fb_Priority f)"

lemma fallback_less_rank: "fallback_less x y \<longleftrightarrow> fallback_rank x < fallback_rank y"
  by (auto simp: fallback_less_def fallback_rank_def Let_def less_prod_def)

lemma orderedFallbacks_sort: "orderedFallbacks r = sort_key fallback_rank (filter fb_IsEnabled (rule_Fallbacks r))"
  unfolding orderedFallbacks_def by (rule SliceStable_key) (rule fallback_less_rank)

text \<open>
  The fallback chain is the enabled fallbacks and nothing else, those with a priority in
  ascending order before those without one, and entries of equal priority keep the order of
  the configuration.
\<close>
theorem orderedFallbacks_order:
  "mset (orderedFallbacks r) = mset (filter fb_IsEnabled (rule_Fallbacks r)) \<and>
   sorted_wrt (\<lambda>x y. fb_Priority y = 0 \<or> (fb_Priority x \<noteq> 0 \<and> fb_Priority x \<le> fb_Priority y)) (orderedFallbacks r) \<and>
   (\<forall>p. filter (\<lambda>f. fb_Priority f = p) (orderedFallbacks r) =
        filter (\<lambda>f. fb_IsEnabled f \<and> fb_Priority f = p) (rule_Fallbacks r))"
proof -
  have "sorted (map fallback_rank (orderedFallbacks r))" by (simp add: orderedFallbacks_sort)
  then have "sorted_wrt (\<lambda>x y. fallback_rank x \<le> fallback_rank y) (orderedFallbacks r)"
    by (simp add: sorted_map)
  then have "sorted_wrt (\<lambda>x y. fb_Priority y = 0 \<or> (fb_Priority x \<noteq> 0 \<and> fb_Priority x \<le> fb_Priority y)) (orderedFallbacks r)"
    by (rule sorted_wrt_mono_rel [rotated]) (auto simp: fallback_rank_def less_eq_prod_def)
  moreover have "filter (\<lambda>f. fb_Priority f = p) (orderedFallbacks r) =
      filter (\<lambda>f. fb_IsEnabled f \<and> fb_Priority f = p) (rule_Fallbacks r)" for p
  proof -
    have eq: "(fb_Priority f = p) \<longleftrightarrow> (fallback_rank f = (p = 0, p))" for f
      by (auto simp: fallback_rank_def)
    have "filter (\<lambda>f. fallback_rank f = (p = 0, p)) (sort_key fallback_rank (filter fb_IsEnabled (rule_Fallbacks r))) =
        filter (\<lambda>f. fallback_rank f = (p = 0, p)) (filter fb_IsEnabled (rule_Fallbacks r))"
      by (rule sort_key_stable)
    then show ?thesis unfolding eq orderedFallbacks_sort by (simp add: conj_commute)
  qed
  ultimately show ?thesis by (simp add: orderedFallbacks_def)
qed

subsection \<open>Round robin is fair\<close>

lemma mset_rotate_to [simp]: "mset (rotate_to i xs) = mset xs"
proof -
  have "mset (take i xs) + mset (drop i xs) = mset xs" by (metis append_take_drop_id mset_append)
  then show ?thesis by (simp add: rotate_to_def add.commute)
qed

lemma hd_rotate_to: "i < length xs \<Longrightarrow> hd (rotate_to i xs) = xs ! i"
  by (auto simp: rotate_to_def hd_append hd_drop_conv_nth hd_conv_nth)

lemma start_slot_hits:
  assumes "\<forall>w \<in> set ws. 0 < w" "i < length ws"
  shows "card {s. 0 \<le> s \<and> s < sum_list ws \<and> start_slot ws s = Some i} = nat (ws ! i)"
  using assms
proof (induction ws arbitrary: i)
  case Nil
  then show ?case by simp
next
  case (Cons w ws)
  have w: "0 < w" and nn: "0 \<le> sum_list ws"
    using Cons.prems(1) by (auto intro: sum_list_nonneg less_imp_le)
  show ?case
  proof (cases i)
    case 0
    have "{s. 0 \<le> s \<and> s < w + sum_list ws \<and> start_slot (w # ws) s = Some 0} = {0..<w}"
      using w nn by (auto split: if_splits)
    then show ?thesis using 0 by simp
  next
    case (Suc j)
    have "{s. 0 \<le> s \<and> s < w + sum_list ws \<and> start_slot (w # ws) s = Some (Suc j)} =
        (\<lambda>s. s + w) ` {s. 0 \<le> s \<and> s < sum_list ws \<and> start_slot ws s = Some j}" (is "?A = ?f ` ?B")
    proof
      show "?A \<subseteq> ?f ` ?B"
      proof
        fix s assume "s \<in> ?A"
        then have "s - w \<in> ?B" by (auto split: if_splits)
        then show "s \<in> ?f ` ?B" by (rule rev_image_eqI) simp
      qed
      show "?f ` ?B \<subseteq> ?A" using w by auto
    qed
    moreover have "card (?f ` ?B) = card ?B" by (rule card_image) (simp add: inj_on_def)
    ultimately show ?thesis using Cons Suc by simp
  qed
qed

lemma start_slot_Some:
  assumes "0 \<le> s" "s < sum_list ws"
  shows "\<exists>i < length ws. start_slot ws s = Some i"
  using assms
proof (induction ws arbitrary: s)
  case (Cons w ws)
  show ?case
  proof (cases "s < w")
    case False
    then obtain i where "i < length ws" "start_slot ws (s - w) = Some i"
      using Cons.IH [of "s - w"] Cons.prems by auto
    then show ?thesis using False by auto
  qed auto
qed simp

lemma residues_bij:
  assumes "0 < S"
  shows "bij_betw (\<lambda>j. (c + int j) mod S) {..<nat S} {0..<S}"
proof -
  let ?f = "\<lambda>j. (c + int j) mod S"
  have inj: "inj_on ?f {..<nat S}"
  proof (rule inj_onI)
    fix j k assume jk: "j \<in> {..<nat S}" "k \<in> {..<nat S}" "?f j = ?f k"
    then have "S dvd (c + int j) - (c + int k)" by (simp add: mod_eq_dvd_iff)
    then have "S dvd int j - int k" by simp
    moreover have "\<bar>int j - int k\<bar> < S" using jk by auto
    ultimately have "int j - int k = 0" using zdvd_imp_le [of S "\<bar>int j - int k\<bar>"] by force
    then show "j = k" by simp
  qed
  moreover have "?f ` {..<nat S} \<subseteq> {0..<S}" using assms by auto
  moreover have "card (?f ` {..<nat S}) = card {0..<S}" using card_image [OF inj] by simp
  ultimately show ?thesis by (simp add: bij_betw_def card_subset_eq)
qed

fun rotation_run :: "Config \<Rightarrow> serverAttempt list \<Rightarrow> int list \<Rightarrow> nat \<Rightarrow> rotation_state \<Rightarrow> serverAttempt list" where
  "rotation_run cfg attempts weights 0 st = []"
| "rotation_run cfg attempts weights (Suc n) st =
     (case balanceRotation cfg attempts weights [] st of
        (st', l) \<Rightarrow> hd l # rotation_run cfg attempts weights n st')"

lemma rotation_run_starts:
  assumes "gm_get (rot_rotations st) (pool_key attempts) = Some c" "0 \<le> c" "c + int n \<le> 2 ^ 63"
    and "length weights = length attempts" "0 < sum_list weights"
  shows "rotation_run cfg attempts weights n st =
     map (\<lambda>j. attempts ! the (start_slot weights ((c + int j) mod sum_list weights))) [0..<n]"
  using assms
proof (induction n arbitrary: st c)
  case 0
  then show ?case by simp
next
  case (Suc n)
  let ?S = "sum_list weights" and ?st = "st\<lparr>rot_rotations := gm_put (pool_key attempts) (c + 1) (rot_rotations st)\<rparr>"
  have c: "wrap64 c = c" "(c + 1) mod 2 ^ 64 = c + 1" using Suc.prems by (auto simp: wrap64_id)
  have s: "0 \<le> c mod ?S" "c mod ?S < ?S" using Suc.prems by simp_all
  then obtain i where i: "i < length attempts" "start_slot weights (c mod ?S) = Some i"
    using start_slot_Some [OF s] Suc.prems(4) by auto
  have b: "balanceRotation cfg attempts weights [] st = (?st, rotate_to i attempts)"
    using Suc.prems c i
    by (simp add: balanceRotation_def load_counter_def bump_counter_def pinned_start_def go_rem_def Let_def)
  have "rotation_run cfg attempts weights n ?st =
      map (\<lambda>j. attempts ! the (start_slot weights ((c + 1 + int j) mod ?S))) [0..<n]"
    using Suc.prems by (intro Suc.IH) (auto simp: gm_get_put)
  moreover have "[0..<Suc n] = 0 # map Suc [0..<n]"
    by (simp add: map_Suc_upt upt_conv_Cons del: upt_Suc)
  ultimately show ?case
    using b i by (simp add: hd_rotate_to o_def add.assoc del: upt_Suc)
qed


definition example_attempt :: "string \<Rightarrow> serverAttempt" where
  "example_attempt i =
     \<lparr>at_server = example_server\<lparr>srv_ID := i\<rparr>, at_targetModel = [], at_convert = [], at_contextWindow = 0\<rparr>"


subsection \<open>Balancing only reorders\<close>

lemma index_of_server_Some:
  "index_of_server i as = Some k \<Longrightarrow> k < length as \<and> at_ID (as ! k) = i"
  by (induction as arbitrary: k) (auto split: if_splits)

lemma pinned_start_Some: "pinned_start p as = Some k \<Longrightarrow> k < length as \<and> at_ID (as ! k) = p"
  by (auto simp: pinned_start_def split: if_splits dest: index_of_server_Some)

lemma index_of_server_None: "index_of_server i as = None \<longleftrightarrow> i \<notin> at_ID ` set as"
  by (induction as) auto

text \<open>
  Balancing never loses or invents a backend: both modes return the failover chain of the
  rule as a rearrangement of itself, and a conversation pinned to a pool member starts on
  that member; under round robin it does so without spending a rotation.
\<close>
theorem balance_keeps_pool:
  "mset (snd (balanceRotation cfg attempts weights p st)) = mset attempts \<and>
   mset (balanceLeast fl attempts weights p) = mset attempts \<and>
   (p \<noteq> [] \<and> p \<in> at_ID ` set attempts \<longrightarrow>
      at_ID (hd (snd (balanceRotation cfg attempts weights p st))) = p \<and>
      at_ID (hd (balanceLeast fl attempts weights p)) = p \<and>
      fst (balanceRotation cfg attempts weights p st) = fst (load_counter cfg (pool_key attempts) st))"
proof -
  have "mset (map ((!) attempts) (SliceStable lt [0..<length attempts])) = mset attempts" for lt
  proof -
    have "mset (map ((!) attempts) (SliceStable lt [0..<length attempts])) = mset (map ((!) attempts) [0..<length attempts])"
      by simp
    then show ?thesis by (simp only: map_nth)
  qed
  moreover have "\<exists>k. pinned_start p attempts = Some k" if "p \<noteq> []" "p \<in> at_ID ` set attempts"
    using that index_of_server_None [of p attempts] by (auto simp: pinned_start_def)
  ultimately show ?thesis
    by (auto simp: balanceRotation_def balanceLeast_def Let_def hd_rotate_to
        split: prod.splits option.splits dest!: pinned_start_Some)
qed

theorem balance_keeps_pool_witness:
  "at_ID (hd (balanceLeast (\<lambda>_. 0) [example_attempt ''a'', example_attempt ''b''] [1, 1] ''b'')) = ''b''"
proof -
  have "''b'' \<noteq> [] \<and> ''b'' \<in> at_ID ` set [example_attempt ''a'', example_attempt ''b'']"
    by (simp add: example_attempt_def)
  then show ?thesis
    using balance_keeps_pool [of NewStore_config "[example_attempt ''a'', example_attempt ''b'']" "[1, 1]" "''b''"
        "\<lparr>rot_rotations = [], rot_rotationKeys = 0\<rparr>" "\<lambda>_. 0"] by blast
qed

text \<open>
  Least connections sends an unpinned request to the idlest member for its size: the
  members come in ascending order of requests in flight per unit of weight, members of equal
  load in the declared order, so an idle pool behaves like the failover chain.
\<close>
theorem balanceLeast_order:
  assumes "pinned_start p attempts = None"
  shows "\<exists>order. balanceLeast fl attempts weights p = map ((!) attempts) order \<and>
     mset order = mset [0..<length attempts] \<and>
     sorted_wrt (\<lambda>i j. pool_load fl attempts weights i < pool_load fl attempts weights j \<or>
        (pool_load fl attempts weights i = pool_load fl attempts weights j \<and> i < j)) order"
proof -
  let ?L = "pool_load fl attempts weights" and ?n = "length attempts"
  define order where "order = SliceStable (\<lambda>i j. ?L i < ?L j) [0..<?n]"
  have srt: "order = sort_key ?L [0..<?n]" unfolding order_def by (rule SliceStable_key) simp
  have d: "distinct order" by (simp add: srt)
  have "?L (order ! a) < ?L (order ! b) \<or> (?L (order ! a) = ?L (order ! b) \<and> order ! a < order ! b)"
    if ab: "a < b" "b < length order" for a b
  proof -
    have "sorted (map ?L order)" by (simp add: srt)
    then have le: "?L (order ! a) \<le> ?L (order ! b)" using ab by (auto simp: sorted_map dest: sorted_wrt_nth_less)
    show ?thesis
    proof (cases "?L (order ! a) = ?L (order ! b)")
      case True
      let ?P = "\<lambda>i. ?L i = ?L (order ! a)"
      have "filter ?P order = filter ?P [0..<?n]" unfolding srt by (rule sort_key_stable)
      then have st: "sorted_wrt (<) (filter ?P order)" by (simp add: sorted_wrt_filter)
      have split: "order = take b order @ order ! b # drop (Suc b) order" using ab by (simp add: id_take_nth_drop)
      have "sorted_wrt (<) (filter ?P (take b order @ order ! b # drop (Suc b) order))" using st split by metis
      moreover have "order ! a \<in> set (take b order)" using ab by (auto simp: in_set_conv_nth intro: exI [of _ a])
      ultimately have "order ! a < order ! b" using True by (auto simp: sorted_wrt_append)
      then show ?thesis using True by simp
    qed (use le in simp)
  qed
  then have "sorted_wrt (\<lambda>i j. ?L i < ?L j \<or> (?L i = ?L j \<and> i < j)) order" by (simp add: sorted_wrt_iff_nth_less)
  moreover have "balanceLeast fl attempts weights p = map ((!) attempts) order" "mset order = mset [0..<?n]"
    using assms by (simp_all add: balanceLeast_def order_def)
  ultimately show ?thesis by blast
qed

theorem balanceLeast_order_witness:
  "\<exists>order. balanceLeast ((\<lambda>_. 0)(''a'' := 2)) [example_attempt ''a'', example_attempt ''b''] [1, 1] [] =
     map ((!) [example_attempt ''a'', example_attempt ''b'']) order \<and> mset order = mset [0..<2]"
  using balanceLeast_order [of "[]" "[example_attempt ''a'', example_attempt ''b'']" "(\<lambda>_. 0)(''a'' := 2)" "[1, 1]"]
  by (auto simp: pinned_start_def numeral_2_eq_2)

subsection \<open>Where rotation counters go wrong\<close>

text \<open>
  Two pools can share one counter: server ids are joined with a comma, so the pools
  \<open>a,b | c\<close> and \<open>a | b,c\<close> have the same key.
\<close>
theorem pool_keys_collide:
  "pool_key [example_attempt ''a,b'', example_attempt ''c''] = pool_key [example_attempt ''a'', example_attempt ''b,c''] \<and>
   map at_ID [example_attempt ''a,b'', example_attempt ''c''] \<noteq> map at_ID [example_attempt ''a'', example_attempt ''b,c'']"
  by (simp add: pool_key_def example_attempt_def)

text \<open>
  A pool whose runtime key is not one the sweep computes loses its rotation: once the key
  count has passed the sweep threshold, the counter of such a pool is dropped as it is
  created, so every request of it starts on the primary whatever the weights say. A rule
  with a fallback whose server is not configured is such a pool, because the attempt list
  leaves that server out and the sweep's key does not.
\<close>
theorem unswept_key_never_rotates:
  assumes "pool_key attempts \<notin> set (live_pools cfg)" "gm_get (rot_rotations st) (pool_key attempts) = None"
    and "gm_wf (rot_rotations st)" "rotationSweepAt \<le> rot_rotationKeys st" "0 < weights ! 0" "weights \<noteq> []"
  shows "snd (balanceRotation cfg attempts weights [] st) = attempts \<and>
         gm_get (rot_rotations (fst (balanceRotation cfg attempts weights [] st))) (pool_key attempts) = None"
proof -
  obtain w ws where w: "weights = w # ws" using assms(6) by (cases weights) auto
  let ?st = "st\<lparr>rot_rotations := gm_put (pool_key attempts) 0 (rot_rotations st),
      rot_rotationKeys := rot_rotationKeys st + 1\<rparr>"
  have l: "load_counter cfg (pool_key attempts) st = (sweepRotations cfg ?st, 0)"
    using assms(2,4) by (simp add: load_counter_def Let_def)
  have n: "gm_get (rot_rotations (sweepRotations cfg ?st)) (pool_key attempts) = None"
    using assms(1,3) by (simp add: sweepRotations_def gm_get_filter gm_get_put)
  have "start_slot weights (go_rem (wrap64 0) (sum_list weights)) = Some 0"
    using assms(5) by (simp add: w go_rem_def wrap64_def)
  then show ?thesis
    using l n by (simp add: balanceRotation_def Let_def pinned_start_def bump_counter_def rotate_to_def)
qed

definition orphan_rule :: RoutingRule where
  "orphan_rule = example_rule\<lparr>rule_Balance := BalanceRoundRobin,
     rule_Fallbacks := map (\<lambda>i. \<lparr>fb_ServerID = i, fb_TargetModel = [], fb_Enabled = None, fb_Priority = 0,
       fb_Convert = [], fb_ContextWindow = 0, fb_Weight = 1\<rparr>) [''b'', ''gone'']\<rparr>"

theorem unswept_key_never_rotates_witness:
  "snd (balanceRotation (NewStore_config\<lparr>cfg_Profiles := [default_profile\<lparr>prof_Rules := [orphan_rule]\<rparr>]\<rparr>)
      [example_attempt ''a'', example_attempt ''b''] [1, 1] [] \<lparr>rot_rotations = [], rot_rotationKeys = 256\<rparr>) =
   [example_attempt ''a'', example_attempt ''b'']"
proof -
  let ?cfg = "NewStore_config\<lparr>cfg_Profiles := [default_profile\<lparr>prof_Rules := [orphan_rule]\<rparr>]\<rparr>"
  have "live_pools ?cfg = [''a,b,gone'']"
    by (simp add: live_pools_def GetRules_def resolveProfile_def activeProfile_def profileByID_def NewStore_config_def
        default_profile_def orphan_rule_def example_rule_def Balances_def fallbackIDs_def orderedFallbacks_def
        SliceStable_def fb_IsEnabled_def fallback_less_def)
  then have "pool_key [example_attempt ''a'', example_attempt ''b''] \<notin> set (live_pools ?cfg)"
    by (simp add: pool_key_def example_attempt_def)
  from unswept_key_never_rotates [OF this, of "\<lparr>rot_rotations = [], rot_rotationKeys = 256\<rparr>" "[1, 1]"] show ?thesis
    by (simp add: rotationSweepAt_def)
qed

end
