(* ===== verification/Sticky.thy ===== *)
theory Sticky
  imports Interfaces Domain
begin

text \<open>
  The three expiring stores of the router: conversation pins (\<open>src/router/sticky.go\<close>),
  cached decisions and pinned decisions (\<open>src/router/jev.go\<close>). Each operation runs under one
  mutex, so it is one atomic step at the instant \<open>now\<close> of its critical section. All three
  share their insertion: past a size limit the expired entries are dropped first.
\<close>

definition sweep_put ::
  "('e \<Rightarrow> gotime) \<Rightarrow> nat \<Rightarrow> gotime \<Rightarrow> 'k \<Rightarrow> 'e \<Rightarrow> ('k, 'e) gomap \<Rightarrow> ('k, 'e) gomap" where
  "sweep_put expires limit now k e m =
     gm_put k e (if limit \<le> length m then gm_filter (\<lambda>_ d. \<not> expires d < now) m else m)"

lemma sweep_put_expiring:
  fixes expires :: "'e \<Rightarrow> gotime"
  shows "expiring_map expires (sweep_put expires limit :: gotime \<Rightarrow> 'k \<Rightarrow> 'e \<Rightarrow> ('k, 'e) gomap \<Rightarrow> _) limit"
proof
  fix m :: "('k, 'e) gomap" and now :: gotime and k k' :: 'k and e d :: 'e
  assume wf: "gm_wf m"
  show "gm_wf (sweep_put expires limit now k e m)" using wf by (simp add: sweep_put_def)
  show "gm_get (sweep_put expires limit now k e m) k = Some e" by (simp add: sweep_put_def go_map)
  show "gm_get (sweep_put expires limit now k e m) k' = gm_get m k' \<or>
      (gm_get (sweep_put expires limit now k e m) k' = None \<and> (\<exists>d. gm_get m k' = Some d \<and> expires d < now))"
    if "k' \<noteq> k"
    using that wf by (auto simp: sweep_put_def go_map split: option.splits)
  show "now \<le> expires d"
    if "limit \<le> length m" "k' \<noteq> k" "gm_get (sweep_put expires limit now k e m) k' = Some d"
    using that wf by (auto simp: sweep_put_def go_map split: option.splits if_splits)
qed

subsection \<open>Conversation pins\<close>

definition stickyTTL :: duration where "stickyTTL = 30 * Minute"
definition stickySweepAt :: nat where "stickySweepAt = 4096"

record stickyPin =
  pin_serverID :: string
  pin_expires :: gotime

type_synonym pins = "(string, stickyPin) gomap"

definition stickyGet :: "gotime \<Rightarrow> string \<Rightarrow> pins \<Rightarrow> pins \<times> string" where
  "stickyGet now key m =
     (if key = [] then (m, [])
      else case gm_get m key of
        None \<Rightarrow> (m, [])
      | Some p \<Rightarrow>
          if pin_expires p < now then (gm_del key m, [])
          else (gm_put key (p\<lparr>pin_expires := now + stickyTTL\<rparr>) m, pin_serverID p))"

definition stickyPut :: "gotime \<Rightarrow> string \<Rightarrow> string \<Rightarrow> pins \<Rightarrow> pins" where
  "stickyPut now key serverID m =
     (if key = [] \<or> serverID = [] then m
      else sweep_put pin_expires stickySweepAt now key
             \<lparr>pin_serverID = serverID, pin_expires = now + stickyTTL\<rparr> m)"

subsection \<open>Cached and pinned decisions\<close>

definition jevCacheSweepAt :: nat where "jevCacheSweepAt = 4096"
definition jevStickyTTL :: duration where "jevStickyTTL = 30 * Minute"

record jevOutcome =
  jo_Choice :: string
  jo_Confidence :: rat
  jo_LatencyMs :: int
  jo_Model :: string
  jo_Reason :: string
  jo_InputTokens :: int
  jo_OutputTokens :: int
  jo_Scores :: string

record jevCacheEntry =
  ce_outcome :: jevOutcome
  ce_expires :: gotime

record jevStickyEntry =
  se_choice :: string
  se_expires :: gotime

definition jevCacheGet ::
  "gotime \<Rightarrow> string \<Rightarrow> (string, jevCacheEntry) gomap \<Rightarrow> (string, jevCacheEntry) gomap \<times> jevOutcome option" where
  "jevCacheGet now key m =
     (if key = [] then (m, None)
      else case gm_get m key of
        None \<Rightarrow> (m, None)
      | Some e \<Rightarrow> if ce_expires e < now then (gm_del key m, None) else (m, Some (ce_outcome e)))"

definition jevCachePut ::
  "gotime \<Rightarrow> string \<Rightarrow> jevOutcome \<Rightarrow> duration \<Rightarrow> (string, jevCacheEntry) gomap \<Rightarrow> (string, jevCacheEntry) gomap" where
  "jevCachePut now key out ttl m =
     (if key = [] \<or> ttl \<le> 0 then m
      else sweep_put ce_expires jevCacheSweepAt now key \<lparr>ce_outcome = out, ce_expires = now + ttl\<rparr> m)"

definition jevStickyGet ::
  "gotime \<Rightarrow> string \<Rightarrow> (string, jevStickyEntry) gomap \<Rightarrow> (string, jevStickyEntry) gomap \<times> string" where
  "jevStickyGet now key m =
     (if key = [] then (m, [])
      else case gm_get m key of
        None \<Rightarrow> (m, [])
      | Some e \<Rightarrow> if se_expires e < now then (gm_del key m, []) else (m, se_choice e))"

definition jevStickyPut ::
  "gotime \<Rightarrow> string \<Rightarrow> string \<Rightarrow> (string, jevStickyEntry) gomap \<Rightarrow> (string, jevStickyEntry) gomap" where
  "jevStickyPut now key choice m =
     (if key = [] \<or> choice = [] then m
      else sweep_put se_expires jevCacheSweepAt now key
             \<lparr>se_choice = choice, se_expires = now + jevStickyTTL\<rparr> m)"

subsection \<open>The stores satisfy the interface\<close>

interpretation pinmap: expiring_map pin_expires "sweep_put pin_expires stickySweepAt" stickySweepAt
  by (rule sweep_put_expiring)

interpretation cachemap: expiring_map ce_expires "sweep_put ce_expires jevCacheSweepAt" jevCacheSweepAt
  by (rule sweep_put_expiring)

interpretation jevpins: expiring_map se_expires "sweep_put se_expires jevCacheSweepAt" jevCacheSweepAt
  by (rule sweep_put_expiring)

lemma stickyTTL_pos: "0 < stickyTTL"
  by (simp add: stickyTTL_def duration_defs)

lemma stickyGet_wf: "gm_wf m \<Longrightarrow> gm_wf (fst (stickyGet now key m))"
  by (auto simp: stickyGet_def split: option.splits)

lemma stickyPut_wf: "gm_wf m \<Longrightarrow> gm_wf (stickyPut now key s m)"
  by (simp add: stickyPut_def pinmap.put_wf)

lemma stickyGet_other: "k \<noteq> key \<Longrightarrow> gm_get (fst (stickyGet now key m)) k = gm_get m k"
  by (auto simp: stickyGet_def go_map split: option.splits)

lemma stickyPut_other:
  assumes "gm_wf m" "k \<noteq> key" "gm_get m k = Some p" "now \<le> pin_expires p"
  shows "gm_get (stickyPut now key s m) k = Some p"
  using pinmap.put_other [OF assms(1,2), of now] assms(3,4)
  by (fastforce simp: stickyPut_def)

subsection \<open>A live conversation keeps its backend\<close>

text \<open>A run of pin operations by any number of conversations, with the answers of the lookups.\<close>

datatype pin_op = GetPin gotime string | PutPin gotime string string

fun run_pins :: "pin_op list \<Rightarrow> pins \<Rightarrow> pins \<times> (string \<times> string) list" where
  "run_pins [] m = (m, [])"
| "run_pins (GetPin t k # ops) m =
     (case stickyGet t k m of (m1, s) \<Rightarrow> case run_pins ops m1 of (m2, as) \<Rightarrow> (m2, (k, s) # as))"
| "run_pins (PutPin t k s # ops) m = run_pins ops (stickyPut t k s m)"

text \<open>
  \<open>touched_in_time k e ops\<close>: no operation happens after the pin of conversation \<open>k\<close> runs
  out at \<open>e\<close>, where every request of the conversation restarts the clock and re-pins, if it
  does, the backend \<open>s\<close>.
\<close>

fun touched_in_time :: "string \<Rightarrow> string \<Rightarrow> gotime \<Rightarrow> pin_op list \<Rightarrow> bool" where
  "touched_in_time k s e [] = True"
| "touched_in_time k s e (GetPin t k' # ops) =
     (t \<le> e \<and> touched_in_time k s (if k' = k then t + stickyTTL else e) ops)"
| "touched_in_time k s e (PutPin t k' s' # ops) =
     (t \<le> e \<and> (k' = k \<longrightarrow> s' = s) \<and> touched_in_time k s (if k' = k then t + stickyTTL else e) ops)"

lemma run_pins_kept:
  assumes "gm_wf m" "k \<noteq> []" "s \<noteq> []"
    and "gm_get m k = Some \<lparr>pin_serverID = s, pin_expires = e\<rparr>" "touched_in_time k s e ops"
  shows "\<forall>a. (k, a) \<in> set (snd (run_pins ops m)) \<longrightarrow> a = s"
  using assms
proof (induction ops arbitrary: m e)
  case Nil
  then show ?case by simp
next
  case (Cons op ops)
  show ?case
  proof (cases op)
    case (GetPin t k')
    let ?e = "if k' = k then t + stickyTTL else e"
    have wf: "gm_wf (fst (stickyGet t k' m))" using Cons.prems(1) by (rule stickyGet_wf)
    have "gm_get (fst (stickyGet t k' m)) k = Some \<lparr>pin_serverID = s, pin_expires = ?e\<rparr>"
      using Cons.prems GetPin stickyGet_other [of k k' t m]
      by (cases "k' = k") (auto simp: stickyGet_def go_map)
    moreover have "touched_in_time k s ?e ops" using Cons.prems GetPin by simp
    ultimately have "\<forall>a. (k, a) \<in> set (snd (run_pins ops (fst (stickyGet t k' m)))) \<longrightarrow> a = s"
      by (rule Cons.IH [OF wf Cons.prems(2,3)])
    moreover have "k' = k \<Longrightarrow> snd (stickyGet t k' m) = s"
      using Cons.prems GetPin by (auto simp: stickyGet_def)
    ultimately show ?thesis by (auto simp: GetPin split_beta)
  next
    case (PutPin t k' s')
    let ?e = "if k' = k then t + stickyTTL else e"
    have wf: "gm_wf (stickyPut t k' s' m)" using Cons.prems(1) by (rule stickyPut_wf)
    have "gm_get (stickyPut t k' s' m) k = Some \<lparr>pin_serverID = s, pin_expires = ?e\<rparr>"
    proof (cases "k' = k")
      case True
      then show ?thesis
        using Cons.prems PutPin by (simp add: stickyPut_def pinmap.put_same)
    next
      case False
      then show ?thesis
        using stickyPut_other [OF Cons.prems(1) not_sym [OF False] Cons.prems(4)] Cons.prems(5) PutPin by simp
    qed
    moreover have "touched_in_time k s ?e ops" using Cons.prems PutPin by simp
    ultimately show ?thesis using Cons.IH [OF wf Cons.prems(2,3)] PutPin by simp
  qed
qed

text \<open>
  C31: Affinity. Once a conversation is pinned to a backend, every later request of that
  conversation is sent back to it, whatever other conversations do to the store meanwhile
  (inserting, expiring, sweeping), as long as no operation comes later than the thirty
  minutes that each request of the conversation grants anew.
\<close>
theorem conversation_stays_pinned:
  assumes "gm_wf m" "k \<noteq> []" "s \<noteq> []" "touched_in_time k s (t + stickyTTL) ops"
  shows "\<forall>a. (k, a) \<in> set (snd (run_pins ops (stickyPut t k s m))) \<longrightarrow> a = s"
proof (rule run_pins_kept)
  show "gm_get (stickyPut t k s m) k = Some \<lparr>pin_serverID = s, pin_expires = t + stickyTTL\<rparr>"
    using assms by (simp add: stickyPut_def pinmap.put_same)
qed (use assms in \<open>simp_all add: stickyPut_wf\<close>)

theorem conversation_stays_pinned_witness:
  "{a. (''c1'', a) \<in> set (snd (run_pins
      [GetPin Minute ''c1'', PutPin Minute ''c2'' ''b'', GetPin (20 * Minute) ''c1'', GetPin (45 * Minute) ''c1'']
      (stickyPut 0 ''c1'' ''a'' [])))} \<subseteq> {''a''}"
proof -
  have "\<forall>a. (''c1'', a) \<in> set (snd (run_pins
      [GetPin Minute ''c1'', PutPin Minute ''c2'' ''b'', GetPin (20 * Minute) ''c1'', GetPin (45 * Minute) ''c1'']
      (stickyPut 0 ''c1'' ''a'' []))) \<longrightarrow> a = ''a''"
    by (rule conversation_stays_pinned) (simp_all add: stickyTTL_def duration_defs)
  then show ?thesis by blast
qed

text \<open>
  A pin the conversation has not used for more than thirty minutes is gone (the lookup
  answers none and removes it), and storing a pin into a full store leaves exactly the
  unexpired pins of the other conversations.
\<close>
theorem stale_pins_are_dropped:
  assumes "gm_wf m" "k \<noteq> []" "s \<noteq> []"
  shows "(t + stickyTTL < now \<longrightarrow>
           snd (stickyGet now k (stickyPut t k s m)) = [] \<and>
           gm_get (fst (stickyGet now k (stickyPut t k s m))) k = None) \<and>
         (stickySweepAt \<le> length m \<longrightarrow> (\<forall>k'. k' \<noteq> k \<longrightarrow>
           gm_get (stickyPut t k s m) k' =
             (case gm_get m k' of None \<Rightarrow> None | Some p \<Rightarrow> if pin_expires p < t then None else Some p)))"
proof -
  have "gm_get (stickyPut t k s m) k' =
      (case gm_get m k' of None \<Rightarrow> None | Some p \<Rightarrow> if pin_expires p < t then None else Some p)"
    if "stickySweepAt \<le> length m" "k' \<noteq> k" for k'
    using assms pinmap.put_full_keeps_only_live [OF assms(1) that]
    by (simp add: stickyPut_def pinmap.live_def)
  then show ?thesis
    using assms by (simp add: stickyGet_def stickyPut_def pinmap.put_same go_map)
qed

theorem stale_pins_are_dropped_witness:
  "snd (stickyGet (31 * Minute) ''c1'' (stickyPut 0 ''c1'' ''a'' [])) = []"
  using stale_pins_are_dropped [of "[]" "''c1''" "''a''" 0 "31 * Minute"]
  by (simp add: stickyTTL_def duration_defs)

text \<open>
  A decision is served from the cache exactly for its time to live. A stored decision is
  returned unchanged up to and including the instant its lifetime ends and not after it, a
  lookup does not prolong it, and a lifetime of zero or less stores nothing.
\<close>
theorem jevCache_lifetime:
  assumes "gm_wf m" "key \<noteq> []" "0 < ttl"
  shows "snd (jevCacheGet now key (jevCachePut t key out ttl m)) = (if now \<le> t + ttl then Some out else None) \<and>
         (now \<le> t + ttl \<longrightarrow> fst (jevCacheGet now key (jevCachePut t key out ttl m)) = jevCachePut t key out ttl m) \<and>
         (\<forall>ttl' \<le> 0. jevCachePut t key out ttl' m = m)"
  using assms by (simp add: jevCacheGet_def jevCachePut_def cachemap.put_same)

theorem jevCache_lifetime_witness:
  "snd (jevCacheGet 60 ''k'' (jevCachePut 0 ''k''
      \<lparr>jo_Choice = ''m'', jo_Confidence = 1, jo_LatencyMs = 5, jo_Model = ''d'', jo_Reason = ''jev'',
       jo_InputTokens = 1, jo_OutputTokens = 1, jo_Scores = []\<rparr> 60 [])) \<noteq> None"
  using jevCache_lifetime [of "[]" "''k''" 60 60 0] by simp

end
