(* ===== verification/RawJson.thy ===== *)
theory RawJson
  imports JsonPrint JevText
begin

text \<open>
  JSON values that keep the bytes they were read from, which is what \<open>json.RawMessage\<close>
  fields hold: \<open>src/convert\<close> forwards tool inputs, schemas and tool outputs as they were
  spelled. The parser is the one of \<open>Unmarshal\<close> with the extent of every value kept, and
  \<open>UnmarshalRaw_erases\<close> shows that forgetting the extents gives \<open>Unmarshal\<close> back. The second
  half is \<open>json.Marshal\<close> of values that hold such bytes.
\<close>

datatype rjson =
    RScalar string json
  | RArr string "rjson list"
  | RObj string "(string \<times> rjson) list"

fun raw_text :: "rjson \<Rightarrow> string" where
  "raw_text (RScalar t _) = t"
| "raw_text (RArr t _) = t"
| "raw_text (RObj t _) = t"

fun erase :: "rjson \<Rightarrow> json" where
  "erase (RScalar _ v) = v"
| "erase (RArr _ vs) = JArr (map erase vs)"
| "erase (RObj _ kvs) = JObj (map (\<lambda>kv. (fst kv, erase (snd kv))) kvs)"

subsection \<open>Tokens with their extents\<close>

text \<open>A position is the number of bytes that are left; a token runs from its first to its second one.\<close>

type_synonym ptok = "json_tok \<times> nat \<times> nat"

function lex_extents :: "string \<Rightarrow> ptok list option" where
  "lex_extents s = (case s of
     [] \<Rightarrow> Some []
   | c # cs \<Rightarrow>
       if json_space c then lex_extents cs
       else case lex_tok s of
              None \<Rightarrow> None
            | Some (k, t) \<Rightarrow> map_option ((#) (k, length s, length t)) (lex_extents t))"
  by pat_completeness auto
termination
  by (relation "measure length") (auto dest: lex_tok_shorter)

declare lex_extents.simps [simp del]

lemma lex_extents_tokens: "map_option (map fst) (lex_extents s) = lex_json s"
proof (induction s rule: lex_json.induct)
  case (1 s)
  show ?case
  proof (cases s)
    case Nil
    then show ?thesis by (simp add: lex_extents.simps lex_json.simps)
  next
    case (Cons c cs)
    note sim = lex_extents.simps [of "c # cs"] lex_json.simps [of "c # cs"]
    show ?thesis
    proof (cases "json_space c")
      case True
      then show ?thesis using "1.IH"(1) [OF Cons True] by (simp add: sim Cons)
    next
      case False
      show ?thesis
      proof (cases "lex_tok s")
        case None
        then show ?thesis using False by (simp add: sim Cons)
      next
        case some: (Some kt)
        obtain k t where kt: "kt = (k, t)" by (cases kt)
        have "map_option (map fst) (lex_extents t) = lex_json t"
          using "1.IH"(2) [OF Cons False some kt [symmetric]] .
        then have "lex_json t = map_option (map fst) (lex_extents t)" ..
        then show ?thesis using False some kt by (simp add: sim Cons option.map_comp comp_def)
      qed
    qed
  qed
qed

subsection \<open>The stack machine with extents\<close>

datatype raw_frame = RFArr nat "rjson list" | RFObj nat "(string \<times> rjson) list" string

datatype raw_phase =
    RPVal
  | RPValOrEnd
  | RPKeyOrEnd nat "(string \<times> rjson) list"
  | RPKey nat "(string \<times> rjson) list"
  | RPColon nat "(string \<times> rjson) list" string
  | RPAfter rjson

definition extent :: "string \<Rightarrow> nat \<Rightarrow> nat \<Rightarrow> string" where
  "extent s a b = take (a - b) (drop (length s - a) s)"

fun run_raw :: "string \<Rightarrow> ptok list \<Rightarrow> raw_frame list \<Rightarrow> raw_phase \<Rightarrow> rjson option" where
  "run_raw s [] fs p = (case p of RPAfter v \<Rightarrow> if fs = [] then Some v else None | _ \<Rightarrow> None)"
| "run_raw s ((k, a, b) # ks) fs p = (case p of
     RPKeyOrEnd st acc \<Rightarrow>
       (case k of TStr key \<Rightarrow> run_raw s ks fs (RPColon st acc key)
                | TRBrace \<Rightarrow> run_raw s ks fs (RPAfter (RObj (extent s st b) (rev acc))) | _ \<Rightarrow> None)
   | RPKey st acc \<Rightarrow> (case k of TStr key \<Rightarrow> run_raw s ks fs (RPColon st acc key) | _ \<Rightarrow> None)
   | RPColon st acc key \<Rightarrow> (case k of TColon \<Rightarrow> run_raw s ks (RFObj st acc key # fs) RPVal | _ \<Rightarrow> None)
   | RPAfter v \<Rightarrow>
       (case fs of
          [] \<Rightarrow> None
        | RFArr st vs # fs' \<Rightarrow>
            (case k of TComma \<Rightarrow> run_raw s ks (RFArr st (v # vs) # fs') RPVal
                     | TRBracket \<Rightarrow> run_raw s ks fs' (RPAfter (RArr (extent s st b) (rev (v # vs)))) | _ \<Rightarrow> None)
        | RFObj st acc key # fs' \<Rightarrow>
            (case k of TComma \<Rightarrow> run_raw s ks fs' (RPKey st ((key, v) # acc))
                     | TRBrace \<Rightarrow> run_raw s ks fs' (RPAfter (RObj (extent s st b) (rev ((key, v) # acc)))) | _ \<Rightarrow> None))
   | _ \<Rightarrow>
       (case scalar_of k of
          Some v \<Rightarrow> run_raw s ks fs (RPAfter (RScalar (extent s a b) v))
        | None \<Rightarrow>
            (case k of
               TLBracket \<Rightarrow> if length fs < json_depth then run_raw s ks (RFArr a [] # fs) RPValOrEnd else None
             | TLBrace \<Rightarrow> if length fs < json_depth then run_raw s ks fs (RPKeyOrEnd a []) else None
             | TRBracket \<Rightarrow>
                 (case (p, fs) of (RPValOrEnd, RFArr st vs # fs') \<Rightarrow> run_raw s ks fs' (RPAfter (RArr (extent s st b) [])) | _ \<Rightarrow> None)
             | _ \<Rightarrow> None)))"

definition UnmarshalRaw :: "string \<Rightarrow> rjson option" where
  "UnmarshalRaw s = (case lex_extents s of None \<Rightarrow> None | Some ks \<Rightarrow> run_raw s ks [] RPVal)"

abbreviation erase_members :: "(string \<times> rjson) list \<Rightarrow> (string \<times> json) list" where
  "erase_members kvs \<equiv> map (\<lambda>kv. (fst kv, erase (snd kv))) kvs"

fun erase_frame :: "raw_frame \<Rightarrow> json_frame" where
  "erase_frame (RFArr _ vs) = FArr (map erase vs)"
| "erase_frame (RFObj _ acc key) = FObj (erase_members acc) key"

fun erase_phase :: "raw_phase \<Rightarrow> json_phase" where
  "erase_phase RPVal = PVal"
| "erase_phase RPValOrEnd = PValOrEnd"
| "erase_phase (RPKeyOrEnd _ acc) = PKeyOrEnd (erase_members acc)"
| "erase_phase (RPKey _ acc) = PKey (erase_members acc)"
| "erase_phase (RPColon _ acc key) = PColon (erase_members acc) key"
| "erase_phase (RPAfter v) = PAfter (erase v)"

lemma run_raw_erases:
  "map_option erase (run_raw s ks fs p) = run_json (map fst ks) (map erase_frame fs) (erase_phase p)"
proof (induction ks arbitrary: fs p)
  case Nil
  show ?case by (cases p) simp_all
next
  case outer: (Cons x ks)
  obtain k a b where x: "x = (k, a, b)" by (cases x)
  show ?case
  proof (cases p)
    case RPVal
    then show ?thesis by (cases k) (simp_all add: x scalar_of_def outer.IH)
  next
    case RPValOrEnd
    show ?thesis
    proof (cases fs)
      case Nil
      then show ?thesis using RPValOrEnd by (cases k) (simp_all add: x scalar_of_def outer.IH)
    next
      case (Cons f fs')
      then show ?thesis using RPValOrEnd by (cases f; cases k) (simp_all add: x scalar_of_def outer.IH)
    qed
  next
    case (RPKeyOrEnd st acc)
    then show ?thesis by (cases k) (simp_all add: x outer.IH rev_map)
  next
    case (RPKey st acc)
    then show ?thesis by (cases k) (simp_all add: x outer.IH)
  next
    case (RPColon st acc key)
    then show ?thesis by (cases k) (simp_all add: x outer.IH)
  next
    case (RPAfter v)
    show ?thesis
    proof (cases fs)
      case Nil
      then show ?thesis using RPAfter by (simp add: x)
    next
      case (Cons f fs')
      then show ?thesis using RPAfter by (cases f; cases k) (simp_all add: x outer.IH rev_map)
    qed
  qed
qed

text \<open>Keeping the bytes changes nothing of what is read.\<close>

theorem UnmarshalRaw_erases: "map_option erase (UnmarshalRaw s) = Unmarshal s"
proof -
  have "lex_json s = map_option (map fst) (lex_extents s)" by (simp add: lex_extents_tokens)
  then show ?thesis
    by (simp add: UnmarshalRaw_def Unmarshal_def run_raw_erases split: option.splits)
qed

subsection \<open>Decoding\<close>

type_synonym 'a rdecoder = "rjson \<Rightarrow> 'a \<Rightarrow> 'a option"

definition plain :: "'a decoder \<Rightarrow> 'a rdecoder" where
  "plain d r = d (erase r)"

definition keep_raw :: "(rjson option \<Rightarrow> 'a \<Rightarrow> 'a) \<Rightarrow> 'a rdecoder" where
  "keep_raw upd r x = Some (upd (Some r) x)"

definition field_named :: "(string \<times> 'd) list \<Rightarrow> string \<Rightarrow> 'd option" where
  "field_named fs k = (case map_of fs k of
     Some d \<Rightarrow> Some d
   | None \<Rightarrow> map_option snd (find (\<lambda>f. foldName (fst f) = foldName k) fs))"

fun rdec_fields :: "(string \<times> 'a rdecoder) list \<Rightarrow> (string \<times> rjson) list \<Rightarrow> 'a \<Rightarrow> 'a option" where
  "rdec_fields fs [] x = Some x"
| "rdec_fields fs ((k, v) # kvs) x = (case field_named fs k of
     None \<Rightarrow> rdec_fields fs kvs x
   | Some d \<Rightarrow> (case d v x of None \<Rightarrow> None | Some y \<Rightarrow> rdec_fields fs kvs y))"

definition is_null :: "rjson \<Rightarrow> bool" where
  "is_null r \<longleftrightarrow> erase r = JNull"

definition rdec_struct :: "(string \<times> 'a rdecoder) list \<Rightarrow> 'a rdecoder" where
  "rdec_struct fs r x = (case r of RObj _ kvs \<Rightarrow> rdec_fields fs kvs x | _ \<Rightarrow> if is_null r then Some x else None)"

fun rdec_elems :: "'b rdecoder \<Rightarrow> 'b \<Rightarrow> rjson list \<Rightarrow> 'b list option" where
  "rdec_elems d zero [] = Some []"
| "rdec_elems d zero (v # vs) = (case d v zero of
     None \<Rightarrow> None
   | Some y \<Rightarrow> map_option ((#) y) (rdec_elems d zero vs))"

definition rdec_slice :: "'b rdecoder \<Rightarrow> 'b \<Rightarrow> ('b list \<Rightarrow> 'a \<Rightarrow> 'a) \<Rightarrow> 'a rdecoder" where
  "rdec_slice d zero upd r x = (case r of
     RArr _ vs \<Rightarrow> map_option (\<lambda>ys. upd ys x) (rdec_elems d zero vs)
   | _ \<Rightarrow> if is_null r then Some (upd [] x) else None)"

definition rdec_ptr :: "'b rdecoder \<Rightarrow> 'b \<Rightarrow> ('b option \<Rightarrow> 'a \<Rightarrow> 'a) \<Rightarrow> ('a \<Rightarrow> 'b option) \<Rightarrow> 'a rdecoder" where
  "rdec_ptr d zero upd get r x =
     (if is_null r then Some (upd None x)
      else case d r (case get x of Some b \<Rightarrow> b | None \<Rightarrow> zero) of
             None \<Rightarrow> None | Some b \<Rightarrow> Some (upd (Some b) x))"

definition dec_bool_ptr :: "(bool option \<Rightarrow> 'a \<Rightarrow> 'a) \<Rightarrow> 'a decoder" where
  "dec_bool_ptr upd v x = (case v of JNull \<Rightarrow> Some (upd None x) | JBool b \<Rightarrow> Some (upd (Some b) x) | _ \<Rightarrow> None)"

text \<open>A \<open>*float64\<close> keeps the literal it was decoded from; one beyond the range is an error.\<close>

definition dec_float_ptr :: "(string option \<Rightarrow> 'a \<Rightarrow> 'a) \<Rightarrow> 'a decoder" where
  "dec_float_ptr upd v x = (case v of
     JNull \<Rightarrow> Some (upd None x)
   | JNum n \<Rightarrow> if floats_ok (JNum n) then Some (upd (Some n) x) else None
   | _ \<Rightarrow> None)"

definition rdecode :: "'a rdecoder \<Rightarrow> 'a \<Rightarrow> string \<Rightarrow> 'a option" where
  "rdecode d zero body = (case UnmarshalRaw body of None \<Rightarrow> None | Some r \<Rightarrow> d r zero)"

text \<open>\<open>json.Unmarshal\<close> of a kept value into a string.\<close>

definition raw_string :: "rjson \<Rightarrow> string option" where
  "raw_string r = dec_text (erase r) []"

subsection \<open>Encoding\<close>

text \<open>The value trees the converters build, with kept bytes and decoded values inside.\<close>

datatype gjson =
    GNull
  | GBool bool
  | GInt int
  | GFloat string
  | GStr string
  | GArr "gjson list"
  | GObj "(string \<times> gjson) list"
  | GRaw rjson
  | GAny json

text \<open>
  \<open>json.Marshal\<close> compacts the bytes of a \<open>RawMessage\<close>: white space outside strings goes, and
  inside them the HTML characters and the two line separators are escaped.
\<close>

fun compact :: "bool \<Rightarrow> string \<Rightarrow> string" where
  "compact inside [] = []"
| "compact inside (c # cs) =
     (if \<not> inside then (if json_space c then compact False cs else c # compact (c = CHR 0x22) cs)
      else if c = CHR 0x22 then c # compact False cs
      else if c = CHR 0x5C then (case cs of [] \<Rightarrow> [c] | d # ds \<Rightarrow> c # d # compact True ds)
      else if c = CHR ''<'' \<or> c = CHR ''>'' \<or> c = CHR ''&'' then u00 (byte_of c) @ compact True cs
      else (case cs of
              d # e # es \<Rightarrow>
                if [c, d, e] \<in> set line_separators then marshal_rune [c, d, e] @ compact True es
                else c # compact True cs
            | _ \<Rightarrow> c # compact True cs))"

fun MarshalG :: "(string \<Rightarrow> string) \<Rightarrow> gjson \<Rightarrow> string" where
  "MarshalG fnum GNull = ''null''"
| "MarshalG fnum (GBool b) = (if b then ''true'' else ''false'')"
| "MarshalG fnum (GInt n) = Itoa n"
| "MarshalG fnum (GFloat n) = fnum n"
| "MarshalG fnum (GStr s) = marshal_string s"
| "MarshalG fnum (GArr vs) = ''['' @ Join (map (MarshalG fnum) vs) '','' @ '']''"
| "MarshalG fnum (GObj kvs) =
     ''{'' @ Join (map (\<lambda>(k, t). marshal_string k @ '':'' @ t)
                    (map_entries (map (\<lambda>kv. (fst kv, MarshalG fnum (snd kv))) kvs))) '','' @ ''}''"
| "MarshalG fnum (GRaw r) = compact False (raw_text r)"
| "MarshalG fnum (GAny v) = Marshal fnum v"

lemma raw_example:
  "map_option raw_text (UnmarshalRaw ''  [1, {} ] '') = Some ''[1, {} ]''"
  "map_option (MarshalG id \<circ> GRaw) (UnmarshalRaw ''  [1, {} ] '') = Some ''[1,{}]''"
  by code_simp+

end
