(* ===== verification/Plan.thy ===== *)
theory Plan
  imports Store
begin

text \<open>
  \<open>src/convert/dialect.go\<close>, \<open>src/convert/plan.go\<close> and the error type of
  \<open>src/convert/errors.go\<close>: which API dialect a path carries, and the decision which dialect
  one attempt speaks to its backend. A dialect is the name the code gives it.
\<close>

type_synonym Dialect = string

definition Chat :: Dialect where "Chat = ''chat''"
definition Messages :: Dialect where "Messages = ''messages''"
definition Responses :: Dialect where "Responses = ''responses''"
definition Legacy :: Dialect where "Legacy = ''completions''"

lemmas dialect_defs = Chat_def Messages_def Responses_def Legacy_def

definition DialectForPath :: "string \<Rightarrow> Dialect" where
  "DialectForPath path =
     (if Contains path ''/count_tokens'' then []
      else if Contains path ''/messages'' then Messages
      else if Contains path ''/chat/completions'' then Chat
      else if Contains path ''/responses'' then Responses
      else if Contains path ''/completions'' then Legacy
      else [])"

definition PathFor :: "Dialect \<Rightarrow> string" where
  "PathFor d =
     (if d = Chat then ''/v1/chat/completions''
      else if d = Messages then ''/v1/messages''
      else if d = Responses then ''/v1/responses''
      else [])"

record conv_error =
  ce_Code :: string
  ce_Field :: string
  ce_Msg :: string

definition CodeNoDialect :: string where "CodeNoDialect = ''no_dialect''"
definition CodeField :: string where "CodeField = ''unsupported_field''"

record Plan =
  plan_From :: Dialect
  plan_Dialect :: Dialect
  plan_Path :: string
  plan_Forced :: bool

definition Edge :: "Plan \<Rightarrow> string" where
  "Edge p = (if plan_Dialect p = plan_From p \<or> plan_From p = [] then []
             else plan_From p @ ''>'' @ plan_Dialect p)"

record Options =
  opt_MaxTokens :: int
  opt_DropParams :: bool

definition OptionsFrom :: "ConvertSettings \<Rightarrow> Options" where
  "OptionsFrom s = \<lparr>opt_MaxTokens = MaxTokens s, opt_DropParams = cs_DropParams s\<rparr>"

definition declaredPaths :: "ServerProtocol list \<Rightarrow> string list" where
  "declaredPaths protocols = map proto_Path protocols"

definition no_dialect :: "string \<Rightarrow> conv_error" where
  "no_dialect msg = \<lparr>ce_Code = CodeNoDialect, ce_Field = [], ce_Msg = msg\<rparr>"

definition Decide :: "Dialect \<Rightarrow> string \<Rightarrow> ServerProtocol list \<Rightarrow> string \<Rightarrow> conv_error + Plan" where
  "Decide client path protocols forced =
     (let ident = \<lparr>plan_From = client, plan_Dialect = client, plan_Path = path, plan_Forced = False\<rparr>
      in if forced = ''off'' \<or> DialectForPath path = [] then Inr ident
         else if forced \<noteq> [] \<and> forced \<noteq> ''auto'' then
           (case Cut forced ''>'' of (from, dest, ok) \<Rightarrow>
              if \<not> ok \<or> from \<noteq> client then
                Inl (no_dialect (''convert '' @ go_quote forced @ '' does not apply to a '' @ client @ '' request''))
              else if (from = Messages \<or> from = Responses) \<and> dest = Chat then
                Inr \<lparr>plan_From = client, plan_Dialect = Chat, plan_Path = PathFor Chat, plan_Forced = True\<rparr>
              else Inl (no_dialect (''conversion '' @ forced @ '' is not supported'')))
         else if protocols = [] then Inr ident
         else if client = Legacy then
           Inl \<lparr>ce_Code = CodeNoDialect, ce_Field = ''path'',
                ce_Msg = ''converting /v1/completions is not supported: the chat template is applied by the backend''\<rparr>
         else if \<exists>p \<in> set protocols. DialectForPath (proto_Path p) = client then Inr ident
         else case (if client = Messages \<or> client = Responses
                    then List.find (\<lambda>p. DialectForPath (proto_Path p) = Chat) protocols else None) of
                Some p \<Rightarrow> Inr \<lparr>plan_From = client, plan_Dialect = Chat, plan_Path = proto_Path p, plan_Forced = False\<rparr>
              | None \<Rightarrow> Inl (no_dialect (''backend serves '' @ Join (declaredPaths protocols) '', '' @ '', not '' @ path @
                               '' and no conversion exists for it'')))"

subsection \<open>Which endpoints carry which dialect\<close>

lemma DialectForPath_range:
  "DialectForPath p \<in> {[], Chat, Messages, Responses, Legacy}"
  by (simp add: DialectForPath_def)

lemma PathFor_roundtrip:
  "d \<in> {Chat, Messages, Responses} \<Longrightarrow> DialectForPath (PathFor d) = d"
  by (auto simp: PathFor_def DialectForPath_def dialect_defs Contains_def HasPrefix_def)

lemma find_SomeD: "List.find P xs = Some x \<Longrightarrow> P x \<and> x \<in> set xs"
  by (induction xs) (auto split: if_splits)

lemma find_None_iff_all: "List.find P xs = None \<longleftrightarrow> (\<forall>x \<in> set xs. \<not> P x)"
  by (induction xs) auto

abbreviation identity_plan :: "Dialect \<Rightarrow> string \<Rightarrow> Plan" where
  "identity_plan c path \<equiv> \<lparr>plan_From = c, plan_Dialect = c, plan_Path = path, plan_Forced = False\<rparr>"

abbreviation chat_plan :: "Dialect \<Rightarrow> string \<Rightarrow> bool \<Rightarrow> Plan" where
  "chat_plan c path f \<equiv> \<lparr>plan_From = c, plan_Dialect = Chat, plan_Path = path, plan_Forced = f\<rparr>"

lemma Decide_off:
  "forced = ''off'' \<or> DialectForPath path = [] \<Longrightarrow> Decide c path ps forced = Inr (identity_plan c path)"
  by (simp add: Decide_def)

lemma Cut_edge: "Cut forced ''>'' = (from, dest, True) \<Longrightarrow> forced = from @ ''>'' @ dest"
  using Index_split [of forced "''>''"] by (auto simp: Cut_def split: option.splits)

lemma Cut_known_edge:
  "c \<in> {Messages, Responses} \<Longrightarrow> Cut (c @ ''>'' @ dest) ''>'' = (c, dest, True)"
  by (auto simp: Cut_def dialect_defs)

lemma Decide_forced:
  assumes "forced \<notin> {''off'', [], ''auto''}" "DialectForPath path \<noteq> []"
  shows "(\<exists>msg. Decide c path ps forced = Inl (no_dialect msg)) \<and>
           \<not> (c \<in> {Messages, Responses} \<and> forced = c @ ''>chat'') \<or>
         Decide c path ps forced = Inr (chat_plan c (PathFor Chat) True) \<and>
           c \<in> {Messages, Responses} \<and> forced = c @ ''>chat''"
proof (cases "c \<in> {Messages, Responses} \<and> forced = c @ ''>chat''")
  case True
  then have "Cut forced ''>'' = (c, Chat, True)" using Cut_known_edge [of c Chat] by (simp add: Chat_def)
  then show ?thesis using True assms by (auto simp: Decide_def)
next
  case False
  obtain "from" dest ok where cut: "Cut forced ''>'' = (from, dest, ok)" by (metis prod_cases3)
  have "\<not> (ok \<and> from = c \<and> (c = Messages \<or> c = Responses) \<and> dest = Chat)"
    using False Cut_edge [of forced "from" dest] cut by (auto simp: Chat_def)
  then show ?thesis using assms cut False by (auto simp: Decide_def)
qed

lemma Decide_auto:
  assumes "forced \<in> {[], ''auto''}" "DialectForPath path \<noteq> []"
  shows "Decide c path ps forced =
    (if ps = [] then Inr (identity_plan c path)
     else if c = Legacy then Decide c path ps forced
     else if \<exists>p \<in> set ps. DialectForPath (proto_Path p) = c then Inr (identity_plan c path)
     else case (if c = Messages \<or> c = Responses
                then List.find (\<lambda>p. DialectForPath (proto_Path p) = Chat) ps else None) of
            Some p \<Rightarrow> Inr (chat_plan c (proto_Path p) False)
          | None \<Rightarrow> Inl (no_dialect (''backend serves '' @ Join (declaredPaths ps) '', '' @ '', not '' @ path @
                               '' and no conversion exists for it'')))"
  using assms unfolding Decide_def Let_def by (cases "ps = []") auto

lemma Decide_legacy:
  assumes "forced \<in> {[], ''auto''}" "DialectForPath path \<noteq> []" "ps \<noteq> []"
  shows "\<exists>e. Decide Legacy path ps forced = Inl e \<and> ce_Code e = CodeNoDialect"
  using assms unfolding Decide_def Let_def by auto

text \<open>
  An attempt that is sent at all speaks either the client's own dialect on the client's
  own path, or Chat Completions on a path that carries Chat Completions (the canonical one
  when the configuration names the edge, else one the backend declares); only Messages and
  Responses requests are ever moved, and never when the configuration or the client's header
  says off or when the path carries no dialect.
\<close>
theorem Decide_edges:
  assumes "Decide (DialectForPath path) path protocols forced = Inr p"
  shows "(plan_From p = DialectForPath path) \<and>
    ((plan_Dialect p = DialectForPath path \<and> plan_Path p = path \<and> Edge p = []) \<or>
     (DialectForPath path \<in> {Messages, Responses} \<and> plan_Dialect p = Chat \<and>
      DialectForPath (plan_Path p) = Chat \<and> forced \<noteq> ''off'' \<and>
      (if plan_Forced p then forced = DialectForPath path @ ''>chat'' \<and> plan_Path p = PathFor Chat
       else plan_Path p \<in> set (declaredPaths protocols) \<and>
            (\<forall>q \<in> set protocols. DialectForPath (proto_Path q) \<noteq> DialectForPath path))))"
proof -
  let ?c = "DialectForPath path"
  have pc: "DialectForPath (PathFor Chat) = Chat" by (simp add: PathFor_roundtrip)
  consider "forced = ''off'' \<or> ?c = []" | "forced \<notin> {''off'', [], ''auto''}" "?c \<noteq> []"
    | "forced \<in> {[], ''auto''}" "?c \<noteq> []" by auto
  then show ?thesis
  proof cases
    case 1
    then show ?thesis using assms Decide_off [OF 1, of ?c protocols] by (auto simp: Edge_def)
  next
    case 2
    then show ?thesis using assms pc Decide_forced [OF 2, of ?c protocols] by auto
  next
    case 3
    have "?c = Legacy \<Longrightarrow> protocols = []" using Decide_legacy [OF 3, of protocols] assms by auto
    moreover note Decide_auto [OF 3, of ?c protocols]
    moreover have "forced \<noteq> ''off''" using 3 by auto
    ultimately show ?thesis
      using assms
      by (auto simp: Edge_def declaredPaths_def split: if_splits option.splits dest!: find_SomeD)
  qed
qed

theorem Decide_edges_witness:
  "Edge \<lparr>plan_From = ''messages'', plan_Dialect = ''chat'', plan_Path = ''/chat/completions'', plan_Forced = False\<rparr> =
     ''messages>chat'' \<and>
   DialectForPath ''/chat/completions'' = Chat"
  using Decide_edges [of "''/v1/messages''" "[\<lparr>proto_Path = ''/chat/completions'', proto_State = False\<rparr>]" "[]"
      "\<lparr>plan_From = ''messages'', plan_Dialect = ''chat'', plan_Path = ''/chat/completions'', plan_Forced = False\<rparr>"]
  by (simp add: Decide_def DialectForPath_def Edge_def dialect_defs Contains_def HasPrefix_def)

text \<open>
  A request is refused exactly when its path carries a dialect, conversion is not switched
  off, and either a forced edge does not start at the request's dialect or is not one of the
  two implemented ones, or, with nothing forced, the backend declares protocols that include
  neither the client's dialect nor, for Messages and Responses, Chat Completions. The legacy
  completions dialect is refused by every backend that declares anything. Every refusal has
  the code \<open>no_dialect\<close>.
\<close>
theorem Decide_refusals:
  "(\<exists>e. Decide (DialectForPath path) path protocols forced = Inl e \<and> ce_Code e = CodeNoDialect) \<longleftrightarrow>
   (let c = DialectForPath path; ds = DialectForPath ` set (declaredPaths protocols) in
      c \<noteq> [] \<and> forced \<noteq> ''off'' \<and>
      (if forced \<noteq> [] \<and> forced \<noteq> ''auto''
       then forced \<noteq> c @ ''>chat'' \<or> c \<notin> {Messages, Responses}
       else protocols \<noteq> [] \<and> (c = Legacy \<or> (c \<notin> ds \<and> (c = Chat \<or> Chat \<notin> ds)))))"
proof -
  let ?c = "DialectForPath path"
  have r: "?c \<in> {[], Chat, Messages, Responses, Legacy}" by (rule DialectForPath_range)
  consider "forced = ''off'' \<or> ?c = []" | "forced \<notin> {''off'', [], ''auto''}" "?c \<noteq> []"
    | "forced \<in> {[], ''auto''}" "?c \<noteq> []" by auto
  then show ?thesis
  proof cases
    case 1
    then show ?thesis using Decide_off [OF 1, of ?c protocols] by auto
  next
    case 2
    then show ?thesis using Decide_forced [OF 2, of ?c protocols] by (auto simp: no_dialect_def Let_def)
  next
    case 3
    have leg: "?c = Legacy \<Longrightarrow> protocols \<noteq> [] \<Longrightarrow> ?thesis"
      using Decide_legacy [OF 3, of protocols] 3 by (auto simp: Let_def)
    have "?thesis" if l: "?c \<noteq> Legacy \<or> protocols = []"
    proof (cases "protocols = [] \<or> ?c \<in> DialectForPath ` set (declaredPaths protocols)")
      case True
      then have "Decide ?c path protocols forced = Inr (identity_plan ?c path)"
        using Decide_auto [OF 3, of ?c protocols] l by (auto simp: declaredPaths_def)
      then show ?thesis using True l 3 by (auto simp: Let_def)
    next
      case False
      then have "Decide ?c path protocols forced =
          (case (if ?c = Messages \<or> ?c = Responses
                 then List.find (\<lambda>p. DialectForPath (proto_Path p) = Chat) protocols else None) of
             Some p \<Rightarrow> Inr (chat_plan ?c (proto_Path p) False)
           | None \<Rightarrow> Inl (no_dialect (''backend serves '' @ Join (declaredPaths protocols) '', '' @ '', not '' @
                               path @ '' and no conversion exists for it'')))"
      proof -
        have "\<not> (\<exists>p \<in> set protocols. DialectForPath (proto_Path p) = ?c)"
          using False by (metis declaredPaths_def imageI list.set_map)
        then show ?thesis using Decide_auto [OF 3, of ?c protocols] l False by simp
      qed
      moreover have "(List.find (\<lambda>p. DialectForPath (proto_Path p) = Chat) protocols = None) =
          (Chat \<notin> DialectForPath ` set (declaredPaths protocols))"
        unfolding find_None_iff_all declaredPaths_def set_map image_image image_iff by metis
      moreover have "?c = Chat \<or> ?c = Messages \<or> ?c = Responses" using r 3 l False by auto
      ultimately show ?thesis
        using False 3 l by (auto simp: Let_def no_dialect_def dialect_defs split: option.splits)
    qed
    then show ?thesis using leg by blast
  qed
qed

theorem Decide_refusals_witness:
  "\<exists>e. Decide Legacy ''/v1/completions'' [\<lparr>proto_Path = ''/v1/completions'', proto_State = False\<rparr>] [] = Inl e \<and>
       ce_Code e = CodeNoDialect"
proof -
  have "DialectForPath ''/v1/completions'' = Legacy" by code_simp
  then show ?thesis
    using Decide_refusals [of "''/v1/completions''" "[\<lparr>proto_Path = ''/v1/completions'', proto_State = False\<rparr>]" "[]"]
    by (simp add: Let_def dialect_defs)
qed

end
