(* ===== verification/MessagesChat.thy ===== *)
theory MessagesChat
  imports RawJson Plan "HOL-Library.Sublist" "HOL-Library.Multiset"
begin

text \<open>
  The request conversion for a Messages client of a Chat Completions backend
  (\<open>src/convert/anthropic.go\<close>). A conversion gives a refusal, or its result with the notes
  that tell what it cost. The text \<open>encoding/json\<close> gives for an undecodable body is the
  argument \<open>jerr\<close>, the rendering of a \<open>float64\<close> the argument \<open>fnum\<close>.
\<close>

subsection \<open>Refusals and notes\<close>

type_synonym 'a conv = "conv_error + 'a \<times> string list"

definition settled :: "'a \<Rightarrow> 'a conv" where "settled x = Inr (x, [])"

fun bindc :: "'a conv \<Rightarrow> ('a \<Rightarrow> 'b conv) \<Rightarrow> 'b conv" where
  "bindc (Inl e) f = Inl e"
| "bindc (Inr (x, ns)) f = (case f x of Inl e \<Rightarrow> Inl e | Inr (y, ms) \<Rightarrow> Inr (y, ns @ ms))"

fun mapc :: "('a \<Rightarrow> 'b conv) \<Rightarrow> 'a list \<Rightarrow> 'b list conv" where
  "mapc f [] = settled []"
| "mapc f (x # xs) = bindc (f x) (\<lambda>y. bindc (mapc f xs) (\<lambda>ys. settled (y # ys)))"

definition field_error :: "string \<Rightarrow> string \<Rightarrow> conv_error" where
  "field_error field msg = \<lparr>ce_Code = CodeField, ce_Field = field, ce_Msg = msg\<rparr>"

definition refuseMsg :: "string \<Rightarrow> string \<Rightarrow> string" where
  "refuseMsg field detail = field @ '' has no Chat Completions representation ('' @ detail @ '').''"

definition refuse :: "string \<Rightarrow> string \<Rightarrow> 'a conv" where
  "refuse field detail = Inl (field_error field (refuseMsg field detail))"

definition drop_field :: "Options \<Rightarrow> string \<Rightarrow> string \<Rightarrow> unit conv" where
  "drop_field opts field detail =
     (if \<not> opt_DropParams opts
      then Inl (field_error field (refuseMsg field detail @ '' Set settings.convert.drop_params to drop it.''))
      else Inr ((), [field @ ''=dropped'']))"

text \<open>A value with no representation: refused, or dropped with a note.\<close>

definition dropping :: "Options \<Rightarrow> string \<Rightarrow> string \<Rightarrow> 'a \<Rightarrow> 'a conv" where
  "dropping opts field detail x = bindc (drop_field opts field detail) (\<lambda>_. settled x)"

subsection \<open>Requests\<close>

record aSource =
  src_Type :: string
  src_MediaType :: string
  src_Data :: string
  src_URL :: string

record aBlock =
  ab_Type :: string
  ab_Text :: string
  ab_ID :: string
  ab_Name :: string
  ab_Input :: "rjson option"
  ab_ToolUseID :: string
  ab_Content :: "rjson option"
  ab_Source :: "aSource option"

record aMsg =
  am_Role :: string
  am_Content :: "rjson option"

record aTool =
  atl_Name :: string
  atl_Type :: string
  atl_Description :: string
  atl_InputSchema :: "rjson option"

record aRequest =
  aq_Model :: string
  aq_System :: "rjson option"
  aq_Messages :: "aMsg list"
  aq_MaxTokens :: "int option"
  aq_StopSequences :: "string list"
  aq_Temperature :: "string option"
  aq_TopP :: "string option"
  aq_TopK :: "int option"
  aq_Stream :: bool
  aq_Tools :: "aTool list"
  aq_ToolChoice :: "rjson option"
  aq_OutputFormat :: "rjson option"
  aq_Thinking :: "rjson option"
  aq_Metadata :: "string option"

definition rdec_source :: "aSource rdecoder" where
  "rdec_source = plain (dec_struct
     [(''type'', dec_string (\<lambda>s x. x\<lparr>src_Type := s\<rparr>)), (''media_type'', dec_string (\<lambda>s x. x\<lparr>src_MediaType := s\<rparr>)),
      (''data'', dec_string (\<lambda>s x. x\<lparr>src_Data := s\<rparr>)), (''url'', dec_string (\<lambda>s x. x\<lparr>src_URL := s\<rparr>))])"

definition rdec_block :: "aBlock rdecoder" where
  "rdec_block = rdec_struct
     [(''type'', plain (dec_string (\<lambda>s b. b\<lparr>ab_Type := s\<rparr>))), (''text'', plain (dec_string (\<lambda>s b. b\<lparr>ab_Text := s\<rparr>))),
      (''id'', plain (dec_string (\<lambda>s b. b\<lparr>ab_ID := s\<rparr>))), (''name'', plain (dec_string (\<lambda>s b. b\<lparr>ab_Name := s\<rparr>))),
      (''input'', keep_raw (\<lambda>r b. b\<lparr>ab_Input := r\<rparr>)), (''tool_use_id'', plain (dec_string (\<lambda>s b. b\<lparr>ab_ToolUseID := s\<rparr>))),
      (''content'', keep_raw (\<lambda>r b. b\<lparr>ab_Content := r\<rparr>)),
      (''source'', rdec_ptr rdec_source \<lparr>src_Type = [], src_MediaType = [], src_Data = [], src_URL = []\<rparr>
         (\<lambda>s b. b\<lparr>ab_Source := s\<rparr>) ab_Source)]"

definition zero_block :: aBlock where
  "zero_block = \<lparr>ab_Type = [], ab_Text = [], ab_ID = [], ab_Name = [], ab_Input = None, ab_ToolUseID = [],
     ab_Content = None, ab_Source = None\<rparr>"

definition rdec_blocks :: "rjson \<Rightarrow> aBlock list option" where
  "rdec_blocks r = rdec_slice rdec_block zero_block (\<lambda>bs _. bs) r []"

definition rdec_aMsg :: "aMsg rdecoder" where
  "rdec_aMsg = rdec_struct
     [(''role'', plain (dec_string (\<lambda>s m. m\<lparr>am_Role := s\<rparr>))), (''content'', keep_raw (\<lambda>r m. m\<lparr>am_Content := r\<rparr>))]"

definition rdec_aTool :: "aTool rdecoder" where
  "rdec_aTool = rdec_struct
     [(''name'', plain (dec_string (\<lambda>s t. t\<lparr>atl_Name := s\<rparr>))), (''type'', plain (dec_string (\<lambda>s t. t\<lparr>atl_Type := s\<rparr>))),
      (''description'', plain (dec_string (\<lambda>s t. t\<lparr>atl_Description := s\<rparr>))),
      (''input_schema'', keep_raw (\<lambda>r t. t\<lparr>atl_InputSchema := r\<rparr>))]"

text \<open>The decoder's keys are the baseline of the report on dropped keys.\<close>

definition aRequest_fields :: "(string \<times> aRequest rdecoder) list" where
  "aRequest_fields =
     [(''model'', plain (dec_string (\<lambda>s q. q\<lparr>aq_Model := s\<rparr>))),
      (''system'', keep_raw (\<lambda>r q. q\<lparr>aq_System := r\<rparr>)),
      (''messages'', rdec_slice rdec_aMsg \<lparr>am_Role = [], am_Content = None\<rparr> (\<lambda>ms q. q\<lparr>aq_Messages := ms\<rparr>)),
      (''max_tokens'', plain (dec_int_ptr (\<lambda>n q. q\<lparr>aq_MaxTokens := n\<rparr>))),
      (''stop_sequences'', plain (dec_slice dec_text [] (\<lambda>ss q. q\<lparr>aq_StopSequences := ss\<rparr>))),
      (''temperature'', plain (dec_float_ptr (\<lambda>n q. q\<lparr>aq_Temperature := n\<rparr>))),
      (''top_p'', plain (dec_float_ptr (\<lambda>n q. q\<lparr>aq_TopP := n\<rparr>))),
      (''top_k'', plain (dec_int_ptr (\<lambda>n q. q\<lparr>aq_TopK := n\<rparr>))),
      (''stream'', plain (dec_bool (\<lambda>b q. q\<lparr>aq_Stream := b\<rparr>))),
      (''tools'', rdec_slice rdec_aTool \<lparr>atl_Name = [], atl_Type = [], atl_Description = [], atl_InputSchema = None\<rparr>
         (\<lambda>ts q. q\<lparr>aq_Tools := ts\<rparr>)),
      (''tool_choice'', keep_raw (\<lambda>r q. q\<lparr>aq_ToolChoice := r\<rparr>)),
      (''output_format'', keep_raw (\<lambda>r q. q\<lparr>aq_OutputFormat := r\<rparr>)),
      (''thinking'', keep_raw (\<lambda>r q. q\<lparr>aq_Thinking := r\<rparr>)),
      (''metadata'', rdec_ptr (plain (dec_struct [(''user_id'', dec_text)])) [] (\<lambda>u q. q\<lparr>aq_Metadata := u\<rparr>) aq_Metadata)]"

definition zero_aRequest :: aRequest where
  "zero_aRequest = \<lparr>aq_Model = [], aq_System = None, aq_Messages = [], aq_MaxTokens = None, aq_StopSequences = [],
     aq_Temperature = None, aq_TopP = None, aq_TopK = None, aq_Stream = False, aq_Tools = [], aq_ToolChoice = None,
     aq_OutputFormat = None, aq_Thinking = None, aq_Metadata = None\<rparr>"

subsection \<open>Fields\<close>

definition namedFunction :: "string \<Rightarrow> gjson" where
  "namedFunction name = GObj [(''type'', GStr ''function''), (''function'', GObj [(''name'', GStr name)])]"

record output_format =
  of_Type :: string
  of_Name :: string
  of_Schema :: "rjson option"
  of_Strict :: "bool option"

definition rdec_output_format :: "output_format rdecoder" where
  "rdec_output_format = rdec_struct
     [(''type'', plain (dec_string (\<lambda>s x. x\<lparr>of_Type := s\<rparr>))), (''name'', plain (dec_string (\<lambda>s x. x\<lparr>of_Name := s\<rparr>))),
      (''schema'', keep_raw (\<lambda>r x. x\<lparr>of_Schema := r\<rparr>)), (''strict'', plain (dec_bool_ptr (\<lambda>b x. x\<lparr>of_Strict := b\<rparr>)))]"

definition opt_member :: "string \<Rightarrow> ('a \<Rightarrow> gjson) \<Rightarrow> 'a option \<Rightarrow> (string \<times> gjson) list" where
  "opt_member k f x = (case x of None \<Rightarrow> [] | Some v \<Rightarrow> [(k, f v)])"

definition chatResponseFormat :: "Options \<Rightarrow> rjson \<Rightarrow> gjson option conv" where
  "chatResponseFormat opts raw =
     (case rdec_output_format raw \<lparr>of_Type = [], of_Name = [], of_Schema = None, of_Strict = None\<rparr> of
        None \<Rightarrow> dropping opts ''output_format'' ''output_format is not an object'' None
      | Some f \<Rightarrow>
          if of_Type f = ''json_schema'' then
            (case of_Schema f of
               None \<Rightarrow> dropping opts ''output_format'' ''a json_schema output_format carries no schema'' None
             | Some schema \<Rightarrow>
                 settled (Some (GObj [(''type'', GStr ''json_schema''),
                   (''json_schema'', GObj ([(''name'', GStr (if of_Name f = [] then ''response'' else of_Name f)),
                      (''schema'', GRaw schema)] @ opt_member ''strict'' GBool (of_Strict f)))])))
          else if of_Type f = ''json_object'' \<or> of_Type f = ''text'' then settled (Some (GObj [(''type'', GStr (of_Type f))]))
          else dropping opts ''output_format''
                 (''output_format type '' @ go_quote (of_Type f) @ '' has no Chat Completions representation'') None)"

record tool_choice =
  tc_Type :: string
  tc_Name :: string
  tc_DisableParallel :: "bool option"

definition dec_tool_choice :: "tool_choice decoder" where
  "dec_tool_choice = dec_struct
     [(''type'', dec_string (\<lambda>s x. x\<lparr>tc_Type := s\<rparr>)), (''name'', dec_string (\<lambda>s x. x\<lparr>tc_Name := s\<rparr>)),
      (''disable_parallel_tool_use'', dec_bool_ptr (\<lambda>b x. x\<lparr>tc_DisableParallel := b\<rparr>))]"

definition chatToolChoice :: "Options \<Rightarrow> rjson option \<Rightarrow> (gjson option \<times> bool option) conv" where
  "chatToolChoice opts raw = (case raw of
     None \<Rightarrow> settled (None, None)
   | Some r \<Rightarrow>
       (case raw_string r of
          Some s \<Rightarrow>
            if s = ''any'' then settled (Some (GStr ''required''), None)
            else if s \<in> {''auto'', ''required'', ''none''} then settled (Some (GStr s), None)
            else dropping opts ''tool_choice'' (''a bare tool_choice '' @ go_quote s @ '' is not a Chat Completions value'') (None, None)
        | None \<Rightarrow>
            (case dec_tool_choice (erase r) \<lparr>tc_Type = [], tc_Name = [], tc_DisableParallel = None\<rparr> of
               None \<Rightarrow> dropping opts ''tool_choice'' ''tool_choice has no Chat Completions representation'' (None, None)
             | Some x \<Rightarrow>
                 if tc_Type x = ''any'' then
                   settled (Some (if tc_Name x = [] then GStr ''required'' else namedFunction (tc_Name x)), tc_DisableParallel x)
                 else if tc_Type x = ''tool'' then settled (Some (namedFunction (tc_Name x)), tc_DisableParallel x)
                 else if tc_Type x = ''auto'' \<or> tc_Type x = ''none'' then settled (Some (GStr (tc_Type x)), tc_DisableParallel x)
                 else dropping opts ''tool_choice'' (''tool_choice type '' @ tc_Type x @ '' is provider-specific'')
                        (None, tc_DisableParallel x))))"

definition maxChatToolNameBytes :: nat where "maxChatToolNameBytes = 64"

definition tool_name_char :: "char \<Rightarrow> bool" where
  "tool_name_char c \<longleftrightarrow> (let b = byte_of c in
     97 \<le> b \<and> b \<le> 122 \<or> 65 \<le> b \<and> b \<le> 90 \<or> 48 \<le> b \<and> b \<le> 57 \<or> c = CHR ''_'' \<or> c = CHR ''-'')"

definition isToolNameChars :: "string \<Rightarrow> bool" where
  "isToolNameChars name = list_all tool_name_char name"

definition toolNameDefect :: "string \<Rightarrow> string list \<Rightarrow> string" where
  "toolNameDefect name seen =
     (if name = [] then ''has no name''
      else if length name > maxChatToolNameBytes then
        ''is over Chat Completions' '' @ Itoa (int maxChatToolNameBytes) @ ''-byte tool-name cap (Anthropic allows 128)''
      else if \<not> isToolNameChars name then ''carries characters outside [a-zA-Z0-9_-]''
      else if name \<in> set seen then ''is declared twice''
      else [])"

text \<open>
  The tools both request directions keep, as the names, descriptions and the other members
  of the function object; \<open>hosted\<close> tells the tools the provider runs itself.
\<close>

record chat_tool =
  ct_name :: string
  ct_description :: string
  ct_rest :: "(string \<times> gjson) list"

fun keep_tools :: "Options \<Rightarrow> ('t \<Rightarrow> string) \<Rightarrow> ('t \<Rightarrow> bool) \<Rightarrow> ('t \<Rightarrow> chat_tool) \<Rightarrow> string list \<Rightarrow> 't list \<Rightarrow> chat_tool list conv" where
  "keep_tools opts typ hosted conv seen [] = settled []"
| "keep_tools opts typ hosted conv seen (t # ts) =
     (if hosted t then refuse ''tools'' (''hosted tool '' @ typ t @ '' is provider-specific'')
      else let defect = toolNameDefect (ct_name (conv t)) seen;
               shown = (if ct_name (conv t) = [] then ''<unnamed>'' else ct_name (conv t))
           in if defect \<noteq> [] then
                (if \<not> opt_DropParams opts then refuse ''tools'' (''tool '' @ go_quote shown @ '' '' @ defect)
                 else bindc (Inr ((), [''tools.'' @ shown @ ''=dropped''])) (\<lambda>_. keep_tools opts typ hosted conv seen ts))
              else bindc (keep_tools opts typ hosted conv (ct_name (conv t) # seen) ts) (\<lambda>ys. settled (conv t # ys)))"

definition tool_json :: "chat_tool \<Rightarrow> gjson" where
  "tool_json t = GObj [(''type'', GStr ''function''),
     (''function'', GObj ([(''name'', GStr (ct_name t)), (''description'', GStr (ct_description t))] @ ct_rest t))]"

definition tools_member :: "chat_tool list \<Rightarrow> (string \<times> gjson) list" where
  "tools_member ts = (if ts = [] then [] else [(''tools'', GArr (map tool_json ts))])"

subsection \<open>Messages\<close>

datatype chat_part = TextPart string | ImagePart string

record chat_call =
  cc_id :: string
  cc_name :: string
  cc_arguments :: string

datatype chat_msg =
    TextMsg string string
  | PartsMsg string "chat_part list"
  | CallsMsg "chat_part list" "chat_call list"
  | ToolMsg string string

fun part_json :: "chat_part \<Rightarrow> gjson" where
  "part_json (TextPart s) = GObj [(''type'', GStr ''text''), (''text'', GStr s)]"
| "part_json (ImagePart u) = GObj [(''type'', GStr ''image_url''), (''image_url'', GObj [(''url'', GStr u)])]"

definition call_json :: "chat_call \<Rightarrow> gjson" where
  "call_json k = GObj [(''id'', GStr (cc_id k)), (''type'', GStr ''function''),
     (''function'', GObj [(''name'', GStr (cc_name k)), (''arguments'', GStr (cc_arguments k))])]"

fun msg_json :: "chat_msg \<Rightarrow> gjson" where
  "msg_json (TextMsg role s) = GObj [(''role'', GStr role), (''content'', GStr s)]"
| "msg_json (PartsMsg role ps) = GObj [(''role'', GStr role), (''content'', GArr (map part_json ps))]"
| "msg_json (CallsMsg ps cs) = GObj ([(''role'', GStr ''assistant''), (''tool_calls'', GArr (map call_json cs))] @
     (if ps = [] then [] else [(''content'', GArr (map part_json ps))]))"
| "msg_json (ToolMsg i s) = GObj [(''role'', GStr ''tool''), (''tool_call_id'', GStr i), (''content'', GStr s)]"

definition systemText :: "rjson option \<Rightarrow> string" where
  "systemText raw = (case raw of
     None \<Rightarrow> []
   | Some r \<Rightarrow>
       (case raw_string r of
          Some s \<Rightarrow> s
        | None \<Rightarrow> (case rdec_blocks r of
            None \<Rightarrow> []
          | Some bs \<Rightarrow> Join (map ab_Text (filter (\<lambda>b. ab_Type b = ''text'') bs)) [CHR 0x0A])))"

definition result_piece :: "Options \<Rightarrow> aBlock \<Rightarrow> string list conv" where
  "result_piece opts b =
     (if ab_Type b = ''text'' then settled [ab_Text b]
      else dropping opts (''tool_result.'' @ ab_Type b) ''a tool result must be text for Chat Completions'' [])"

definition toolResultContent :: "Options \<Rightarrow> aBlock \<Rightarrow> string conv" where
  "toolResultContent opts b = (case ab_Content b of
     None \<Rightarrow> settled []
   | Some r \<Rightarrow>
       (case raw_string r of
          Some s \<Rightarrow> settled s
        | None \<Rightarrow> (case rdec_blocks r of
            None \<Rightarrow> settled []
          | Some bs \<Rightarrow> bindc (mapc (result_piece opts) bs) (\<lambda>ps. settled (Join (concat ps) [CHR 0x0A])))))"

text \<open>What the blocks of a message come to: its parts, tool calls and tool messages.\<close>

datatype block_out = OutPart chat_part | OutCall chat_call | OutTool chat_msg | OutNone

definition image_url :: "aBlock \<Rightarrow> string option" where
  "image_url b = (case ab_Source b of
     None \<Rightarrow> None
   | Some s \<Rightarrow>
       if src_Type s = ''base64'' \<and> src_Data s \<noteq> [] then Some (''data:'' @ src_MediaType s @ '';base64,'' @ src_Data s)
       else if src_Type s = ''url'' \<and> src_URL s \<noteq> [] then Some (src_URL s)
       else None)"

definition tool_input :: "aBlock \<Rightarrow> string" where
  "tool_input b = (case ab_Input b of
     None \<Rightarrow> ''{}'' | Some r \<Rightarrow> if raw_text r = ''null'' then ''{}'' else raw_text r)"

definition convert_block :: "Options \<Rightarrow> aBlock \<Rightarrow> block_out conv" where
  "convert_block opts b =
     (let t = ab_Type b in
      if t = ''text'' then settled (OutPart (TextPart (ab_Text b)))
      else if t = ''image'' then
        (case image_url b of
           Some u \<Rightarrow> settled (OutPart (ImagePart u))
         | None \<Rightarrow> dropping opts ''image'' ''the image source is neither a base64 payload nor a url'' OutNone)
      else if t = ''document'' \<or> t = ''audio'' then
        refuse t (t @ '' content can not be ingested by a Chat Completions backend'')
      else if t = ''tool_use'' then
        settled (OutCall \<lparr>cc_id = ab_ID b, cc_name = ab_Name b, cc_arguments = tool_input b\<rparr>)
      else if t = ''tool_result'' then
        bindc (toolResultContent opts b) (\<lambda>body. settled (OutTool (ToolMsg (ab_ToolUseID b) body)))
      else dropping opts (if t = [] then ''content_block'' else t) ''content block has no Chat Completions representation'' OutNone)"

definition parts_of :: "block_out list \<Rightarrow> chat_part list" where
  "parts_of os = List.map_filter (\<lambda>x. case x of OutPart p \<Rightarrow> Some p | _ \<Rightarrow> None) os"

definition calls_of :: "block_out list \<Rightarrow> chat_call list" where
  "calls_of os = List.map_filter (\<lambda>x. case x of OutCall k \<Rightarrow> Some k | _ \<Rightarrow> None) os"

definition tools_of :: "block_out list \<Rightarrow> chat_msg list" where
  "tools_of os = List.map_filter (\<lambda>x. case x of OutTool m \<Rightarrow> Some m | _ \<Rightarrow> None) os"

definition assemble :: "string \<Rightarrow> block_out list \<Rightarrow> chat_msg list" where
  "assemble role os =
     (let parts = parts_of os; calls = calls_of os; out = tools_of os in
      if calls \<noteq> [] then CallsMsg parts calls # out
      else if parts = [] then out
      else out @ [case parts of [TextPart s] \<Rightarrow> TextMsg role s | _ \<Rightarrow> PartsMsg role parts])"

definition convertMessage :: "Options \<Rightarrow> aMsg \<Rightarrow> chat_msg list conv" where
  "convertMessage opts m = (case am_Content m of
     None \<Rightarrow> settled [TextMsg (am_Role m) []]
   | Some r \<Rightarrow>
       (case raw_string r of
          Some s \<Rightarrow> settled [TextMsg (am_Role m) s]
        | None \<Rightarrow>
            (case rdec_blocks r of
               None \<Rightarrow> Inl (field_error ''content'' ''content must be a string or blocks'')
             | Some bs \<Rightarrow>
                 if bs = [] then settled [TextMsg (am_Role m) []]
                 else bindc (mapc (convert_block opts) bs) (\<lambda>os. settled (assemble (am_Role m) os)))))"

subsection \<open>The request\<close>

definition a_tool :: "aTool \<Rightarrow> chat_tool" where
  "a_tool t = \<lparr>ct_name = atl_Name t, ct_description = atl_Description t, ct_rest = opt_member ''parameters'' GRaw (atl_InputSchema t)\<rparr>"

definition max_tokens_member :: "Options \<Rightarrow> int option \<Rightarrow> (string \<times> gjson) list conv" where
  "max_tokens_member opts n = (case n of
     Some k \<Rightarrow> settled [(''max_tokens'', GInt k)]
   | None \<Rightarrow>
       if opt_MaxTokens opts > 0
       then Inr ([(''max_tokens'', GInt (opt_MaxTokens opts))], [''max_tokens=injected:'' @ Itoa (opt_MaxTokens opts)])
       else dropping opts ''max_tokens'' ''the client sent none and no default is configured'' [])"

record chat_request =
  cr_head :: "(string \<times> gjson) list"
  cr_msgs :: "chat_msg list"
  cr_tools :: "chat_tool list"
  cr_tail :: "(string \<times> gjson) list"

definition rest_of_request :: "Options \<Rightarrow> aRequest \<Rightarrow> (string \<times> gjson) list \<Rightarrow> chat_request conv" where
  "rest_of_request opts q mt =
     bindc (case aq_TopK q of None \<Rightarrow> settled () | Some _ \<Rightarrow> drop_field opts ''top_k'' ''chat has no top_k'') (\<lambda>_.
     bindc (case aq_Thinking q of None \<Rightarrow> settled ()
            | Some _ \<Rightarrow> drop_field opts ''thinking'' ''signed thinking can not round-trip'') (\<lambda>_.
     bindc (case aq_OutputFormat q of None \<Rightarrow> settled None | Some r \<Rightarrow> chatResponseFormat opts r) (\<lambda>rf.
     bindc (mapc (convertMessage opts) (aq_Messages q)) (\<lambda>ms.
     bindc (keep_tools opts atl_Type (\<lambda>t. atl_Type t \<noteq> []) a_tool [] (aq_Tools q)) (\<lambda>ts.
     bindc (chatToolChoice opts (aq_ToolChoice q)) (\<lambda>(tc, parallel).
       settled
         \<lparr>cr_head = [(''model'', GStr (aq_Model q))] @ (if aq_Stream q then [(''stream'', GBool True)] else []) @
            opt_member ''temperature'' GFloat (aq_Temperature q) @ opt_member ''top_p'' GFloat (aq_TopP q) @
            (if aq_StopSequences q = [] then [] else [(''stop'', GArr (map GStr (aq_StopSequences q)))]) @
            mt @ opt_member ''response_format'' id rf,
          cr_msgs = (let sys = systemText (aq_System q) in if sys = [] then [] else [TextMsg ''system'' sys]) @ concat ms,
          cr_tools = ts,
          cr_tail = opt_member ''tool_choice'' id tc @ opt_member ''parallel_tool_calls'' (\<lambda>b. GBool (\<not> b)) parallel @
            (case aq_Metadata q of Some u \<Rightarrow> if u = [] then [] else [(''user'', GStr u)] | None \<Rightarrow> [])\<rparr>))))))"

definition chat_request_of :: "Options \<Rightarrow> aRequest \<Rightarrow> chat_request conv" where
  "chat_request_of opts q = bindc (max_tokens_member opts (aq_MaxTokens q)) (rest_of_request opts q)"

definition request_json :: "chat_request \<Rightarrow> gjson" where
  "request_json c = GObj (cr_head c @ [(''messages'', GArr (map msg_json (cr_msgs c)))] @ tools_member (cr_tools c) @ cr_tail c)"

definition MessagesToChat :: "(string \<Rightarrow> string) \<Rightarrow> (string \<Rightarrow> string) \<Rightarrow> string \<Rightarrow> Options \<Rightarrow> string conv" where
  "MessagesToChat jerr fnum body opts =
     (case rdecode (rdec_struct aRequest_fields) zero_aRequest body of
        None \<Rightarrow> Inl (field_error ''body'' (''invalid JSON body: '' @ jerr body))
      | Some q \<Rightarrow> bindc (chat_request_of opts q) (\<lambda>c. settled (MarshalG fnum (request_json c))))"

subsection \<open>Nothing is lost silently\<close>

lemma bindc_Inr:
  "bindc m f = Inr (y, ns) \<longleftrightarrow> (\<exists>x a b. m = Inr (x, a) \<and> f x = Inr (y, b) \<and> ns = a @ b)"
  by (cases "(m, f)" rule: bindc.cases) (auto split: sum.splits)

lemma settled_Inr [simp]: "settled x = Inr (y, ns) \<longleftrightarrow> y = x \<and> ns = []"
  by (auto simp: settled_def)

lemma refuse_Inr [simp]: "refuse f d \<noteq> Inr x"
  by (simp add: refuse_def)

lemma dropping_Inr: "dropping opts f d x = Inr (y, ns) \<longleftrightarrow> opt_DropParams opts \<and> y = x \<and> ns = [f @ ''=dropped'']"
  by (auto simp: dropping_def drop_field_def bindc_Inr)

lemma drop_field_Inr: "drop_field opts f d = Inr (y, ns) \<longleftrightarrow> opt_DropParams opts \<and> ns = [f @ ''=dropped'']"
  by (auto simp: drop_field_def)

lemmas conv_simps = bindc_Inr dropping_Inr drop_field_Inr

text \<open>A conversion that never has a note under strict options.\<close>

definition quiet :: "Options \<Rightarrow> 'a conv \<Rightarrow> bool" where
  "quiet opts m \<longleftrightarrow> (\<forall>x ns. \<not> opt_DropParams opts \<longrightarrow> m = Inr (x, ns) \<longrightarrow> ns = [])"

named_theorems quiets \<open>conversions without notes under strict options\<close>

lemma quiet_basic [quiets]:
  "quiet opts (settled x)" "quiet opts (refuse f d)" "quiet opts (dropping opts f d x)" "quiet opts (drop_field opts f d)"
  "quiet opts (Inl e)"
  by (auto simp: quiet_def conv_simps)

lemma quiet_bindc [quiets]: "quiet opts m \<Longrightarrow> (\<And>x. quiet opts (f x)) \<Longrightarrow> quiet opts (bindc m f)"
  by (auto simp: quiet_def conv_simps)

lemma quiet_mapc [quiets]: "(\<And>x. quiet opts (f x)) \<Longrightarrow> quiet opts (mapc f xs)"
  by (induction xs) (auto intro!: quiets)

lemma quiet_parts [quiets]:
  "quiet opts (chatResponseFormat opts r)" "quiet opts (chatToolChoice opts raw)" "quiet opts (toolResultContent opts b)"
  unfolding chatResponseFormat_def chatToolChoice_def toolResultContent_def result_piece_def
  by (auto intro!: quiets split: option.splits)

lemma quiet_convert_block [quiets]: "quiet opts (convert_block opts b)"
  unfolding convert_block_def Let_def by (auto intro!: quiets split: option.splits)

lemma quiet_convertMessage [quiets]: "quiet opts (convertMessage opts m)"
  unfolding convertMessage_def by (auto intro!: quiets split: option.splits)

lemma quiet_keep_tools [quiets]: "quiet opts (keep_tools opts typ hosted conv seen ts)"
proof (induction ts arbitrary: seen)
  case (Cons t ts)
  show ?case
    by (cases "opt_DropParams opts") (auto simp: Let_def quiet_def conv_simps dest: Cons [unfolded quiet_def, rule_format, rotated])
qed (simp add: quiets)

lemma quiet_rest_of_request: "quiet opts (rest_of_request opts q mt)"
  unfolding rest_of_request_def by (auto intro!: quiets split: option.splits)

lemma chat_request_notes:
  assumes "\<not> opt_DropParams opts" "chat_request_of opts q = Inr (c, ns)"
  shows "ns = (if aq_MaxTokens q = None then [''max_tokens=injected:'' @ Itoa (opt_MaxTokens opts)] else [])"
proof -
  obtain mt a b where m: "max_tokens_member opts (aq_MaxTokens q) = Inr (mt, a)" "rest_of_request opts q mt = Inr (c, b)"
      "ns = a @ b"
    using assms(2) by (auto simp: chat_request_of_def bindc_Inr)
  have "b = []" using quiet_rest_of_request [of opts q mt] m(2) assms(1) by (simp add: quiet_def)
  then show ?thesis
    using m(1,3) assms(1) by (auto simp: max_tokens_member_def dropping_Inr split: option.splits if_splits)
qed


subsection \<open>What becomes of a message's blocks\<close>

lemma mapc_Inr_Cons:
  "mapc f (x # xs) = Inr (ys, ns) \<longleftrightarrow>
     (\<exists>y a zs b. f x = Inr (y, a) \<and> mapc f xs = Inr (zs, b) \<and> ys = y # zs \<and> ns = a @ b)"
  by (auto simp: bindc_Inr)

lemma mapc_Inr_Nil: "mapc f [] = Inr (ys, ns) \<longleftrightarrow> ys = [] \<and> ns = []"
  by auto

declare mapc.simps [simp del]

lemmas mapc_Inr = mapc_Inr_Nil mapc_Inr_Cons

lemma outs_simps [simp]:
  "parts_of [] = []" "calls_of [] = []" "tools_of [] = []"
  "parts_of (x # os) = (case x of OutPart p \<Rightarrow> p # parts_of os | _ \<Rightarrow> parts_of os)"
  "calls_of (x # os) = (case x of OutCall k \<Rightarrow> k # calls_of os | _ \<Rightarrow> calls_of os)"
  "tools_of (x # os) = (case x of OutTool m \<Rightarrow> m # tools_of os | _ \<Rightarrow> tools_of os)"
  by (simp_all add: parts_of_def calls_of_def tools_of_def List.map_filter_simps split: block_out.splits)

text \<open>The calls, tool answers and content parts a list of chat messages carries.\<close>

fun msg_calls :: "chat_msg \<Rightarrow> chat_call list" where
  "msg_calls (CallsMsg _ cs) = cs"
| "msg_calls _ = []"

fun msg_answers :: "chat_msg \<Rightarrow> string list" where
  "msg_answers (ToolMsg i _) = [i]"
| "msg_answers _ = []"

fun msg_parts :: "chat_msg \<Rightarrow> chat_part list" where
  "msg_parts (TextMsg _ s) = [TextPart s]"
| "msg_parts (PartsMsg _ ps) = ps"
| "msg_parts (CallsMsg ps _) = ps"
| "msg_parts (ToolMsg _ _) = []"

lemma convert_block_outcome:
  assumes "convert_block opts b = Inr (x, ns)"
  shows "(case x of OutCall k \<Rightarrow> ab_Type b = ''tool_use'' \<and> k = \<lparr>cc_id = ab_ID b, cc_name = ab_Name b, cc_arguments = tool_input b\<rparr>
     | OutTool m \<Rightarrow> ab_Type b = ''tool_result'' \<and> (\<exists>body. m = ToolMsg (ab_ToolUseID b) body)
     | OutPart p \<Rightarrow> ab_Type b \<in> {''text'', ''image''}
     | OutNone \<Rightarrow> ab_Type b \<notin> {''text'', ''tool_use'', ''tool_result''} \<and> ns \<noteq> [])"
  using assms by (auto simp: convert_block_def Let_def conv_simps split: if_splits option.splits)

lemma tools_are_answers: "mapc (convert_block opts) bs = Inr (os, ns) \<Longrightarrow>
    concat (map msg_answers (tools_of os)) = map ab_ToolUseID (filter (\<lambda>b. ab_Type b = ''tool_result'') bs) \<and>
    concat (map msg_calls (tools_of os)) = [] \<and> concat (map msg_parts (tools_of os)) = []"
proof (induction bs arbitrary: os ns)
  case (Cons b bs)
  then obtain y a zs c where y: "convert_block opts b = Inr (y, a)" "mapc (convert_block opts) bs = Inr (zs, c)" "os = y # zs"
    by (auto simp: mapc_Inr)
  show ?case using convert_block_outcome [OF y(1)] Cons.IH [OF y(2)] by (auto simp: y(3) split: block_out.splits)
qed (simp add: mapc_Inr)

lemma calls_are_uses: "mapc (convert_block opts) bs = Inr (os, ns) \<Longrightarrow>
    calls_of os = map (\<lambda>b. \<lparr>cc_id = ab_ID b, cc_name = ab_Name b, cc_arguments = tool_input b\<rparr>)
      (filter (\<lambda>b. ab_Type b = ''tool_use'') bs)"
proof (induction bs arbitrary: os ns)
  case (Cons b bs)
  then obtain y a zs c where y: "convert_block opts b = Inr (y, a)" "mapc (convert_block opts) bs = Inr (zs, c)" "os = y # zs"
    by (auto simp: mapc_Inr)
  show ?case using convert_block_outcome [OF y(1)] Cons.IH [OF y(2)] by (auto simp: y(3) split: block_out.splits)
qed (simp add: mapc_Inr)

lemma blocks_accounted: "mapc (convert_block opts) bs = Inr (os, ns) \<Longrightarrow>
    length bs \<le> length (parts_of os) + length (calls_of os) + length (tools_of os) + length ns"
proof (induction bs arbitrary: os ns)
  case (Cons b bs)
  then obtain y a zs c where y: "convert_block opts b = Inr (y, a)" "mapc (convert_block opts) bs = Inr (zs, c)" "os = y # zs" "ns = a @ c"
    by (auto simp: mapc_Inr)
  show ?case using convert_block_outcome [OF y(1)] Cons.IH [OF y(2)]
    by (cases a) (auto simp: y(3,4) split: block_out.splits)
qed (simp add: mapc_Inr)

lemma assemble_carries:
  "concat (map msg_calls (assemble role os)) = calls_of os @ concat (map msg_calls (tools_of os))"
  "concat (map msg_answers (assemble role os)) = concat (map msg_answers (tools_of os))"
  "mset (concat (map msg_parts (assemble role os))) = mset (parts_of os) + mset (concat (map msg_parts (tools_of os)))"
  by (auto simp: assemble_def Let_def split: list.splits chat_part.splits)

text \<open>
  C22: The tool loop survives the conversion of a message made of blocks: its tool results become
  one tool message each, in order and under the ids the client sent, its tool uses become the
  calls, with their inputs as they were spelled; and a block that is in none of the messages
  has a note of its own, so under strict options (where there are no notes) every block is.
\<close>

theorem message_blocks_accounted:
  assumes "convertMessage opts m = Inr (ms, ns)" "am_Content m = Some r" "raw_string r = None" "rdec_blocks r = Some bs" "bs \<noteq> []"
  shows "concat (map msg_answers ms) = map ab_ToolUseID (filter (\<lambda>b. ab_Type b = ''tool_result'') bs) \<and>
    concat (map msg_calls ms) = map (\<lambda>b. \<lparr>cc_id = ab_ID b, cc_name = ab_Name b, cc_arguments = tool_input b\<rparr>)
      (filter (\<lambda>b. ab_Type b = ''tool_use'') bs) \<and>
    length bs \<le> length (concat (map msg_parts ms)) + length (concat (map msg_calls ms)) + length (concat (map msg_answers ms)) + length ns \<and>
    (opt_DropParams opts \<or> ns = [])"
proof -
  obtain os where os: "mapc (convert_block opts) bs = Inr (os, ns)" "ms = assemble (am_Role m) os"
    using assms by (auto simp: convertMessage_def bindc_Inr)
  note tools = tools_are_answers [OF os(1)] and carries = assemble_carries [of "am_Role m" os, folded os(2)]
  have parts: "length (concat (map msg_parts ms)) = length (parts_of os)"
    using arg_cong [OF carries(3), of size] tools by simp
  have answers: "length (tools_of os) = length (concat (map msg_answers (tools_of os)))"
    using os(1)
  proof (induction bs arbitrary: os ns)
    case (Cons b bs)
    then obtain y a zs c where y: "convert_block opts b = Inr (y, a)" "mapc (convert_block opts) bs = Inr (zs, c)" "os = y # zs"
      by (auto simp: mapc_Inr)
    show ?case using convert_block_outcome [OF y(1)] Cons.IH [OF y(2)] by (auto simp: y(3) split: block_out.splits)
  qed (simp add: mapc_Inr)
  have "opt_DropParams opts \<or> ns = []" using quiet_convertMessage [of opts m] assms(1) by (auto simp: quiet_def)
  then show ?thesis
    using carries tools parts answers calls_are_uses [OF os(1)] blocks_accounted [OF os(1)] by simp
qed

definition sample_blocks :: rjson where
  "sample_blocks = RArr [] [RObj [] [(''type'', RScalar [] (JStr ''tool_result'')), (''tool_use_id'', RScalar [] (JStr ''t1''))],
     RObj [] [(''type'', RScalar [] (JStr ''tool_use'')), (''input'', RScalar ''7'' (JNum ''7''))]]"

theorem message_blocks_accounted_witness:
  "\<exists>bs ms. rdec_blocks sample_blocks = Some bs \<and>
     convertMessage \<lparr>opt_MaxTokens = 0, opt_DropParams = False\<rparr> \<lparr>am_Role = ''user'', am_Content = Some sample_blocks\<rparr> = Inr (ms, []) \<and>
     concat (map msg_answers ms) = [''t1''] \<and> map cc_arguments (concat (map msg_calls ms)) = [''7'']"
proof -
  define bs where "bs = [zero_block\<lparr>ab_Type := ''tool_result'', ab_ToolUseID := ''t1''\<rparr>,
    zero_block\<lparr>ab_Type := ''tool_use'', ab_Input := Some (RScalar ''7'' (JNum ''7''))\<rparr>]"
  define m where "m = \<lparr>am_Role = ''user'', am_Content = Some sample_blocks\<rparr>"
  define opts where "opts = \<lparr>opt_MaxTokens = 0, opt_DropParams = False\<rparr>"
  define ms where "ms = [CallsMsg [] [\<lparr>cc_id = [], cc_name = [], cc_arguments = ''7''\<rparr>], ToolMsg ''t1'' []]"
  have b: "rdec_blocks sample_blocks = Some bs" unfolding bs_def by code_simp
  have n: "raw_string sample_blocks = None" by code_simp
  have c: "convertMessage opts m = Inr (ms, [])" unfolding ms_def m_def opts_def by code_simp
  have "concat (map msg_answers ms) = [''t1'']" "map cc_arguments (concat (map msg_calls ms)) = [''7'']"
    using message_blocks_accounted [OF c _ n b] by (simp_all add: m_def bs_def zero_block_def tool_input_def)
  with b c show ?thesis unfolding m_def opts_def by (intro exI [of _ bs] exI [of _ ms] conjI)
qed

subsection \<open>Tool names\<close>

definition tool_name_ok :: "string \<Rightarrow> bool" where
  "tool_name_ok name \<longleftrightarrow> name \<noteq> [] \<and> length name \<le> 64 \<and> list_all tool_name_char name"

lemma toolNameDefect_none: "toolNameDefect name seen = [] \<longleftrightarrow> tool_name_ok name \<and> name \<notin> set seen"
  by (auto simp: toolNameDefect_def tool_name_ok_def isToolNameChars_def maxChatToolNameBytes_def)

lemma keep_tools_sound:
  "keep_tools opts typ hosted conv seen ts = Inr (ys, ns) \<Longrightarrow>
     list_all (\<lambda>y. tool_name_ok (ct_name y)) ys \<and> distinct (map ct_name ys) \<and> set (map ct_name ys) \<inter> set seen = {} \<and>
     length ts = length ys + length ns \<and> subseq ys (map conv ts)"
proof (induction ts arbitrary: seen ys ns)
  case (Cons t ts)
  show ?case
  proof (cases "toolNameDefect (ct_name (conv t)) seen = []")
    case True
    then obtain zs where zs: "keep_tools opts typ hosted conv (ct_name (conv t) # seen) ts = Inr (zs, ns)" "ys = conv t # zs"
      using Cons.prems by (auto simp: bindc_Inr split: if_splits)
    then show ?thesis using Cons.IH [OF zs(1)] True by (auto simp: toolNameDefect_none)
  next
    case False
    then obtain b where b: "keep_tools opts typ hosted conv seen ts = Inr (ys, b)" "length ns = Suc (length b)"
      using Cons.prems by (auto simp: Let_def bindc_Inr split: if_splits sum.splits)
    then show ?thesis using Cons.IH [OF b(1)] by auto
  qed
qed simp

text \<open>
  C25: The tools sent to the backend all have names the backend takes (1 to 64 bytes out of
  letters, digits, \<open>_\<close> and \<open>-\<close>), no two the same; they are tools of the client in its order, and
  every tool that is missing has a note. Without \<open>drop_params\<close> all of them are there.
\<close>

theorem converted_tools_sound:
  assumes "keep_tools opts atl_Type (\<lambda>t. atl_Type t \<noteq> []) a_tool [] ts = Inr (ys, ns)"
  shows "list_all (\<lambda>y. tool_name_ok (ct_name y)) ys \<and> distinct (map ct_name ys) \<and> subseq ys (map a_tool ts) \<and>
    length ts = length ys + length ns \<and> (opt_DropParams opts \<or> ys = map a_tool ts)"
proof -
  note k = keep_tools_sound [OF assms]
  have "ys = map a_tool ts" if "\<not> opt_DropParams opts"
    using k that quiet_keep_tools [of opts atl_Type] assms subseq_same_length [of ys "map a_tool ts"] by (force simp: quiet_def)
  then show ?thesis using k by blast
qed

theorem converted_tools_sound_witness:
  "\<exists>ys. keep_tools \<lparr>opt_MaxTokens = 0, opt_DropParams = True\<rparr> atl_Type (\<lambda>t. atl_Type t \<noteq> []) a_tool []
      [\<lparr>atl_Name = ''f'', atl_Type = [], atl_Description = [], atl_InputSchema = None\<rparr>,
       \<lparr>atl_Name = ''f'', atl_Type = [], atl_Description = [], atl_InputSchema = None\<rparr>] = Inr (ys, [''tools.f=dropped'']) \<and>
     distinct (map ct_name ys) \<and> length ys = 1"
proof -
  let ?t = "\<lparr>atl_Name = ''f'', atl_Type = [], atl_Description = [], atl_InputSchema = None\<rparr>"
  let ?opts = "\<lparr>opt_MaxTokens = 0, opt_DropParams = True\<rparr>"
  have k: "keep_tools ?opts atl_Type (\<lambda>t. atl_Type t \<noteq> []) a_tool [] [?t, ?t] = Inr ([a_tool ?t], [''tools.f=dropped''])"
    by code_simp
  show ?thesis using converted_tools_sound [OF k] k by auto
qed


text \<open>
  A \<open>RawMessage\<close> member set to \<open>null\<close> is four bytes long, so a client that spells out the
  default of \<open>thinking\<close> is refused like one that asks for it.
\<close>

lemma null_thinking_refused:
  "rdec_struct aRequest_fields (RObj [] [(''max_tokens'', RScalar ''1'' (JNum ''1'')), (''thinking'', RScalar ''null'' JNull)])
     zero_aRequest = Some (zero_aRequest\<lparr>aq_MaxTokens := Some 1, aq_Thinking := Some (RScalar ''null'' JNull)\<rparr>)"
  "isl (chat_request_of \<lparr>opt_MaxTokens = 5, opt_DropParams = False\<rparr>
     (zero_aRequest\<lparr>aq_MaxTokens := Some 1, aq_Thinking := Some (RScalar ''null'' JNull)\<rparr>))"
  by code_simp+

end
