(* ===== verification/ChatStream.thy ===== *)
theory ChatStream
  imports Relay JsonPrint Plan
begin

text \<open>
  The stream translator for a Messages client of a Chat Completions backend
  (\<open>src/convert/stream.go\<close>), with the response helpers it shares with
  \<open>src/convert/response.go\<close>. Events are values of \<open>aEvent\<close> and \<open>render\<close> gives their bytes;
  the random message id of a stream whose backend sends none is the argument \<open>fresh\<close>.
\<close>

subsection \<open>Chat Completions answers\<close>

record cUsage =
  cu_PromptTokens :: int
  cu_CompletionTokens :: int
  cu_CachedTokens :: int

definition zero_cUsage :: cUsage where
  "zero_cUsage = \<lparr>cu_PromptTokens = 0, cu_CompletionTokens = 0, cu_CachedTokens = 0\<rparr>"

definition dec_usage :: "cUsage decoder" where
  "dec_usage = dec_struct
     [(''prompt_tokens'', dec_int (\<lambda>n u. u\<lparr>cu_PromptTokens := n\<rparr>)),
      (''completion_tokens'', dec_int (\<lambda>n u. u\<lparr>cu_CompletionTokens := n\<rparr>)),
      (''prompt_tokens_details'',
        dec_struct [(''cached_tokens'', dec_int (\<lambda>n u. u\<lparr>cu_CachedTokens := n\<rparr>))])]"

text \<open>A pointer to a struct: \<open>null\<close> is nil, an object is decoded into the struct it points to.\<close>

definition dec_ptr :: "'b decoder \<Rightarrow> 'b \<Rightarrow> ('b option \<Rightarrow> 'a \<Rightarrow> 'a) \<Rightarrow> ('a \<Rightarrow> 'b option) \<Rightarrow> 'a decoder" where
  "dec_ptr d zero upd get v x = (case v of
     JNull \<Rightarrow> Some (upd None x)
   | _ \<Rightarrow> (case d v (case get x of Some b \<Rightarrow> b | None \<Rightarrow> zero) of
             None \<Rightarrow> None | Some b \<Rightarrow> Some (upd (Some b) x)))"

record content_part =
  cp_Type :: string
  cp_Text :: string
  cp_Refusal :: string

definition dec_content_parts :: "content_part list decoder" where
  "dec_content_parts = dec_slice (dec_struct
     [(''type'', dec_string (\<lambda>s p. p\<lparr>cp_Type := s\<rparr>)), (''text'', dec_string (\<lambda>s p. p\<lparr>cp_Text := s\<rparr>)),
      (''refusal'', dec_string (\<lambda>s p. p\<lparr>cp_Refusal := s\<rparr>))])
     \<lparr>cp_Type = [], cp_Text = [], cp_Refusal = []\<rparr> (\<lambda>ps _. ps)"

definition part_text :: "content_part \<Rightarrow> string option" where
  "part_text p = (if cp_Text p \<noteq> [] then Some (cp_Text p) else if cp_Refusal p \<noteq> [] then Some (cp_Refusal p) else None)"

definition part_dropped :: "content_part \<Rightarrow> string option" where
  "part_dropped p =
     (if part_text p \<noteq> None \<or> cp_Type p = [] \<or> cp_Type p = ''text'' then None
      else Some (''content_part=dropped:'' @ cp_Type p))"

definition contentTexts :: "json option \<Rightarrow> string list \<times> string list" where
  "contentTexts raw = (case raw of
     None \<Rightarrow> ([], [])
   | Some v \<Rightarrow> (case dec_text v [] of
       Some s \<Rightarrow> (if s = [] then [] else [s], [])
     | None \<Rightarrow> (case dec_content_parts v [] of
         None \<Rightarrow> ([], [''content_part=dropped:content''])
       | Some ps \<Rightarrow> (List.map_filter part_text ps, List.map_filter part_dropped ps))))"

definition stopReason :: "string \<Rightarrow> string" where
  "stopReason fr =
     (if fr = ''length'' then ''max_tokens''
      else if fr = ''tool_calls'' \<or> fr = ''function_call'' then ''tool_use''
      else if fr = ''content_filter'' then ''refusal''
      else ''end_turn'')"

definition finishNote :: "string \<Rightarrow> string" where
  "finishNote fr =
     (if fr \<in> {[], ''stop'', ''length'', ''tool_calls'', ''function_call''} then [] else ''finish_reason='' @ fr)"

text \<open>The type and message of a backend's error envelope, when the body is one.\<close>

record error_envelope =
  ee_Type :: string
  ee_Message :: string

definition dec_error_field :: "json option decoder" where
  "dec_error_field = dec_struct [(''error'', dec_raw (\<lambda>v _. v))]"

definition dec_envelope :: "error_envelope decoder" where
  "dec_envelope = dec_struct
     [(''type'', dec_string (\<lambda>s e. e\<lparr>ee_Type := s\<rparr>)), (''message'', dec_string (\<lambda>s e. e\<lparr>ee_Message := s\<rparr>))]"

definition chat_error :: "string \<Rightarrow> error_envelope option" where
  "chat_error body = (case decode dec_error_field None body of
     Some (Some v) \<Rightarrow>
       (case dec_envelope v \<lparr>ee_Type = [], ee_Message = []\<rparr> of
          Some e \<Rightarrow>
            if ee_Type e \<noteq> [] \<or> ee_Message e \<noteq> []
            then Some (e\<lparr>ee_Type := (if ee_Type e = [] then ''api_error'' else ee_Type e)\<rparr>)
            else None
        | None \<Rightarrow>
            (case dec_text v [] of
               Some msg \<Rightarrow> if msg = [] then None else Some \<lparr>ee_Type = ''api_error'', ee_Message = msg\<rparr>
             | None \<Rightarrow> None))
   | _ \<Rightarrow> None)"

subsection \<open>Chunks\<close>

record deltaToolCall =
  dt_Index :: int
  dt_ID :: string
  dt_Name :: string
  dt_Arguments :: string

record cStreamChoice =
  sc_Content :: "json option"
  sc_Reasoning :: "json option"
  sc_ToolCalls :: "deltaToolCall list"
  sc_FinishReason :: string
  sc_Usage :: "cUsage option"

record chat_chunk =
  ck_ID :: string
  ck_Model :: string
  ck_Choices :: "cStreamChoice list"
  ck_Usage :: "cUsage option"

definition dec_tool_call :: "deltaToolCall decoder" where
  "dec_tool_call = dec_struct
     [(''index'', dec_int (\<lambda>n t. t\<lparr>dt_Index := n\<rparr>)), (''id'', dec_string (\<lambda>s t. t\<lparr>dt_ID := s\<rparr>)),
      (''function'', dec_struct [(''name'', dec_string (\<lambda>s t. t\<lparr>dt_Name := s\<rparr>)),
                                 (''arguments'', dec_string (\<lambda>s t. t\<lparr>dt_Arguments := s\<rparr>))])]"

definition dec_choice :: "cStreamChoice decoder" where
  "dec_choice = dec_struct
     [(''delta'', dec_struct
         [(''content'', dec_raw (\<lambda>v c. c\<lparr>sc_Content := v\<rparr>)), (''reasoning_content'', dec_raw (\<lambda>v c. c\<lparr>sc_Reasoning := v\<rparr>)),
          (''tool_calls'', dec_slice dec_tool_call \<lparr>dt_Index = 0, dt_ID = [], dt_Name = [], dt_Arguments = []\<rparr>
             (\<lambda>ts c. c\<lparr>sc_ToolCalls := ts\<rparr>))]),
      (''finish_reason'', dec_string (\<lambda>s c. c\<lparr>sc_FinishReason := s\<rparr>)),
      (''usage'', dec_ptr dec_usage zero_cUsage (\<lambda>u c. c\<lparr>sc_Usage := u\<rparr>) sc_Usage)]"

definition zero_choice :: cStreamChoice where
  "zero_choice = \<lparr>sc_Content = None, sc_Reasoning = None, sc_ToolCalls = [], sc_FinishReason = [], sc_Usage = None\<rparr>"

definition dec_chunk :: "chat_chunk decoder" where
  "dec_chunk = dec_struct
     [(''id'', dec_string (\<lambda>s c. c\<lparr>ck_ID := s\<rparr>)), (''model'', dec_string (\<lambda>s c. c\<lparr>ck_Model := s\<rparr>)),
      (''choices'', dec_slice dec_choice zero_choice (\<lambda>cs c. c\<lparr>ck_Choices := cs\<rparr>)),
      (''usage'', dec_ptr dec_usage zero_cUsage (\<lambda>u c. c\<lparr>ck_Usage := u\<rparr>) ck_Usage)]"

definition prose :: "cStreamChoice \<Rightarrow> string \<times> string \<times> string list" where
  "prose ch = (case contentTexts (sc_Content ch) of (ts, dropped) \<Rightarrow>
     (case contentTexts (sc_Reasoning ch) of (rs, lost) \<Rightarrow> (concat ts, concat rs, dropped @ lost)))"

subsection \<open>Events\<close>

datatype block_kind = TextBlock | ThinkingBlock | ToolBlock string string

datatype aEvent =
    MessageStart string string int
  | BlockStart int block_kind
  | TextDelta int string
  | ThinkingDelta int string
  | InputDelta int string
  | BlockStop int
  | MessageDelta string int "int option"
  | MessageStop
  | ErrorEvent string string
  | Forwarded string

definition jint :: "int \<Rightarrow> json" where "jint n = JNum (Itoa n)"

definition sse_frame :: "string \<Rightarrow> json \<Rightarrow> string" where
  "sse_frame event payload = ''event: '' @ event @ [lf] @ ''data: '' @ Marshal id payload @ [lf, lf]"

definition block_json :: "block_kind \<Rightarrow> json" where
  "block_json k = (case k of
     TextBlock \<Rightarrow> JObj [(''type'', JStr ''text''), (''text'', JStr [])]
   | ThinkingBlock \<Rightarrow> JObj [(''type'', JStr ''thinking''), (''thinking'', JStr [])]
   | ToolBlock i name \<Rightarrow> JObj [(''type'', JStr ''tool_use''), (''id'', JStr i), (''name'', JStr name), (''input'', JObj [])])"

definition delta_frame :: "int \<Rightarrow> string \<Rightarrow> string \<Rightarrow> string \<Rightarrow> string" where
  "delta_frame i typ field s = sse_frame ''content_block_delta'' (JObj
     [(''type'', JStr ''content_block_delta''), (''index'', jint i),
      (''delta'', JObj [(''type'', JStr typ), (field, JStr s)])])"

fun render :: "aEvent \<Rightarrow> string" where
  "render (MessageStart i model input) = sse_frame ''message_start'' (JObj [(''type'', JStr ''message_start''),
     (''message'', JObj [(''id'', JStr i), (''type'', JStr ''message''), (''role'', JStr ''assistant''),
        (''model'', JStr model), (''content'', JArr []),
        (''usage'', JObj [(''input_tokens'', jint input), (''cache_read_input_tokens'', jint 0)])])])"
| "render (BlockStart i k) = sse_frame ''content_block_start'' (JObj [(''type'', JStr ''content_block_start''),
     (''index'', jint i), (''content_block'', block_json k)])"
| "render (TextDelta i s) = delta_frame i ''text_delta'' ''text'' s"
| "render (ThinkingDelta i s) = delta_frame i ''thinking_delta'' ''thinking'' s"
| "render (InputDelta i s) = delta_frame i ''input_json_delta'' ''partial_json'' s"
| "render (BlockStop i) = sse_frame ''content_block_stop''
     (JObj [(''type'', JStr ''content_block_stop''), (''index'', jint i)])"
| "render (MessageDelta stop out inp) = sse_frame ''message_delta'' (JObj [(''type'', JStr ''message_delta''),
     (''delta'', JObj [(''stop_reason'', JStr stop), (''stop_sequence'', JNull)]),
     (''usage'', JObj ([(''output_tokens'', jint out)] @ (case inp of Some n \<Rightarrow> [(''input_tokens'', jint n)] | None \<Rightarrow> [])))])"
| "render MessageStop = sse_frame ''message_stop'' (JObj [(''type'', JStr ''message_stop'')])"
| "render (ErrorEvent typ msg) = sse_frame ''error'' (JObj [(''type'', JStr ''error''),
     (''error'', JObj [(''type'', JStr typ), (''message'', JStr msg)])])"
| "render (Forwarded f) = TrimRight f [cr, lf] @ [lf, lf]"

subsection \<open>The emitter\<close>

record toolBlock =
  tb_idx :: int
  tb_blk :: int
  tb_id :: string

record chatToMessages =
  cm_id :: string
  cm_model :: string
  cm_open :: int
  cm_kind :: string
  cm_tools :: "toolBlock list"
  cm_next :: int
  cm_stop :: string
  cm_buf :: string
  cm_inputTok :: int
  cm_outputToks :: int
  cm_started :: bool
  cm_failed :: bool
  cm_notes :: "string list"

definition NewChatToMessages :: chatToMessages where
  "NewChatToMessages =
     \<lparr>cm_id = [], cm_model = [], cm_open = - 1, cm_kind = [], cm_tools = [], cm_next = 0, cm_stop = ''end_turn'',
      cm_buf = [], cm_inputTok = - 1, cm_outputToks = 0, cm_started = False, cm_failed = False, cm_notes = []\<rparr>"

definition add_note :: "string \<Rightarrow> chatToMessages \<Rightarrow> chatToMessages" where
  "add_note s c = (if s \<in> set (cm_notes c) then c else c\<lparr>cm_notes := cm_notes c @ [s]\<rparr>)"

type_synonym emit = "chatToMessages \<times> aEvent list"

definition emit_start :: "string \<Rightarrow> chatToMessages \<Rightarrow> emit" where
  "emit_start fresh c =
     (c\<lparr>cm_started := True\<rparr>,
      [MessageStart (if cm_id c = [] then fresh else cm_id c) (cm_model c) (max (cm_inputTok c) 0)])"

definition closeText :: "chatToMessages \<Rightarrow> emit" where
  "closeText c = (if cm_kind c = [] then (c, []) else (c\<lparr>cm_kind := []\<rparr>, [BlockStop (cm_open c)]))"

definition emit_text :: "string \<Rightarrow> string \<Rightarrow> chatToMessages \<Rightarrow> emit" where
  "emit_text s kind c =
     (if s = [] then (c, [])
      else let (c1, pre) =
             (if cm_kind c \<noteq> kind then
                (case closeText c of (c0, es) \<Rightarrow>
                   let c1 = c0\<lparr>cm_kind := kind, cm_open := cm_next c0, cm_next := cm_next c0 + 1\<rparr>
                   in (c1, es @ [BlockStart (cm_open c1) (if kind = ''thinking'' then ThinkingBlock else TextBlock)]))
              else (c, []))
           in (c1, pre @ [if kind = ''thinking'' then ThinkingDelta (cm_open c1) s else TextDelta (cm_open c1) s]))"

definition toolArgs :: "int \<Rightarrow> string \<Rightarrow> aEvent list" where
  "toolArgs blk args = (if args = [] then [] else [InputDelta blk args])"

definition dropTool :: "int \<Rightarrow> chatToMessages \<Rightarrow> chatToMessages" where
  "dropTool idx c = c\<lparr>cm_tools := filter (\<lambda>t. tb_idx t \<noteq> idx) (cm_tools c)\<rparr>"

definition emit_tool :: "int \<Rightarrow> deltaToolCall \<Rightarrow> chatToMessages \<Rightarrow> emit" where
  "emit_tool idx tc c =
     (let known = filter (\<lambda>t. tb_idx t = idx) (cm_tools c);
          fresh_block = (\<lambda>(c0, es).
            let blk = cm_next c0;
                tid = (if dt_ID tc = [] then ''toolu_'' @ Itoa blk else dt_ID tc)
            in (c0\<lparr>cm_next := blk + 1, cm_tools := cm_tools c0 @ [\<lparr>tb_idx = idx, tb_blk = blk, tb_id = tid\<rparr>]\<rparr>,
                es @ [BlockStart blk (ToolBlock tid (dt_Name tc))] @ toolArgs blk (dt_Arguments tc)))
      in if known \<noteq> [] \<and> (dt_ID tc = [] \<or> dt_ID tc = tb_id (last known))
         then (c, toolArgs (tb_blk (last known)) (dt_Arguments tc))
         else if known \<noteq> [] then fresh_block (dropTool idx c, [BlockStop (tb_blk (last known))])
         else fresh_block (closeText c))"

definition emit_close :: "chatToMessages \<Rightarrow> emit" where
  "emit_close c = (case closeText c of (c1, es) \<Rightarrow>
     (c1\<lparr>cm_tools := []\<rparr>, es @ map (\<lambda>t. BlockStop (tb_blk t)) (cm_tools c1)))"

definition message_delta :: "chatToMessages \<Rightarrow> aEvent" where
  "message_delta c = MessageDelta (cm_stop c) (cm_outputToks c) (if cm_inputTok c \<ge> 0 then Some (cm_inputTok c) else None)"

definition emit_finish :: "string \<Rightarrow> chatToMessages \<Rightarrow> emit" where
  "emit_finish fr c =
     (let c1 = c\<lparr>cm_stop := stopReason fr\<rparr>;
          c2 = (if finishNote fr \<noteq> [] then add_note (finishNote fr) c1 else c1)
      in case emit_close c2 of (c3, es) \<Rightarrow> (c3, es @ [message_delta c3]))"

definition failOpen :: "chatToMessages \<Rightarrow> emit" where
  "failOpen c = (add_note ''frame=untranslated'' (c\<lparr>cm_failed := True\<rparr>),
     [ErrorEvent ''api_error'' ''upstream sent a stream frame this proxy cannot translate''])"

definition anthropicEvents :: "string list" where
  "anthropicEvents = [''message_start'', ''content_block_start'', ''content_block_delta'', ''content_block_stop'',
     ''message_delta'', ''message_stop'', ''ping'', ''error'']"

definition isAnthropicEvent :: "json \<Rightarrow> bool" where
  "isAnthropicEvent v = (case v of JStr t \<Rightarrow> t \<in> set anthropicEvents | _ \<Rightarrow> False)"

definition isChunkShape :: "any_map \<Rightarrow> bool" where
  "isChunkShape keys \<longleftrightarrow> list_ex (any_has keys) [''choices'', ''id'', ''model'', ''usage'']"

definition take_usage :: "cUsage option \<Rightarrow> chatToMessages \<Rightarrow> chatToMessages" where
  "take_usage u c = (case u of
     None \<Rightarrow> c
   | Some u \<Rightarrow> c\<lparr>cm_inputTok := cu_PromptTokens u - cu_CachedTokens u, cm_outputToks := cu_CompletionTokens u\<rparr>)"

definition then_emit :: "emit \<Rightarrow> (chatToMessages \<Rightarrow> emit) \<Rightarrow> emit" where
  "then_emit x f = (case x of (c, es) \<Rightarrow> case f c of (c', es') \<Rightarrow> (c', es @ es'))"

fun emit_tools :: "deltaToolCall list \<Rightarrow> chatToMessages \<Rightarrow> emit" where
  "emit_tools [] c = (c, [])"
| "emit_tools (t # ts) c = then_emit (emit_tool (dt_Index t) t c) (emit_tools ts)"

definition handle_choice :: "string \<Rightarrow> cStreamChoice \<Rightarrow> chatToMessages \<Rightarrow> emit" where
  "handle_choice fresh ch c =
     (case prose ch of (text, reasoning, dropped) \<Rightarrow>
        let c1 = fold add_note dropped (take_usage (sc_Usage ch) c);
            e1 = (if cm_started c1 then (c1, []) else emit_start fresh c1);
            e2 = then_emit e1 (emit_text reasoning ''thinking'');
            e3 = then_emit e2 (emit_text text ''text'');
            e4 = then_emit e3 (emit_tools (sc_ToolCalls ch))
        in if sc_FinishReason ch \<noteq> [] then then_emit e4 (emit_finish (sc_FinishReason ch)) else e4)"

fun handle_choices :: "string \<Rightarrow> cStreamChoice list \<Rightarrow> chatToMessages \<Rightarrow> emit" where
  "handle_choices fresh [] c = (c, [])"
| "handle_choices fresh (ch # chs) c = then_emit (handle_choice fresh ch c) (handle_choices fresh chs)"

definition handle_chunk :: "string \<Rightarrow> chat_chunk \<Rightarrow> chatToMessages \<Rightarrow> emit" where
  "handle_chunk fresh k c =
     (let c1 = c\<lparr>cm_id := (if ck_ID k \<noteq> [] then ck_ID k else cm_id c),
                cm_model := (if ck_Model k \<noteq> [] then ck_Model k else cm_model c)\<rparr>
      in handle_choices fresh (ck_Choices k) (take_usage (ck_Usage k) c1))"

definition event_name :: "string \<Rightarrow> string" where
  "event_name data = TrimSpace (takeWhile (\<lambda>ch. ch \<noteq> cr \<and> ch \<noteq> lf) (drop 6 data))"

definition handle_payload :: "string \<Rightarrow> string \<Rightarrow> string \<Rightarrow> chatToMessages \<Rightarrow> emit" where
  "handle_payload fresh frame data c = (case Unmarshal data of
     Some JNull \<Rightarrow> (c, [])
   | Some (JObj keys) \<Rightarrow>
       if any_has keys ''type'' \<and> isAnthropicEvent (any_get keys ''type'') then (c, [Forwarded frame])
       else if any_has keys ''error'' then
         (case chat_error data of
            Some e \<Rightarrow> (c\<lparr>cm_failed := True\<rparr>, [ErrorEvent (ee_Type e) (ee_Message e)])
          | None \<Rightarrow> failOpen c)
       else if keys = [] then (c, [])
       else if \<not> isChunkShape keys then failOpen c
       else (case decode dec_chunk \<lparr>ck_ID = [], ck_Model = [], ck_Choices = [], ck_Usage = None\<rparr> data of
               None \<Rightarrow> failOpen c
             | Some k \<Rightarrow> handle_chunk fresh k c)
   | _ \<Rightarrow> failOpen c)"

definition handle_frame :: "string \<Rightarrow> string \<Rightarrow> chatToMessages \<Rightarrow> emit" where
  "handle_frame fresh frame c =
     (if cm_failed c then (c, [])
      else let data = TrimSpace frame; payload = TrimSpace (TrimPrefix data ''data:'') in
        if data = [] then (c, [])
        else if HasPrefix data ''event:'' then
          (if event_name data \<in> set anthropicEvents then (c, [Forwarded frame]) else failOpen c)
        else if HasPrefix data '':'' then (c, [])
        else if payload = [] \<or> payload = ''[DONE]'' then (c, [])
        else handle_payload fresh frame payload c)"

text \<open>
  The buffer is cut at the leftmost terminator (\<open>frameEnd\<close> is the rule of
  \<open>findSSEFrameEnd\<close>, answering the start and length of the terminator); the frame handed to
  \<open>handle\<close> ends before it.
\<close>

definition frameEnd :: "string \<Rightarrow> (nat \<times> nat) option" where
  "frameEnd b = fold (nearer b) frame_terminators None"

lemma frameEnd_bound: "frameEnd b = Some (i, n) \<Longrightarrow> 2 \<le> n \<and> i + n \<le> length b"
  using findSSEFrameEnd_bound [of b] fold_nearer_bound [of frame_terminators None b i n]
  by (simp add: frameEnd_def frame_terminators_def)

function drain_frames :: "string \<Rightarrow> chatToMessages \<Rightarrow> emit" where
  "drain_frames fresh c = (case frameEnd (cm_buf c) of
     None \<Rightarrow> (c, [])
   | Some (i, n) \<Rightarrow>
       (case handle_frame fresh (take i (cm_buf c)) c of (c1, es) \<Rightarrow>
          (case drain_frames fresh (c1\<lparr>cm_buf := drop (i + n) (cm_buf c)\<rparr>) of (c2, es') \<Rightarrow> (c2, es @ es'))))"
  by pat_completeness auto
termination
  by (relation "measure (\<lambda>(fresh, c). length (cm_buf c))") (auto dest!: frameEnd_bound)

declare drain_frames.simps [simp del]

definition emit_WriteFrame :: "string \<Rightarrow> string \<Rightarrow> chatToMessages \<Rightarrow> emit" where
  "emit_WriteFrame fresh frame c = drain_frames fresh (c\<lparr>cm_buf := cm_buf c @ frame\<rparr>)"

definition emit_FinishFrames :: "string \<Rightarrow> chatToMessages \<Rightarrow> emit" where
  "emit_FinishFrames fresh c =
     (let e1 = (if TrimSpace (cm_buf c) \<noteq> []
                then (case handle_frame fresh (cm_buf c) c of (c1, es) \<Rightarrow> (c1\<lparr>cm_buf := []\<rparr>, es))
                else (c, []))
      in if \<not> cm_started (fst e1) \<or> cm_failed (fst e1) then e1
         else then_emit e1 (\<lambda>c1. case emit_close c1 of (c2, es) \<Rightarrow> (c2, es @ [message_delta c2, MessageStop])))"

subsection \<open>The protocol of a Messages stream\<close>

text \<open>
  What a Messages client accepts: one \<open>message_start\<close> before everything else; blocks numbered
  0, 1, 2, ... in the order they open; a delta or a stop only for an open block, a delta only
  of that block's kind; \<open>message_delta\<close> and \<open>message_stop\<close> only with every block closed;
  nothing after \<open>message_stop\<close> or an error. Frames forwarded as they arrived do not count.
\<close>

datatype block_tag = TagText | TagThinking | TagTool

fun tag_of :: "block_kind \<Rightarrow> block_tag" where
  "tag_of TextBlock = TagText"
| "tag_of ThinkingBlock = TagThinking"
| "tag_of (ToolBlock _ _) = TagTool"

record proto =
  pr_started :: bool
  pr_next :: int
  pr_open :: "int \<rightharpoonup> block_tag"
  pr_ended :: bool
  pr_complete :: bool

definition proto_init :: proto where
  "proto_init = \<lparr>pr_started = False, pr_next = 0, pr_open = Map.empty, pr_ended = False, pr_complete = False\<rparr>"

fun accepts :: "aEvent \<Rightarrow> proto \<Rightarrow> bool" where
  "accepts (MessageStart _ _ _) p = (\<not> pr_started p)"
| "accepts (BlockStart i _) p = (pr_started p \<and> i = pr_next p)"
| "accepts (TextDelta i s) p = (pr_open p i = Some TagText \<and> s \<noteq> [])"
| "accepts (ThinkingDelta i s) p = (pr_open p i = Some TagThinking \<and> s \<noteq> [])"
| "accepts (InputDelta i s) p = (pr_open p i = Some TagTool \<and> s \<noteq> [])"
| "accepts (BlockStop i) p = (pr_open p i \<noteq> None)"
| "accepts (MessageDelta _ _ _) p = (pr_started p \<and> pr_open p = Map.empty)"
| "accepts MessageStop p = (pr_started p \<and> pr_open p = Map.empty)"
| "accepts (ErrorEvent _ _) p = True"
| "accepts (Forwarded _) p = True"

fun advance :: "aEvent \<Rightarrow> proto \<Rightarrow> proto" where
  "advance (MessageStart _ _ _) p = p\<lparr>pr_started := True\<rparr>"
| "advance (BlockStart i k) p = p\<lparr>pr_next := pr_next p + 1, pr_open := (pr_open p)(i \<mapsto> tag_of k)\<rparr>"
| "advance (BlockStop i) p = p\<lparr>pr_open := (pr_open p)(i := None)\<rparr>"
| "advance MessageStop p = p\<lparr>pr_ended := True, pr_complete := True\<rparr>"
| "advance (ErrorEvent _ _) p = p\<lparr>pr_ended := True\<rparr>"
| "advance _ p = p"

fun proto_run :: "aEvent list \<Rightarrow> proto \<Rightarrow> proto option" where
  "proto_run [] p = Some p"
| "proto_run (e # es) p = (if pr_ended p \<or> \<not> accepts e p then None else proto_run es (advance e p))"

lemma proto_run_append: "proto_run (xs @ ys) p = (case proto_run xs p of None \<Rightarrow> None | Some q \<Rightarrow> proto_run ys q)"
  by (induction xs arbitrary: p) simp_all

definition kind_tag :: "string \<Rightarrow> block_tag" where
  "kind_tag k = (if k = ''thinking'' then TagThinking else TagText)"

definition open_blocks :: "chatToMessages \<Rightarrow> int \<rightharpoonup> block_tag" where
  "open_blocks c = (\<lambda>i. if cm_kind c \<noteq> [] \<and> i = cm_open c then Some (kind_tag (cm_kind c))
                       else if i \<in> tb_blk ` set (cm_tools c) then Some TagTool else None)"

definition emitter_inv :: "chatToMessages \<Rightarrow> bool" where
  "emitter_inv c \<longleftrightarrow> cm_kind c \<in> {[], ''text'', ''thinking''} \<and>
     (cm_kind c \<noteq> [] \<longrightarrow> cm_open c < cm_next c \<and> cm_open c \<notin> tb_blk ` set (cm_tools c)) \<and>
     (\<forall>t \<in> set (cm_tools c). tb_blk t < cm_next c) \<and>
     distinct (map tb_blk (cm_tools c)) \<and> distinct (map tb_idx (cm_tools c)) \<and>
     (\<not> cm_started c \<longrightarrow> cm_kind c = [] \<and> cm_tools c = [])"

definition tracks :: "chatToMessages \<Rightarrow> proto \<Rightarrow> bool" where
  "tracks c p \<longleftrightarrow> emitter_inv c \<and> pr_started p = cm_started c \<and> pr_next p = cm_next c \<and>
     pr_open p = open_blocks c \<and> \<not> pr_ended p \<and> \<not> pr_complete p \<and> \<not> cm_failed c"

text \<open>An emission of a started message that keeps to the protocol.\<close>

definition keeps :: "(chatToMessages \<Rightarrow> emit) \<Rightarrow> bool" where
  "keeps f \<longleftrightarrow> (\<forall>c p. tracks c p \<and> cm_started c \<longrightarrow>
     (\<exists>p'. proto_run (snd (f c)) p = Some p' \<and> tracks (fst (f c)) p' \<and> cm_started (fst (f c))))"

lemma keepsI:
  assumes "\<And>c p. tracks c p \<Longrightarrow> cm_started c \<Longrightarrow>
    \<exists>p'. proto_run (snd (f c)) p = Some p' \<and> tracks (fst (f c)) p' \<and> cm_started (fst (f c))"
  shows "keeps f"
  using assms by (simp add: keeps_def)

lemma keepsD:
  assumes "keeps f" "tracks c p" "cm_started c"
  obtains p' where "proto_run (snd (f c)) p = Some p'" "tracks (fst (f c)) p'" "cm_started (fst (f c))"
  using assms by (auto simp: keeps_def)

lemma then_emit_keeps:
  assumes "keeps f" "keeps g"
  shows "keeps (\<lambda>c. then_emit (f c) g)"
proof (rule keepsI)
  fix c p
  assume t: "tracks c p" "cm_started c"
  obtain p1 where 1: "proto_run (snd (f c)) p = Some p1" "tracks (fst (f c)) p1" "cm_started (fst (f c))"
    using keepsD [OF assms(1) t] .
  obtain p2 where 2: "proto_run (snd (g (fst (f c)))) p1 = Some p2" "tracks (fst (g (fst (f c)))) p2"
      "cm_started (fst (g (fst (f c))))"
    using keepsD [OF assms(2) 1(2,3)] .
  show "\<exists>p'. proto_run (snd (then_emit (f c) g)) p = Some p' \<and> tracks (fst (then_emit (f c) g)) p' \<and>
      cm_started (fst (then_emit (f c) g))"
    using 1 2 by (auto simp: then_emit_def proto_run_append split: prod.splits)
qed

lemma tracks_cong:
  assumes "cm_kind c = cm_kind c'" "cm_open c = cm_open c'" "cm_tools c = cm_tools c'" "cm_next c = cm_next c'"
    "cm_started c = cm_started c'" "cm_failed c = cm_failed c'"
  shows "tracks c p = tracks c' p"
  unfolding tracks_def emitter_inv_def open_blocks_def assms ..

lemma add_note_selectors [simp]:
  "cm_kind (add_note s c) = cm_kind c" "cm_open (add_note s c) = cm_open c" "cm_tools (add_note s c) = cm_tools c"
  "cm_next (add_note s c) = cm_next c" "cm_started (add_note s c) = cm_started c" "cm_failed (add_note s c) = cm_failed c"
  "cm_buf (add_note s c) = cm_buf c"
  by (simp_all add: add_note_def)

lemma take_usage_selectors [simp]:
  "cm_kind (take_usage u c) = cm_kind c" "cm_open (take_usage u c) = cm_open c" "cm_tools (take_usage u c) = cm_tools c"
  "cm_next (take_usage u c) = cm_next c" "cm_started (take_usage u c) = cm_started c"
  "cm_failed (take_usage u c) = cm_failed c" "cm_buf (take_usage u c) = cm_buf c"
  by (simp_all add: take_usage_def split: option.splits)

lemma tracks_bookkeeping [simp]:
  "tracks (add_note s c) p = tracks c p" "tracks (take_usage u c) p = tracks c p"
  "tracks (c\<lparr>cm_stop := x\<rparr>) p = tracks c p" "tracks (c\<lparr>cm_buf := x\<rparr>) p = tracks c p"
  "tracks (c\<lparr>cm_id := x, cm_model := y\<rparr>) p = tracks c p"
  by (rule tracks_cong; simp)+

lemma fold_notes [simp]: "tracks (fold add_note ns c) p = tracks c p" "cm_started (fold add_note ns c) = cm_started c"
  "cm_failed (fold add_note ns c) = cm_failed c"
  by (induction ns arbitrary: c) simp_all

lemma closeText_keeps: "keeps closeText"
proof (rule keepsI)
  fix c p
  assume t: "tracks c p" "cm_started c"
  show "\<exists>p'. proto_run (snd (closeText c)) p = Some p' \<and> tracks (fst (closeText c)) p' \<and> cm_started (fst (closeText c))"
  proof (cases "cm_kind c = []")
    case False
    have eq: "(open_blocks c)(cm_open c := None) = open_blocks (c\<lparr>cm_kind := []\<rparr>)"
      using t(1) False by (auto simp: open_blocks_def tracks_def emitter_inv_def fun_eq_iff)
    have op: "open_blocks c (cm_open c) = Some (kind_tag (cm_kind c))" using False by (simp add: open_blocks_def)
    show ?thesis using t False eq op by (simp add: closeText_def tracks_def emitter_inv_def)
  qed (use t in \<open>simp add: closeText_def\<close>)
qed

text \<open>The state after \<open>closeText\<close>: no prose block is open.\<close>

lemma closeText_fst: "fst (closeText c) = c\<lparr>cm_kind := []\<rparr>"
  by (simp add: closeText_def)

definition open_prose :: "string \<Rightarrow> chatToMessages \<Rightarrow> emit" where
  "open_prose kind c = (c\<lparr>cm_kind := kind, cm_open := cm_next c, cm_next := cm_next c + 1\<rparr>,
     [BlockStart (cm_next c) (if kind = ''thinking'' then ThinkingBlock else TextBlock)])"

definition open_tool :: "int \<Rightarrow> string \<Rightarrow> string \<Rightarrow> chatToMessages \<Rightarrow> emit" where
  "open_tool idx tid name c = (c\<lparr>cm_next := cm_next c + 1,
       cm_tools := cm_tools c @ [\<lparr>tb_idx = idx, tb_blk = cm_next c, tb_id = tid\<rparr>]\<rparr>,
     [BlockStart (cm_next c) (ToolBlock tid name)])"

lemma open_prose_tracks:
  assumes "tracks c p" "cm_started c" "cm_kind c = []" "kind \<in> {''text'', ''thinking''}"
  shows "\<exists>p'. proto_run (snd (open_prose kind c)) p = Some p' \<and> tracks (fst (open_prose kind c)) p'"
proof -
  have "(open_blocks c)(cm_next c \<mapsto> kind_tag kind) = open_blocks (fst (open_prose kind c))"
    using assms by (auto simp: open_prose_def open_blocks_def fun_eq_iff tracks_def emitter_inv_def)
  moreover have "emitter_inv (fst (open_prose kind c))"
    using assms by (auto simp: open_prose_def tracks_def emitter_inv_def)
  ultimately show ?thesis
    using assms by (auto simp: open_prose_def tracks_def kind_tag_def)
qed

lemma open_tool_tracks:
  assumes "tracks c p" "cm_started c" "idx \<notin> tb_idx ` set (cm_tools c)"
  shows "\<exists>p'. proto_run (snd (open_tool idx tid name c)) p = Some p' \<and> tracks (fst (open_tool idx tid name c)) p'
    \<and> pr_open p' (cm_next c) = Some TagTool"
proof -
  have eq: "(open_blocks c)(cm_next c \<mapsto> TagTool) = open_blocks (fst (open_tool idx tid name c))"
    using assms by (auto simp: open_tool_def open_blocks_def fun_eq_iff tracks_def emitter_inv_def)
  moreover have "emitter_inv (fst (open_tool idx tid name c))"
    using assms by (auto simp: open_tool_def tracks_def emitter_inv_def)
  moreover have "open_blocks (fst (open_tool idx tid name c)) (cm_next c) = Some TagTool"
    unfolding eq [symmetric] by simp
  ultimately show ?thesis
    using assms by (auto simp: open_tool_def tracks_def)
qed

lemma emit_text_alt:
  "emit_text s kind c = (if s = [] then (c, []) else
     then_emit (if cm_kind c \<noteq> kind then then_emit (closeText c) (open_prose kind) else (c, []))
       (\<lambda>c1. (c1, [if kind = ''thinking'' then ThinkingDelta (cm_open c1) s else TextDelta (cm_open c1) s])))"
  by (simp add: emit_text_def then_emit_def open_prose_def Let_def split: prod.splits)

lemma emit_tool_alt:
  "emit_tool idx tc c =
     (let known = filter (\<lambda>t. tb_idx t = idx) (cm_tools c);
          fresh_block = (\<lambda>c0. then_emit (open_tool idx (if dt_ID tc = [] then ''toolu_'' @ Itoa (cm_next c0) else dt_ID tc) (dt_Name tc) c0)
             (\<lambda>c1. (c1, toolArgs (cm_next c0) (dt_Arguments tc))))
      in if known \<noteq> [] \<and> (dt_ID tc = [] \<or> dt_ID tc = tb_id (last known))
         then (c, toolArgs (tb_blk (last known)) (dt_Arguments tc))
         else if known \<noteq> [] then then_emit (dropTool idx c, [BlockStop (tb_blk (last known))]) fresh_block
         else then_emit (closeText c) fresh_block)"
  by (simp add: emit_tool_def then_emit_def open_tool_def Let_def split: prod.splits)

lemma snd_then_emit: "snd (then_emit x f) = snd x @ snd (f (fst x))"
  by (simp add: then_emit_def split: prod.splits)

lemma proto_run_then_emit:
  assumes "proto_run (snd x) p = Some q" "proto_run (snd (f (fst x))) q = Some r"
  shows "proto_run (snd (then_emit x f)) p = Some r"
  using assms by (simp add: snd_then_emit proto_run_append)

lemma then_emit_fst [simp]: "fst (then_emit x f) = fst (f (fst x))"
  by (simp add: then_emit_def split: prod.splits)

lemma emit_text_keeps:
  assumes k: "kind \<in> {''text'', ''thinking''}"
  shows "keeps (emit_text s kind)"
proof (rule keepsI)
  fix c p
  assume t: "tracks c p" "cm_started c"
  define x where "x = (if cm_kind c \<noteq> kind then then_emit (closeText c) (open_prose kind) else (c, []))"
  have "\<exists>q. proto_run (snd x) p = Some q \<and> tracks (fst x) q"
  proof (cases "cm_kind c = kind")
    case False
    obtain q1 where 1: "proto_run (snd (closeText c)) p = Some q1" "tracks (fst (closeText c)) q1"
        "cm_started (fst (closeText c))"
      using keepsD [OF closeText_keeps t] .
    obtain q2 where "proto_run (snd (open_prose kind (fst (closeText c)))) q1 = Some q2"
        "tracks (fst (open_prose kind (fst (closeText c)))) q2"
      using open_prose_tracks [OF 1(2,3) _ k] by (auto simp: closeText_fst)
    then show ?thesis using False proto_run_then_emit [OF 1(1)] by (auto simp: x_def)
  qed (use t in \<open>simp add: x_def\<close>)
  then obtain q where q: "proto_run (snd x) p = Some q" "tracks (fst x) q" by blast
  have x: "cm_kind (fst x) = kind" "cm_started (fst x)" using t by (simp_all add: x_def open_prose_def closeText_fst)
  have o: "pr_open q (cm_open (fst x)) = Some (kind_tag kind)"
    using q(2) x(1) k by (auto simp: tracks_def open_blocks_def)
  show "\<exists>p'. proto_run (snd (emit_text s kind c)) p = Some p' \<and> tracks (fst (emit_text s kind c)) p' \<and>
      cm_started (fst (emit_text s kind c))"
  proof (cases "s = []")
    case False
    have e: "emit_text s kind c = then_emit x (\<lambda>c1. (c1, [if kind = ''thinking'' then ThinkingDelta (cm_open c1) s else TextDelta (cm_open c1) s]))"
      using False by (simp add: emit_text_alt x_def)
    show ?thesis unfolding e
      using q x o False by (auto simp: snd_then_emit proto_run_append kind_tag_def tracks_def)
  qed (use t in \<open>simp add: emit_text_alt\<close>)
qed

lemma toolArgs_run:
  assumes "tracks c p" "pr_open p blk = Some TagTool"
  shows "proto_run (toolArgs blk args) p = Some p"
  using assms by (simp add: toolArgs_def tracks_def)

lemma known_tool:
  assumes "filter (\<lambda>t. tb_idx t = idx) (cm_tools c) \<noteq> []" "tracks c p"
  defines "k \<equiv> last (filter (\<lambda>t. tb_idx t = idx) (cm_tools c))"
  shows "k \<in> set (cm_tools c)" "tb_idx k = idx" "pr_open p (tb_blk k) = Some TagTool"
proof -
  have "k \<in> set (filter (\<lambda>t. tb_idx t = idx) (cm_tools c))" unfolding k_def using assms(1) by (rule last_in_set)
  then show k: "k \<in> set (cm_tools c)" "tb_idx k = idx" by simp_all
  have "\<not> (cm_kind c \<noteq> [] \<and> tb_blk k = cm_open c)"
    using imageI [OF k(1), of tb_blk] assms(2) by (auto simp: tracks_def emitter_inv_def)
  then show "pr_open p (tb_blk k) = Some TagTool"
    using k assms(2) by (auto simp: tracks_def open_blocks_def)
qed

text \<open>Closing the block of a tool call takes it out of the tracked blocks.\<close>

lemma dropTool_tracks:
  assumes t: "tracks c p" "cm_started c" and k: "k \<in> set (cm_tools c)" "tb_idx k = idx"
  shows "\<exists>p'. proto_run [BlockStop (tb_blk k)] p = Some p' \<and> tracks (dropTool idx c) p'"
proof -
  have inj: "t \<in> set (cm_tools c) \<Longrightarrow> tb_blk t = tb_blk k \<longleftrightarrow> tb_idx t = idx" for t
    using t k by (auto simp: tracks_def emitter_inv_def distinct_map inj_on_def)
  have np: "\<not> (cm_kind c \<noteq> [] \<and> tb_blk k = cm_open c)"
    using imageI [OF k(1), of tb_blk] t(1) by (auto simp: tracks_def emitter_inv_def)
  have img: "tb_blk ` set (cm_tools (dropTool idx c)) = tb_blk ` set (cm_tools c) - {tb_blk k}"
    using inj by (auto simp: dropTool_def)
  have o: "(open_blocks c)(tb_blk k := None) = open_blocks (dropTool idx c)"
    using np unfolding open_blocks_def img by (auto simp: dropTool_def fun_eq_iff)
  have i: "emitter_inv (dropTool idx c)"
    using t by (auto simp: tracks_def emitter_inv_def dropTool_def distinct_map inj_on_def)
  have a: "open_blocks c (tb_blk k) \<noteq> None" using k by (auto simp: open_blocks_def)
  show ?thesis using t o i a by (auto simp: tracks_def dropTool_def)
qed

lemma fresh_tool_tracks:
  assumes "tracks c p" "cm_started c" "idx \<notin> tb_idx ` set (cm_tools c)"
  shows "\<exists>p'. proto_run (snd (then_emit (open_tool idx tid name c) (\<lambda>c1. (c1, toolArgs (cm_next c) args)))) p = Some p' \<and>
    tracks (fst (open_tool idx tid name c)) p'"
proof -
  obtain q where q: "proto_run (snd (open_tool idx tid name c)) p = Some q" "tracks (fst (open_tool idx tid name c)) q"
      "pr_open q (cm_next c) = Some TagTool"
    using open_tool_tracks [OF assms] by blast
  have "proto_run (toolArgs (cm_next c) args) q = Some q" using toolArgs_run [OF q(2,3)] .
  then show ?thesis using q by (auto simp: snd_then_emit proto_run_append)
qed

lemma emit_tool_keeps: "keeps (emit_tool idx tc)"
proof (rule keepsI)
  fix c p
  assume t: "tracks c p" "cm_started c"
  let ?known = "filter (\<lambda>t. tb_idx t = idx) (cm_tools c)"
  show "\<exists>p'. proto_run (snd (emit_tool idx tc c)) p = Some p' \<and> tracks (fst (emit_tool idx tc c)) p' \<and>
      cm_started (fst (emit_tool idx tc c))"
  proof (cases "?known = []")
    case True
    obtain q where q: "proto_run (snd (closeText c)) p = Some q" "tracks (fst (closeText c)) q" "cm_started (fst (closeText c))"
      using keepsD [OF closeText_keeps t] .
    have "idx \<notin> tb_idx ` set (cm_tools (fst (closeText c)))" using True by (auto simp: closeText_fst filter_empty_conv)
    from fresh_tool_tracks [OF q(2,3) this] q(3) show ?thesis
      using True q(1) by (fastforce simp: emit_tool_alt open_tool_def snd_then_emit proto_run_append)
  next
    case False
    note k = known_tool [OF False t(1)]
    show ?thesis
    proof (cases "dt_ID tc = [] \<or> dt_ID tc = tb_id (last ?known)")
      case True
      then show ?thesis using False t toolArgs_run [OF t(1) k(3)] by (auto simp: emit_tool_alt Let_def)
    next
      case new: False
      obtain q where q: "proto_run [BlockStop (tb_blk (last ?known))] p = Some q" "tracks (dropTool idx c) q"
        using dropTool_tracks [OF t k(1,2)] by blast
      have s: "cm_started (dropTool idx c)" "idx \<notin> tb_idx ` set (cm_tools (dropTool idx c))"
        using t by (auto simp: dropTool_def)
      obtain r where r: "proto_run (snd (then_emit (open_tool idx (dt_ID tc) (dt_Name tc) (dropTool idx c))
            (\<lambda>c1. (c1, toolArgs (cm_next (dropTool idx c)) (dt_Arguments tc))))) q = Some r"
          "tracks (fst (open_tool idx (dt_ID tc) (dt_Name tc) (dropTool idx c))) r"
        using fresh_tool_tracks [OF q(2) s] by blast
      have e: "emit_tool idx tc c = then_emit (dropTool idx c, [BlockStop (tb_blk (last ?known))])
          (\<lambda>c0. then_emit (open_tool idx (dt_ID tc) (dt_Name tc) c0) (\<lambda>c1. (c1, toolArgs (cm_next c0) (dt_Arguments tc))))"
        using False new by (simp add: emit_tool_alt)
      have run: "proto_run (snd (emit_tool idx tc c)) p = Some r"
        unfolding e by (rule proto_run_then_emit [OF _ _]) (use q(1) r(1) in simp_all)
      show ?thesis using run r(2) s(1) by (auto simp: e open_tool_def)
    qed
  qed
qed

lemma emit_tools_keeps: "keeps (emit_tools ts)"
proof (induction ts)
  case Nil
  show ?case by (simp add: keeps_def)
next
  case (Cons t ts)
  show ?case using then_emit_keeps [OF emit_tool_keeps Cons] by (simp add: keeps_def)
qed

lemma stops_run:
  assumes "distinct bs" "\<forall>b \<in> set bs. pr_open p b \<noteq> None" "\<not> pr_ended p"
  shows "proto_run (map BlockStop bs) p = Some (p\<lparr>pr_open := pr_open p |` (- set bs)\<rparr>)"
  using assms
proof (induction bs arbitrary: p)
  case (Cons b bs)
  have "proto_run (map BlockStop bs) (advance (BlockStop b) p) =
      Some ((advance (BlockStop b) p)\<lparr>pr_open := pr_open (advance (BlockStop b) p) |` (- set bs)\<rparr>)"
    using Cons.prems by (intro Cons.IH) auto
  moreover have "((pr_open p)(b := None)) |` (- set bs) = pr_open p |` (- insert b (set bs))"
    by (auto simp: restrict_map_def fun_eq_iff)
  ultimately show ?case using Cons.prems by simp
qed (simp add: restrict_map_def)

lemma emit_close_run:
  assumes "tracks c p" "cm_started c"
  shows "\<exists>p'. proto_run (snd (emit_close c)) p = Some p' \<and> tracks (fst (emit_close c)) p' \<and>
    cm_started (fst (emit_close c)) \<and> pr_open p' = Map.empty"
proof -
  let ?c1 = "fst (closeText c)" and ?bs = "map tb_blk (cm_tools c)"
  obtain q where q: "proto_run (snd (closeText c)) p = Some q" "tracks ?c1 q" "cm_started ?c1"
    using keepsD [OF closeText_keeps assms] .
  have o: "pr_open q = (\<lambda>i. if i \<in> set ?bs then Some TagTool else None)"
    using q(2) by (auto simp: tracks_def open_blocks_def closeText_fst fun_eq_iff)
  have run: "proto_run (map BlockStop ?bs) q = Some (q\<lparr>pr_open := pr_open q |` (- set ?bs)\<rparr>)"
  proof (rule stops_run)
    show "\<forall>b \<in> set ?bs. pr_open q b \<noteq> None" unfolding o by simp
  qed (use q(2) in \<open>auto simp: tracks_def emitter_inv_def closeText_fst\<close>)
  have empty: "pr_open q |` (- set ?bs) = Map.empty" by (auto simp: o restrict_map_def fun_eq_iff)
  have e: "emit_close c = then_emit (closeText c) (\<lambda>c1. (c1\<lparr>cm_tools := []\<rparr>, map BlockStop (map tb_blk (cm_tools c1))))"
    by (simp add: emit_close_def then_emit_def comp_def split: prod.splits)
  have t: "tracks (?c1\<lparr>cm_tools := []\<rparr>) (q\<lparr>pr_open := Map.empty\<rparr>)"
    using q(2) by (auto simp: tracks_def emitter_inv_def open_blocks_def closeText_fst fun_eq_iff)
  have "proto_run (map BlockStop ?bs) q = Some (q\<lparr>pr_open := Map.empty\<rparr>)" using run unfolding empty .
  then have "proto_run (snd (emit_close c)) p = Some (q\<lparr>pr_open := Map.empty\<rparr>)"
    unfolding e by (intro proto_run_then_emit [OF q(1)]) (simp add: closeText_fst)
  then show ?thesis using t q(3) by (simp add: e)
qed

lemma emit_finish_keeps: "keeps (emit_finish fr)"
proof (rule keepsI)
  fix c p
  assume t: "tracks c p" "cm_started c"
  define d where "d = (if finishNote fr \<noteq> [] then add_note (finishNote fr) (c\<lparr>cm_stop := stopReason fr\<rparr>) else c\<lparr>cm_stop := stopReason fr\<rparr>)"
  have d: "tracks d p" "cm_started d" using t by (simp_all add: d_def)
  obtain q where q: "proto_run (snd (emit_close d)) p = Some q" "tracks (fst (emit_close d)) q"
      "cm_started (fst (emit_close d))" "pr_open q = Map.empty"
    using emit_close_run [OF d] by blast
  have e: "emit_finish fr c = then_emit (emit_close d) (\<lambda>c3. (c3, [message_delta c3]))"
    by (simp add: emit_finish_def d_def then_emit_def Let_def split: prod.splits)
  have "proto_run (snd (emit_finish fr c)) p = Some q"
    unfolding e using q by (intro proto_run_then_emit [OF q(1)]) (simp add: message_delta_def tracks_def)
  then show "\<exists>p'. proto_run (snd (emit_finish fr c)) p = Some p' \<and> tracks (fst (emit_finish fr c)) p' \<and>
      cm_started (fst (emit_finish fr c))"
    using q by (simp add: e)
qed

text \<open>
  The whole of a frame: whatever the chunk holds, the events are accepted, and the emitter
  either goes on tracking the protocol or has failed with an error as its last event.
\<close>

definition in_step :: "chatToMessages \<Rightarrow> proto \<Rightarrow> bool" where
  "in_step c p \<longleftrightarrow> (if cm_failed c then pr_ended p \<and> \<not> pr_complete p else tracks c p)"

definition follows :: "emit \<Rightarrow> proto \<Rightarrow> bool" where
  "follows x p \<longleftrightarrow> (\<exists>p'. proto_run (snd x) p = Some p' \<and> in_step (fst x) p')"

lemma keeps_follows:
  assumes "keeps f" "tracks c p" "cm_started c"
  shows "follows (f c) p" "cm_started (fst (f c))" "\<not> cm_failed (fst (f c))"
proof -
  obtain p' where p': "proto_run (snd (f c)) p = Some p'" "tracks (fst (f c)) p'" "cm_started (fst (f c))"
    using keepsD [OF assms] .
  then show "cm_started (fst (f c))" "\<not> cm_failed (fst (f c))" by (simp_all add: tracks_def)
  then show "follows (f c) p" using p' by (auto simp: follows_def in_step_def)
qed

lemma follows_then:
  assumes "follows x p" "\<And>q. tracks (fst x) q \<Longrightarrow> follows (f (fst x)) q" "\<not> cm_failed (fst x)"
  shows "follows (then_emit x f) p"
proof -
  obtain q where "proto_run (snd x) p = Some q" "tracks (fst x) q" using assms by (auto simp: follows_def in_step_def)
  then show ?thesis using assms(2) [of q] by (auto simp: follows_def in_step_def snd_then_emit proto_run_append)
qed

lemma emit_start_follows:
  assumes "tracks c p" "\<not> cm_started c"
  shows "follows (emit_start fresh c) p"
proof -
  have "open_blocks (c\<lparr>cm_started := True\<rparr>) = open_blocks c" by (simp add: open_blocks_def fun_eq_iff)
  then show ?thesis using assms by (auto simp: follows_def in_step_def emit_start_def tracks_def emitter_inv_def)
qed

lemma handle_choice_follows:
  assumes "tracks c p"
  shows "follows (handle_choice fresh ch c) p" "\<not> cm_failed (fst (handle_choice fresh ch c))"
proof -
  obtain tx rsn dropped where pr: "prose ch = (tx, rsn, dropped)" by (cases "prose ch") auto
  define c1 where "c1 = fold add_note dropped (take_usage (sc_Usage ch) c)"
  define e1 where "e1 = (if cm_started c1 then (c1, []) else emit_start fresh c1)"
  define g where "g = (\<lambda>d. then_emit (then_emit (emit_text rsn ''thinking'' d) (emit_text tx ''text'')) (emit_tools (sc_ToolCalls ch)))"
  define h where "h = (\<lambda>d. if sc_FinishReason ch \<noteq> [] then then_emit (g d) (emit_finish (sc_FinishReason ch)) else g d)"
  have t1: "tracks c1 p" using assms by (simp add: c1_def)
  have e1: "follows e1 p" "cm_started (fst e1)" "\<not> cm_failed (fst e1)"
    using t1 emit_start_follows [OF t1]
    by (auto simp: e1_def follows_def in_step_def emit_start_def tracks_def)
  have g: "keeps g" unfolding g_def
    by (intro then_emit_keeps emit_text_keeps emit_tools_keeps) simp_all
  have "keeps h"
  proof (cases "sc_FinishReason ch = []")
    case False
    then show ?thesis using then_emit_keeps [OF g emit_finish_keeps] by (simp add: h_def)
  qed (use g in \<open>simp add: h_def\<close>)
  note h = keeps_follows [OF this _ e1(2)]
  have eq: "handle_choice fresh ch c = then_emit e1 h"
    unfolding handle_choice_def pr prod.case Let_def c1_def [symmetric] e1_def [symmetric] h_def g_def
    by (rule prod_eqI) (simp_all add: snd_then_emit)
  obtain q where q: "tracks (fst e1) q" using e1 by (auto simp: follows_def in_step_def)
  show "follows (handle_choice fresh ch c) p"
    unfolding eq by (rule follows_then [where f = h, OF e1(1) h(1) e1(3)])
  show "\<not> cm_failed (fst (handle_choice fresh ch c))" using h(3) [OF q] by (simp add: eq)
qed

lemma handle_choices_follows:
  assumes "tracks c p"
  shows "follows (handle_choices fresh chs c) p \<and> \<not> cm_failed (fst (handle_choices fresh chs c))"
  using assms
proof (induction chs arbitrary: c p)
  case Nil
  then show ?case by (auto simp: follows_def in_step_def tracks_def)
next
  case (Cons ch chs)
  note ch = handle_choice_follows [OF Cons.prems, of fresh ch]
  obtain q where "tracks (fst (handle_choice fresh ch c)) q" using ch by (auto simp: follows_def in_step_def)
  then show ?case
    using follows_then [OF ch(1) _ ch(2), of "handle_choices fresh chs"] Cons.IH by simp
qed

lemma failOpen_follows: "\<not> pr_ended p \<Longrightarrow> \<not> pr_complete p \<Longrightarrow> follows (failOpen c) p"
  by (simp add: follows_def in_step_def failOpen_def)

lemma handle_payload_follows:
  assumes "tracks c p"
  shows "follows (handle_payload fresh frame data c) p"
proof -
  have ne: "\<not> pr_ended p" "\<not> pr_complete p" and stay: "follows (c, []) p" "follows (c, [Forwarded frame]) p"
    using assms by (auto simp: follows_def in_step_def tracks_def)
  have err: "follows (c\<lparr>cm_failed := True\<rparr>, [ErrorEvent t m]) p" for t m using ne by (simp add: follows_def in_step_def)
  have chunk: "follows (handle_chunk fresh k c) p" for k
    unfolding handle_chunk_def Let_def using assms by (intro handle_choices_follows [THEN conjunct1]) simp
  show ?thesis
    using failOpen_follows [OF ne] stay err chunk
    by (auto simp: handle_payload_def split: option.splits json.splits)
qed

lemma handle_frame_follows:
  assumes "tracks c p"
  shows "follows (handle_frame fresh frame c) p"
proof -
  have ne: "\<not> pr_ended p" "\<not> pr_complete p" and stay: "follows (c, []) p" "follows (c, [Forwarded frame]) p"
    using assms by (auto simp: follows_def in_step_def tracks_def)
  show ?thesis
    using failOpen_follows [OF ne] stay handle_payload_follows [OF assms]
    by (auto simp: handle_frame_def Let_def)
qed

text \<open>A failed emitter answers every further frame with nothing.\<close>

lemma handle_frame_in_step:
  assumes "in_step c p"
  shows "follows (handle_frame fresh frame c) p"
proof (cases "cm_failed c")
  case True
  then show ?thesis using assms by (simp add: follows_def handle_frame_def)
next
  case False
  then show ?thesis using assms handle_frame_follows by (simp add: in_step_def)
qed

lemma in_step_buf [simp]: "in_step (c\<lparr>cm_buf := b\<rparr>) p = in_step c p"
  by (simp add: in_step_def)

lemma follows_cont:
  assumes "follows x p" "\<And>q. in_step (fst x) q \<Longrightarrow> follows (f (fst x)) q"
  shows "follows (then_emit x f) p"
proof -
  obtain q where "proto_run (snd x) p = Some q" "in_step (fst x) q" using assms(1) by (auto simp: follows_def)
  then show ?thesis using assms(2) [of q] by (auto simp: follows_def snd_then_emit proto_run_append)
qed

lemma drain_frames_follows: "in_step c p \<Longrightarrow> follows (drain_frames fresh c) p"
proof (induction fresh c arbitrary: p rule: drain_frames.induct)
  case (1 fresh c)
  show ?case
  proof (cases "frameEnd (cm_buf c)")
    case None
    then show ?thesis using "1.prems" by (simp add: drain_frames.simps follows_def)
  next
    case (Some e)
    obtain i n where e: "e = (i, n)" by (cases e)
    let ?h = "handle_frame fresh (take i (cm_buf c)) c"
    have eq: "drain_frames fresh c = then_emit ?h (\<lambda>d. drain_frames fresh (d\<lparr>cm_buf := drop (i + n) (cm_buf c)\<rparr>))"
      using Some e by (subst drain_frames.simps) (simp add: then_emit_def split: prod.splits)
    have rest: "follows (drain_frames fresh ((fst ?h)\<lparr>cm_buf := drop (i + n) (cm_buf c)\<rparr>)) q" if "in_step (fst ?h) q" for q
      using "1.IH" [OF Some e [symmetric], of "fst ?h" "snd ?h"] that by simp
    show ?thesis unfolding eq by (rule follows_cont [where f = "\<lambda>d. drain_frames fresh (d\<lparr>cm_buf := drop (i + n) (cm_buf c)\<rparr>)", OF handle_frame_in_step [OF "1.prems"] rest])
  qed
qed

lemma emit_WriteFrame_follows: "in_step c p \<Longrightarrow> follows (emit_WriteFrame fresh frame c) p"
  unfolding emit_WriteFrame_def by (rule drain_frames_follows) simp

text \<open>A whole answer: every read of the backend's body, then its end.\<close>

fun emit_frames :: "string \<Rightarrow> string list \<Rightarrow> chatToMessages \<Rightarrow> emit" where
  "emit_frames fresh [] c = (c, [])"
| "emit_frames fresh (f # fs) c = then_emit (emit_WriteFrame fresh f c) (emit_frames fresh fs)"

definition translate_stream :: "string \<Rightarrow> string list \<Rightarrow> emit" where
  "translate_stream fresh reads = then_emit (emit_frames fresh reads NewChatToMessages) (emit_FinishFrames fresh)"

lemma emit_frames_follows: "in_step c p \<Longrightarrow> follows (emit_frames fresh fs c) p"
proof (induction fs arbitrary: c p)
  case Nil
  then show ?case by (simp add: follows_def)
next
  case (Cons f fs)
  show ?case using follows_cont [OF emit_WriteFrame_follows [OF Cons.prems] Cons.IH] by simp
qed

lemma NewChatToMessages_in_step: "in_step NewChatToMessages proto_init"
  by (simp add: in_step_def tracks_def emitter_inv_def open_blocks_def NewChatToMessages_def proto_init_def fun_eq_iff)

lemma not_started_open: "tracks c p \<Longrightarrow> \<not> cm_started c \<Longrightarrow> pr_open p = Map.empty"
  by (simp add: tracks_def emitter_inv_def open_blocks_def fun_eq_iff)

text \<open>What the emitter owes at the end of the response is the close of a message that is open.\<close>

definition terminated :: "chatToMessages \<Rightarrow> proto \<Rightarrow> bool" where
  "terminated c p \<longleftrightarrow> pr_ended p = (cm_failed c \<or> cm_started c) \<and> pr_complete p = (cm_started c \<and> \<not> cm_failed c) \<and>
     (cm_failed c \<or> pr_open p = Map.empty)"

lemma emit_FinishFrames_terminates:
  assumes "in_step c p"
  shows "\<exists>q. proto_run (snd (emit_FinishFrames fresh c)) p = Some q \<and> terminated (fst (emit_FinishFrames fresh c)) q"
proof -
  define y where "y = (if TrimSpace (cm_buf c) \<noteq> []
     then (case handle_frame fresh (cm_buf c) c of (c1, es) \<Rightarrow> (c1\<lparr>cm_buf := []\<rparr>, es)) else (c, []))"
  have "follows y p"
    using handle_frame_in_step [OF assms, of fresh "cm_buf c"] assms
    by (auto simp: y_def follows_def split: prod.splits)
  then obtain q where q: "proto_run (snd y) p = Some q" "in_step (fst y) q" by (auto simp: follows_def)
  show ?thesis
  proof (cases "\<not> cm_started (fst y) \<or> cm_failed (fst y)")
    case True
    then have e: "emit_FinishFrames fresh c = y" by (simp add: emit_FinishFrames_def y_def [symmetric] Let_def)
    show ?thesis
      using q True not_started_open [of "fst y" q] by (auto simp: e terminated_def in_step_def tracks_def split: if_splits)
  next
    case False
    then have t: "tracks (fst y) q" "cm_started (fst y)" using q(2) by (simp_all add: in_step_def)
    obtain r where r: "proto_run (snd (emit_close (fst y))) q = Some r" "tracks (fst (emit_close (fst y))) r"
        "cm_started (fst (emit_close (fst y)))" "pr_open r = Map.empty"
      using emit_close_run [OF t] by blast
    have e: "emit_FinishFrames fresh c = then_emit y (\<lambda>c1. then_emit (emit_close c1) (\<lambda>c2. (c2, [message_delta c2, MessageStop])))"
      using False unfolding emit_FinishFrames_def y_def [symmetric] Let_def
      by (intro prod_eqI) (simp_all add: snd_then_emit split: prod.splits)
    have "proto_run (snd (emit_FinishFrames fresh c)) p = Some (advance MessageStop r)"
      unfolding e using q(1) r by (simp add: snd_then_emit proto_run_append message_delta_def tracks_def)
    then show ?thesis using r by (auto simp: e terminated_def tracks_def)
  qed
qed


subsection \<open>Nothing of a chunk is lost\<close>

fun text_delta :: "aEvent \<Rightarrow> string" where
  "text_delta (TextDelta _ s) = s"
| "text_delta _ = []"

fun thinking_delta :: "aEvent \<Rightarrow> string" where
  "thinking_delta (ThinkingDelta _ s) = s"
| "thinking_delta _ = []"

fun input_delta :: "aEvent \<Rightarrow> string" where
  "input_delta (InputDelta _ s) = s"
| "input_delta _ = []"

definition carried :: "aEvent list \<Rightarrow> string \<times> string \<times> string" where
  "carried es = (concat (map text_delta es), concat (map thinking_delta es), concat (map input_delta es))"

definition three_app :: "string \<times> string \<times> string \<Rightarrow> string \<times> string \<times> string \<Rightarrow> string \<times> string \<times> string" where
  "three_app x y = (fst x @ fst y, fst (snd x) @ fst (snd y), snd (snd x) @ snd (snd y))"

lemma carried_append [simp]: "carried (xs @ ys) = three_app (carried xs) (carried ys)"
  by (simp add: carried_def three_app_def)

lemma carried_Nil [simp]: "carried [] = ([], [], [])"
  by (simp add: carried_def)

lemma carried_then_emit: "carried (snd (then_emit x f)) = three_app (carried (snd x)) (carried (snd (f (fst x))))"
  by (simp add: snd_then_emit)

lemma carried_parts:
  "carried (snd (closeText c)) = ([], [], [])" "carried (snd (open_prose k c)) = ([], [], [])"
  "carried (snd (open_tool idx tid nm c)) = ([], [], [])" "carried (snd (emit_start fresh c)) = ([], [], [])"
  "carried (toolArgs b a) = ([], [], a)" "carried (map (\<lambda>t. BlockStop (tb_blk t)) ts) = ([], [], [])"
  "carried [message_delta c'] = ([], [], [])" "carried [BlockStop i] = ([], [], [])"
  "carried [TextDelta i s] = (s, [], [])" "carried [ThinkingDelta i s] = ([], s, [])"
  by (simp_all add: carried_def closeText_def open_prose_def open_tool_def emit_start_def toolArgs_def message_delta_def)

lemma emit_text_carries:
  "carried (snd (emit_text s ''thinking'' c)) = ([], s, [])" "carried (snd (emit_text s ''text'' c)) = (s, [], [])"
  by (simp_all add: emit_text_alt carried_then_emit carried_parts three_app_def)

lemma emit_tool_carries: "carried (snd (emit_tool idx tc c)) = ([], [], dt_Arguments tc)"
  by (simp add: emit_tool_alt Let_def carried_then_emit carried_parts three_app_def)

lemma emit_tools_carries: "carried (snd (emit_tools ts c)) = ([], [], concat (map dt_Arguments ts))"
  by (induction ts arbitrary: c) (simp_all add: carried_then_emit emit_tool_carries three_app_def)

lemma emit_finish_carries: "carried (snd (emit_finish fr c)) = ([], [], [])"
proof -
  have "carried (snd (emit_close d)) = ([], [], [])" for d
    using carried_parts(1) [of d] by (auto simp: emit_close_def three_app_def carried_parts(6) split: prod.splits)
  moreover obtain d where "emit_finish fr c = then_emit (emit_close d) (\<lambda>c3. (c3, [message_delta c3]))"
    by (simp add: emit_finish_def then_emit_def Let_def)
  ultimately show ?thesis by (simp add: carried_then_emit carried_parts three_app_def)
qed

definition choice_content :: "cStreamChoice \<Rightarrow> string \<times> string \<times> string" where
  "choice_content ch = (fst (prose ch), fst (snd (prose ch)), concat (map dt_Arguments (sc_ToolCalls ch)))"

lemma handle_choice_carries: "carried (snd (handle_choice fresh ch c)) = choice_content ch"
  by (simp add: handle_choice_def choice_content_def Let_def carried_then_emit carried_parts emit_text_carries
      emit_tools_carries emit_finish_carries three_app_def split: prod.splits)

text \<open>
  C29: Nothing of a chunk is lost: the text, reasoning and tool-argument deltas sent for a Chat
  Completions chunk are, in order, exactly the text, reasoning and tool arguments of all its
  choices, in whatever state the emitter is.
\<close>

theorem chunk_content_delivered:
  "carried (snd (handle_chunk fresh k c)) =
     (concat (map (\<lambda>ch. fst (prose ch)) (ck_Choices k)), concat (map (\<lambda>ch. fst (snd (prose ch))) (ck_Choices k)),
      concat (map dt_Arguments (concat (map sc_ToolCalls (ck_Choices k)))))"
proof -
  have "carried (snd (handle_choices fresh chs d)) =
     (concat (map (\<lambda>ch. fst (prose ch)) chs), concat (map (\<lambda>ch. fst (snd (prose ch))) chs),
      concat (map dt_Arguments (concat (map sc_ToolCalls chs))))" for chs d
    by (induction chs arbitrary: d) (simp_all add: carried_then_emit handle_choice_carries choice_content_def three_app_def)
  then show ?thesis by (simp add: handle_chunk_def Let_def)
qed

end
