(* ===== verification/ResponsesChat.thy ===== *)
theory ResponsesChat
  imports MessagesChat ChatStream
begin

text \<open>
  The request conversion for a Responses client of a Chat Completions backend, the two
  conversions of whole answers, and the dispatch on a plan (\<open>src/convert/responses.go\<close>,
  \<open>response.go\<close> and the two entry points of \<open>plan.go\<close>). The hash \<open>sha256\<close>, the clock reading
  \<open>now\<close> of \<open>created_at\<close>, the error text \<open>jerr\<close> of \<open>encoding/json\<close> and the float rendering
  \<open>fnum\<close> are arguments.
\<close>

definition CodeState :: string where "CodeState = ''state''"

definition shortHash :: "(string \<Rightarrow> string) \<Rightarrow> string \<Rightarrow> string" where
  "shortHash sha256 s = take 20 (hex_EncodeToString (sha256 s))"

subsection \<open>Requests\<close>

record rTool =
  rt_Type :: string
  rt_Name :: string
  rt_Description :: string
  rt_Parameters :: "rjson option"
  rt_Strict :: "bool option"

record rRequest =
  rq_Model :: string
  rq_Instructions :: string
  rq_Input :: "rjson option"
  rq_MaxOutputTokens :: "int option"
  rq_Temperature :: "string option"
  rq_TopP :: "string option"
  rq_Stream :: bool
  rq_Tools :: "rTool list"
  rq_ToolChoice :: "rjson option"
  rq_Text :: "rjson option"
  rq_Reasoning :: "rjson option"
  rq_ParallelToolCalls :: "bool option"
  rq_PreviousResponseID :: string
  rq_User :: string
  rq_PromptCacheKey :: string
  rq_ServiceTier :: string
  rq_Store :: "rjson option"
  rq_Include :: "rjson option"
  rq_Truncation :: "rjson option"
  rq_Background :: "rjson option"
  rq_SafetyIdentifier :: "rjson option"
  rq_Metadata :: "rjson option"
  rq_TopLogprobs :: "rjson option"
  rq_MaxToolCalls :: "rjson option"

definition rdec_rTool :: "rTool rdecoder" where
  "rdec_rTool = rdec_struct
     [(''type'', plain (dec_string (\<lambda>s t. t\<lparr>rt_Type := s\<rparr>))), (''name'', plain (dec_string (\<lambda>s t. t\<lparr>rt_Name := s\<rparr>))),
      (''description'', plain (dec_string (\<lambda>s t. t\<lparr>rt_Description := s\<rparr>))),
      (''parameters'', keep_raw (\<lambda>r t. t\<lparr>rt_Parameters := r\<rparr>)), (''strict'', plain (dec_bool_ptr (\<lambda>b t. t\<lparr>rt_Strict := b\<rparr>))),
      (''format'', keep_raw (\<lambda>r t. t))]"

definition rRequest_fields :: "(string \<times> rRequest rdecoder) list" where
  "rRequest_fields =
     [(''model'', plain (dec_string (\<lambda>s q. q\<lparr>rq_Model := s\<rparr>))),
      (''instructions'', plain (dec_string (\<lambda>s q. q\<lparr>rq_Instructions := s\<rparr>))),
      (''input'', keep_raw (\<lambda>r q. q\<lparr>rq_Input := r\<rparr>)),
      (''max_output_tokens'', plain (dec_int_ptr (\<lambda>n q. q\<lparr>rq_MaxOutputTokens := n\<rparr>))),
      (''temperature'', plain (dec_float_ptr (\<lambda>n q. q\<lparr>rq_Temperature := n\<rparr>))),
      (''top_p'', plain (dec_float_ptr (\<lambda>n q. q\<lparr>rq_TopP := n\<rparr>))),
      (''stream'', plain (dec_bool (\<lambda>b q. q\<lparr>rq_Stream := b\<rparr>))),
      (''tools'', rdec_slice rdec_rTool \<lparr>rt_Type = [], rt_Name = [], rt_Description = [], rt_Parameters = None, rt_Strict = None\<rparr>
         (\<lambda>ts q. q\<lparr>rq_Tools := ts\<rparr>)),
      (''tool_choice'', keep_raw (\<lambda>r q. q\<lparr>rq_ToolChoice := r\<rparr>)), (''text'', keep_raw (\<lambda>r q. q\<lparr>rq_Text := r\<rparr>)),
      (''reasoning'', keep_raw (\<lambda>r q. q\<lparr>rq_Reasoning := r\<rparr>)),
      (''parallel_tool_calls'', plain (dec_bool_ptr (\<lambda>b q. q\<lparr>rq_ParallelToolCalls := b\<rparr>))),
      (''previous_response_id'', plain (dec_string (\<lambda>s q. q\<lparr>rq_PreviousResponseID := s\<rparr>))),
      (''user'', plain (dec_string (\<lambda>s q. q\<lparr>rq_User := s\<rparr>))),
      (''prompt_cache_key'', plain (dec_string (\<lambda>s q. q\<lparr>rq_PromptCacheKey := s\<rparr>))),
      (''service_tier'', plain (dec_string (\<lambda>s q. q\<lparr>rq_ServiceTier := s\<rparr>))),
      (''store'', keep_raw (\<lambda>r q. q\<lparr>rq_Store := r\<rparr>)), (''include'', keep_raw (\<lambda>r q. q\<lparr>rq_Include := r\<rparr>)),
      (''truncation'', keep_raw (\<lambda>r q. q\<lparr>rq_Truncation := r\<rparr>)), (''background'', keep_raw (\<lambda>r q. q\<lparr>rq_Background := r\<rparr>)),
      (''safety_identifier'', keep_raw (\<lambda>r q. q\<lparr>rq_SafetyIdentifier := r\<rparr>)), (''metadata'', keep_raw (\<lambda>r q. q\<lparr>rq_Metadata := r\<rparr>)),
      (''top_logprobs'', keep_raw (\<lambda>r q. q\<lparr>rq_TopLogprobs := r\<rparr>)), (''max_tool_calls'', keep_raw (\<lambda>r q. q\<lparr>rq_MaxToolCalls := r\<rparr>))]"

definition zero_rRequest :: rRequest where
  "zero_rRequest = \<lparr>rq_Model = [], rq_Instructions = [], rq_Input = None, rq_MaxOutputTokens = None, rq_Temperature = None,
     rq_TopP = None, rq_Stream = False, rq_Tools = [], rq_ToolChoice = None, rq_Text = None, rq_Reasoning = None,
     rq_ParallelToolCalls = None, rq_PreviousResponseID = [], rq_User = [], rq_PromptCacheKey = [], rq_ServiceTier = [],
     rq_Store = None, rq_Include = None, rq_Truncation = None, rq_Background = None, rq_SafetyIdentifier = None,
     rq_Metadata = None, rq_TopLogprobs = None, rq_MaxToolCalls = None\<rparr>"

text \<open>
  An input item. Its content is absent, a kept value, or (for the item made of a string
  input) bytes that are not JSON: \<open>strconv.Quote\<close> writes Go's escapes, not JSON's.
\<close>

datatype item_content = NoContent | Kept rjson | Garbled

record rItem =
  ri_Type :: string
  ri_Role :: string
  ri_Content :: item_content
  ri_CallID :: string
  ri_Name :: string
  ri_Arguments :: string
  ri_Output :: "rjson option"

record rPart =
  rp_Type :: string
  rp_Text :: string
  rp_Refusal :: string
  rp_ImageURL :: string

definition zero_rItem :: rItem where
  "zero_rItem = \<lparr>ri_Type = [], ri_Role = [], ri_Content = NoContent, ri_CallID = [], ri_Name = [], ri_Arguments = [], ri_Output = None\<rparr>"

definition rdec_rItem :: "rItem rdecoder" where
  "rdec_rItem = rdec_struct
     [(''type'', plain (dec_string (\<lambda>s i. i\<lparr>ri_Type := s\<rparr>))), (''role'', plain (dec_string (\<lambda>s i. i\<lparr>ri_Role := s\<rparr>))),
      (''id'', plain (dec_string (\<lambda>s i. i))), (''content'', \<lambda>r i. Some (i\<lparr>ri_Content := Kept r\<rparr>)),
      (''call_id'', plain (dec_string (\<lambda>s i. i\<lparr>ri_CallID := s\<rparr>))), (''name'', plain (dec_string (\<lambda>s i. i\<lparr>ri_Name := s\<rparr>))),
      (''arguments'', plain (dec_string (\<lambda>s i. i\<lparr>ri_Arguments := s\<rparr>))), (''output'', keep_raw (\<lambda>r i. i\<lparr>ri_Output := r\<rparr>))]"

definition dec_rParts :: "rjson \<Rightarrow> rPart list option" where
  "dec_rParts r = dec_slice (dec_struct
     [(''type'', dec_string (\<lambda>s p. p\<lparr>rp_Type := s\<rparr>)), (''text'', dec_string (\<lambda>s p. p\<lparr>rp_Text := s\<rparr>)),
      (''refusal'', dec_string (\<lambda>s p. p\<lparr>rp_Refusal := s\<rparr>)), (''image_url'', dec_string (\<lambda>s p. p\<lparr>rp_ImageURL := s\<rparr>))])
     \<lparr>rp_Type = [], rp_Text = [], rp_Refusal = [], rp_ImageURL = []\<rparr> (\<lambda>ps _. ps) (erase r) []"

definition input_items :: "rjson \<Rightarrow> rItem list conv" where
  "input_items r = (case rdec_slice rdec_rItem zero_rItem (\<lambda>is _. is) r [] of
     Some its \<Rightarrow> settled its
   | None \<Rightarrow>
       (case raw_string r of
          None \<Rightarrow> Inl (field_error ''input'' ''input must be a string or a list of items'')
        | Some s \<Rightarrow> settled [zero_rItem\<lparr>ri_Role := ''user'',
            ri_Content := (case UnmarshalRaw (go_quote s) of None \<Rightarrow> Garbled | Some v \<Rightarrow> Kept v)\<rparr>]))"

definition dropItem :: "Options \<Rightarrow> string \<Rightarrow> unit conv" where
  "dropItem opts kind =
     (if \<not> opt_DropParams opts
      then Inl (field_error ''input'' (''input item '' @ go_quote kind @ '' has no Chat Completions representation. '' @
             ''Set settings.convert.drop_params to drop it.''))
      else Inr ((), [''input_item=dropped:'' @ kind]))"

definition refuseFileMsg :: string where
  "refuseFileMsg = ''file has no Chat Completions representation (a stored file has no bytes for the backend to read)''"

definition input_part :: "Options \<Rightarrow> rPart \<Rightarrow> chat_part list conv" where
  "input_part opts p =
     (let t = rp_Type p in
      if t \<in> {''input_text'', ''output_text'', ''text'', ''refusal'', ''summary_text''} then
        (let s = (if rp_Text p = [] then rp_Refusal p else rp_Text p) in settled (if s = [] then [] else [TextPart s]))
      else if t = ''input_image'' then
        (if rp_ImageURL p = []
         then dropping opts ''input_image'' ''the image is a stored file id, which a Chat Completions backend can not fetch'' []
         else settled [ImagePart (rp_ImageURL p)])
      else if t = ''file'' then Inl (field_error ''file'' refuseFileMsg)
      else dropping opts (if t = [] then ''content_part'' else t) ''content part has no Chat Completions representation'' [])"

definition content_error :: conv_error where
  "content_error = field_error ''content'' ''content must be a string or a list of content parts''"

definition convertInputItem :: "Options \<Rightarrow> rItem \<Rightarrow> (string \<times> chat_part list) conv" where
  "convertInputItem opts it = (case ri_Content it of
     NoContent \<Rightarrow> settled ([], [])
   | Garbled \<Rightarrow> Inl content_error
   | Kept r \<Rightarrow>
       (case raw_string r of
          Some s \<Rightarrow> settled (s, [])
        | None \<Rightarrow>
            (case dec_rParts r of
               None \<Rightarrow> Inl content_error
             | Some ps \<Rightarrow> bindc (mapc (input_part opts) ps) (\<lambda>qs.
                 settled (case concat qs of [TextPart s] \<Rightarrow> (s, []) | parts \<Rightarrow> ([], parts))))))"

definition output_piece :: "Options \<Rightarrow> rPart \<Rightarrow> string conv" where
  "output_piece opts p =
     (if rp_Type p \<in> {''output_text'', ''input_text'', ''text''} then settled (rp_Text p)
      else dropping opts (if rp_Type p = [] then ''tool_output_part'' else rp_Type p)
             ''a tool result must be text for Chat Completions'' [])"

definition itemOutput :: "Options \<Rightarrow> rItem \<Rightarrow> string conv" where
  "itemOutput opts it = (case ri_Output it of
     None \<Rightarrow> settled []
   | Some r \<Rightarrow>
       (case raw_string r of
          Some s \<Rightarrow> settled s
        | None \<Rightarrow> (case dec_rParts r of
            None \<Rightarrow> settled (raw_text r)
          | Some ps \<Rightarrow> bindc (mapc (output_piece opts) ps) (\<lambda>ss. settled (concat ss)))))"

subsection \<open>The input items\<close>

definition hosted_items :: "string list" where
  "hosted_items = [''reasoning'', ''item_reference'', ''image_generation_call'', ''web_search_call'', ''file_search_call'',
     ''computer_call'', ''computer_call_output'', ''code_interpreter_call'', ''mcp_call'', ''mcp_list_tools'',
     ''mcp_approval_request'', ''custom_tool_call'', ''custom_tool_call_output'', ''local_shell_call'',
     ''function_approval_call'', ''compaction'']"

record input_state =
  is_sys :: "string list"
  is_msgs :: "chat_msg list"
  is_calls :: "chat_call list"

definition flush_calls :: "input_state \<Rightarrow> input_state" where
  "flush_calls s = (if is_calls s = [] then s else s\<lparr>is_msgs := is_msgs s @ [CallsMsg [] (is_calls s)], is_calls := []\<rparr>)"

definition item_call :: "(string \<Rightarrow> string) \<Rightarrow> rItem \<Rightarrow> chat_call" where
  "item_call sha256 it =
     \<lparr>cc_id = (if ri_CallID it = [] then ''call_'' @ shortHash sha256 (ri_Name it) else ri_CallID it), cc_name = ri_Name it,
      cc_arguments = (if ri_Arguments it = [] then ''{}'' else ri_Arguments it)\<rparr>"

definition message_item :: "Options \<Rightarrow> string \<Rightarrow> rItem \<Rightarrow> input_state \<Rightarrow> input_state conv" where
  "message_item opts role it s =
     bindc (convertInputItem opts it) (\<lambda>(text, parts).
       settled
         (if role = ''system'' \<or> role = ''developer''
          then (if text = [] then s else s\<lparr>is_sys := is_sys s @ [text]\<rparr>)
          else let s1 = flush_calls s in
               s1\<lparr>is_msgs := is_msgs s1 @ [if parts = [] then TextMsg role text else PartsMsg role parts]\<rparr>))"

definition input_step :: "(string \<Rightarrow> string) \<Rightarrow> Options \<Rightarrow> rItem \<Rightarrow> input_state \<Rightarrow> input_state conv" where
  "input_step sha256 opts it s =
     (let t = ri_Type it in
      if t = ''function_call'' then settled (s\<lparr>is_calls := is_calls s @ [item_call sha256 it]\<rparr>)
      else if t = ''function_call_output'' then
        bindc (itemOutput opts it) (\<lambda>body. let s1 = flush_calls s in
          settled (s1\<lparr>is_msgs := is_msgs s1 @ [ToolMsg (ri_CallID it) body]\<rparr>))
      else if t \<in> set hosted_items \<or> (ri_Role it = [] \<and> t \<noteq> []) then bindc (dropItem opts t) (\<lambda>_. settled s)
      else message_item opts (if ri_Role it = [] then ''user'' else ri_Role it) it s)"

fun input_loop :: "(string \<Rightarrow> string) \<Rightarrow> Options \<Rightarrow> rItem list \<Rightarrow> input_state \<Rightarrow> input_state conv" where
  "input_loop sha256 opts [] s = settled (flush_calls s)"
| "input_loop sha256 opts (it # its) s = bindc (input_step sha256 opts it s) (input_loop sha256 opts its)"

subsection \<open>The request\<close>

definition dec_effort :: "(string \<times> string) decoder" where
  "dec_effort = dec_struct [(''effort'', dec_string (\<lambda>s x. (s, snd x))), (''summary'', dec_string (\<lambda>s x. (fst x, s)))]"

definition chatReasoningEffort :: "Options \<Rightarrow> rjson \<Rightarrow> string conv" where
  "chatReasoningEffort opts raw = (case raw_string raw of
     Some s \<Rightarrow> settled s
   | None \<Rightarrow>
       (case dec_effort (erase raw) ([], []) of
          None \<Rightarrow> dropping opts ''reasoning'' ''reasoning is neither a string nor an object'' []
        | Some (effort, summary) \<Rightarrow>
            if summary = [] then settled effort
            else dropping opts ''reasoning.summary'' ''chat streams no reasoning summary'' effort))"

definition textFormat :: "rjson \<Rightarrow> rjson" where
  "textFormat raw = (case rdec_struct [(''format'', keep_raw (\<lambda>r _. r))] raw None of
     Some (Some f) \<Rightarrow> f | _ \<Rightarrow> raw)"

definition dec_named_choice :: "(string \<times> string) decoder" where
  "dec_named_choice = dec_struct [(''type'', dec_string (\<lambda>s x. (s, snd x))), (''name'', dec_string (\<lambda>s x. (fst x, s)))]"

definition chatToolChoiceResponses :: "Options \<Rightarrow> rjson option \<Rightarrow> gjson option conv" where
  "chatToolChoiceResponses opts raw = (case raw of
     None \<Rightarrow> settled None
   | Some r \<Rightarrow>
       if raw_text r = ''null'' then settled None
       else (case raw_string r of
          Some s \<Rightarrow>
            if s \<in> {''auto'', ''none'', ''required''} then settled (Some (GStr s))
            else dropping opts ''tool_choice'' (''a bare tool_choice '' @ go_quote s @ '' is not a Chat Completions value'') None
        | None \<Rightarrow>
            (case dec_named_choice (erase r) ([], []) of
               None \<Rightarrow> dropping opts ''tool_choice'' ''tool_choice has no Chat Completions representation'' None
             | Some (typ, name) \<Rightarrow>
                 if typ = [] then dropping opts ''tool_choice'' ''tool_choice has no Chat Completions representation'' None
                 else if typ = ''function'' then settled (Some (namedFunction name))
                 else dropping opts ''tool_choice'' (''tool_choice type '' @ go_quote typ @
                        '' constrains a tool set Chat Completions can not express'') None)))"

definition r_tool :: "rTool \<Rightarrow> chat_tool" where
  "r_tool t = \<lparr>ct_name = rt_Name t, ct_description = rt_Description t,
     ct_rest = opt_member ''parameters'' GRaw (rt_Parameters t) @ opt_member ''strict'' GBool (rt_Strict t)\<rparr>"

text \<open>The fields the proxy does not execute are reported, never refused.\<close>

definition reported_fields :: "rRequest \<Rightarrow> string list" where
  "reported_fields q = List.map_filter
     (\<lambda>(name, raw). case raw of Some r \<Rightarrow> if raw_text r = ''null'' then None else Some (name @ ''=dropped'') | None \<Rightarrow> None)
     [(''store'', rq_Store q), (''include'', rq_Include q), (''truncation'', rq_Truncation q), (''background'', rq_Background q),
      (''safety_identifier'', rq_SafetyIdentifier q), (''metadata'', rq_Metadata q), (''top_logprobs'', rq_TopLogprobs q),
      (''max_tool_calls'', rq_MaxToolCalls q)]"

definition str_member :: "string \<Rightarrow> string \<Rightarrow> (string \<times> gjson) list" where
  "str_member k s = (if s = [] then [] else [(k, GStr s)])"

definition responses_rest :: "(string \<Rightarrow> string) \<Rightarrow> Options \<Rightarrow> rRequest \<Rightarrow> rjson \<Rightarrow> chat_request conv" where
  "responses_rest sha256 opts q input =
     bindc (case rq_Reasoning q of None \<Rightarrow> settled [] | Some r \<Rightarrow> chatReasoningEffort opts r) (\<lambda>effort.
     bindc (case rq_Text q of None \<Rightarrow> settled None | Some r \<Rightarrow> chatResponseFormat opts (textFormat r)) (\<lambda>rf.
     bindc (input_items input) (\<lambda>its.
     bindc (input_loop sha256 opts its \<lparr>is_sys = (if rq_Instructions q = [] then [] else [rq_Instructions q]), is_msgs = [], is_calls = []\<rparr>) (\<lambda>s.
     bindc (keep_tools opts rt_Type (\<lambda>t. rt_Type t \<noteq> [] \<and> rt_Type t \<noteq> ''function'') r_tool [] (rq_Tools q)) (\<lambda>ts.
     bindc (chatToolChoiceResponses opts (rq_ToolChoice q)) (\<lambda>tc.
       settled
         \<lparr>cr_head = [(''model'', GStr (rq_Model q))] @ (if rq_Stream q then [(''stream'', GBool True)] else []) @
            opt_member ''temperature'' GFloat (rq_Temperature q) @ opt_member ''top_p'' GFloat (rq_TopP q) @
            opt_member ''max_tokens'' GInt (rq_MaxOutputTokens q) @
            opt_member ''parallel_tool_calls'' GBool (rq_ParallelToolCalls q) @ str_member ''user'' (rq_User q) @
            str_member ''prompt_cache_key'' (rq_PromptCacheKey q) @ str_member ''service_tier'' (rq_ServiceTier q) @
            str_member ''reasoning_effort'' effort @ opt_member ''response_format'' id rf,
          cr_msgs = (if is_sys s = [] then [] else [TextMsg ''system'' (Join (is_sys s) [CHR 0x0A])]) @ is_msgs s,
          cr_tools = ts,
          cr_tail = opt_member ''tool_choice'' id tc\<rparr>))))))"

definition responses_request :: "(string \<Rightarrow> string) \<Rightarrow> Options \<Rightarrow> rRequest \<Rightarrow> rjson \<Rightarrow> chat_request conv" where
  "responses_request sha256 opts q input = bindc (Inr ((), reported_fields q)) (\<lambda>_. responses_rest sha256 opts q input)"

text \<open>A nil slice of messages is encoded as \<open>null\<close>.\<close>

definition responses_json :: "chat_request \<Rightarrow> gjson" where
  "responses_json c = GObj (cr_head c @
     [(''messages'', if cr_msgs c = [] then GNull else GArr (map msg_json (cr_msgs c)))] @ tools_member (cr_tools c) @ cr_tail c)"

definition ResponsesToChat ::
  "(string \<Rightarrow> string) \<Rightarrow> (string \<Rightarrow> string) \<Rightarrow> (string \<Rightarrow> string) \<Rightarrow> string \<Rightarrow> Options \<Rightarrow> string conv" where
  "ResponsesToChat sha256 jerr fnum body opts =
     (case rdecode (rdec_struct rRequest_fields) zero_rRequest body of
        None \<Rightarrow> Inl (field_error ''body'' (''invalid JSON body: '' @ jerr body))
      | Some q \<Rightarrow>
          let no_input = Inl (field_error ''input''
                ''the request carries no input: a Responses call with no conversation is not a question'') in
          (case rq_Input q of
             None \<Rightarrow> no_input
           | Some input \<Rightarrow>
               if raw_text input = ''null'' then no_input
               else if rq_PreviousResponseID q \<noteq> [] then
                 Inl \<lparr>ce_Code = CodeState, ce_Field = ''previous_response_id'',
                      ce_Msg = ''this proxy stores no responses: the router can not continue '' @ go_quote (rq_PreviousResponseID q) @
                        ''. Send the whole conversation in `input`.''\<rparr>
               else bindc (responses_request sha256 opts q input) (\<lambda>c. settled (MarshalG fnum (responses_json c)))))"

definition Request ::
  "(string \<Rightarrow> string) \<Rightarrow> (string \<Rightarrow> string) \<Rightarrow> (string \<Rightarrow> string) \<Rightarrow> Plan \<Rightarrow> string \<Rightarrow> Options \<Rightarrow> string conv" where
  "Request sha256 jerr fnum p body opts =
     (if plan_Dialect p = plan_From p \<or> plan_From p = [] then settled body
      else if plan_From p = Messages \<and> plan_Dialect p = Chat then MessagesToChat jerr fnum body opts
      else if plan_From p = Responses \<and> plan_Dialect p = Chat then ResponsesToChat sha256 jerr fnum body opts
      else Inl (no_dialect (''conversion '' @ Edge p @ '' is not supported'')))"

subsection \<open>The report on dropped keys\<close>

definition decodedKeys :: "Plan \<Rightarrow> string list option" where
  "decodedKeys p =
     (if plan_From p = Messages then Some (map fst aRequest_fields)
      else if plan_From p = Responses then Some (map fst rRequest_fields)
      else None)"

definition keySet :: "string \<Rightarrow> string list option" where
  "keySet body = (case Unmarshal body of Some (JObj kvs) \<Rightarrow> Some (remdups (map fst kvs)) | _ \<Rightarrow> None)"

definition DroppedKeys :: "Plan \<Rightarrow> string \<Rightarrow> string \<Rightarrow> string list" where
  "DroppedKeys p body out = (case decodedKeys p of
     None \<Rightarrow> []
   | Some baseline \<Rightarrow>
       (case keySet body of
          None \<Rightarrow> []
        | Some ks \<Rightarrow>
            let kept = (case keySet out of Some os \<Rightarrow> os | None \<Rightarrow> []);
                n = length (filter (\<lambda>k. k \<notin> set kept \<and> k \<notin> set baseline) ks)
            in if n = 0 then [] else [''keys:'' @ Itoa (int n) @ ''dropped'']))"

subsection \<open>Whole answers\<close>

record cToolCall =
  ctc_ID :: string
  ctc_Name :: string
  ctc_Arguments :: "rjson option"

record cChoice =
  cch_Content :: "rjson option"
  cch_Reasoning :: string
  cch_ToolCalls :: "cToolCall list"
  cch_FinishReason :: string

record cResponse =
  cres_ID :: string
  cres_Model :: string
  cres_Choices :: "cChoice list"
  cres_Usage :: cUsage

definition rdec_cToolCall :: "cToolCall rdecoder" where
  "rdec_cToolCall = rdec_struct
     [(''id'', plain (dec_string (\<lambda>s t. t\<lparr>ctc_ID := s\<rparr>))),
      (''function'', rdec_struct [(''name'', plain (dec_string (\<lambda>s t. t\<lparr>ctc_Name := s\<rparr>))),
                                  (''arguments'', keep_raw (\<lambda>r t. t\<lparr>ctc_Arguments := r\<rparr>))])]"

definition rdec_cChoice :: "cChoice rdecoder" where
  "rdec_cChoice = rdec_struct
     [(''message'', rdec_struct
         [(''content'', keep_raw (\<lambda>r c. c\<lparr>cch_Content := r\<rparr>)), (''reasoning_content'', plain (dec_string (\<lambda>s c. c\<lparr>cch_Reasoning := s\<rparr>))),
          (''tool_calls'', rdec_slice rdec_cToolCall \<lparr>ctc_ID = [], ctc_Name = [], ctc_Arguments = None\<rparr> (\<lambda>ts c. c\<lparr>cch_ToolCalls := ts\<rparr>))]),
      (''finish_reason'', plain (dec_string (\<lambda>s c. c\<lparr>cch_FinishReason := s\<rparr>)))]"

definition rdec_cResponse :: "cResponse rdecoder" where
  "rdec_cResponse = rdec_struct
     [(''id'', plain (dec_string (\<lambda>s r. r\<lparr>cres_ID := s\<rparr>))), (''model'', plain (dec_string (\<lambda>s r. r\<lparr>cres_Model := s\<rparr>))),
      (''choices'', rdec_slice rdec_cChoice \<lparr>cch_Content = None, cch_Reasoning = [], cch_ToolCalls = [], cch_FinishReason = []\<rparr>
         (\<lambda>cs r. r\<lparr>cres_Choices := cs\<rparr>)),
      (''usage'', plain (\<lambda>v r. map_option (\<lambda>u. r\<lparr>cres_Usage := u\<rparr>) (dec_usage v (cres_Usage r))))]"

definition zero_cResponse :: cResponse where
  "zero_cResponse = \<lparr>cres_ID = [], cres_Model = [], cres_Choices = [], cres_Usage = zero_cUsage\<rparr>"

definition toolArguments :: "rjson option \<Rightarrow> gjson" where
  "toolArguments raw = (case raw of
     None \<Rightarrow> GObj []
   | Some r \<Rightarrow>
       (case (case raw_string r of Some s \<Rightarrow> Unmarshal s | None \<Rightarrow> Some (erase r)) of
          Some v \<Rightarrow> if floats_ok v then GAny v else GObj []
        | None \<Rightarrow> GObj []))"

definition toolArgumentText :: "rjson option \<Rightarrow> string" where
  "toolArgumentText raw = (case raw of
     None \<Rightarrow> ''{}'' | Some r \<Rightarrow> (case raw_string r of Some s \<Rightarrow> s | None \<Rightarrow> raw_text r))"

text \<open>The first choice of an answer, and the notes both directions start with.\<close>

definition first_choice :: "(string \<Rightarrow> string) \<Rightarrow> string \<Rightarrow> (cResponse \<times> cChoice) conv" where
  "first_choice jerr body = (case rdecode rdec_cResponse zero_cResponse body of
     None \<Rightarrow> Inl (field_error ''body'' (''chat response is not JSON: '' @ jerr body))
   | Some c \<Rightarrow>
       (case cres_Choices c of
          [] \<Rightarrow> Inl (field_error ''choices'' ''chat response carries no choices'')
        | ch # rest \<Rightarrow> Inr ((c, ch),
            (if rest = [] then [] else [''choices=dropped:'' @ Itoa (int (length rest))]) @
            (if finishNote (cch_FinishReason ch) = [] then [] else [finishNote (cch_FinishReason ch)]))))"

definition add_distinct :: "string list \<Rightarrow> string list \<Rightarrow> string list" where
  "add_distinct ns extra = fold (\<lambda>n acc. if n \<in> set acc then acc else acc @ [n]) extra ns"

definition choice_texts :: "cChoice \<Rightarrow> string list \<times> string list" where
  "choice_texts ch = contentTexts (map_option erase (cch_Content ch))"

definition input_tokens :: "cUsage \<Rightarrow> int" where
  "input_tokens u = max 0 (cu_PromptTokens u - cu_CachedTokens u)"

definition a_block :: "string \<Rightarrow> (string \<times> gjson) list \<Rightarrow> gjson" where
  "a_block typ kvs = GObj ((''type'', GStr typ) # kvs)"

definition call_id :: "(string \<Rightarrow> string) \<Rightarrow> string \<Rightarrow> string \<Rightarrow> nat \<Rightarrow> string \<Rightarrow> string" where
  "call_id sha256 pre rid i given = (if given = [] then pre @ shortHash sha256 (rid @ '':'' @ Itoa (int i)) else given)"

definition message_blocks :: "(string \<Rightarrow> string) \<Rightarrow> cResponse \<Rightarrow> cChoice \<Rightarrow> gjson list" where
  "message_blocks sha256 c ch =
     (if cch_Reasoning ch = [] then [] else [a_block ''thinking'' [(''thinking'', GStr (cch_Reasoning ch))]]) @
     map (\<lambda>t. a_block ''text'' [(''text'', GStr t)]) (fst (choice_texts ch)) @
     map (\<lambda>(i, tc). a_block ''tool_use'' [(''id'', GStr (call_id sha256 ''toolu_'' (cres_ID c) i (ctc_ID tc))),
            (''name'', GStr (ctc_Name tc)), (''input'', toolArguments (ctc_Arguments tc))])
       (List.enumerate 0 (cch_ToolCalls ch))"

definition ChatToMessages :: "(string \<Rightarrow> string) \<Rightarrow> (string \<Rightarrow> string) \<Rightarrow> (string \<Rightarrow> string) \<Rightarrow> string \<Rightarrow> string conv" where
  "ChatToMessages sha256 jerr fnum body = (case first_choice jerr body of
     Inl e \<Rightarrow> Inl e
   | Inr ((c, ch), notes0) \<Rightarrow>
       Inr (MarshalG fnum (GObj
         [(''id'', GStr (cres_ID c)), (''type'', GStr ''message''), (''role'', GStr ''assistant''), (''model'', GStr (cres_Model c)),
          (''content'', GArr (message_blocks sha256 c ch)), (''stop_reason'', GStr (stopReason (cch_FinishReason ch))),
          (''stop_sequence'', GNull),
          (''usage'', GObj [(''input_tokens'', GInt (input_tokens (cres_Usage c))), (''output_tokens'', GInt (cu_CompletionTokens (cres_Usage c))),
             (''cache_read_input_tokens'', GInt (cu_CachedTokens (cres_Usage c)))])]),
         add_distinct notes0 (snd (choice_texts ch))))"

definition responsesStatus :: "string \<Rightarrow> string \<times> string" where
  "responsesStatus fr =
     (if fr = ''length'' then (''incomplete'', ''max_output_tokens'')
      else if fr = ''content_filter'' \<or> fr = ''refusal'' then (''incomplete'', ''content_filter'')
      else (''completed'', []))"

definition output_text :: "string \<Rightarrow> gjson" where
  "output_text t = a_block ''output_text'' [(''text'', GStr t), (''annotations'', GArr [])]"

definition response_items :: "(string \<Rightarrow> string) \<Rightarrow> cResponse \<Rightarrow> cChoice \<Rightarrow> gjson list" where
  "response_items sha256 c ch =
     (let parts = map output_text (filter (\<lambda>t. t \<noteq> []) (fst (choice_texts ch))) in
      (if cch_Reasoning ch = [] then []
       else [a_block ''reasoning'' [(''id'', GStr (''rs_'' @ shortHash sha256 (cres_ID c @ '':'' @ cch_Reasoning ch))),
          (''summary'', GArr [a_block ''summary_text'' [(''text'', GStr (cch_Reasoning ch))]]), (''status'', GStr ''completed'')]]) @
      (if parts = [] then []
       else [a_block ''message'' [(''id'', GStr (''msg_'' @ shortHash sha256 (cres_ID c @ '':message''))), (''role'', GStr ''assistant''),
          (''status'', GStr ''completed''), (''content'', GArr parts)]]) @
      map (\<lambda>(i, tc). let k = call_id sha256 ''call_'' (cres_ID c) i (ctc_ID tc) in
             a_block ''function_call'' [(''id'', GStr k), (''call_id'', GStr k), (''name'', GStr (ctc_Name tc)),
               (''arguments'', GStr (toolArgumentText (ctc_Arguments tc))), (''status'', GStr ''completed'')])
        (List.enumerate 0 (cch_ToolCalls ch)))"

definition usage_json :: "cUsage \<Rightarrow> gjson" where
  "usage_json u = GObj [(''input_tokens'', GInt (input_tokens u)), (''output_tokens'', GInt (cu_CompletionTokens u)),
     (''input_tokens_details'', GObj [(''cached_tokens'', GInt (cu_CachedTokens u))]),
     (''total_tokens'', GInt (input_tokens u + cu_CompletionTokens u))]"

definition is_error_body :: "string \<Rightarrow> bool" where
  "is_error_body body \<longleftrightarrow> (case decode dec_error_field None body of Some (Some _) \<Rightarrow> True | _ \<Rightarrow> False)"

definition ChatToResponses ::
  "(string \<Rightarrow> string) \<Rightarrow> (string \<Rightarrow> string) \<Rightarrow> (string \<Rightarrow> string) \<Rightarrow> int \<Rightarrow> string \<Rightarrow> string conv" where
  "ChatToResponses sha256 jerr fnum now body =
     (if is_error_body body then settled body
      else case first_choice jerr body of
        Inl e \<Rightarrow> Inl e
      | Inr ((c, ch), notes0) \<Rightarrow>
          (case responsesStatus (cch_FinishReason ch) of (status, reason) \<Rightarrow>
            Inr (MarshalG fnum (GObj ([(''id'', GStr (cres_ID c)), (''object'', GStr ''response''), (''created_at'', GInt now),
               (''status'', GStr status), (''model'', GStr (cres_Model c)), (''output'', GArr (response_items sha256 c ch)),
               (''usage'', usage_json (cres_Usage c))] @
               (if reason = [] then [] else [(''incomplete_details'', GObj [(''reason'', GStr reason)])]))),
              add_distinct notes0 (snd (choice_texts ch)))))"

definition error_body :: "error_envelope \<Rightarrow> gjson" where
  "error_body e = GObj [(''type'', GStr ''error''), (''error'', GObj [(''type'', GStr (ee_Type e)), (''message'', GStr (ee_Message e))])]"

definition Response ::
  "(string \<Rightarrow> string) \<Rightarrow> (string \<Rightarrow> string) \<Rightarrow> (string \<Rightarrow> string) \<Rightarrow> int \<Rightarrow> Plan \<Rightarrow> string \<Rightarrow> string conv" where
  "Response sha256 jerr fnum now p body =
     (if plan_Dialect p = plan_From p \<or> plan_From p = [] then settled body
      else if plan_Dialect p = Chat \<and> plan_From p = Messages then
        (case chat_error body of
           Some e \<Rightarrow> settled (MarshalG fnum (error_body e))
         | None \<Rightarrow> ChatToMessages sha256 jerr fnum body)
      else if plan_Dialect p = Chat \<and> plan_From p = Responses then ChatToResponses sha256 jerr fnum now body
      else Inl (no_dialect (''response conversion '' @ Edge p @ '' is not supported'')))"

subsection \<open>Strict options\<close>

lemma quiet_responses_parts [quiets]:
  "quiet opts (chatReasoningEffort opts r)" "quiet opts (chatToolChoiceResponses opts raw)" "quiet opts (input_items r')"
  "quiet opts (dropItem opts k)"
  unfolding chatReasoningEffort_def chatToolChoiceResponses_def input_items_def
  by (auto intro!: quiets split: option.splits) (auto simp: quiet_def dropItem_def)

lemma quiet_convertInputItem [quiets]: "quiet opts (convertInputItem opts it)"
  unfolding convertInputItem_def input_part_def Let_def by (auto intro!: quiets split: option.splits item_content.splits)

lemma quiet_itemOutput [quiets]: "quiet opts (itemOutput opts it)"
  unfolding itemOutput_def output_piece_def by (auto intro!: quiets split: option.splits)

lemma quiet_input_step [quiets]: "quiet opts (input_step sha256 opts it s)"
  unfolding input_step_def message_item_def Let_def by (auto intro!: quiets split: option.splits)

lemma quiet_input_loop [quiets]: "quiet opts (input_loop sha256 opts its s)"
  by (induction its arbitrary: s) (auto intro!: quiets)



subsection \<open>The tool loop\<close>

text \<open>Calls and tool answers in the order they stand in a conversation.\<close>

datatype loop_event = Called chat_call | Answered string

definition item_events :: "(string \<Rightarrow> string) \<Rightarrow> rItem \<Rightarrow> loop_event list" where
  "item_events sha256 it =
     (if ri_Type it = ''function_call'' then [Called (item_call sha256 it)]
      else if ri_Type it = ''function_call_output'' then [Answered (ri_CallID it)] else [])"

fun msg_events :: "chat_msg \<Rightarrow> loop_event list" where
  "msg_events (CallsMsg _ cs) = map Called cs"
| "msg_events (ToolMsg i _) = [Answered i]"
| "msg_events _ = []"

definition state_events :: "input_state \<Rightarrow> loop_event list" where
  "state_events s = concat (map msg_events (is_msgs s)) @ map Called (is_calls s)"

lemma flush_calls_events [simp]: "state_events (flush_calls s) = state_events s"
  by (simp add: state_events_def flush_calls_def)

lemma flush_calls_empty [simp]: "is_calls (flush_calls s) = []"
  by (simp add: flush_calls_def)

lemma flushed_events: "concat (map msg_events (is_msgs (flush_calls s))) = state_events s"
  using flush_calls_events [of s] by (simp add: state_events_def)

lemma state_events_append:
  "state_events ((flush_calls s)\<lparr>is_msgs := is_msgs (flush_calls s) @ [m]\<rparr>) = state_events s @ msg_events m"
  using flushed_events [of s] by (simp add: state_events_def)

lemma message_item_events:
  assumes "message_item opts role it s = Inr (s', ns)"
  shows "state_events s' = state_events s"
proof -
  obtain text' parts where s': "s' = (if role = ''system'' \<or> role = ''developer''
          then (if text' = [] then s else s\<lparr>is_sys := is_sys s @ [text']\<rparr>)
          else (flush_calls s)\<lparr>is_msgs := is_msgs (flush_calls s) @ [if parts = [] then TextMsg role text' else PartsMsg role parts]\<rparr>)"
    using assms unfolding message_item_def bindc_Inr Let_def by (elim exE conjE) (auto split: prod.splits)
  have "state_events (s\<lparr>is_sys := x\<rparr>) = state_events s" for x by (simp add: state_events_def)
  then show ?thesis unfolding s' by (cases "parts = []") (simp_all add: state_events_append)
qed

lemma input_step_events:
  assumes "input_step sha256 opts it s = Inr (s', ns)"
  shows "state_events s' = state_events s @ item_events sha256 it"
proof (cases "ri_Type it = ''function_call'' \<or> ri_Type it = ''function_call_output''")
  case True
  then consider "ri_Type it = ''function_call''" | "ri_Type it \<noteq> ''function_call''" "ri_Type it = ''function_call_output''" by blast
  then show ?thesis
  proof cases
    case 1
    then show ?thesis using assms by (auto simp: input_step_def item_events_def state_events_def)
  next
    case 2
    then obtain body where "s' = (flush_calls s)\<lparr>is_msgs := is_msgs (flush_calls s) @ [ToolMsg (ri_CallID it) body]\<rparr>"
      using assms by (auto simp: input_step_def bindc_Inr Let_def)
    then show ?thesis using 2 by (simp only: state_events_append) (simp add: item_events_def)
  qed
next
  case False
  then show ?thesis
    using assms message_item_events by (auto simp: input_step_def item_events_def bindc_Inr Let_def split: if_splits)
qed

lemma input_loop_events:
  "input_loop sha256 opts its s = Inr (s', ns) \<Longrightarrow>
     concat (map msg_events (is_msgs s')) = state_events s @ concat (map (item_events sha256) its)"
proof (induction its arbitrary: s ns)
  case Nil
  then show ?case by (auto simp: flushed_events)
next
  case (Cons it its)
  then obtain t a b where "input_step sha256 opts it s = Inr (t, a)" "input_loop sha256 opts its t = Inr (s', b)"
    by (auto simp: bindc_Inr)
  then show ?case using input_step_events Cons.IH by fastforce
qed

text \<open>
  C23: The tool loop of a Responses conversation reaches the backend as it happened: the messages
  hold exactly the calls of the function-call items (with their arguments verbatim) and the
  ids of the outputs, in the order of the items, and no call is left behind unsent.
\<close>

theorem responses_tool_loop_kept:
  assumes "responses_request sha256 opts q input = Inr (c, ns)"
  shows "\<exists>its. input_items input = Inr (its, []) \<and>
    concat (map msg_events (cr_msgs c)) = concat (map (item_events sha256) its)"
proof -
  have "\<exists>b. responses_rest sha256 opts q input = Inr (c, b)"
    using assms by (auto simp: responses_request_def split: sum.splits)
  then obtain its s a b where i: "input_items input = Inr (its, a)"
      "input_loop sha256 opts its \<lparr>is_sys = (if rq_Instructions q = [] then [] else [rq_Instructions q]), is_msgs = [], is_calls = []\<rparr> = Inr (s, b)"
      "cr_msgs c = (if is_sys s = [] then [] else [TextMsg ''system'' (Join (is_sys s) [CHR 0x0A])]) @ is_msgs s"
    unfolding responses_rest_def bindc_Inr by (elim exE conjE) (simp only: settled_Inr, erule conjE, drule sym, simp)
  have "a = []" using i(1) by (auto simp: input_items_def split: option.splits)
  then show ?thesis using i input_loop_events [OF i(2)] by (auto simp: state_events_def)
qed

theorem responses_tool_loop_kept_witness:
  "\<exists>c. responses_request (\<lambda>_. []) \<lparr>opt_MaxTokens = 0, opt_DropParams = False\<rparr> zero_rRequest
      (RArr [] [RObj [] [(''type'', RScalar [] (JStr ''function_call'')), (''call_id'', RScalar [] (JStr ''c1''))],
                RObj [] [(''type'', RScalar [] (JStr ''function_call_output'')), (''call_id'', RScalar [] (JStr ''c1''))]]) = Inr (c, []) \<and>
     concat (map msg_events (cr_msgs c)) = [Called \<lparr>cc_id = ''c1'', cc_name = [], cc_arguments = ''{}''\<rparr>, Answered ''c1'']"
proof -
  let ?in = "RArr [] [RObj [] [(''type'', RScalar [] (JStr ''function_call'')), (''call_id'', RScalar [] (JStr ''c1''))],
                RObj [] [(''type'', RScalar [] (JStr ''function_call_output'')), (''call_id'', RScalar [] (JStr ''c1''))]]"
  let ?its = "[zero_rItem\<lparr>ri_Type := ''function_call'', ri_CallID := ''c1''\<rparr>, zero_rItem\<lparr>ri_Type := ''function_call_output'', ri_CallID := ''c1''\<rparr>]"
  let ?opts = "\<lparr>opt_MaxTokens = 0, opt_DropParams = False\<rparr>"
  have i: "input_items ?in = Inr (?its, [])" by code_simp
  have e: "concat (map (item_events (\<lambda>_. [])) ?its) = [Called \<lparr>cc_id = ''c1'', cc_name = [], cc_arguments = ''{}''\<rparr>, Answered ''c1'']"
    by code_simp
  define r where "r = responses_request (\<lambda>_. []) ?opts zero_rRequest ?in"
  have "isl r = False" "snd (projr r) = []" unfolding r_def by code_simp+
  then obtain c where c: "responses_request (\<lambda>_. []) ?opts zero_rRequest ?in = Inr (c, [])" by (cases r) (auto simp: r_def)
  show ?thesis using responses_tool_loop_kept [OF c] i e c by auto
qed

subsection \<open>Where the conversion goes wrong\<close>

text \<open>
  A system or developer item made of two text parts vanishes: only the plain string form of
  a message reaches the system prompt, and the parts are dropped with neither a refusal nor
  a note, even under strict options.
\<close>

definition developer_item :: rItem where
  "developer_item = zero_rItem\<lparr>ri_Role := ''developer'',
     ri_Content := Kept (RArr [] [RObj [] [(''type'', RScalar [] (JStr ''input_text'')), (''text'', RScalar [] (JStr ''a''))],
                                  RObj [] [(''type'', RScalar [] (JStr ''input_text'')), (''text'', RScalar [] (JStr ''b''))]])\<rparr>"

lemma system_parts_lost:
  "input_loop sha256 \<lparr>opt_MaxTokens = 0, opt_DropParams = False\<rparr> [developer_item] \<lparr>is_sys = [], is_msgs = [], is_calls = []\<rparr> =
     settled \<lparr>is_sys = [], is_msgs = [], is_calls = []\<rparr>"
proof -
  have "convertInputItem \<lparr>opt_MaxTokens = 0, opt_DropParams = False\<rparr> developer_item = settled ([], [TextPart ''a'', TextPart ''b''])"
    by code_simp
  then show ?thesis
    by (simp add: input_step_def message_item_def developer_item_def zero_rItem_def hosted_items_def settled_def flush_calls_def)
qed

text \<open>
  A string input goes through \<open>strconv.Quote\<close>, whose escapes JSON does not know: a prompt with
  an escape character (ANSI colours pasted from a terminal) is refused as malformed content.
\<close>

lemma control_character_refused:
  "bindc (input_items (RScalar [] (JStr [CHR 0x1B]))) (\<lambda>its. input_loop sha256 opts its \<lparr>is_sys = [], is_msgs = [], is_calls = []\<rparr>) =
     Inl content_error"
proof -
  have "input_items (RScalar [] (JStr [CHR 0x1B])) = settled [zero_rItem\<lparr>ri_Role := ''user'', ri_Content := Garbled\<rparr>]"
    by code_simp
  then show ?thesis
    by (simp add: settled_def zero_rItem_def input_step_def hosted_items_def message_item_def convertInputItem_def)
qed

text \<open>A \<open>text\<close> object without a \<open>format\<close> (only a verbosity, say) is itself read as the format and refused.\<close>

lemma text_without_format_refused:
  "chatResponseFormat \<lparr>opt_MaxTokens = 0, opt_DropParams = False\<rparr>
     (textFormat (RObj [] [(''verbosity'', RScalar [] (JStr ''low''))])) \<noteq> Inr x"
proof -
  have "isl (chatResponseFormat \<lparr>opt_MaxTokens = 0, opt_DropParams = False\<rparr>
     (textFormat (RObj [] [(''verbosity'', RScalar [] (JStr ''low''))])))" by code_simp
  then show ?thesis by auto
qed

text \<open>An answer with an explicit null \<open>error\<close> member counts as an error envelope and is left in the Chat dialect.\<close>

lemma null_error_untranslated:
  "ChatToResponses sha256 jerr fnum now (''{'' @ [CHR 0x22] @ ''error'' @ [CHR 0x22] @ '':null}'') =
     settled (''{'' @ [CHR 0x22] @ ''error'' @ [CHR 0x22] @ '':null}'')"
proof -
  have "is_error_body (''{'' @ [CHR 0x22] @ ''error'' @ [CHR 0x22] @ '':null}'')" by code_simp
  then show ?thesis by (simp add: ChatToResponses_def)
qed

end
