(* ===== verification/Jev.thy ===== *)
theory Jev
  imports Balance Sticky JevText JsonAny Capabilities
begin

text \<open>
  The decision-model router: \<open>src/router/jev.go\<close> (pool filters, decision, guards, attempt
  order) and the answer side of \<open>src/proxy/jev.go\<close>. The decision endpoint is the argument
  \<open>ask\<close>: the status and body it answers to a question, or nothing (no usable URL or proxy, a
  transport error, a timeout). All clock reads of one decision see the instant \<open>now\<close>, and
  \<open>ms\<close> is how long the exchange took.
\<close>

definition jevDefaultTimeout :: duration where "jevDefaultTimeout = 1500 * Millisecond"
definition jevDefaultMinConfidence :: rat where "jevDefaultMinConfidence = 3 / 10"
definition jevQuestionName :: string where "jevQuestionName = ''model''"
definition jevSecurityName :: string where "jevSecurityName = ''security''"
definition jevSecurityThreshold :: rat where "jevSecurityThreshold = 95 / 100"
definition jevDowngradeMaxContext :: int where "jevDowngradeMaxContext = 20000"

definition jevDefaultQuestion :: string where
  "jevDefaultQuestion = ''Pick the cheapest model that can fully complete this request in one pass, '' @
     ''without retrying on a stronger model. Judge the reasoning and blast radius the task requires, '' @
     ''not the requested reply length.''"

subsection \<open>The decision endpoint (proxy/jev.go)\<close>

record JevAnswer =
  ja_Type :: string
  ja_Choice :: string
  ja_Noul :: rat
  ja_HasNoul :: bool
  ja_Score :: int
  ja_Confidence :: rat

record JevResponse =
  jr_Model :: string
  jr_Answers :: "(string \<times> json) list"
  jr_InputTokens :: int
  jr_OutputTokens :: int

definition jev_answer :: "any_map \<Rightarrow> JevAnswer" where
  "jev_answer ans =
     (let conf = floatToFloat64 (any_get ans ''confidence'');
          choice = (case any_string (any_get ans ''choice'') of Some s \<Rightarrow> s | None \<Rightarrow> []);
          prob = (case any_get ans ''probabilities'' of
                    JObj probs \<Rightarrow> floatToFloat64 (any_get probs choice) | _ \<Rightarrow> 0)
      in \<lparr>ja_Type = (case any_string (any_get ans ''type'') of Some s \<Rightarrow> s | None \<Rightarrow> []),
          ja_Choice = choice,
          ja_Noul = floatToFloat64 (any_get ans ''noul''),
          ja_HasNoul = (any_get ans ''noul'' \<noteq> JNull),
          ja_Score = intToFloat64 (any_get ans ''score''),
          ja_Confidence = (if conf = 0 \<and> choice \<noteq> [] then prob else conf)\<rparr>)"

text \<open>An answer that is not an object is skipped by the parser, so a lookup does not find it.\<close>

definition Answer :: "JevResponse \<Rightarrow> string \<Rightarrow> JevAnswer option" where
  "Answer r name = (case any_get (jr_Answers r) name of JObj ans \<Rightarrow> Some (jev_answer ans) | _ \<Rightarrow> None)"

definition jevMaxResponse :: nat where "jevMaxResponse = 2 ^ 20"

definition parse_jev :: "string \<Rightarrow> JevResponse option" where
  "parse_jev body = (case UnmarshalMap body of
     None \<Rightarrow> None
   | Some obj \<Rightarrow>
       (case getField obj ''answers'' of
          None \<Rightarrow> None
        | Some answers \<Rightarrow>
            if answers = [] then None
            else let u = (case getField obj ''usage'' of Some u \<Rightarrow> u | None \<Rightarrow> [])
                 in Some \<lparr>jr_Model = (case any_string (any_get obj ''model'') of Some m \<Rightarrow> m | None \<Rightarrow> []),
                         jr_Answers = answers,
                         jr_InputTokens = intToFloat64 (any_get u ''input_tokens'') + intToFloat64 (any_get u ''prompt_tokens''),
                         jr_OutputTokens = intToFloat64 (any_get u ''output_tokens'') + intToFloat64 (any_get u ''completion_tokens'')\<rparr>))"

record jev_request =
  jq_endpoint :: string
  jq_apiKey :: string
  jq_model :: string
  jq_text :: string
  jq_contextTokens :: int
  jq_requested :: string
  jq_ids :: "string list"
  jq_images :: "string list"
  jq_question :: string
  jq_criteria :: "(string \<times> string) list"
  jq_security :: bool
  jq_proxy :: string
  jq_timeout :: duration

definition jev_endpoint :: "string \<Rightarrow> string" where
  "jev_endpoint baseURL =
     (let e = TrimRight baseURL ''/''
      in (if HasSuffix e ''/v1'' then e else e @ ''/v1'') @ ''/systemone'')"

definition AskJev :: "(jev_request \<Rightarrow> (int \<times> string) option) \<Rightarrow> jev_request \<Rightarrow> JevResponse option" where
  "AskJev ask q = (case ask q of
     None \<Rightarrow> None
   | Some (status, body) \<Rightarrow> if status \<noteq> 200 then None else parse_jev (take jevMaxResponse body))"

subsection \<open>The pool\<close>

fun candidate_ids :: "string list \<Rightarrow> JevCandidate list \<Rightarrow> string list" where
  "candidate_ids seen [] = []"
| "candidate_ids seen (c # cs) =
     (let id0 = (if jc_TargetModel c = [] then jc_ServerID c else jc_TargetModel c);
          cid = (if id0 \<in> set seen then id0 @ ''@'' @ jc_ServerID c else id0)
      in cid # candidate_ids (cid # seen) cs)"

definition jevCandidateIDs :: "JevCandidate list \<Rightarrow> string list" where
  "jevCandidateIDs pool = candidate_ids [] pool"

definition jevVisionPool :: "JevCandidate list \<Rightarrow> JevCandidate list" where
  "jevVisionPool pool = filter (\<lambda>c. jc_Vision c \<noteq> Some False) pool"

fun jevAudioPool ::
  "gotime \<Rightarrow> network \<Rightarrow> Config \<Rightarrow> CapabilitiesCache \<Rightarrow> JevCandidate list \<Rightarrow> CapabilitiesCache \<times> JevCandidate list" where
  "jevAudioPool now net cfg caps [] = (caps, [])"
| "jevAudioPool now net cfg caps (c # cs) =
     (let (caps1, audio) = (case GetServer cfg (jc_ServerID c) of
            Some srv \<Rightarrow> if jc_TargetModel c \<noteq> [] then Audio caps now now net srv (jc_TargetModel c) else (caps, None)
          | None \<Rightarrow> (caps, None));
          (caps2, out) = jevAudioPool now net cfg caps1 cs
      in (caps2, if audio = Some True then out else c # out))"

fun resolveVisionPool ::
  "gotime \<Rightarrow> network \<Rightarrow> Config \<Rightarrow> CapabilitiesCache \<Rightarrow> JevCandidate list \<Rightarrow> CapabilitiesCache \<times> JevCandidate list" where
  "resolveVisionPool now net cfg caps [] = (caps, [])"
| "resolveVisionPool now net cfg caps (c # cs) =
     (let (caps1, c1) =
            (if jc_Vision c \<noteq> None \<or> jc_TargetModel c = [] then (caps, c)
             else case GetServer cfg (jc_ServerID c) of
                    None \<Rightarrow> (caps, c)
                  | Some srv \<Rightarrow> (case Vision caps now now net srv (jc_TargetModel c) of
                      (caps', Some v) \<Rightarrow> (caps', c\<lparr>jc_Vision := Some v\<rparr>)
                    | (caps', None) \<Rightarrow> (caps', c)));
          (caps2, out) = resolveVisionPool now net cfg caps1 cs
      in (caps2, c1 # out))"

fun tier_scan :: "int \<Rightarrow> nat \<Rightarrow> nat \<times> int \<Rightarrow> JevCandidate list \<Rightarrow> nat" where
  "tier_scan tier i (best, bestDist) [] = best"
| "tier_scan tier i (best, bestDist) (c # cs) =
     (if jc_Tier c = tier then i
      else let d = \<bar>jc_Tier c - tier\<bar>;
               dist = (if jc_Tier c > tier then d * 2 else d)
           in tier_scan tier (Suc i)
                (if bestDist < 0 \<or> dist < bestDist then (i, dist) else (best, bestDist)) cs)"

definition jevTierIndex :: "JevCandidate list \<Rightarrow> int \<Rightarrow> nat" where
  "jevTierIndex pool tier = tier_scan tier 0 (0, - 1) pool"

definition lowest_tier :: int where "lowest_tier = - (2 ^ 31)"

fun nearest_scan :: "int \<Rightarrow> nat \<Rightarrow> nat \<times> int \<Rightarrow> JevCandidate list \<Rightarrow> nat \<times> int" where
  "nearest_scan top_tier i acc [] = acc"
| "nearest_scan top_tier i (best, bestTier) (c # cs) =
     nearest_scan top_tier (Suc i)
       (if jc_Tier c \<le> top_tier \<and> jc_Tier c > bestTier then (i, jc_Tier c) else (best, bestTier)) cs"

definition jevNearestIndex :: "JevCandidate list \<Rightarrow> int \<Rightarrow> nat" where
  "jevNearestIndex pool top_tier =
     (case nearest_scan top_tier 0 (0, lowest_tier) pool of (best, bestTier) \<Rightarrow>
        if bestTier > lowest_tier then best else jevTierIndex pool top_tier)"

subsection \<open>The decision\<close>

record jev_store =
  js_caps :: CapabilitiesCache
  js_cache :: "(string, jevCacheEntry) gomap"
  js_sticky :: "(string, jevStickyEntry) gomap"

record jev_env =
  je_now :: gotime
  je_ms :: int
  je_sha256 :: "string \<Rightarrow> string"
  je_net :: network
  je_ask :: "jev_request \<Rightarrow> (int \<times> string) option"

definition jevScoresSummary :: "JevResponse \<Rightarrow> string" where
  "jevScoresSummary r =
     Join (concat (map (\<lambda>(q, label). case Answer r q of
        Some a \<Rightarrow> [label @ '' '' @ Itoa (ja_Score a)] | None \<Rightarrow> [])
       [(''task_complexity'', ''task''), (''reasoning_required'', ''reasoning''), (''tool_complexity'', ''tools'')])) '', ''"

definition jevCacheKey :: "(string \<Rightarrow> string) \<Rightarrow> string \<Rightarrow> string \<Rightarrow> string list \<Rightarrow> string \<Rightarrow> string list \<Rightarrow> string" where
  "jevCacheKey sha256 model question ids text images =
     hex_EncodeToString (sha256 (concat (map (\<lambda>s. s @ [CHR 0x00])
       [model, question, Join ids '','', text, Join images [CHR 0x00]])))"

fun index_of :: "'a \<Rightarrow> 'a list \<Rightarrow> nat option" where
  "index_of x [] = None"
| "index_of x (y # ys) = (if x = y then Some 0 else map_option Suc (index_of x ys))"

text \<open>
  One question to the decision model and what becomes of its answer: the outcome, the index it
  chose, and whether the security gate blocks the request.
\<close>

definition ask_decision ::
  "jev_env \<Rightarrow> Config \<Rightarrow> JevRouter \<Rightarrow> jev_request \<Rightarrow> string \<Rightarrow> jev_store \<Rightarrow> jevOutcome \<Rightarrow>
     jev_store \<times> jevOutcome \<times> nat option \<times> bool" where
  "ask_decision env cfg j q key st out =
     (let ttl = wrap64 (jev_CacheTTL j * Second);
          put = (\<lambda>oc st. st\<lparr>js_cache := jevCachePut (je_now env) key oc ttl (js_cache st)\<rparr>);
          out1 = out\<lparr>jo_LatencyMs := je_ms env\<rparr>
      in case AskJev (je_ask env) q of
           None \<Rightarrow> (st, out1\<lparr>jo_Reason := ''unavailable''\<rparr>, None, False)
         | Some resp \<Rightarrow>
             (case Answer resp jevQuestionName of
                None \<Rightarrow> (st, out1\<lparr>jo_Reason := ''unavailable''\<rparr>, None, False)
              | Some ans \<Rightarrow>
                  let out2 = out1\<lparr>jo_Choice := ja_Choice ans, jo_Confidence := ja_Confidence ans,
                                 jo_InputTokens := jr_InputTokens resp, jo_OutputTokens := jr_OutputTokens resp,
                                 jo_Scores := jevScoresSummary resp,
                                 jo_Model := (if jr_Model resp \<noteq> [] then jr_Model resp else jo_Model out1)\<rparr>;
                      blocked = (jev_Security j \<and>
                        (case Answer resp jevSecurityName of
                           Some sec \<Rightarrow> ja_HasNoul sec \<and> ja_Noul sec \<ge> jevSecurityThreshold | None \<Rightarrow> False))
                  in if blocked then
                       (let o3 = out2\<lparr>jo_Reason := ''blocked''\<rparr> in (put o3 st, o3, None, True))
                     else
                       let choice = index_of (ja_Choice ans) (jq_ids q);
                           o3 = out2\<lparr>jo_Reason := (if choice = None then ''unknown-choice'' else ''jev'')\<rparr>
                       in (put o3 st, o3, choice, False)))"

definition jev_question ::
  "JevRouter \<Rightarrow> Server \<Rightarrow> JevCandidate list \<Rightarrow> string list \<Rightarrow> string \<Rightarrow> int \<Rightarrow> string \<Rightarrow> string list \<Rightarrow> jev_request" where
  "jev_question j srv pool ids text contextTokens requested images =
     \<lparr>jq_endpoint = jev_endpoint (GetURLForAPIType srv APITypeOpenAI), jq_apiKey = srv_APIKey srv,
      jq_model = jev_Model j, jq_text = text, jq_contextTokens = contextTokens, jq_requested = requested,
      jq_ids = ids, jq_images = images,
      jq_question = (if jev_Question j = [] then jevDefaultQuestion else jev_Question j),
      jq_criteria = map (\<lambda>(c, i). (i, if jc_Description c = [] then i else jc_Description c)) (zip pool ids),
      jq_security = jev_Security j, jq_proxy = ProxyURL srv,
      jq_timeout = (if jev_TimeoutMs j > 0 then wrap64 (jev_TimeoutMs j * Millisecond) else jevDefaultTimeout)\<rparr>"

record jev_input =
  ji_headers :: "(string \<times> string) list"
  ji_path :: string
  ji_body :: string

definition jev_choose ::
  "jev_env \<Rightarrow> Config \<Rightarrow> JevRouter \<Rightarrow> JevCandidate list \<Rightarrow> string list \<Rightarrow> jev_input \<Rightarrow> string \<Rightarrow> string \<Rightarrow>
     string \<Rightarrow> int \<Rightarrow> string list \<Rightarrow> jev_store \<Rightarrow> jevOutcome \<Rightarrow> jev_store \<times> jevOutcome \<times> nat option \<times> bool" where
  "jev_choose env cfg j pool ids inp requested sessionKey text contextTokens images st out =
     (if header_get (ji_headers inp) ''X-Router-Jev'' = ''off'' \<or> Contains (ji_path inp) ''count_tokens'' then
        (st, out\<lparr>jo_Reason := ''off''\<rparr>, None, False)
      else if text = [] \<and> images = [] then
        (case jevStickyGet (je_now env) sessionKey (js_sticky st) of (sticky, c) \<Rightarrow>
           let st1 = st\<lparr>js_sticky := sticky\<rparr>;
               choice = (if c = [] then None else index_of c ids)
           in if choice = None then (st1, out\<lparr>jo_Reason := ''off''\<rparr>, None, False)
              else (st1, out\<lparr>jo_Choice := c, jo_Reason := ''sticky''\<rparr>, choice, False))
      else
        let question = (if jev_Question j = [] then jevDefaultQuestion else jev_Question j);
            key = (if jev_CacheTTL j > 0 then jevCacheKey (je_sha256 env) (jev_Model j) question ids text images else []);
            (cache, cached) = jevCacheGet (je_now env) key (js_cache st);
            st1 = st\<lparr>js_cache := cache\<rparr>
        in case cached of
             Some c0 \<Rightarrow>
               let c1 = c0\<lparr>jo_LatencyMs := 0, jo_InputTokens := 0, jo_OutputTokens := 0\<rparr>
               in if jo_Reason c1 = ''blocked'' then (st1, c1, None, True)
                  else let choice = index_of (jo_Choice c1) ids
                       in (st1, c1\<lparr>jo_Reason := (if choice = None then ''cache-unknown'' else ''cache'')\<rparr>, choice, False)
           | None \<Rightarrow>
               (case GetServer cfg (jev_ServerID j) of
                  None \<Rightarrow> (st1, out\<lparr>jo_Reason := ''unavailable''\<rparr>, None, False)
                | Some srv \<Rightarrow>
                    ask_decision env cfg j (jev_question j srv pool ids text contextTokens requested images) key st1 out))"

text \<open>The guards that follow the decision, on a non-empty pool.\<close>

definition jev_settle ::
  "JevRouter \<Rightarrow> JevCandidate list \<Rightarrow> int \<Rightarrow> jevOutcome \<Rightarrow> nat option \<Rightarrow> jevOutcome \<times> nat" where
  "jev_settle j pool contextTokens out choice0 =
     (let minConf = (if jev_MinConfidence j \<le> 0 then jevDefaultMinConfidence else jev_MinConfidence j);
          def = jevTierIndex pool (jev_DefaultTier j);
          tier = (\<lambda>i. jc_Tier (pool ! i));
          (out1, choice1) = (case choice0 of
             None \<Rightarrow> (out, def)
           | Some c \<Rightarrow>
               if jo_Reason out \<noteq> ''sticky'' \<and> jo_Confidence out < minConf then
                 (if tier c < tier def then (out\<lparr>jo_Reason := ''low-confidence-no-downgrade''\<rparr>, def)
                  else if tier c > tier def + 1 then
                    (out\<lparr>jo_Reason := ''low-confidence-capped''\<rparr>, jevNearestIndex pool (tier def + 1))
                  else (out, c))
               else (out, c))
      in if tier choice1 < tier def \<and> contextTokens > jevDowngradeMaxContext
         then (out1\<lparr>jo_Reason := ''context-no-downgrade''\<rparr>, def)
         else (out1, choice1))"

definition jev_order :: "JevCandidate list \<Rightarrow> nat \<Rightarrow> nat list" where
  "jev_order pool choice =
     (let tier = (\<lambda>i. jc_Tier (pool ! i));
          rest = filter (\<lambda>i. i \<noteq> choice) [0..<length pool];
          up = filter (\<lambda>i. tier i > tier choice) rest;
          down = filter (\<lambda>i. \<not> tier i > tier choice) rest
      in choice # SliceStable (\<lambda>a b. tier a < tier b) up @ SliceStable (\<lambda>a b. tier a > tier b) down)"

definition jev_attempt :: "Config \<Rightarrow> RoutingRule \<Rightarrow> JevCandidate \<Rightarrow> serverAttempt option" where
  "jev_attempt cfg rule c = (case GetServer cfg (jc_ServerID c) of
     None \<Rightarrow> None
   | Some srv \<Rightarrow> Some
       \<lparr>at_server = srv,
        at_targetModel = (if jc_TargetModel c = [] then rule_TargetModel rule else jc_TargetModel c),
        at_convert = jc_Convert c,
        at_contextWindow = (if jc_ContextWindow c = 0 then rule_ContextWindow rule else jc_ContextWindow c)\<rparr>)"

definition zero_outcome :: jevOutcome where
  "zero_outcome = \<lparr>jo_Choice = [], jo_Confidence = 0, jo_LatencyMs = 0, jo_Model = [], jo_Reason = [],
     jo_InputTokens = 0, jo_OutputTokens = 0, jo_Scores = []\<rparr>"

definition jev_pool ::
  "jev_env \<Rightarrow> Config \<Rightarrow> JevCandidate list \<Rightarrow> string list \<Rightarrow> CapabilitiesCache \<Rightarrow> CapabilitiesCache \<times> JevCandidate list" where
  "jev_pool env cfg pool0 requestImages caps0 =
     (let (caps1, filtered) = jevAudioPool (je_now env) (je_net env) cfg caps0 pool0;
          pool1 = (if filtered \<noteq> [] \<and> length filtered < length pool0 then filtered else pool0)
      in if requestImages \<noteq> [] then
           (let (caps2, pool2) = resolveVisionPool (je_now env) (je_net env) cfg caps1 pool1;
                sighted = jevVisionPool pool2
            in (caps2, if sighted \<noteq> [] then sighted else pool2))
         else (caps1, pool1))"

definition jevAttempts ::
  "jev_env \<Rightarrow> Config \<Rightarrow> RoutingRule \<Rightarrow> JevRouter \<Rightarrow> jev_input \<Rightarrow> string \<Rightarrow> jev_store \<Rightarrow>
     jev_store \<times> serverAttempt list \<times> jevOutcome" where
  "jevAttempts env cfg rule j inp requested st0 =
     (let out = zero_outcome\<lparr>jo_Model := jev_Model j\<rparr>;
          (text0, contextTokens) = jevRequestText (ji_body inp);
          text = jevTruncate text0 (jev_StateMaxChars j);
          requestImages = jevRequestImages (ji_body inp);
          images = (if jev_Images j then requestImages else []);
          pool0 = EnabledCandidates j
      in if pool0 = [] then (st0, [], out\<lparr>jo_Reason := ''no-pool''\<rparr>)
         else
           let (caps, pool) = jev_pool env cfg pool0 requestImages (js_caps st0);
               ids = jevCandidateIDs pool;
               conv = conversationKey (je_sha256 env) (ji_headers inp) (ji_body inp);
               sessionKey = (if conv = [] then [] else requested @ [CHR 0x00] @ conv);
               (st1, out1, choice0, blocked) =
                 jev_choose env cfg j pool ids inp requested sessionKey text contextTokens images
                   (st0\<lparr>js_caps := caps\<rparr>) out
           in if blocked then (st1, [], out1)
              else
                let (out2, choice) = jev_settle j pool contextTokens out1 choice0;
                    st2 = st1\<lparr>js_sticky := jevStickyPut (je_now env) sessionKey (ids ! choice) (js_sticky st1)\<rparr>
                in (st2, List.map_filter (\<lambda>i. jev_attempt cfg rule (pool ! i)) (jev_order pool choice), out2))"

subsection \<open>Indices stay inside the pool\<close>

lemma tier_scan_bound:
  "best < n + length cs \<or> cs \<noteq> [] \<and> bestDist < 0 \<Longrightarrow> i + length cs = n + length cs \<Longrightarrow>
     tier_scan tier i (best, bestDist) cs < n + length cs"
proof (induction cs arbitrary: i best bestDist n)
  case Nil
  then show ?case by simp
next
  case (Cons c cs)
  show ?case
  proof (cases "jc_Tier c = tier")
    case True
    then show ?thesis using Cons.prems by simp
  next
    case False
    then show ?thesis
      using Cons.prems Cons.IH [where i = "Suc i" and n = "Suc n"]
      by (auto simp: Let_def)
  qed
qed

lemma jevTierIndex_bound: "pool \<noteq> [] \<Longrightarrow> jevTierIndex pool tier < length pool"
  using tier_scan_bound [of 0 0 pool "- 1" 0 tier] by (simp add: jevTierIndex_def)

lemma tier_scan_exact:
  "\<exists>c \<in> set cs. jc_Tier c = tier \<Longrightarrow>
     \<exists>k < length cs. tier_scan tier i acc cs = i + k \<and> jc_Tier (cs ! k) = tier"
proof (induction cs arbitrary: i acc)
  case Nil
  then show ?case by simp
next
  case (Cons c cs)
  obtain b d where acc: "acc = (b, d)" by (cases acc)
  show ?case
  proof (cases "jc_Tier c = tier")
    case True
    then show ?thesis by (intro exI [of _ 0]) (simp add: acc)
  next
    case False
    have ex: "\<exists>c \<in> set cs. jc_Tier c = tier" using False Cons.prems by simp
    have "\<exists>acc'. tier_scan tier i acc (c # cs) = tier_scan tier (Suc i) acc' cs"
      using False by (auto simp: acc Let_def)
    then obtain k where "k < length cs" "tier_scan tier i acc (c # cs) = Suc i + k" "jc_Tier (cs ! k) = tier"
      using Cons.IH [OF ex, of "Suc i"] by metis
    then show ?thesis by (intro exI [of _ "Suc k"]) simp
  qed
qed

lemma jevTierIndex_exact:
  "\<exists>c \<in> set pool. jc_Tier c = tier \<Longrightarrow> jc_Tier (pool ! jevTierIndex pool tier) = tier"
  using tier_scan_exact [of pool tier 0 "(0, - 1)"] by (auto simp: jevTierIndex_def)

text \<open>A scan holds the greatest tier at or below the limit seen so far, with its position.\<close>

lemma nearest_scan_spec:
  assumes "nearest_scan top_tier (length ds) (best, bt) cs = (best', bt')"
    and "bt = lowest_tier \<or> (best < length ds \<and> jc_Tier (ds ! best) = bt \<and> bt \<le> top_tier)"
    and "\<forall>c \<in> set ds. jc_Tier c \<le> top_tier \<longrightarrow> jc_Tier c \<le> bt \<or> jc_Tier c \<le> lowest_tier"
    and "lowest_tier \<le> bt"
  shows "(bt' = lowest_tier \<or> (best' < length (ds @ cs) \<and> jc_Tier ((ds @ cs) ! best') = bt' \<and> bt' \<le> top_tier)) \<and>
    (\<forall>c \<in> set (ds @ cs). jc_Tier c \<le> top_tier \<longrightarrow> jc_Tier c \<le> bt' \<or> jc_Tier c \<le> lowest_tier)"
  using assms
proof (induction cs arbitrary: ds best bt)
  case Nil
  then show ?case by auto
next
  case (Cons c cs)
  let ?acc = "if jc_Tier c \<le> top_tier \<and> jc_Tier c > bt then (length ds, jc_Tier c) else (best, bt)"
  have run: "nearest_scan top_tier (length (ds @ [c])) (fst ?acc, snd ?acc) cs = (best', bt')"
    using Cons.prems(1) by simp
  have "snd ?acc = lowest_tier \<or> (fst ?acc < length (ds @ [c]) \<and> jc_Tier ((ds @ [c]) ! fst ?acc) = snd ?acc \<and> snd ?acc \<le> top_tier)"
    using Cons.prems(2) by (auto simp: nth_append)
  moreover have "\<forall>x \<in> set (ds @ [c]). jc_Tier x \<le> top_tier \<longrightarrow> jc_Tier x \<le> snd ?acc \<or> jc_Tier x \<le> lowest_tier"
  proof (intro ballI impI)
    fix x assume x: "x \<in> set (ds @ [c])" "jc_Tier x \<le> top_tier"
    have "bt \<le> snd ?acc" "x = c \<Longrightarrow> jc_Tier x \<le> snd ?acc" using x(2) by auto
    moreover have "x \<noteq> c \<Longrightarrow> jc_Tier x \<le> bt \<or> jc_Tier x \<le> lowest_tier" using x Cons.prems(3) by auto
    ultimately show "jc_Tier x \<le> snd ?acc \<or> jc_Tier x \<le> lowest_tier" by linarith
  qed
  moreover have "lowest_tier \<le> snd ?acc" using Cons.prems(4) by auto
  ultimately show ?case using Cons.IH [OF run] by simp
qed

lemma jevNearestIndex_spec:
  assumes "c \<in> set pool" "jc_Tier c \<le> top_tier" "lowest_tier < jc_Tier c"
  shows "jevNearestIndex pool top_tier < length pool \<and>
    jc_Tier (pool ! jevNearestIndex pool top_tier) \<le> top_tier \<and>
    (\<forall>d \<in> set pool. jc_Tier d \<le> top_tier \<longrightarrow> jc_Tier d \<le> jc_Tier (pool ! jevNearestIndex pool top_tier))"
proof -
  obtain b t where run: "nearest_scan top_tier 0 (0, lowest_tier) pool = (b, t)" by (cases "nearest_scan top_tier 0 (0, lowest_tier) pool")
  have spec: "(t = lowest_tier \<or> (b < length pool \<and> jc_Tier (pool ! b) = t \<and> t \<le> top_tier)) \<and>
      (\<forall>d \<in> set pool. jc_Tier d \<le> top_tier \<longrightarrow> jc_Tier d \<le> t \<or> jc_Tier d \<le> lowest_tier)"
    using nearest_scan_spec [of top_tier "[]" 0 lowest_tier pool b t] run by simp
  then have "lowest_tier < t" using assms by fastforce
  moreover have "jevNearestIndex pool top_tier = b" using run \<open>lowest_tier < t\<close> by (simp add: jevNearestIndex_def)
  ultimately show ?thesis using spec by fastforce
qed

lemma jevNearestIndex_bound:
  assumes "pool \<noteq> []"
  shows "jevNearestIndex pool top_tier < length pool"
proof -
  obtain b t where run: "nearest_scan top_tier 0 (0, lowest_tier) pool = (b, t)" by fastforce
  then have "t = lowest_tier \<or> b < length pool"
    using nearest_scan_spec [of top_tier "[]" 0 lowest_tier pool b t] by auto
  then show ?thesis using run jevTierIndex_bound [OF assms] by (auto simp: jevNearestIndex_def)
qed

lemma jev_settle_bound:
  assumes "pool \<noteq> []" "\<forall>c. choice = Some c \<longrightarrow> c < length pool"
  shows "snd (jev_settle j pool ctx out choice) < length pool"
  using assms jevTierIndex_bound [OF assms(1)] jevNearestIndex_bound [OF assms(1)]
  by (auto simp: jev_settle_def Let_def split: option.splits)

subsection \<open>The guards after the decision\<close>

text \<open>
  C32: What a decision may do. The served candidate is always one of the pool; without a usable
  decision it is the default tier; an unsure decision (below the confidence floor, unless it is
  the conversation's pinned one) never goes below the default candidate's tier nor more than
  one tier above it; a conversation of more than 20000 estimated tokens is never downgraded;
  and a confident decision that is no such downgrade is followed.
\<close>
theorem jev_settle_guards:
  assumes "pool \<noteq> []" "\<forall>c. choice = Some c \<longrightarrow> c < length pool" "\<forall>c \<in> set pool. lowest_tier < jc_Tier c"
    and "jev_settle j pool ctx out choice = (out', k)"
  shows "let def = jevTierIndex pool (jev_DefaultTier j); tier = (\<lambda>i. jc_Tier (pool ! i));
             floor = (if jev_MinConfidence j \<le> 0 then jevDefaultMinConfidence else jev_MinConfidence j);
             unsure = (jo_Reason out \<noteq> ''sticky'' \<and> jo_Confidence out < floor) in
    k < length pool \<and> def < length pool \<and>
    (choice = None \<longrightarrow> k = def) \<and>
    (choice \<noteq> None \<and> unsure \<longrightarrow> tier def \<le> tier k \<and> tier k \<le> tier def + 1) \<and>
    (ctx > jevDowngradeMaxContext \<longrightarrow> tier def \<le> tier k) \<and>
    (\<forall>c. choice = Some c \<and> \<not> unsure \<and> (ctx \<le> jevDowngradeMaxContext \<or> tier def \<le> tier c) \<longrightarrow> k = c)"
proof -
  let ?def = "jevTierIndex pool (jev_DefaultTier j)"
  have d: "?def < length pool" using assms(1) by (rule jevTierIndex_bound)
  then have "pool ! ?def \<in> set pool" by simp
  then have near: "jevNearestIndex pool (jc_Tier (pool ! ?def) + 1) < length pool"
    "jc_Tier (pool ! jevNearestIndex pool (jc_Tier (pool ! ?def) + 1)) \<le> jc_Tier (pool ! ?def) + 1"
    "jc_Tier (pool ! ?def) \<le> jc_Tier (pool ! jevNearestIndex pool (jc_Tier (pool ! ?def) + 1))"
    using jevNearestIndex_spec [of "pool ! ?def" pool "jc_Tier (pool ! ?def) + 1"] assms(3) by auto
  show ?thesis
  proof (cases choice)
    case None
    then show ?thesis using assms(4) d by (auto simp: jev_settle_def Let_def split: if_splits)
  next
    case (Some c)
    then have c: "c < length pool" using assms(2) by simp
    show ?thesis
      using assms(4) d c near unfolding jev_settle_def Let_def Some
      by (auto split: if_splits)
  qed
qed

definition example_candidate :: "string \<Rightarrow> int \<Rightarrow> JevCandidate" where
  "example_candidate i t =
     \<lparr>jc_ServerID = i, jc_TargetModel = [], jc_Description = [], jc_Tier = t, jc_ContextWindow = 0,
      jc_Vision = None, jc_Enabled = None, jc_Convert = []\<rparr>"

definition example_jev :: JevRouter where
  "example_jev =
     \<lparr>jev_ServerID = ''a'', jev_Model = ''d'', jev_Question = [],
      jev_Candidates = [example_candidate ''a'' 1, example_candidate ''a'' 5], jev_MinConfidence = 0,
      jev_DefaultTier = 1, jev_TimeoutMs = 0, jev_StateMaxChars = 0, jev_Security = False, jev_CacheTTL = 0,
      jev_Images = False\<rparr>"

lemma example_settle:
  "jev_settle example_jev [example_candidate ''a'' 1, example_candidate ''b'' 5] 0 zero_outcome (Some 1) =
     (zero_outcome\<lparr>jo_Reason := ''low-confidence-capped''\<rparr>, 0)"
  by code_simp

theorem jev_settle_guards_witness:
  "jc_Tier ([example_candidate ''a'' 1, example_candidate ''b'' 5] ! 0) \<le>
     jc_Tier ([example_candidate ''a'' 1, example_candidate ''b'' 5] !
       jevTierIndex [example_candidate ''a'' 1, example_candidate ''b'' 5] (jev_DefaultTier example_jev)) + 1"
  using jev_settle_guards [OF _ _ _ example_settle]
  by (auto simp: Let_def example_jev_def zero_outcome_def jevDefaultMinConfidence_def lowest_tier_def
      example_candidate_def)

subsection \<open>The attempt order\<close>

lemma jev_order_shape:
  assumes "k < length pool"
  shows "\<exists>up down. jev_order pool k = k # up @ down \<and> distinct (jev_order pool k) \<and>
    set (jev_order pool k) = {..<length pool} \<and>
    sorted_wrt (\<lambda>a b. jc_Tier (pool ! a) \<le> jc_Tier (pool ! b)) up \<and>
    sorted_wrt (\<lambda>a b. jc_Tier (pool ! b) \<le> jc_Tier (pool ! a)) down \<and>
    (\<forall>i \<in> set up. jc_Tier (pool ! k) < jc_Tier (pool ! i)) \<and>
    (\<forall>i \<in> set down. jc_Tier (pool ! i) \<le> jc_Tier (pool ! k))"
proof -
  let ?t = "\<lambda>i. jc_Tier (pool ! i)"
  let ?rest = "filter (\<lambda>i. i \<noteq> k) [0..<length pool]"
  let ?up = "filter (\<lambda>i. ?t i > ?t k) ?rest" and ?down = "filter (\<lambda>i. \<not> ?t i > ?t k) ?rest"
  have u: "SliceStable (\<lambda>a b. ?t a < ?t b) ?up = sort_key ?t ?up"
    by (rule SliceStable_key) simp
  have dn: "SliceStable (\<lambda>a b. ?t a > ?t b) ?down = sort_key (\<lambda>i. - ?t i) ?down"
    by (rule SliceStable_key) simp
  define up where "up = SliceStable (\<lambda>a b. ?t a < ?t b) ?up"
  define down where "down = SliceStable (\<lambda>a b. ?t a > ?t b) ?down"
  have sets: "set up = set ?up" "set down = set ?down" by (simp_all add: up_def down_def)
  have eq: "jev_order pool k = k # up @ down" by (simp add: jev_order_def Let_def up_def down_def)
  have "distinct up" "distinct down" unfolding up_def down_def u dn by simp_all
  then have "distinct (jev_order pool k)" unfolding eq using sets by auto
  moreover have "set (jev_order pool k) = {..<length pool}" unfolding eq using sets assms by auto
  moreover have "sorted_wrt (\<lambda>a b. ?t a \<le> ?t b) up"
    using sorted_sort_key [of ?t ?up] unfolding up_def u sorted_map by simp
  moreover have "sorted_wrt (\<lambda>a b. ?t b \<le> ?t a) down"
    using sorted_sort_key [of "\<lambda>i. - ?t i" ?down] unfolding down_def dn sorted_map by simp
  moreover have "\<forall>i \<in> set up. ?t k < ?t i" "\<forall>i \<in> set down. ?t i \<le> ?t k" using sets by auto
  ultimately show ?thesis using eq by blast
qed

text \<open>
  After the decision every candidate of the pool is tried exactly once: the chosen one
  first, then the stronger ones, weakest of them first, then the rest, strongest first.
\<close>
theorem jev_order_spec:
  assumes "k < length pool"
  shows "\<exists>up down. jev_order pool k = k # up @ down \<and> distinct (jev_order pool k) \<and>
    set (jev_order pool k) = {..<length pool} \<and>
    sorted_wrt (\<lambda>a b. jc_Tier (pool ! a) \<le> jc_Tier (pool ! b)) up \<and>
    sorted_wrt (\<lambda>a b. jc_Tier (pool ! b) \<le> jc_Tier (pool ! a)) down \<and>
    (\<forall>i \<in> set up. jc_Tier (pool ! k) < jc_Tier (pool ! i)) \<and>
    (\<forall>i \<in> set down. jc_Tier (pool ! i) \<le> jc_Tier (pool ! k))"
  using assms by (rule jev_order_shape)

theorem jev_order_spec_witness:
  "set (jev_order [example_candidate ''a'' 1, example_candidate ''b'' 5] 1) = {..<2}"
  using jev_order_spec [of 1 "[example_candidate ''a'' 1, example_candidate ''b'' 5]"] by auto

subsection \<open>Routing never depends on the decision model\<close>

lemma audio_pool_subset: "set (snd (jevAudioPool now net cfg caps pool)) \<subseteq> set pool"
  by (induction pool arbitrary: caps) (auto simp: split_beta Let_def split: if_splits)

lemma vision_pool_servers:
  "map jc_ServerID (snd (resolveVisionPool now net cfg caps pool)) = map jc_ServerID pool"
  by (induction pool arbitrary: caps) (auto simp: split_beta Let_def split: option.splits)

lemma jev_pool_spec:
  assumes "pool0 \<noteq> []"
  shows "snd (jev_pool env cfg pool0 imgs caps) \<noteq> [] \<and>
    jc_ServerID ` set (snd (jev_pool env cfg pool0 imgs caps)) \<subseteq> jc_ServerID ` set pool0 \<and>
    length (snd (jev_pool env cfg pool0 imgs caps)) \<le> length pool0"
proof -
  obtain caps1 filtered where a: "jevAudioPool (je_now env) (je_net env) cfg caps pool0 = (caps1, filtered)"
    by fastforce
  define pool1 where "pool1 = (if filtered \<noteq> [] \<and> length filtered < length pool0 then filtered else pool0)"
  have p1: "pool1 \<noteq> []" "set pool1 \<subseteq> set pool0" "length pool1 \<le> length pool0"
    using assms audio_pool_subset [of "je_now env" "je_net env" cfg caps pool0] a by (auto simp: pool1_def)
  obtain caps2 pool2 where v: "resolveVisionPool (je_now env) (je_net env) cfg caps1 pool1 = (caps2, pool2)"
    by fastforce
  have m: "map jc_ServerID pool2 = map jc_ServerID pool1"
    using vision_pool_servers [of "je_now env" "je_net env" cfg caps1 pool1] v by simp
  then have "pool2 \<noteq> []" "jc_ServerID ` set pool2 = jc_ServerID ` set pool1" "length pool2 = length pool1"
    using p1(1) map_eq_imp_length_eq [OF m] by (auto simp flip: set_map)
  moreover have "jc_ServerID ` set (jevVisionPool pool2) \<subseteq> jc_ServerID ` set pool2" "length (jevVisionPool pool2) \<le> length pool2"
    by (auto simp: jevVisionPool_def)
  ultimately have "snd (jev_pool env cfg pool0 imgs caps) \<noteq> []"
    "jc_ServerID ` set (snd (jev_pool env cfg pool0 imgs caps)) \<subseteq> jc_ServerID ` set pool1"
    "length (snd (jev_pool env cfg pool0 imgs caps)) \<le> length pool1"
    using p1 a v by (auto simp: jev_pool_def Let_def pool1_def [symmetric])
  then show ?thesis using p1(2,3) by (meson image_mono order_trans)
qed

lemma attempts_of_order:
  assumes "k < length pool" "\<forall>c \<in> set pool. GetServer cfg (jc_ServerID c) \<noteq> None"
  shows "length (List.map_filter (\<lambda>i. jev_attempt cfg rule (pool ! i)) (jev_order pool k)) = length pool \<and>
    (\<forall>a \<in> set (List.map_filter (\<lambda>i. jev_attempt cfg rule (pool ! i)) (jev_order pool k)).
       \<exists>c \<in> set pool. GetServer cfg (jc_ServerID c) = Some (at_server a))"
proof -
  obtain up down where o: "jev_order pool k = k # up @ down" "distinct (jev_order pool k)"
    "set (jev_order pool k) = {..<length pool}"
    using jev_order_shape [OF assms(1)] by blast
  have some: "jev_attempt cfg rule (pool ! i) \<noteq> None" if "i \<in> set (jev_order pool k)" for i
    using that o(3) assms(2) by (auto simp: jev_attempt_def split: option.splits)
  have "length (jev_order pool k) = length pool"
    using distinct_card [OF o(2)] o(3) by simp
  moreover have "filter (\<lambda>i. jev_attempt cfg rule (pool ! i) \<noteq> None) (jev_order pool k) = jev_order pool k"
    using some by (auto simp: filter_id_conv)
  ultimately have len: "length (List.map_filter (\<lambda>i. jev_attempt cfg rule (pool ! i)) (jev_order pool k)) = length pool"
    by (simp add: List.map_filter_def)
  have "\<exists>c \<in> set pool. GetServer cfg (jc_ServerID c) = Some (at_server a)"
    if a: "a \<in> set (List.map_filter (\<lambda>i. jev_attempt cfg rule (pool ! i)) (jev_order pool k))" for a
  proof -
    obtain i where "i < length pool" "jev_attempt cfg rule (pool ! i) = Some a"
      using a o(3) by (auto simp: List.map_filter_def)
    then show ?thesis
      by (intro bexI [of _ "pool ! i"]) (auto simp: jev_attempt_def split: option.splits)
  qed
  then show ?thesis using len by blast
qed

lemma index_of_bound: "index_of x ys = Some i \<Longrightarrow> i < length ys"
  by (induction ys arbitrary: i) (auto split: if_splits)

lemma length_candidate_ids [simp]: "length (candidate_ids seen pool) = length pool"
  by (induction seen pool rule: candidate_ids.induct) (auto simp: Let_def)

lemma length_jevCandidateIDs [simp]: "length (jevCandidateIDs pool) = length pool"
  by (simp add: jevCandidateIDs_def)

lemma ask_decision_spec:
  assumes "ask_decision env cfg j q key st out = (st', out', choice, blocked)"
  shows "(\<forall>c. choice = Some c \<longrightarrow> c < length (jq_ids q)) \<and> (blocked \<longrightarrow> jev_Security j) \<and>
    (\<not> blocked \<longrightarrow> jo_Reason out' \<noteq> ''blocked'')"
  using assms by (auto simp: ask_decision_def Let_def index_of_bound split: option.splits if_splits)

lemma jev_choose_spec:
  assumes "jev_choose env cfg j pool (jevCandidateIDs pool) inp rq sk text ctx imgs st out = (st', out', choice, blocked)"
    and "\<forall>e \<in> snd ` set (js_cache st). jo_Reason (ce_outcome e) \<noteq> ''blocked''" "\<not> jev_Security j"
  shows "(\<forall>c. choice = Some c \<longrightarrow> c < length pool) \<and> \<not> blocked \<and> jo_Reason out' \<noteq> ''blocked''"
proof -
  have cache: "snd (jevCacheGet now key (js_cache st)) = Some c0 \<Longrightarrow> jo_Reason c0 \<noteq> ''blocked''" for now key c0
    using assms(2) by (auto simp: jevCacheGet_def split: if_splits option.splits dest!: gm_get_Some_in)
  show ?thesis
  proof (cases "header_get (ji_headers inp) ''X-Router-Jev'' = ''off'' \<or> Contains (ji_path inp) ''count_tokens''")
    case True
    then show ?thesis using assms(1) by (auto simp: jev_choose_def)
  next
    case no: False
    show ?thesis
    proof (cases "text = [] \<and> imgs = []")
      case True
      then show ?thesis
        using assms(1) no
        by (auto simp: jev_choose_def Let_def split_beta dest: index_of_bound split: if_splits)
    next
      case False
      define key where "key = (if jev_CacheTTL j > 0 then jevCacheKey (je_sha256 env) (jev_Model j)
        (if jev_Question j = [] then jevDefaultQuestion else jev_Question j) (jevCandidateIDs pool) text imgs else [])"
      obtain cache' cached where g: "jevCacheGet (je_now env) key (js_cache st) = (cache', cached)" by fastforce
      show ?thesis
      proof (cases cached)
        case (Some c0)
        then have "jo_Reason c0 \<noteq> ''blocked''" using cache [of "je_now env" key] g by simp
        then show ?thesis
          using assms(1) no False g Some
          by (auto simp: jev_choose_def Let_def key_def [symmetric] dest: index_of_bound split: if_splits)
      next
        case None
        show ?thesis
        proof (cases "GetServer cfg (jev_ServerID j)")
          case None
          then show ?thesis
            using assms(1) no False g \<open>cached = None\<close> by (auto simp: jev_choose_def Let_def key_def [symmetric])
        next
          case (Some srv)
          then show ?thesis
            using assms(1,3) no False g \<open>cached = None\<close>
            by (auto simp: jev_choose_def Let_def key_def [symmetric] jev_question_def dest!: ask_decision_spec)
        qed
      qed
    qed
  qed
qed



subsection \<open>Where the code departs from its comments\<close>

text \<open>
  Between two candidates at the same distance from the default tier the weaker one is taken,
  and a third candidate with the same model on the same server gets the id of the second.
\<close>

lemma tier_tie_goes_down:
  "jevTierIndex [example_candidate ''a'' 1, example_candidate ''b'' 3] 2 = 0 \<and>
   jevTierIndex [example_candidate ''b'' 3, example_candidate ''a'' 1] 2 = 1"
  by code_simp

lemma candidate_ids_collide:
  "jevCandidateIDs (replicate 3 (example_candidate ''a'' 1)) = [''a'', ''a@a'', ''a@a'']"
  by code_simp

end
