(* ===== verification/Router.thy ===== *)
theory Router
  imports RateLimit Quota Health Metrics StreamProxy Balance Sticky ResponsesChat Jev ByteScan JsonPrint
begin

text \<open>
  \<open>Router.Handle\<close> of \<open>src/router/router.go\<close>: admission, the attempt list, the attempt loop
  with its gates, the retry loop and the teardown of every exit, and \<open>record\<close>,
  \<open>serveLastAnswer\<close> and the model listing. One request runs as a function of the shared
  state. What happens outside is a field of \<open>env\<close>: the proxied exchanges (\<open>ev_send\<close>, one
  result per call), the instants at which bookkeeping runs, whether the client left during a
  backoff, the decision endpoint, and the library functions the code relies on (hash, random
  bytes, error texts and number rendering of \<open>encoding/json\<close>). Response headers and log lines
  are not modelled.
\<close>

record request =
  rq_method :: string
  rq_path :: string
  rq_queryModel :: string
  rq_headers :: "(string \<times> string) list"
  rq_contentType :: string
  rq_body :: string

record env =
  ev_clock :: "nat \<Rightarrow> gotime"
  ev_send :: "nat \<Rightarrow> send_request \<Rightarrow> exchange"
  ev_left :: "nat \<Rightarrow> bool"
  ev_jev :: "jev_env"
  ev_fnum :: "string \<Rightarrow> string"
  ev_jerr :: "string \<Rightarrow> string"
  ev_trace :: trace_env
  ev_entropy :: "string option"

subsection \<open>State\<close>

record router =
  rt_config :: Config
  rt_metrics :: metrics_store
  rt_health :: "HealthTracker option"
  rt_rateLimit :: "RateLimiter option"
  rt_quota :: "QuotaTracker option"
  rt_trace :: "trace_store option"
  rt_rotation :: rotation_state
  rt_inflight :: inflight
  rt_pins :: pins
  rt_jev :: jev_store

subsection \<open>Small decisions\<close>

definition apiTypeFromPath :: "string \<Rightarrow> APIType" where
  "apiTypeFromPath path = (if Contains path ''/messages'' then APITypeAnthropic else APITypeOpenAI)"

definition localAnswerServer :: string where "localAnswerServer = ''router''"
definition defaultNumRetries :: int where "defaultNumRetries = 10"
definition maxClientRetries :: int where "maxClientRetries = 100"

definition sameServerRetries :: "bool \<Rightarrow> int \<Rightarrow> int" where
  "sameServerRetries unreachable configured = (if unreachable then min configured 0 else configured)"

definition bufferedAnswerRetries :: "int \<Rightarrow> int \<Rightarrow> bool \<Rightarrow> int" where
  "bufferedAnswerRetries status configured explicit =
     (if status = 429 then 0 else if explicit then configured else 0)"

definition clientRetries :: "string \<Rightarrow> int option" where
  "clientRetries h =
     (if h = [] then None
      else case ParseInt h of
        None \<Rightarrow> None
      | Some n \<Rightarrow> if n < 0 then None else Some (min n maxClientRetries))"

definition retryBackoff :: "int \<Rightarrow> duration" where
  "retryBackoff n =
     (if n \<le> 0 then 100 * Millisecond else if n = 1 then 250 * Millisecond
      else if n = 2 then 500 * Millisecond else Second)"

definition contextOverflows :: "int \<Rightarrow> string \<Rightarrow> bool" where
  "contextOverflows window body \<longleftrightarrow> window > 0 \<and> int (length body div 4) > window"

text \<open>\<open>int32(srv.MaxParallelRequests)\<close>.\<close>

definition wrap32 :: "int \<Rightarrow> int" where
  "wrap32 x = (x + 2 ^ 31) mod 2 ^ 32 - 2 ^ 31"

definition keep_alive :: "int \<Rightarrow> duration" where
  "keep_alive n = (if n > 0 then (if n < 1 then 1 else if n > 300 then 300 else n) * Second else 0)"

datatype body_error = RewriteFailed string | RewritePanic

definition rewriteAttemptBody :: "env \<Rightarrow> request \<Rightarrow> string \<Rightarrow> body_error + string" where
  "rewriteAttemptBody env rq targetModel =
     (if rq_method rq = ''GET'' \<or> targetModel = [] then Inr (rq_body rq)
      else if HasPrefix (rq_contentType rq) ''multipart/'' then
        (case RewriteModelInMultipart (rq_body rq) targetModel of
           Inl e \<Rightarrow> Inl (RewriteFailed (model_error_text e)) | Inr b \<Rightarrow> Inr b)
      else (case RewriteModelInBody (ev_fnum env) (rq_body rq) targetModel of
              Inr b \<Rightarrow> Inr b
            | Inl UnmarshalBody \<Rightarrow> Inl (RewriteFailed ''unmarshal body'')
            | Inl NilMapWrite \<Rightarrow> Inl RewritePanic))"

subsection \<open>Recording\<close>

record reqctx =
  cx_rq :: request
  cx_model :: string
  cx_rule :: RoutingRule
  cx_start :: gotime
  cx_jev :: "jevOutcome option"
  cx_pinKey :: string
  cx_total :: nat
  cx_trace :: trace_env

abbreviation cx_apiType :: "reqctx \<Rightarrow> APIType" where
  "cx_apiType cx \<equiv> apiTypeFromPath (rq_path (cx_rq cx))"

definition request_metric ::
  "request \<Rightarrow> gotime \<Rightarrow> gotime \<Rightarrow> string \<Rightarrow> string \<Rightarrow> string \<Rightarrow> ProxyMetrics \<Rightarrow> int \<Rightarrow> bool \<Rightarrow> RequestMetric" where
  "request_metric rq start now model targetModel serverID pm status wasFallback =
     zero_metric\<lparr>rm_Timestamp := start, rm_Model := model, rm_TargetModel := targetModel, rm_ServerID := serverID,
       rm_StatusCode := status, rm_LatencyMs := (now - start) div Millisecond, rm_TTFBMs := pm_TTFBMs pm,
       rm_ResponseSize := pm_ResponseSize pm, rm_WasFallback := wasFallback, rm_PromptTokens := pm_PromptTokens pm,
       rm_CompletionTokens := pm_CompletionTokens pm, rm_TotalTokens := pm_TotalTokens pm,
       rm_CachedTokens := pm_CachedTokens pm, rm_ReasoningTokens := pm_ReasoningTokens pm,
       rm_CacheCreationTokens := pm_CacheCreationTokens pm, rm_NativePromptMs := pm_PromptMs pm,
       rm_NativePredictedMs := pm_PredictedMs pm, rm_NativePromptTokPerSec := pm_PromptPerSec pm,
       rm_NativeDecodeTokPerSec := pm_TokensPerSec pm, rm_APIType := apiTypeFromPath (rq_path rq),
       rm_Class := EndpointLabel (rq_path rq)\<rparr>"

definition trace_entry :: "RequestMetric \<Rightarrow> string \<Rightarrow> jevOutcome option \<Rightarrow> int \<Rightarrow> Entry \<Rightarrow> Entry" where
  "trace_entry m errorBody jev retries e =
     e\<lparr>en_StatusCode := rm_StatusCode m, en_LatencyMs := rm_LatencyMs m, en_TTFBMs := rm_TTFBMs m,
       en_ServerID := rm_ServerID m, en_TargetModel := rm_TargetModel m, en_Class := rm_Class m,
       en_Features := en_Features e @ (if rm_WasFallback m then [''fallback''] else [])
                        @ (if retries > 0 then [''retry:'' @ Itoa retries] else []),
       en_JevChoice := (case jev of Some j \<Rightarrow> jo_Choice j | None \<Rightarrow> en_JevChoice e),
       en_Response := (if en_Response e = [] \<and> errorBody \<noteq> [] then errorBody else en_Response e)\<rparr>"

definition add_record ::
  "RequestMetric \<Rightarrow> string \<Rightarrow> jevOutcome option \<Rightarrow> int \<Rightarrow> Entry option \<Rightarrow> router \<Rightarrow> router" where
  "add_record m errorBody jev retries capture r =
     (let r1 = r\<lparr>rt_metrics := metrics_Add m (rt_metrics r)\<rparr>
      in case capture of
           None \<Rightarrow> r1
         | Some e \<Rightarrow> r1\<lparr>rt_trace := map_option (trace_Add (trace_entry m errorBody jev retries e)) (rt_trace r1)\<rparr>)"

definition record_request ::
  "reqctx \<Rightarrow> gotime \<Rightarrow> string \<Rightarrow> string \<Rightarrow> ProxyMetrics \<Rightarrow> int \<Rightarrow> string \<Rightarrow> bool \<Rightarrow> int \<Rightarrow> Capture option \<Rightarrow> router \<Rightarrow> router" where
  "record_request cx now targetModel serverID pm status errorBody wasFallback retries capture r =
     add_record (request_metric (cx_rq cx) (cx_start cx) now (cx_model cx) targetModel serverID pm status wasFallback)
       errorBody (cx_jev cx) retries (map_option (capture_Entry (cx_trace cx)) capture) r"

subsection \<open>Bookkeeping\<close>

definition mark_healthy :: "string \<Rightarrow> router \<Rightarrow> router" where
  "mark_healthy i r = r\<lparr>rt_health := map_option (\<lambda>t. fst (MarkHealthy t i)) (rt_health r)\<rparr>"

definition mark_unhealthy :: "string \<Rightarrow> router \<Rightarrow> router" where
  "mark_unhealthy i r = r\<lparr>rt_health := map_option (\<lambda>t. fst (MarkUnhealthy t i)) (rt_health r)\<rparr>"

definition limiter_failure :: "gotime \<Rightarrow> string \<Rightarrow> int \<Rightarrow> duration list \<Rightarrow> router \<Rightarrow> router" where
  "limiter_failure now i status hints r =
     r\<lparr>rt_rateLimit := map_option (\<lambda>l. fst (RecordFailure l now i status hints)) (rt_rateLimit r)\<rparr>"

definition limiter_success :: "string \<Rightarrow> router \<Rightarrow> router" where
  "limiter_success i r = r\<lparr>rt_rateLimit := map_option (\<lambda>l. RecordSuccess l i) (rt_rateLimit r)\<rparr>"

definition quota_request :: "gotime \<Rightarrow> string \<Rightarrow> router \<Rightarrow> router" where
  "quota_request now i r = r\<lparr>rt_quota := map_option (\<lambda>q. RecordRequest q now i) (rt_quota r)\<rparr>"

definition retry_after :: "ProxyMetrics \<Rightarrow> duration list" where
  "retry_after pm = [wrap64 (pm_RetryAfterMs pm * Millisecond)]"

definition releaseQuota :: "gotime \<Rightarrow> string \<Rightarrow> int \<Rightarrow> int \<Rightarrow> router \<Rightarrow> router" where
  "releaseQuota now i reserved used r =
     r\<lparr>rt_inflight := countInflight i (- 1) (rt_inflight r),
       rt_quota := map_option (\<lambda>q. Complete q now i reserved used) (rt_quota r)\<rparr>"

subsection \<open>One attempt\<close>

definition gate :: "gotime \<Rightarrow> bool \<Rightarrow> string \<Rightarrow> serverAttempt \<Rightarrow> router \<Rightarrow> router \<times> bool" where
  "gate now final body a r =
     (let i = at_ID a; srv = at_server a in
      if (case rt_health r of Some t \<Rightarrow> \<not> IsHealthy t i | None \<Rightarrow> False) \<and> \<not> final then (r, True)
      else if (case rt_rateLimit r of Some l \<Rightarrow> ShouldSkip l now i | None \<Rightarrow> False) \<and> \<not> final then (r, True)
      else if \<not> final \<and> contextOverflows (at_contextWindow a) body then (r, True)
      else if \<not> final \<and> srv_MaxParallelRequests srv > 0 \<and>
              inflightCount (rt_inflight r) i \<ge> wrap32 (srv_MaxParallelRequests srv) then (r, True)
      else case rt_quota r of
             None \<Rightarrow> (r, False)
           | Some q \<Rightarrow>
               (case Allow q now i of (q1, ok) \<Rightarrow>
                  if \<not> ok \<and> \<not> final then (r\<lparr>rt_quota := Some (fst (Usage q1 now i))\<rparr>, True)
                  else (r\<lparr>rt_quota := Some q1\<rparr>, False)))"

datatype prepared = Refuse string | BadBody body_error | Ready Plan string bool "string list"

definition prepare :: "env \<Rightarrow> reqctx \<Rightarrow> Settings \<Rightarrow> serverAttempt \<Rightarrow> prepared" where
  "prepare env cx settings a =
     (let rq = cx_rq cx;
          forced = (if header_get (rq_headers rq) ''X-Router-Convert'' = ''off'' then ''off'' else at_convert a)
      in case Decide (DialectForPath (rq_path rq)) (rq_path rq) (srv_Protocols (at_server a)) forced of
           Inl e \<Rightarrow> Refuse (ce_Msg e)
         | Inr plan \<Rightarrow>
             (case rewriteAttemptBody env rq (at_targetModel a) of
                Inl e \<Rightarrow> BadBody e
              | Inr body0 \<Rightarrow>
                  (case (if Edge plan = [] then Inr (body0, [])
                         else map_sum id (\<lambda>(b, ns). (b, ns @ DroppedKeys plan (rq_body rq) b)) (Request (je_sha256 (ev_jev env)) (ev_jerr env) (ev_fnum env) plan body0
                                (OptionsFrom (set_Convert settings)))) of
                     Inl e \<Rightarrow> Refuse (ce_Msg e)
                   | Inr (body1, notes) \<Rightarrow>
                       if plan_Dialect plan = Chat \<and> Contains (plan_Path plan) ''/chat/completions'' then
                         (case EnsureStreamUsage (ev_fnum env) body1 (set_AlwaysIncludeStreamUsage settings) of
                            (body2, injected) \<Rightarrow> Ready plan body2 (injected \<and> Edge plan = []) notes)
                       else Ready plan body1 False notes)))"

definition ping_frame :: "APIType \<Rightarrow> string" where
  "ping_frame t =
     (if t = APITypeAnthropic
      then ''event: ping'' @ [CHR 0x0A] @ ''data: {'' @ [CHR 0x22] @ ''type'' @ [CHR 0x22] @ '':'' @ [CHR 0x22] @ ''ping''
             @ [CHR 0x22] @ ''}'' @ [CHR 0x0A, CHR 0x0A]
      else '': keep-alive'' @ [CHR 0x0A, CHR 0x0A])"

definition upstream_type :: "reqctx \<Rightarrow> Plan \<Rightarrow> APIType" where
  "upstream_type cx plan =
     (if plan_Dialect plan = [] then cx_apiType cx
      else if plan_Dialect plan = Messages then APITypeAnthropic else APITypeOpenAI)"

definition attempt_request :: "reqctx \<Rightarrow> nat \<Rightarrow> serverAttempt \<Rightarrow> Plan \<Rightarrow> string \<Rightarrow> bool \<Rightarrow> string list \<Rightarrow> string list \<Rightarrow> send_request" where
  "attempt_request cx i a plan body strip notes errors =
     (let srv = at_server a in
      \<lparr>sn_url = GetURLForAPIType srv (upstream_type cx plan), sn_apiKey = srv_APIKey srv, sn_body = body,
       sn_targetModel = at_targetModel a,
       sn_responseModel = (if i > 0 \<or> cx_jev cx \<noteq> None then at_targetModel a else cx_model cx),
       sn_rh = \<lparr>rh_ServerID = srv_ID srv, rh_ServerName = srv_Name srv,
                rh_Attempts = show_nat (i + 1) @ ''/'' @ show_nat (cx_total cx), rh_Retries = 0,
                rh_FallbackErrors = errors, rh_KeepAliveIdle = keep_alive (srv_KeepAliveIdle srv),
                rh_Headers = srv_Headers srv, rh_Proxy = ProxyURL srv, rh_UpstreamPath = plan_Path plan,
                rh_Convert = Edge plan, rh_ConvertNotes = notes\<rparr>,
       sn_strip = strip, sn_ping = ping_frame (cx_apiType cx)\<rparr>)"

record bufferedAnswer =
  ba_status :: int
  ba_header :: "(string \<times> string) list"
  ba_body :: string
  ba_serverID :: string
  ba_targetModel :: string
  ba_wasFallback :: bool
  ba_translator :: "Plan option"

text \<open>One object of \<open>GET /v1/models\<close>; an optional member is left out of the JSON when \<open>None\<close>.\<close>

record listed_model =
  lm_id :: string
  lm_target :: string
  lm_server :: string
  lm_context_window :: "int option"
  lm_router :: "string option"
  lm_models :: "string list option"
  lm_healthy :: "bool option"

datatype response =
    Relayed string int
  | HTTPError int string
  | Verbatim string int "(string \<times> string) list" string
  | LocalAnswer string
  | ModelList "listed_model list"
  | NoAnswer
  | Panicked

record loop =
  lp_router :: router
  lp_calls :: nat
  lp_log :: "send_request list"
  lp_errors :: "string list"
  lp_lastErr :: "string option"
  lp_lastAnswer :: "bufferedAnswer option"
  lp_capture :: "Capture option"

definition sent_pm :: "sent \<Rightarrow> ProxyMetrics option" where
  "sent_pm x = (case x of Served pm \<Rightarrow> Some pm | MidStream pm _ \<Rightarrow> Some pm | Buffered pm _ _ _ \<Rightarrow> Some pm
                | Failed pm _ _ \<Rightarrow> pm)"

definition used_tokens :: "sent \<Rightarrow> int" where
  "used_tokens x = (case sent_pm x of Some pm \<Rightarrow> pm_TotalTokens pm | None \<Rightarrow> 0)"

definition error_message :: "sent \<Rightarrow> string" where
  "error_message x = (case x of
     Served _ \<Rightarrow> []
   | MidStream _ msg \<Rightarrow> msg
   | Buffered _ st _ body \<Rightarrow>
       ''backend returned HTTP '' @ Itoa st @ '': '' @
         go_quote (if length body > 512 then take 512 body @ ''...'' else body)
   | Failed _ _ msg \<Rightarrow> msg)"

definition retries_left :: "sent \<Rightarrow> int \<Rightarrow> bool \<Rightarrow> int" where
  "retries_left x numRetries explicit = (case x of
     Buffered _ st _ _ \<Rightarrow> bufferedAnswerRetries st numRetries explicit
   | Failed _ unreachable _ \<Rightarrow> sameServerRetries unreachable numRetries
   | _ \<Rightarrow> sameServerRetries False numRetries)"

text \<open>The attempt as the retry loop sees it.\<close>

record attempt =
  ap_server :: string
  ap_target :: string
  ap_plan :: Plan
  ap_request :: send_request
  ap_reserved :: int
  ap_fallback :: bool
  ap_numRetries :: int
  ap_explicit :: bool

abbreviation on_router :: "(router \<Rightarrow> router) \<Rightarrow> loop \<Rightarrow> loop" where
  "on_router f L \<equiv> L\<lparr>lp_router := f (lp_router L)\<rparr>"

definition served_exit :: "reqctx \<Rightarrow> attempt \<Rightarrow> gotime \<Rightarrow> nat \<Rightarrow> ProxyMetrics \<Rightarrow> loop \<Rightarrow> loop" where
  "served_exit cx ap now retry pm L =
     (let i = ap_server ap;
          r1 = mark_healthy i (lp_router L);
          r2 = (if pm_StatusCode pm \<ge> 400 then limiter_failure now i (pm_StatusCode pm) (retry_after pm) r1
                else limiter_success i r1);
          r3 = releaseQuota now i (ap_reserved ap) (pm_TotalTokens pm) (quota_request now i r2);
          r4 = (if cx_pinKey cx \<noteq> [] \<and> pm_StatusCode pm < 400
                then r3\<lparr>rt_pins := stickyPut now (cx_pinKey cx) i (rt_pins r3)\<rparr> else r3)
      in L\<lparr>lp_router := record_request cx now (ap_target ap) i pm (pm_StatusCode pm) (pm_ErrorBody pm)
             (ap_fallback ap) (int retry) (lp_capture L) r4\<rparr>)"

definition gone_exit :: "reqctx \<Rightarrow> attempt \<Rightarrow> gotime \<Rightarrow> nat \<Rightarrow> sent \<Rightarrow> loop \<Rightarrow> loop" where
  "gone_exit cx ap now retry x L =
     (let r1 = releaseQuota now (ap_server ap) (ap_reserved ap) (used_tokens x) (lp_router L)
      in L\<lparr>lp_router := (case sent_pm x of
             Some pm \<Rightarrow> if pm_StatusCode pm > 0
               then record_request cx now (ap_target ap) (ap_server ap) pm 499 ''client disconnected''
                      (ap_fallback ap) (int retry) (lp_capture L) r1
               else r1
           | None \<Rightarrow> r1)\<rparr>)"

definition midstream_exit :: "reqctx \<Rightarrow> attempt \<Rightarrow> gotime \<Rightarrow> nat \<Rightarrow> ProxyMetrics \<Rightarrow> loop \<Rightarrow> loop" where
  "midstream_exit cx ap now retry pm L =
     (let i = ap_server ap;
          r1 = limiter_failure now i (pm_StatusCode pm) (retry_after pm) (mark_unhealthy i (lp_router L));
          r2 = releaseQuota now i (ap_reserved ap) (pm_TotalTokens pm) r1
      in L\<lparr>lp_router := record_request cx now (ap_target ap) i pm (pm_StatusCode pm) (pm_ErrorBody pm)
             (ap_fallback ap) (int retry) (lp_capture L) r2\<rparr>)"

definition fallback_exit :: "attempt \<Rightarrow> gotime \<Rightarrow> sent \<Rightarrow> loop \<Rightarrow> loop" where
  "fallback_exit ap now x L =
     (let i = ap_server ap;
          r1 = (case x of
             Buffered pm st _ _ \<Rightarrow> limiter_failure now i st (retry_after pm) (lp_router L)
           | _ \<Rightarrow> limiter_failure now i 0 [] (mark_unhealthy i (lp_router L)))
      in L\<lparr>lp_router := releaseQuota now i (ap_reserved ap) (used_tokens x) r1,
           lp_errors := lp_errors L @ [error_message x]\<rparr>)"

definition note_failure :: "attempt \<Rightarrow> sent \<Rightarrow> loop \<Rightarrow> loop" where
  "note_failure ap x L =
     (let L1 = L\<lparr>lp_lastErr := Some (error_message x)\<rparr>
      in case x of
           Buffered _ st hdr body \<Rightarrow> L1\<lparr>lp_lastAnswer := Some
             \<lparr>ba_status = st, ba_header = hdr, ba_body = body, ba_serverID = ap_server ap, ba_targetModel = ap_target ap,
              ba_wasFallback = ap_fallback ap,
              ba_translator = (if Edge (ap_plan ap) = [] then None else Some (ap_plan ap))\<rparr>\<rparr>
         | _ \<Rightarrow> L1)"

definition send_once :: "env \<Rightarrow> attempt \<Rightarrow> nat \<Rightarrow> loop \<Rightarrow> exchange \<times> loop" where
  "send_once env ap retry L =
     (let req = (ap_request ap)\<lparr>sn_rh := (sn_rh (ap_request ap))\<lparr>rh_Retries := int retry\<rparr>\<rparr>;
          x = ev_send env (lp_calls L) req
      in (x, L\<lparr>lp_calls := Suc (lp_calls L), lp_log := lp_log L @ [req],
               lp_capture := map_option (fold (tap_step (ev_trace env)) (ex_tap x)) (lp_capture L)\<rparr>))"

lemma retries_left_le: "retries_left x n e \<le> max n 0"
  by (auto simp: retries_left_def sameServerRetries_def bufferedAnswerRetries_def split: sent.splits)

function retry_loop :: "env \<Rightarrow> reqctx \<Rightarrow> attempt \<Rightarrow> nat \<Rightarrow> loop \<Rightarrow> loop \<times> response option" where
  "retry_loop env cx ap retry L =
     (case send_once env ap retry L of (ex, L1) \<Rightarrow>
        let now = ev_clock env (lp_calls L1); x = ex_sent ex in
        case x of
          Served pm \<Rightarrow> (served_exit cx ap now retry pm L1, Some (Relayed (ap_server ap) (pm_StatusCode pm)))
        | _ \<Rightarrow>
          if ex_gone ex then (gone_exit cx ap now retry x L1, Some NoAnswer)
          else case x of
            MidStream pm _ \<Rightarrow> (midstream_exit cx ap now retry pm L1, Some (Relayed (ap_server ap) (pm_StatusCode pm)))
          | _ \<Rightarrow>
            let L2 = note_failure ap x L1 in
            if int retry < retries_left x (ap_numRetries ap) (ap_explicit ap) then
              (if ev_left env (lp_calls L1)
               then (on_router (releaseQuota now (ap_server ap) (ap_reserved ap) (used_tokens x)) L2, Some NoAnswer)
               else retry_loop env cx ap (Suc retry) L2)
            else (fallback_exit ap now x L2, None))"
  by pat_completeness auto
termination
  by (relation "measure (\<lambda>(env, cx, ap, retry, L). nat (ap_numRetries ap - int retry))")
    (auto dest!: less_le_trans [OF _ retries_left_le])

declare retry_loop.simps [simp del]

subsection \<open>The attempt loop\<close>

datatype loop_end = Exhausted | Refusal string | Answered response

definition retry_budget :: "reqctx \<Rightarrow> int \<times> bool" where
  "retry_budget cx =
     (let n = rule_NumRetries (cx_rule cx)
      in case clientRetries (header_get (rq_headers (cx_rq cx)) ''X-Router-Retries'') of
           Some k \<Rightarrow> (k, True)
         | None \<Rightarrow> (if n = 0 then defaultNumRetries else n, n \<noteq> 0))"

text \<open>The reservation: the state, the tokens held, and whether the server has room for them.\<close>

definition reserve_tokens :: "gotime \<Rightarrow> string \<Rightarrow> int \<Rightarrow> router \<Rightarrow> router \<times> int \<times> bool" where
  "reserve_tokens now i estimate r = (case rt_quota r of
     None \<Rightarrow> (r, 0, True)
   | Some q \<Rightarrow>
       if estimate > 0 then
         (case Reserve q now i estimate of (q1, ok) \<Rightarrow>
            (r\<lparr>rt_quota := Some q1\<rparr>, if ok then estimate else 0, ok))
       else (r, 0, True))"

definition take_slot :: "string \<Rightarrow> router \<Rightarrow> router" where
  "take_slot i r = r\<lparr>rt_inflight := countInflight i 1 (rt_inflight r)\<rparr>"

definition attempt_of ::
  "reqctx \<Rightarrow> nat \<Rightarrow> serverAttempt \<Rightarrow> Plan \<Rightarrow> string \<Rightarrow> bool \<Rightarrow> string list \<Rightarrow> int \<Rightarrow> string list \<Rightarrow> attempt" where
  "attempt_of cx i a plan body strip notes reserved errors =
     \<lparr>ap_server = at_ID a, ap_target = at_targetModel a, ap_plan = plan,
      ap_request = attempt_request cx i a plan body strip notes errors, ap_reserved = reserved, ap_fallback = (i > 0),
      ap_numRetries = fst (retry_budget cx), ap_explicit = snd (retry_budget cx)\<rparr>"

fun attempt_loop :: "env \<Rightarrow> reqctx \<Rightarrow> nat \<Rightarrow> serverAttempt list \<Rightarrow> loop \<Rightarrow> loop \<times> loop_end" where
  "attempt_loop env cx i [] L = (L, Exhausted)"
| "attempt_loop env cx i (a # as) L =
     (let final = (as = []); now = ev_clock env (lp_calls L) in
      case gate now final (rq_body (cx_rq cx)) a (lp_router L) of (r1, skip) \<Rightarrow>
        let L1 = L\<lparr>lp_router := r1\<rparr> in
        if skip then attempt_loop env cx (Suc i) as L1
        else case prepare env cx (cfg_Settings (rt_config r1)) a of
          Refuse msg \<Rightarrow>
            let L2 = L1\<lparr>lp_errors := lp_errors L1 @ [msg]\<rparr>
            in if final then (L2, Refusal msg) else attempt_loop env cx (Suc i) as L2
        | BadBody (RewriteFailed msg) \<Rightarrow> (L1, Answered (HTTPError 500 (''failed to rewrite model: '' @ msg)))
        | BadBody RewritePanic \<Rightarrow> (L1, Answered Panicked)
        | Ready plan body strip notes \<Rightarrow>
            (case reserve_tokens now (at_ID a) (DeclaredOutputBudget body) r1 of (r2, reserved, ok) \<Rightarrow>
               if \<not> ok \<and> \<not> final then attempt_loop env cx (Suc i) as (L1\<lparr>lp_router := r2\<rparr>)
               else
                 case retry_loop env cx (attempt_of cx i a plan body strip notes reserved (lp_errors L1)) 0
                        (L1\<lparr>lp_router := take_slot (at_ID a) r2\<rparr>) of
                      (L4, Some resp) \<Rightarrow> (L4, Answered resp)
                    | (L4, None) \<Rightarrow> attempt_loop env cx (Suc i) as L4))"

subsection \<open>The answer when no attempt served\<close>

definition forwarded_header :: "string \<times> string \<Rightarrow> bool" where
  "forwarded_header h \<longleftrightarrow>
     fst h \<noteq> ''Content-Length'' \<and> fst h \<noteq> ''Transfer-Encoding'' \<and> \<not> HasPrefix (fst h) ''X-Router-''"

definition serveLastAnswer :: "env \<Rightarrow> reqctx \<Rightarrow> gotime \<Rightarrow> int \<Rightarrow> Capture option \<Rightarrow> bufferedAnswer \<Rightarrow> router \<Rightarrow> router \<times> response" where
  "serveLastAnswer env cx now retries capture ans r =
     (let body = (case ba_translator ans of
            None \<Rightarrow> ba_body ans
          | Some p \<Rightarrow> (case Response (je_sha256 (ev_jev env)) (ev_jerr env) (ev_fnum env) (now div Second) p (ba_body ans) of
              Inr (b, _) \<Rightarrow> b | Inl _ \<Rightarrow> ba_body ans));
          hdrs = filter forwarded_header (ba_header ans) @ [(''X-Router-Server'', ba_serverID ans)]
            @ (case GetServer (rt_config r) (ba_serverID ans) of
                 Some srv \<Rightarrow> [(''X-Router-Server-Name'', srv_Name srv)] | None \<Rightarrow> [])
            @ [(''X-Router-Status'', Itoa (ba_status ans))]
      in (record_request cx now (ba_targetModel ans) (ba_serverID ans)
            (zero_pm\<lparr>pm_StatusCode := ba_status ans, pm_ResponseSize := int (length body)\<rparr>)
            (ba_status ans) body (ba_wasFallback ans) retries capture r,
          Verbatim (ba_serverID ans) (ba_status ans) hdrs body))"

definition last_retries :: "send_request list \<Rightarrow> int" where
  "last_retries calls = (if calls = [] then 0 else rh_Retries (sn_rh (last calls)))"

definition conclude :: "env \<Rightarrow> reqctx \<Rightarrow> serverAttempt \<Rightarrow> loop \<times> loop_end \<Rightarrow> router \<times> response" where
  "conclude env cx first run = (case run of (L, e) \<Rightarrow>
     let now = ev_clock env (lp_calls L); retries = last_retries (lp_log L); r = lp_router L in
     case e of
       Answered resp \<Rightarrow> (r, resp)
     | Refusal msg \<Rightarrow>
         (record_request cx now (at_targetModel first) (at_ID first) zero_pm 400 msg (cx_total cx > 1) retries
            (lp_capture L) r, HTTPError 400 msg)
     | Exhausted \<Rightarrow>
         (case lp_lastAnswer L of
            Some ans \<Rightarrow> serveLastAnswer env cx now retries (lp_capture L) ans r
          | None \<Rightarrow>
              (record_request cx now (at_targetModel first) (at_ID first) zero_pm 502
                 (case lp_lastErr L of Some m \<Rightarrow> m | None \<Rightarrow> []) (cx_total cx > 1) retries (lp_capture L) r,
               HTTPError 502 (''all backends failed: '' @ (case lp_lastErr L of Some m \<Rightarrow> m | None \<Rightarrow> ''<nil>'')))))"

subsection \<open>The attempt list\<close>

definition fallback_attempts :: "Config \<Rightarrow> RoutingRule \<Rightarrow> (serverAttempt \<times> int) list" where
  "fallback_attempts cfg rule = List.map_filter (\<lambda>fb. case GetServer cfg (fb_ServerID fb) of
       None \<Rightarrow> None
     | Some srv \<Rightarrow> Some
         (\<lparr>at_server = srv,
           at_targetModel = (if fb_TargetModel fb = [] then rule_TargetModel rule else fb_TargetModel fb),
           at_convert = fb_Convert fb,
           at_contextWindow = (if fb_ContextWindow fb = 0 then rule_ContextWindow rule else fb_ContextWindow fb)\<rparr>,
          max (fb_Weight fb) 1)) (orderedFallbacks rule)"

definition static_attempts :: "env \<Rightarrow> request \<Rightarrow> RoutingRule \<Rightarrow> Server \<Rightarrow> router \<Rightarrow> router \<times> serverAttempt list \<times> string" where
  "static_attempts env rq rule primary r =
     (let pool = (\<lparr>at_server = primary, at_targetModel = rule_TargetModel rule, at_convert = rule_Convert rule,
                   at_contextWindow = rule_ContextWindow rule\<rparr>, 1) # fallback_attempts (rt_config r) rule;
          attempts = map fst pool; weights = map snd pool
      in if length attempts > 1 \<and> Balances (rule_Balance rule) then
           (let pinKey = conversationKey (je_sha256 (ev_jev env)) (rq_headers rq) (rq_body rq);
                (ps, pinned) = stickyGet (ev_clock env 0) pinKey (rt_pins r);
                r1 = r\<lparr>rt_pins := ps\<rparr>
            in if rule_Balance rule = BalanceLeastConnections
               then (r1, balanceLeast (rt_inflight r1) attempts weights pinned, pinKey)
               else (case balanceRotation (rt_config r1) attempts weights pinned (rt_rotation r1) of
                       (rot, as) \<Rightarrow> (r1\<lparr>rt_rotation := rot\<rparr>, as, pinKey)))
         else (r, attempts, []))"

definition cap_attempts :: "Settings \<Rightarrow> serverAttempt list \<Rightarrow> serverAttempt list" where
  "cap_attempts settings as =
     (let m = ro_MaxFallbacks (set_Routing settings)
      in if m > 0 \<and> int (length as) > m + 1 then take (nat (m + 1)) as else as)"

subsection \<open>Handle\<close>

definition not_found_message :: "Config \<Rightarrow> string \<Rightarrow> string" where
  "not_found_message cfg model =
     (let all_names = ModelNames cfg;
          shown = (if length all_names > 20 then take 20 all_names @ [[CHR 0xE2, CHR 0x80, CHR 0xA6]] else all_names)
      in ''no routing rule for model '' @ go_quote model @
         (if shown \<noteq> [] then ''; this router routes: '' @ Join shown '', '' else []))"

text \<open>The router, and the capture of a traced request; \<open>None\<close> where redacting its body panics.\<close>

definition start_capture :: "env \<Rightarrow> request \<Rightarrow> string \<Rightarrow> string \<Rightarrow> router \<Rightarrow> router \<times> Capture option option" where
  "start_capture env rq model serverID r = (case rt_trace r of
     None \<Rightarrow> (r, Some None)
   | Some tr \<Rightarrow> (case Armed (ev_clock env 0) model serverID tr of
       (tr1, armed) \<Rightarrow> (r\<lparr>rt_trace := Some tr1\<rparr>,
          if armed then map_option Some (NewCapture (ev_trace env) (ev_entropy env) (ev_clock env 0) (rq_method rq)
                                           (rq_path rq) model (rq_contentType rq) (rq_body rq))
          else Some None)))"

definition run_attempts ::
  "env \<Rightarrow> reqctx \<Rightarrow> serverAttempt list \<Rightarrow> router \<Rightarrow> (loop \<times> loop_end)" where
  "run_attempts env cx attempts r =
     (case start_capture env (cx_rq cx) (cx_model cx) (at_ID (hd attempts)) r of (r1, capture) \<Rightarrow>
        let L = \<lparr>lp_router = r1, lp_calls = 0, lp_log = [], lp_errors = [], lp_lastErr = None, lp_lastAnswer = None,
                 lp_capture = (case capture of Some c \<Rightarrow> c | None \<Rightarrow> None)\<rparr>
        in if capture = None then (L, Answered Panicked) else attempt_loop env cx 0 attempts L)"

definition route :: "env \<Rightarrow> request \<Rightarrow> string \<Rightarrow> router \<Rightarrow> router \<times> response" where
  "route env rq model r = (case GetRuleByModel (rt_config r) model of
     None \<Rightarrow> (r, HTTPError 404 (not_found_message (rt_config r) model))
   | Some rule \<Rightarrow>
       (case (GetServer (rt_config r) (rule_ServerID rule), IsJev rule) of
          (None, False) \<Rightarrow> (r, HTTPError 500 (''server '' @ go_quote (rule_ServerID rule) @ '' not found''))
        | (primary, _) \<Rightarrow>
            let cx0 = \<lparr>cx_rq = rq, cx_model = model, cx_rule = rule, cx_start = ev_clock env 0, cx_jev = None,
                       cx_pinKey = [], cx_total = 0, cx_trace = ev_trace env\<rparr>;
                (r1, attempts0, cx1) =
                  (if IsJev rule then
                     (case jevAttempts (ev_jev env) (rt_config r) rule (the (rule_Jev rule))
                             \<lparr>ji_headers = rq_headers rq, ji_path = rq_path rq, ji_body = rq_body rq\<rparr> model (rt_jev r) of
                        (js, as, out) \<Rightarrow> (r\<lparr>rt_jev := js\<rparr>, as, cx0\<lparr>cx_jev := Some out\<rparr>))
                   else (case static_attempts env rq rule (the primary) r of
                           (r', as, pinKey) \<Rightarrow> (r', as, cx0\<lparr>cx_pinKey := pinKey\<rparr>)));
                attempts = cap_attempts (cfg_Settings (rt_config r1)) attempts0;
                cx = cx1\<lparr>cx_total := length attempts\<rparr>
            in if (case cx_jev cx of Some out \<Rightarrow> jo_Reason out = ''blocked'' | None \<Rightarrow> False) then
                 (record_request cx (ev_clock env 0) [] [] zero_pm 400 ''blocked by jev security gate'' False 0 None r1,
                  HTTPError 400 ''request blocked by security gate'')
               else if attempts = [] then (r1, HTTPError 500 ''routing rule has no usable backend'')
               else conclude env cx (hd attempts) (run_attempts env cx attempts r1)))"

definition listed_window :: "RoutingRule \<Rightarrow> int option" where
  "listed_window rule =
     (let own = rule_ContextWindow rule;
          cw = (case rule_Jev rule of
            Some j \<Rightarrow> if IsJev rule \<and> own = 0 then
                fold (\<lambda>c w. if jc_ContextWindow c > 0 \<and> (w = 0 \<or> jc_ContextWindow c < w) then jc_ContextWindow c else w)
                  (EnabledCandidates j) 0
              else own
          | None \<Rightarrow> own)
      in if cw > 0 then Some cw else None)"

definition anyServerHealthy :: "HealthTracker \<Rightarrow> RoutingRule \<Rightarrow> bool" where
  "anyServerHealthy t rule =
     (let ids = (if IsJev rule then map jc_ServerID (EnabledCandidates (the (rule_Jev rule)))
                 else rule_ServerID rule # map fb_ServerID (filter fb_IsEnabled (rule_Fallbacks rule)))
      in list_ex (IsHealthy t) ids)"

definition listed :: "router \<Rightarrow> RoutingRule \<Rightarrow> string \<Rightarrow> listed_model" where
  "listed r rule name =
     \<lparr>lm_id = name, lm_target = rule_TargetModel rule, lm_server = rule_ServerID rule,
      lm_context_window = listed_window rule,
      lm_router = (if IsJev rule then Some RouterJev else None),
      lm_models = (if IsJev rule
        then Some (filter (\<lambda>m. m \<noteq> []) (map jc_TargetModel (EnabledCandidates (the (rule_Jev rule))))) else None),
      lm_healthy = map_option (\<lambda>t. anyServerHealthy t rule) (rt_health r)\<rparr>"

definition listModels :: "router \<Rightarrow> listed_model list" where
  "listModels r =
     concat (map (\<lambda>rule. if \<not> rule_Enabled rule then []
         else map (listed r rule) (filter (\<lambda>name. \<not> IsModelPattern name) (rule_IncomingModels rule)))
       (active_rules (rt_config r)))"

definition request_model :: "request \<Rightarrow> model_error + string" where
  "request_model rq = (case extractModel (rq_body rq) of
     Inr m \<Rightarrow> Inr m
   | Inl e \<Rightarrow> (case ExtractModelFromMultipart (rq_body rq) of
       Some m \<Rightarrow> Inr m
     | None \<Rightarrow>
         if TrimSpace (rq_queryModel rq) \<noteq> [] \<and> rq_method rq = ''GET'' then Inr (TrimSpace (rq_queryModel rq))
         else if rq_path rq = ''/v1/systemone'' then Inr ''systemone''
         else Inl e))"

definition max_body :: nat where "max_body = 64 * 2 ^ 20"

definition count_tokens_answer :: "string \<Rightarrow> string" where
  "count_tokens_answer body =
     ''{'' @ [CHR 0x22] @ ''input_tokens'' @ [CHR 0x22] @ '':'' @ show_nat (length body div 4) @ ''}''"

definition Handle :: "env \<Rightarrow> request \<Rightarrow> router \<Rightarrow> router \<times> response" where
  "Handle env rq r =
     (if rq_method rq = ''GET'' \<and> rq_path rq = ''/v1/models'' then (r, ModelList (listModels r))
      else if rq_method rq \<noteq> ''POST'' \<and> (rq_method rq \<noteq> ''GET'' \<or> \<not> HasPrefix (rq_path rq) ''/v1/audio/'') then
        (r, HTTPError 405 ''method not allowed'')
      else if length (rq_body rq) > max_body then (r, HTTPError 400 ''failed to read request body'')
      else if Classify (rq_path rq) (rq_contentType rq) (rq_body rq) = None then (r, Panicked)
      else if Contains (rq_path rq) ''/count_tokens'' then
        (let answer = count_tokens_answer (rq_body rq);
             model = (case extractModel (rq_body rq) of Inr m \<Rightarrow> m | Inl _ \<Rightarrow> [])
         in (add_record (request_metric rq (ev_clock env 0) (ev_clock env 0) model [] localAnswerServer
               (zero_pm\<lparr>pm_StatusCode := 200, pm_ResponseSize := int (length answer),
                        pm_PromptTokens := int (length (rq_body rq) div 4)\<rparr>) 200 False) [] None 0 None r,
             LocalAnswer answer))
      else case request_model rq of
        Inl e \<Rightarrow> (r, HTTPError 400 (''invalid request body: '' @ model_error_text e))
      | Inr model \<Rightarrow>
          (case route env rq model (r\<lparr>rt_metrics := IncrActive (rt_metrics r)\<rparr>) of
             (r1, resp) \<Rightarrow> (r1\<lparr>rt_metrics := DecrActive (rt_metrics r1)\<rparr>, resp)))"

end
