(* ===== verification/RouterProps.thy ===== *)
theory RouterProps
  imports Router
begin

text \<open>
  What one run of \<open>Router.Handle\<close> guarantees: nothing it took stays taken, whom it contacts
  and how often, whose state it changes, and what it records. The retry loop is treated once,
  by an invariant rule; every property instantiates it and then goes over the attempt list.
\<close>

subsection \<open>What each step leaves alone\<close>

named_theorems frame \<open>fields a bookkeeping step does not touch\<close>

lemma metrics_Add_active [frame]: "ms_activeRequests (metrics_Add m s) = ms_activeRequests s"
proof -
  have "ms_activeRequests (fold (\<lambda>key. updateSummary key m') ks s') = ms_activeRequests s'" for ks m' s'
    by (induction ks arbitrary: s') (simp_all add: updateSummary_def Let_def)
  then show ?thesis by (simp add: metrics_Add_def Let_def)
qed

lemma add_record_frame [frame]:
  "rt_config (add_record m eb jev n c r) = rt_config r"
  "rt_health (add_record m eb jev n c r) = rt_health r"
  "rt_rateLimit (add_record m eb jev n c r) = rt_rateLimit r"
  "rt_quota (add_record m eb jev n c r) = rt_quota r"
  "rt_inflight (add_record m eb jev n c r) = rt_inflight r"
  "rt_pins (add_record m eb jev n c r) = rt_pins r"
  "rt_metrics (add_record m eb jev n c r) = metrics_Add m (rt_metrics r)"
  by (simp_all add: add_record_def Let_def split: option.splits)

lemma record_request_frame [frame]:
  "rt_config (record_request cx now t s pm st eb fb n c r) = rt_config r"
  "rt_health (record_request cx now t s pm st eb fb n c r) = rt_health r"
  "rt_rateLimit (record_request cx now t s pm st eb fb n c r) = rt_rateLimit r"
  "rt_quota (record_request cx now t s pm st eb fb n c r) = rt_quota r"
  "rt_inflight (record_request cx now t s pm st eb fb n c r) = rt_inflight r"
  "rt_pins (record_request cx now t s pm st eb fb n c r) = rt_pins r"
  by (simp_all add: record_request_def frame)

lemma record_request_metrics:
  "rt_metrics (record_request cx now t s pm st eb fb n c r) =
     metrics_Add (request_metric (cx_rq cx) (cx_start cx) now (cx_model cx) t s pm st fb) (rt_metrics r)"
  by (simp add: record_request_def frame)

lemmas bookkeeping_defs = mark_healthy_def mark_unhealthy_def limiter_failure_def limiter_success_def
  quota_request_def releaseQuota_def

lemmas exit_defs = served_exit_def gone_exit_def midstream_exit_def fallback_exit_def note_failure_def send_once_def

lemma request_metric_fields [simp]:
  "rm_Model (request_metric rq t0 t m tm s pm st fb) = m"
  "rm_ServerID (request_metric rq t0 t m tm s pm st fb) = s"
  "rm_StatusCode (request_metric rq t0 t m tm s pm st fb) = st"
  by (simp_all add: request_metric_def)

text \<open>
  The retry loop by cases: a property that every exit establishes from what holds after an
  exchange, and that a retried failure carries to the next round, holds when the loop ends.
\<close>

lemma retry_loop_rule:
  assumes start: "I retry L"
    and sent: "\<And>retry L ex L1. I retry L \<Longrightarrow> send_once env ap retry L = (ex, L1) \<Longrightarrow> J retry L1"
    and served: "\<And>retry now pm L1. J retry L1 \<Longrightarrow>
          Q (served_exit cx ap now retry pm L1, Some (Relayed (ap_server ap) (pm_StatusCode pm)))"
    and gone: "\<And>retry now x L1. J retry L1 \<Longrightarrow> Q (gone_exit cx ap now retry x L1, Some NoAnswer)"
    and mid: "\<And>retry now pm L1. J retry L1 \<Longrightarrow>
          Q (midstream_exit cx ap now retry pm L1, Some (Relayed (ap_server ap) (pm_StatusCode pm)))"
    and left: "\<And>retry now x L1. J retry L1 \<Longrightarrow>
          Q (on_router (releaseQuota now (ap_server ap) (ap_reserved ap) (used_tokens x)) (note_failure ap x L1), Some NoAnswer)"
    and again: "\<And>retry x L1. J retry L1 \<Longrightarrow> int retry < ap_numRetries ap \<Longrightarrow> I (Suc retry) (note_failure ap x L1)"
    and fallback: "\<And>retry now x L1. J retry L1 \<Longrightarrow> Q (fallback_exit ap now x (note_failure ap x L1), None)"
  shows "Q (retry_loop env cx ap retry L)"
  using start
proof (induction "nat (ap_numRetries ap - int retry)" arbitrary: retry L rule: less_induct)
  case less
  obtain ex L1 where so: "send_once env ap retry L = (ex, L1)" by fastforce
  have J: "J retry L1" using less.prems so by (rule sent)
  have rec: "Q (retry_loop env cx ap (Suc retry) (note_failure ap x L1))"
    if "int retry < retries_left x (ap_numRetries ap) (ap_explicit ap)" for x
  proof -
    have "int retry < ap_numRetries ap" using that retries_left_le [of x "ap_numRetries ap" "ap_explicit ap"] by linarith
    then show ?thesis by (intro less.hyps again J) auto
  qed
  show ?case
    by (subst retry_loop.simps)
      (simp add: so Let_def served [OF J] gone [OF J] mid [OF J] left [OF J] fallback [OF J] rec split: sent.splits)
qed

text \<open>
  The attempt loop in the same style: \<open>I\<close> holds before an attempt, \<open>K\<close> once its gates are passed.
\<close>

lemma attempt_loop_rule:
  assumes start: "I i as L"
    and finished: "\<And>i L. I i [] L \<Longrightarrow> Q (L, Exhausted)"
    and skip: "\<And>i a as L now r1. I i (a # as) L \<Longrightarrow> gate now (as = []) (rq_body (cx_rq cx)) a (lp_router L) = (r1, True) \<Longrightarrow>
          I (Suc i) as (L\<lparr>lp_router := r1\<rparr>)"
    and pass: "\<And>i a as L now r1. I i (a # as) L \<Longrightarrow> gate now (as = []) (rq_body (cx_rq cx)) a (lp_router L) = (r1, False) \<Longrightarrow>
          K i a as (L\<lparr>lp_router := r1\<rparr>)"
    and refuse: "\<And>i a as L msg. K i a as L \<Longrightarrow> as \<noteq> [] \<Longrightarrow> I (Suc i) as (L\<lparr>lp_errors := lp_errors L @ [msg]\<rparr>)"
    and refusal: "\<And>i a as L msg. K i a as L \<Longrightarrow> as = [] \<Longrightarrow> Q (L\<lparr>lp_errors := lp_errors L @ [msg]\<rparr>, Refusal msg)"
    and bad: "\<And>i a as L msg. K i a as L \<Longrightarrow> Q (L, Answered (HTTPError 500 (''failed to rewrite model: '' @ msg)))"
    and panic: "\<And>i a as L. K i a as L \<Longrightarrow> Q (L, Answered Panicked)"
    and full: "\<And>i a as L now e r2 res. K i a as L \<Longrightarrow> as \<noteq> [] \<Longrightarrow>
          reserve_tokens now (at_ID a) e (lp_router L) = (r2, res, False) \<Longrightarrow> I (Suc i) as (L\<lparr>lp_router := r2\<rparr>)"
    and run: "\<And>i a as L now plan body strip dropped r2 res ok L4 x. K i a as L \<Longrightarrow>
          reserve_tokens now (at_ID a) (DeclaredOutputBudget body) (lp_router L) = (r2, res, ok) \<Longrightarrow>
          retry_loop env cx (attempt_of cx i a plan body strip dropped res (lp_errors L)) 0
            (L\<lparr>lp_router := take_slot (at_ID a) r2\<rparr>) = (L4, x) \<Longrightarrow>
          (case x of Some resp \<Rightarrow> Q (L4, Answered resp) | None \<Rightarrow> I (Suc i) as L4)"
  shows "Q (attempt_loop env cx i as L)"
  using start
proof (induction as arbitrary: i L)
  case (Cons a as)
  let ?now = "ev_clock env (lp_calls L)"
  obtain r1 sk where g: "gate ?now (as = []) (rq_body (cx_rq cx)) a (lp_router L) = (r1, sk)" by fastforce
  show ?case
  proof (cases sk)
    case False
    let ?L1 = "L\<lparr>lp_router := r1\<rparr>"
    have K: "K i a as ?L1" using pass [OF Cons.prems, of ?now r1] g False by simp
    show ?thesis
    proof (cases "prepare env cx (cfg_Settings (rt_config r1)) a")
      case (Refuse msg)
      then show ?thesis using g False refusal [OF K] Cons.IH [OF refuse [OF K]] by (simp add: Let_def)
    next
      case (BadBody e)
      then show ?thesis using g False bad [OF K] panic [OF K] by (cases e) (simp_all add: Let_def)
    next
      case (Ready plan body strip dropped)
      obtain r2 res ok where rs: "reserve_tokens ?now (at_ID a) (DeclaredOutputBudget body) r1 = (r2, res, ok)"
        using prod_cases3 by blast
      obtain L4 x where rl: "retry_loop env cx (attempt_of cx i a plan body strip dropped res (lp_errors L)) 0
          (L\<lparr>lp_router := take_slot (at_ID a) r2\<rparr>) = (L4, x)" by fastforce
      have "Q (case x of Some resp \<Rightarrow> (L4, Answered resp) | None \<Rightarrow> attempt_loop env cx (Suc i) as L4)"
        using run [OF K, of ?now body r2 res ok plan strip dropped L4 x] rs rl Cons.IH by (cases x) simp_all
      moreover have "Q (attempt_loop env cx (Suc i) as (L\<lparr>lp_router := r2\<rparr>))" if "\<not> ok" "as \<noteq> []"
        using Cons.IH [OF full [OF K that(2), of ?now "DeclaredOutputBudget body" r2 res]] rs that by simp
      ultimately show ?thesis using g False Ready rs rl by (cases x) (simp_all add: Let_def)
    qed
  qed (use Cons g skip in simp)
qed (simp add: finished)

subsection \<open>Everything taken is given back\<close>

text \<open>
  What a request holds while it runs: a slot in its server's in-flight count, one active
  request, and the tokens reserved in the quota tracker (read together with the limits that
  decide whether a reservation is booked at all).
\<close>

type_synonym held_resources = "inflight \<times> int \<times> ((string \<Rightarrow> int) \<times> (string \<Rightarrow> int \<times> int) option) option"

definition taken :: "router \<Rightarrow> held_resources" where
  "taken r = (rt_inflight r, ms_activeRequests (rt_metrics r),
              map_option (\<lambda>q. (q_reserved q, q_limits q)) (rt_quota r))"

fun give_back :: "string \<Rightarrow> int \<Rightarrow> held_resources \<Rightarrow> held_resources" where
  "give_back i res (fl, n, qs) =
     (countInflight i (- 1) fl, n,
      map_option (\<lambda>(f, l). (if res > 0 then f(i := max 0 (wrap64 (f i - res))) else f, l)) qs)"

definition quota_sane :: "router \<Rightarrow> bool" where
  "quota_sane r \<longleftrightarrow> (\<forall>q. rt_quota r = Some q \<longrightarrow>
     (\<forall>i. 0 \<le> q_reserved q i \<and> q_reserved q i < 2 ^ 63 \<and> (fst (limitsFor q i) \<le> 0 \<longrightarrow> q_reserved q i = 0)))"

lemma quota_sane_cong: "taken r = taken r' \<Longrightarrow> quota_sane r = quota_sane r'"
  by (cases "rt_quota r"; cases "rt_quota r'") (auto simp: taken_def quota_sane_def limitsFor_def)

lemma taken_releaseQuota [frame]: "taken (releaseQuota now i res used r) = give_back i res (taken r)"
  by (cases "rt_quota r") (auto simp: taken_def releaseQuota_def Complete_def Let_def max_def)

lemma taken_bookkeeping [frame]:
  "taken (mark_healthy i r) = taken r" "taken (mark_unhealthy i r) = taken r"
  "taken (limiter_failure now i st hs r) = taken r" "taken (limiter_success i r) = taken r"
  "taken (quota_request now i r) = taken r" "taken (r\<lparr>rt_pins := ps\<rparr>) = taken r"
  "taken (r\<lparr>rt_rotation := ro\<rparr>) = taken r" "taken (r\<lparr>rt_jev := js\<rparr>) = taken r"
  "taken (record_request cx now t s pm st eb fb n c r) = taken r"
  "taken (add_record m eb jev k e r) = taken r"
  "taken (fst (start_capture env rq mo s r)) = taken r"
  by (auto simp: taken_def bookkeeping_defs frame record_request_def start_capture_def RecordRequest_def option.map_comp
      o_def split: option.splits prod.splits)

lemma taken_gate [frame]: "taken (fst (gate now final body a r)) = taken r"
  using Allow_frame
  by (auto simp: gate_def taken_def Let_def Usage_def split: option.splits prod.splits)
    (metis Allow_frame fst_conv)+

lemma wrap64_back: "0 \<le> x \<Longrightarrow> x < 2 ^ 63 \<Longrightarrow> wrap64 (wrap64 (x + e) - e) = x"
  using wrap64_add_wrap64 [of "x + e" "- e"] by (simp add: wrap64_id)

lemma reserve_give_back:
  assumes "quota_sane r" "reserve_tokens now i e r = (r1, res, ok)" "e < 2 ^ 63"
  shows "give_back i res (taken (take_slot i r1)) = taken r"
proof (cases "rt_quota r")
  case None
  then show ?thesis using assms(2) by (auto simp: reserve_tokens_def take_slot_def taken_def countInflight_def)
next
  case (Some q)
  have q: "0 \<le> q_reserved q i" "q_reserved q i < 2 ^ 63" "fst (limitsFor q i) \<le> 0 \<Longrightarrow> q_reserved q i = 0"
    using assms(1) Some by (auto simp: quota_sane_def)
  have neg: "wrap64 (- e) \<le> 0" if "0 < e"
    using that assms(3) by (simp add: wrap64_id)
  have bk: "wrap64 (wrap64 (q_reserved q i + e) - e) = q_reserved q i" using q(1,2) by (rule wrap64_back)
  show ?thesis
    using assms(2) q neg bk Some
    by (auto simp: reserve_tokens_def take_slot_def taken_def countInflight_def Reserve_def Let_def max_def fun_upd_idem
        split: if_splits)
qed

lemma retry_loop_gives_back:
  assumes "give_back (ap_server ap) (ap_reserved ap) (taken (lp_router L)) = T"
  shows "taken (lp_router (fst (retry_loop env cx ap retry L))) = T"
proof (rule retry_loop_rule [where ap = ap and Q = "\<lambda>x. taken (lp_router (fst x)) = T"
      and I = "\<lambda>retry L. give_back (ap_server ap) (ap_reserved ap) (taken (lp_router L)) = T"
      and J = "\<lambda>retry L. give_back (ap_server ap) (ap_reserved ap) (taken (lp_router L)) = T"])
qed (use assms in \<open>auto simp: exit_defs Let_def frame split: sent.splits option.splits\<close>)

lemma find_field_mem: "find_field fs k = Some d \<Longrightarrow> d \<in> snd ` set fs"
  by (auto simp: find_field_def find_Some_iff split: option.splits dest!: map_of_SomeD intro: rev_image_eqI)
    (metis image_eqI nth_mem snd_conv)

lemma dec_fields_keeps:
  assumes "P x" "dec_fields fs kvs x = Some y" "\<And>d v x y. d \<in> snd ` set fs \<Longrightarrow> P x \<Longrightarrow> d v x = Some y \<Longrightarrow> P y"
  shows "P y"
  using assms(1,2)
proof (induction kvs arbitrary: x)
  case (Cons kv kvs)
  obtain k v where kv: "kv = (k, v)" by fastforce
  show ?case
  proof (cases "find_field fs k")
    case (Some d)
    then obtain z where "d v x = Some z" "dec_fields fs kvs z = Some y"
      using Cons.prems(2) kv by (auto split: option.splits)
    then show ?thesis using Cons.IH [of z] assms(3) [OF find_field_mem [OF Some]] Cons.prems(1) by blast
  qed (use Cons kv in simp)
qed simp

lemma decode_struct_keeps:
  assumes "P x" "decode (dec_struct fs) x body = Some y" "\<And>d v x y. d \<in> snd ` set fs \<Longrightarrow> P x \<Longrightarrow> d v x = Some y \<Longrightarrow> P y"
  shows "P y"
proof -
  obtain v where v: "dec_struct fs v x = Some y" using assms(2) by (auto simp: decode_def split: option.splits)
  consider "x = y" | kvs where "dec_fields fs kvs x = Some y"
    using v by (cases v) (auto simp: dec_struct_def)
  then show ?thesis
  proof cases
    case 2
    then show ?thesis by (rule dec_fields_keeps [where P = P, OF assms(1)]) (rule assms(3))
  qed (use assms(1) in simp)
qed

lemma ParseInt_range: "ParseInt s = Some n \<Longrightarrow> n < 2 ^ 63"
  by (auto simp: ParseInt_def Let_def split: prod.splits option.splits if_splits)

definition small_budget :: "token_budget \<Rightarrow> bool" where
  "small_budget s \<longleftrightarrow> (\<forall>n. tb_MaxTokens s = Some n \<longrightarrow> n < 2 ^ 63) \<and> (\<forall>n. tb_MaxCompletionTokens s = Some n \<longrightarrow> n < 2 ^ 63)"

lemma DeclaredOutputBudget_range: "DeclaredOutputBudget body < 2 ^ 63"
proof -
  let ?fs = "[(''max_tokens'', dec_int_ptr (\<lambda>v r. r\<lparr>tb_MaxTokens := v\<rparr>)),
              (''max_completion_tokens'', dec_int_ptr (\<lambda>v r. r\<lparr>tb_MaxCompletionTokens := v\<rparr>))]"
  let ?x = "\<lparr>tb_MaxTokens = None, tb_MaxCompletionTokens = None\<rparr>"
  have step: "small_budget y" if "d \<in> snd ` set ?fs" "small_budget x" "d v x = Some y" for d v x y
    using that by (auto simp: dec_int_ptr_def small_budget_def split: json.splits) (drule ParseInt_range, simp)+
  have zero: "small_budget ?x" by (simp add: small_budget_def)
  have "small_budget s" if "decode (dec_struct ?fs) ?x body = Some s" for s
    using zero that step by (rule decode_struct_keeps)
  then show ?thesis
    by (auto simp: DeclaredOutputBudget_def Let_def small_budget_def split: option.splits)
qed

lemma taken_gated: "gate now final body a r = (r1, skip) \<Longrightarrow> taken r1 = taken r"
  using taken_gate [of now final body a r] by simp

lemma taken_no_room: "reserve_tokens now i e r = (r1, res, False) \<Longrightarrow> taken r1 = taken r"
  by (auto simp: reserve_tokens_def taken_def Reserve_def Let_def split: option.splits if_splits)

lemma attempt_loop_gives_back:
  assumes sane: "quota_sane (lp_router L)"
  shows "taken (lp_router (fst (attempt_loop env cx i as L))) = taken (lp_router L)"
proof (rule attempt_loop_rule [where I = "\<lambda>i as L'. taken (lp_router L') = taken (lp_router L)"
      and K = "\<lambda>i a as L'. taken (lp_router L') = taken (lp_router L)"
      and Q = "\<lambda>x. taken (lp_router (fst x)) = taken (lp_router L)"])
  fix i a as L1 now plan body strip dropped r2 res ok L4 x
  assume K: "taken (lp_router L1) = taken (lp_router L)"
    and rs: "reserve_tokens now (at_ID a) (DeclaredOutputBudget body) (lp_router L1) = (r2, res, ok)"
    and rl: "retry_loop env cx (attempt_of cx i a plan body strip dropped res (lp_errors L1)) 0
               (L1\<lparr>lp_router := take_slot (at_ID a) r2\<rparr>) = (L4, x)"
  have "quota_sane (lp_router L1)" using sane quota_sane_cong [OF K] by simp
  note held = reserve_give_back [OF this rs DeclaredOutputBudget_range]
  have "taken (lp_router (fst (L4, x))) = taken (lp_router L)"
    unfolding rl [symmetric] by (rule retry_loop_gives_back) (simp add: attempt_of_def held K)
  then show "case x of Some resp \<Rightarrow> taken (lp_router (fst (L4, Answered resp))) = taken (lp_router L)
                | None \<Rightarrow> taken (lp_router L4) = taken (lp_router L)"
    by (simp split: option.split)
qed (simp_all add: taken_gated taken_no_room)

lemma taken_static_attempts: "taken (fst (static_attempts env rq rule primary r)) = taken r"
  by (simp add: static_attempts_def Let_def frame split: prod.splits)

lemma taken_conclude: "taken (fst (conclude env cx first run)) = taken (lp_router (fst run))"
  by (cases run) (simp add: conclude_def serveLastAnswer_def Let_def frame split: loop_end.splits option.splits)

text \<open>A run starts from the router as the trace window left it and logs no call if redacting panics.\<close>

lemma run_attempts_cases:
  obtains L where "lp_log L = []" "lp_calls L = 0"
    "lp_router L = fst (start_capture env (cx_rq cx) (cx_model cx) (at_ID (hd attempts)) r)"
    "run_attempts env cx attempts r = (L, Answered Panicked) \<or>
     run_attempts env cx attempts r = attempt_loop env cx 0 attempts L"
proof -
  obtain r1 c where "start_capture env (cx_rq cx) (cx_model cx) (at_ID (hd attempts)) r = (r1, c)" by fastforce
  then show thesis
    by (intro that [of "\<lparr>lp_router = r1, lp_calls = 0, lp_log = [], lp_errors = [], lp_lastErr = None,
        lp_lastAnswer = None, lp_capture = (case c of Some d \<Rightarrow> d | None \<Rightarrow> None)\<rparr>"])
      (simp_all add: run_attempts_def Let_def)
qed

lemma taken_run_attempts:
  assumes "quota_sane r"
  shows "taken (lp_router (fst (run_attempts env cx attempts r))) = taken r"
proof -
  obtain L where L: "lp_router L = fst (start_capture env (cx_rq cx) (cx_model cx) (at_ID (hd attempts)) r)"
    "run_attempts env cx attempts r = (L, Answered Panicked) \<or>
     run_attempts env cx attempts r = attempt_loop env cx 0 attempts L"
    by (rule run_attempts_cases)
  then have t: "taken (lp_router L) = taken r" by (simp add: taken_bookkeeping)
  have "quota_sane (lp_router L)" using assms quota_sane_cong [OF t] by simp
  then show ?thesis using L(2) t by (auto simp: attempt_loop_gives_back)
qed

lemma taken_route:
  assumes "quota_sane r"
  shows "taken (fst (route env rq model r)) = taken r"
proof -
  have st: "taken r1 = taken r" "quota_sane r1" if "static_attempts env rq rule primary r = (r1, x)" for rule primary r1 x
    using taken_static_attempts [of env rq rule primary r] that assms quota_sane_cong [of r1 r] by simp_all
  have js: "quota_sane (r\<lparr>rt_jev := j\<rparr>)" for j
    using assms quota_sane_cong [OF taken_bookkeeping(8)] by blast
  show ?thesis
    using st js by (auto simp: route_def Let_def frame taken_conclude taken_run_attempts split: option.splits prod.splits bool.splits)
qed

lemma taken_Handle:
  assumes "quota_sane r"
  shows "taken (fst (Handle env rq r)) = taken r"
proof -
  let ?r = "r\<lparr>rt_metrics := IncrActive (rt_metrics r)\<rparr>"
  have "quota_sane ?r" using assms by (simp add: quota_sane_def)
  then have rt: "taken (fst (route env rq m ?r)) = taken ?r" for m by (rule taken_route)
  have "taken (r1\<lparr>rt_metrics := DecrActive (rt_metrics r1)\<rparr>) = taken r" if "route env rq m ?r = (r1, x)" for m r1 x
    using rt [of m] that by (simp add: taken_def IncrActive_def DecrActive_def)
  then show ?thesis by (auto simp: Handle_def Let_def frame split: sum.splits prod.splits)
qed

text \<open>
  C1: A request, however it ends (served, refused, abandoned by the client, cut mid-stream,
  every backend failed, even a panic while the body is scanned), leaves the in-flight count of
  every server, the number of active requests and the tokens reserved on every server exactly
  as it found them. The hypothesis on the tracker holds in every state the tracker reaches
  between requests: reservations are 64-bit and only servers with a token limit have any.
\<close>

theorem Handle_gives_back:
  assumes "\<forall>q. rt_quota r = Some q \<longrightarrow> (\<forall>i. 0 \<le> q_reserved q i \<and> q_reserved q i < 2 ^ 63 \<and>
             (fst (limitsFor q i) \<le> 0 \<longrightarrow> q_reserved q i = 0))"
  shows "rt_inflight (fst (Handle env rq r)) = rt_inflight r \<and>
         ms_activeRequests (rt_metrics (fst (Handle env rq r))) = ms_activeRequests (rt_metrics r) \<and>
         map_option q_reserved (rt_quota (fst (Handle env rq r))) = map_option q_reserved (rt_quota r)"
proof -
  have "quota_sane r" using assms by (simp add: quota_sane_def)
  then have "taken (fst (Handle env rq r)) = taken r" by (rule taken_Handle)
  then show ?thesis
    by (auto simp: taken_def dest!: arg_cong [of _ _ "map_option fst"] simp: option.map_comp o_def)
qed

subsection \<open>A routed request leaves the configuration alone\<close>

text \<open>The configuration, and which of the components are there at all.\<close>

definition fixed_part :: "router \<Rightarrow> Config \<times> bool \<times> bool \<times> bool" where
  "fixed_part r = (rt_config r, rt_health r = None, rt_rateLimit r = None, rt_trace r = None)"

lemma fixed_records [frame]:
  "fixed_part (add_record m eb jev n e r) = fixed_part r"
  "fixed_part (record_request cx now t s pm st eb fb n c r) = fixed_part r"
  "fixed_part (r\<lparr>rt_pins := ps\<rparr>) = fixed_part r" "fixed_part (r\<lparr>rt_metrics := ms\<rparr>) = fixed_part r"
  "fixed_part (r\<lparr>rt_rotation := ro\<rparr>) = fixed_part r" "fixed_part (r\<lparr>rt_jev := js\<rparr>) = fixed_part r"
  by (auto simp: fixed_part_def add_record_def record_request_def Let_def split: option.splits)

lemma fixed_bookkeeping:
  "fixed_part (mark_healthy i r) = fixed_part r" "fixed_part (mark_unhealthy i r) = fixed_part r"
  "fixed_part (limiter_failure now i st hs r) = fixed_part r" "fixed_part (limiter_success i r) = fixed_part r"
  "fixed_part (quota_request now i r) = fixed_part r" "fixed_part (releaseQuota now i res used r) = fixed_part r"
  "fixed_part (take_slot i r) = fixed_part r" "fixed_part (fst (start_capture env rq mo s r)) = fixed_part r"
  by (auto simp: fixed_part_def bookkeeping_defs take_slot_def start_capture_def split: option.splits prod.splits)

lemma fixed_gate: "gate now final body a r = (r1, skip) \<Longrightarrow> fixed_part r1 = fixed_part r"
  by (auto simp: fixed_part_def gate_def Let_def split: option.splits prod.splits if_splits)

lemma fixed_reserve: "reserve_tokens now i e r = (r1, res, ok) \<Longrightarrow> fixed_part r1 = fixed_part r"
  by (auto simp: fixed_part_def reserve_tokens_def split: option.splits prod.splits if_splits)

lemma fixed_retry_loop: "fixed_part (lp_router (fst (retry_loop env cx ap retry L))) = fixed_part (lp_router L)"
  by (rule retry_loop_rule [where ap = ap and Q = "\<lambda>x. fixed_part (lp_router (fst x)) = fixed_part (lp_router L)"
      and I = "\<lambda>_ L'. fixed_part (lp_router L') = fixed_part (lp_router L)"
      and J = "\<lambda>_ L'. fixed_part (lp_router L') = fixed_part (lp_router L)"])
    (auto simp: exit_defs Let_def frame fixed_bookkeeping split: sent.splits option.splits)

lemma fixed_attempt_loop: "fixed_part (lp_router (fst (attempt_loop env cx i as L))) = fixed_part (lp_router L)"
proof (rule attempt_loop_rule [where I = "\<lambda>i as L'. fixed_part (lp_router L') = fixed_part (lp_router L)"
      and K = "\<lambda>i a as L'. fixed_part (lp_router L') = fixed_part (lp_router L)"
      and Q = "\<lambda>x. fixed_part (lp_router (fst x)) = fixed_part (lp_router L)"])
  fix i a as L1 now plan body strip dropped r2 res ok L4 x
  assume "fixed_part (lp_router L1) = fixed_part (lp_router L)"
    "reserve_tokens now (at_ID a) (DeclaredOutputBudget body) (lp_router L1) = (r2, res, ok)"
    "retry_loop env cx (attempt_of cx i a plan body strip dropped res (lp_errors L1)) 0
               (L1\<lparr>lp_router := take_slot (at_ID a) r2\<rparr>) = (L4, x)"
  then have "fixed_part (lp_router L4) = fixed_part (lp_router L)"
    using fixed_retry_loop [of env cx "attempt_of cx i a plan body strip dropped res (lp_errors L1)" 0
        "L1\<lparr>lp_router := take_slot (at_ID a) r2\<rparr>"]
    by (simp add: fixed_bookkeeping fixed_reserve)
  then show "case x of Some resp \<Rightarrow> fixed_part (lp_router (fst (L4, Answered resp))) = fixed_part (lp_router L)
                | None \<Rightarrow> fixed_part (lp_router L4) = fixed_part (lp_router L)"
    by (simp split: option.split)
qed (auto simp: fixed_gate fixed_reserve)

lemma fixed_run_attempts: "fixed_part (lp_router (fst (run_attempts env cx attempts r))) = fixed_part r"
  by (rule run_attempts_cases [of env cx attempts r]) (auto simp: fixed_attempt_loop fixed_bookkeeping)

lemma fixed_conclude: "fixed_part (fst (conclude env cx first run)) = fixed_part (lp_router (fst run))"
  by (cases run) (simp add: conclude_def serveLastAnswer_def Let_def frame split: loop_end.splits option.splits)

lemma fixed_static_attempts: "fixed_part (fst (static_attempts env rq rule primary r)) = fixed_part r"
  by (simp add: static_attempts_def Let_def frame split: prod.splits)

lemma fixed_route: "fixed_part (fst (route env rq model r)) = fixed_part r"
  by (simp add: route_def Let_def frame split_beta fixed_static_attempts fixed_conclude fixed_run_attempts split: option.split bool.split)

lemma fixed_Handle: "fixed_part (fst (Handle env rq r)) = fixed_part r"
  by (simp add: Handle_def Let_def frame split_beta fixed_route split: sum.split)

subsection \<open>Whom a request contacts\<close>

abbreviation contacted :: "loop \<Rightarrow> string list" where
  "contacted L \<equiv> map (\<lambda>c. rh_ServerID (sn_rh c)) (lp_log L)"

abbreviation round_limit :: "reqctx \<Rightarrow> nat" where
  "round_limit cx \<equiv> Suc (nat (fst (retry_budget cx)))"

lemma log_frame [frame]:
  "lp_log (served_exit cx ap now n pm L) = lp_log L" "lp_log (gone_exit cx ap now n x L) = lp_log L"
  "lp_log (midstream_exit cx ap now n pm L) = lp_log L" "lp_log (fallback_exit ap now x L) = lp_log L"
  "lp_log (note_failure ap x L) = lp_log L"
  by (simp_all add: exit_defs Let_def split: sent.splits)

lemma retry_loop_contacts:
  assumes "rh_ServerID (sn_rh (ap_request ap)) = s"
  shows "\<exists>k. 1 \<le> k \<and> k \<le> Suc (nat (ap_numRetries ap)) \<and>
             contacted (fst (retry_loop env cx ap 0 L)) = contacted L @ replicate k s"
proof (rule retry_loop_rule [where ap = ap
      and I = "\<lambda>n L'. n \<le> nat (ap_numRetries ap) \<and> contacted L' = contacted L @ replicate n s"
      and J = "\<lambda>n L'. n \<le> nat (ap_numRetries ap) \<and> contacted L' = contacted L @ replicate (Suc n) s"
      and Q = "\<lambda>x. \<exists>k. 1 \<le> k \<and> k \<le> Suc (nat (ap_numRetries ap)) \<and> contacted (fst x) = contacted L @ replicate k s"])
  show "n \<le> nat (ap_numRetries ap) \<and> contacted L' = contacted L @ replicate n s \<Longrightarrow>
      send_once env ap n L' = (ex, L1) \<Longrightarrow>
      n \<le> nat (ap_numRetries ap) \<and> contacted L1 = contacted L @ replicate (Suc n) s" for n L' ex L1
    using assms by (auto simp: send_once_def Let_def replicate_append_same)
qed (auto simp: frame)

text \<open>The servers contacted so far, given how often each attempt was tried.\<close>

definition in_order :: "serverAttempt list \<Rightarrow> nat list \<Rightarrow> string list" where
  "in_order attempts ns = concat (map2 (\<lambda>a n. replicate n (at_ID a)) attempts ns)"

lemma in_order_snoc [simp]:
  "length as = length ns \<Longrightarrow> in_order (as @ [a]) (ns @ [n]) = in_order as ns @ replicate n (at_ID a)"
  by (simp add: in_order_def)

text \<open>
  Where the loop over \<open>all\<close> stands with \<open>as\<close> still to come, \<open>c0\<close> having been contacted before.
\<close>

definition progress :: "nat \<Rightarrow> serverAttempt list \<Rightarrow> string list \<Rightarrow> serverAttempt list \<Rightarrow> loop \<Rightarrow> bool" where
  "progress lim' all c0 as L \<longleftrightarrow>
     (\<exists>tried ns. all = tried @ as \<and> length ns = length tried \<and> (\<forall>n \<in> set ns. n \<le> lim') \<and>
        contacted L = c0 @ in_order tried ns \<and> (as = [] \<and> all \<noteq> [] \<longrightarrow> 1 \<le> last ns))"

lemma progress_start: "progress b as (contacted L) as L"
  by (auto simp: progress_def in_order_def)

lemma progress_step:
  assumes "progress b all c0 (a # as) L" "contacted L' = contacted L @ replicate n (at_ID a)"
    and "n \<le> b" "as = [] \<Longrightarrow> 1 \<le> n"
  shows "progress b all c0 as L'"
proof -
  obtain tried ns where p: "all = tried @ a # as" "length ns = length tried" "\<forall>n \<in> set ns. n \<le> b"
      "contacted L = c0 @ in_order tried ns"
    using assms(1) by (auto simp: progress_def)
  have "all = (tried @ [a]) @ as \<and> length (ns @ [n]) = length (tried @ [a]) \<and> (\<forall>m \<in> set (ns @ [n]). m \<le> b) \<and>
      contacted L' = c0 @ in_order (tried @ [a]) (ns @ [n]) \<and> (as = [] \<and> all \<noteq> [] \<longrightarrow> 1 \<le> last (ns @ [n]))"
    using p assms(2-4) by simp
  then show ?thesis unfolding progress_def by blast
qed

lemma progress_end:
  assumes "progress b all c0 as L"
  shows "\<exists>ns. length ns = length all \<and> (\<forall>n \<in> set ns. n \<le> b) \<and> contacted L = c0 @ in_order all ns \<and>
              (as = [] \<and> all \<noteq> [] \<longrightarrow> 1 \<le> last ns)"
proof -
  obtain tried ns where p: "all = tried @ as" "length ns = length tried" "\<forall>n \<in> set ns. n \<le> b"
      "contacted L = c0 @ in_order tried ns" "as = [] \<and> all \<noteq> [] \<longrightarrow> 1 \<le> last ns"
    using assms by (auto simp: progress_def)
  let ?ns = "ns @ replicate (length as) 0"
  have "in_order as (replicate (length as) 0) = []" by (induction as) (simp_all add: in_order_def)
  then have "in_order all ?ns = in_order tried ns" using p by (simp add: in_order_def)
  then have "length ?ns = length all \<and> (\<forall>n \<in> set ?ns. n \<le> b) \<and> contacted L = c0 @ in_order all ?ns \<and>
              (as = [] \<and> all \<noteq> [] \<longrightarrow> 1 \<le> last ?ns)"
    using p by auto
  then show ?thesis by blast
qed

lemma progress_frame [simp]:
  "progress b all c0 as (L\<lparr>lp_router := r\<rparr>) = progress b all c0 as L"
  "progress b all c0 as (L\<lparr>lp_errors := es\<rparr>) = progress b all c0 as L"
  by (simp_all add: progress_def)

lemma progress_skip: "progress b all c0 (a # as) L \<Longrightarrow> as \<noteq> [] \<Longrightarrow> lp_log L' = lp_log L \<Longrightarrow> progress b all c0 as L'"
  by (rule progress_step [where n = 0]) simp_all

lemma gate_final: "gate now True body a r = (r1, skip) \<Longrightarrow> \<not> skip"
  by (auto simp: gate_def Let_def split: option.splits prod.splits)

definition tally :: "nat \<Rightarrow> serverAttempt list \<Rightarrow> string list \<Rightarrow> loop \<times> loop_end \<Rightarrow> bool" where
  "tally b all c0 run \<longleftrightarrow>
     (\<exists>ns. length ns = length all \<and> (\<forall>n \<in> set ns. n \<le> b) \<and> contacted (fst run) = c0 @ in_order all ns \<and>
           (snd run = Exhausted \<and> all \<noteq> [] \<longrightarrow> 1 \<le> last ns))"

lemma tally_errors [simp]: "tally b all c0 (L\<lparr>lp_errors := es\<rparr>, e) = tally b all c0 (L, e)"
  by (simp add: tally_def)

lemma tallyI: "progress b all c0 as L \<Longrightarrow> e \<noteq> Exhausted \<or> as = [] \<Longrightarrow> tally b all c0 (L, e)"
  using progress_end [of b all c0 as L] by (auto simp: tally_def)

lemma attempt_of_simps [simp]:
  "ap_server (attempt_of cx i a plan body strip dropped res es) = at_ID a"
  "ap_reserved (attempt_of cx i a plan body strip dropped res es) = res"
  "ap_numRetries (attempt_of cx i a plan body strip dropped res es) = fst (retry_budget cx)"
  "rh_ServerID (sn_rh (ap_request (attempt_of cx i a plan body strip dropped res es))) = at_ID a"
  by (simp_all add: attempt_of_def attempt_request_def Let_def)

lemma attempt_loop_contacts: "tally (round_limit cx) all (contacted L) (attempt_loop env cx i all L)"
proof (rule attempt_loop_rule [where cx = cx and env = env and Q = "tally (round_limit cx) all (contacted L)"
      and I = "\<lambda>i as L'. progress (round_limit cx) all (contacted L) as L'"
      and K = "\<lambda>i a as L'. progress (round_limit cx) all (contacted L) (a # as) L'"])
  fix i a as and L1 :: loop and now plan body strip dropped r2 res ok and L4 :: loop and x
  let ?ap = "attempt_of cx i a plan body strip dropped res (lp_errors L1)" and ?L = "L1\<lparr>lp_router := take_slot (at_ID a) r2\<rparr>"
  assume K: "progress (round_limit cx) all (contacted L) (a # as) L1"
    and rl: "retry_loop env cx ?ap 0 ?L = (L4, x)"
  have "rh_ServerID (sn_rh (ap_request ?ap)) = at_ID a" by simp
  from retry_loop_contacts [OF this, of env cx ?L]
  obtain k where "1 \<le> k" "k \<le> round_limit cx" "contacted L4 = contacted L1 @ replicate k (at_ID a)"
    by (auto simp: rl)
  then have "progress (round_limit cx) all (contacted L) as L4" using progress_step [OF K] by blast
  then show "case x of Some resp \<Rightarrow> tally (round_limit cx) all (contacted L) (L4, Answered resp)
             | None \<Rightarrow> progress (round_limit cx) all (contacted L) as L4"
    by (simp add: tallyI split: option.split)
next
  fix i a as and L1 :: loop and now r1
  assume I: "progress (round_limit cx) all (contacted L) (a # as) L1"
    and g: "gate now (as = []) (rq_body (cx_rq cx)) a (lp_router L1) = (r1, True)"
  have "as \<noteq> []" using gate_final [of now "rq_body (cx_rq cx)" a "lp_router L1" r1 True] g by (cases "as = []") simp_all
  then show "progress (round_limit cx) all (contacted L) as (L1\<lparr>lp_router := r1\<rparr>)" using progress_skip [OF I] by simp
qed (auto intro: tallyI progress_start elim: progress_skip )

text \<open>
  C3: Failover goes through the attempt list in order and never back: the calls a request
  makes are a block of calls to the first attempt, then a block to the second, and so on, a
  block being empty when the attempt was gated out and never longer than one call plus the
  retry budget (the client's \<open>X-Router-Retries\<close>, capped at 100, or the rule's, or 10). When
  the list is exhausted the last attempt has been called: the router never gives up without
  trying the final backend, whatever the gates say about it.
\<close>

theorem failover_in_order:
  assumes "run_attempts env cx attempts r = (L, e)" "attempts \<noteq> []"
  shows "\<exists>ns. length ns = length attempts \<and> (\<forall>n \<in> set ns. n \<le> Suc (nat (fst (retry_budget cx)))) \<and>
              map (\<lambda>c. rh_ServerID (sn_rh c)) (lp_log L) =
                concat (map2 (\<lambda>a n. replicate n (srv_ID (at_server a))) attempts ns) \<and>
              (e = Exhausted \<longrightarrow> 1 \<le> last ns)"
proof -
  obtain L0 where "lp_log L0 = []"
    "(L, e) = (L0, Answered Panicked) \<or> (L, e) = attempt_loop env cx 0 attempts L0"
    using run_attempts_cases assms(1) by metis
  then consider "lp_log L = []" "e = Answered Panicked" | "attempt_loop env cx 0 attempts L0 = (L, e)" "lp_log L0 = []"
    by auto
  then show ?thesis
  proof cases
    case 1
    have "concat (map2 (\<lambda>a n. replicate n (f a)) as (replicate (length as) 0)) = []" for f as
      by (induction as) simp_all
    with 1 show ?thesis by (intro exI [of _ "replicate (length attempts) 0"]) simp
  next
    case 2
    then show ?thesis
      using attempt_loop_contacts [of cx attempts L0 env 0] assms(2) by (simp add: tally_def in_order_def)
  qed
qed

subsection \<open>Whose state a request changes\<close>

text \<open>What routing knows of a server: its health and its place in the limiter.\<close>

definition standing :: "router \<Rightarrow> string \<Rightarrow> bool option option \<times> (failEntry list option \<times> gotime option) option" where
  "standing r j = (map_option (\<lambda>t. ht_status t j) (rt_health r),
                   map_option (\<lambda>l. (rl_failures l j, rl_cooldown l j)) (rt_rateLimit r))"

lemma standing_other [frame]:
  assumes "j \<noteq> i"
  shows "standing (mark_healthy i r) j = standing r j" "standing (mark_unhealthy i r) j = standing r j"
    "standing (limiter_failure now i st hs r) j = standing r j" "standing (limiter_success i r) j = standing r j"
  using assms
  by (cases "rt_health r"; cases "rt_rateLimit r";
      simp add: standing_def bookkeeping_defs MarkHealthy_def MarkUnhealthy_def RecordFailure_def RecordSuccess_def Let_def)+

lemma standing_same [frame]:
  "standing (releaseQuota now i res used r) j = standing r j"
  "standing (quota_request now i r) j = standing r j" "standing (r\<lparr>rt_pins := ps\<rparr>) j = standing r j"
  "standing (record_request cx now t s pm st eb fb n c r) j = standing r j"
  "standing (take_slot i r) j = standing r j"
  by (simp_all add: standing_def bookkeeping_defs take_slot_def frame)

lemma standing_gate [frame]: "standing (fst (gate now final body a r)) j = standing r j"
  by (simp add: gate_def standing_def Let_def split: option.splits prod.splits)

lemma standing_reserve [frame]: "standing (fst (reserve_tokens now i e r)) j = standing r j"
  by (simp add: reserve_tokens_def standing_def split: option.splits prod.splits)

lemma retry_loop_standing:
  assumes "j \<noteq> ap_server ap"
  shows "standing (lp_router (fst (retry_loop env cx ap 0 L))) j = standing (lp_router L) j"
proof (rule retry_loop_rule [where ap = ap and Q = "\<lambda>x. standing (lp_router (fst x)) j = standing (lp_router L) j"
      and I = "\<lambda>n L'. standing (lp_router L') j = standing (lp_router L) j"
      and J = "\<lambda>n L'. standing (lp_router L') j = standing (lp_router L) j"])
qed (use assms in \<open>auto simp: exit_defs Let_def frame split: sent.splits option.splits\<close>)

definition untouched :: "router \<Rightarrow> loop \<Rightarrow> bool" where
  "untouched r L \<longleftrightarrow> (\<forall>j. j \<notin> set (contacted L) \<longrightarrow> standing (lp_router L) j = standing r j)"

lemma untouched_frame [simp]: "untouched r (L\<lparr>lp_errors := es\<rparr>) = untouched r L"
  by (simp add: untouched_def)

lemma untouchedI: "untouched r L \<Longrightarrow> (\<And>j. standing r1 j = standing (lp_router L) j) \<Longrightarrow> untouched r (L\<lparr>lp_router := r1\<rparr>)"
  by (simp add: untouched_def)

lemma attempt_loop_untouched:
  assumes "untouched r L"
  shows "untouched r (fst (attempt_loop env cx i all L))"
proof (rule attempt_loop_rule [where cx = cx and env = env and Q = "\<lambda>x. untouched r (fst x)"
      and I = "\<lambda>i as L'. untouched r L'" and K = "\<lambda>i a as L'. untouched r L'"])
  fix i a as and L1 :: loop and now plan body strip dropped r2 res ok and L4 :: loop and x
  let ?ap = "attempt_of cx i a plan body strip dropped res (lp_errors L1)" and ?L = "L1\<lparr>lp_router := take_slot (at_ID a) r2\<rparr>"
  assume K: "untouched r L1" and rl: "retry_loop env cx ?ap 0 ?L = (L4, x)"
    and rs: "reserve_tokens now (at_ID a) (DeclaredOutputBudget body) (lp_router L1) = (r2, res, ok)"
  have r2: "standing r2 j = standing (lp_router L1) j" for j
    using standing_reserve [of now "at_ID a" "DeclaredOutputBudget body" "lp_router L1" j] rs by simp
  obtain k where "1 \<le> k" "contacted L4 = contacted L1 @ replicate k (at_ID a)"
    using retry_loop_contacts [of ?ap "at_ID a" env cx ?L] by (auto simp: rl)
  then have "set (contacted L4) = insert (at_ID a) (set (contacted L1))" by auto
  moreover have "standing (lp_router L4) j = standing (lp_router L1) j" if "j \<noteq> at_ID a" for j
    using retry_loop_standing [of j ?ap env cx ?L] that by (simp add: rl r2 frame)
  ultimately have "untouched r L4" using K by (simp add: untouched_def)
  then show "case x of Some resp \<Rightarrow> untouched r (fst (L4, Answered resp)) | None \<Rightarrow> untouched r L4"
    by (simp split: option.split)
next
  show "untouched r L' \<Longrightarrow> gate now (as = []) (rq_body (cx_rq cx)) a (lp_router L') = (r1, b) \<Longrightarrow>
      untouched r (L'\<lparr>lp_router := r1\<rparr>)" for L' as now a r1 b
    using standing_gate [of now "as = []" "rq_body (cx_rq cx)" a "lp_router L'"] by (simp add: untouchedI)
  then show "untouched r L' \<Longrightarrow> gate now (as = []) (rq_body (cx_rq cx)) a (lp_router L') = (r1, False) \<Longrightarrow>
      untouched r (L'\<lparr>lp_router := r1\<rparr>)" for L' as now a r1 .
next
  show "untouched r L' \<Longrightarrow> reserve_tokens now (at_ID a) e (lp_router L') = (r2, res, False) \<Longrightarrow>
      untouched r (L'\<lparr>lp_router := r2\<rparr>)" for L' now a e r2 res
    using standing_reserve [of now "at_ID a" e "lp_router L'"] by (simp add: untouchedI)
qed (use assms in simp_all)

lemma standing_conclude: "standing (fst (conclude env cx first run)) j = standing (lp_router (fst run)) j"
  by (cases run) (simp add: conclude_def serveLastAnswer_def Let_def frame split: loop_end.splits option.splits)

text \<open>
  C14: A request passes judgement only on servers it called. The health flag, the failure
  history and the cooldown of every other server, including attempts that a gate skipped and
  backends of other rules, are after the request what they were before.
\<close>

theorem only_contacted_are_judged:
  assumes "run_attempts env cx attempts r = (L, e)" "j \<notin> set (map (\<lambda>c. rh_ServerID (sn_rh c)) (lp_log L))"
  shows "standing (fst (conclude env cx (hd attempts) (L, e))) j = standing r j"
proof -
  obtain L0 where L0: "lp_router L0 = fst (start_capture env (cx_rq cx) (cx_model cx) (at_ID (hd attempts)) r)"
    "(L, e) = (L0, Answered Panicked) \<or> (L, e) = attempt_loop env cx 0 attempts L0"
    using run_attempts_cases assms(1) by metis
  then have "standing (lp_router L0) j = standing r j" for j
    by (auto simp: start_capture_def standing_def split: option.splits prod.splits)
  then have "untouched r L"
    using L0(2) attempt_loop_untouched [of r L0 env cx 0 attempts]
    by (auto simp: untouched_def dest!: arg_cong [of _ _ fst])
  then show ?thesis using assms(2) by (simp add: standing_conclude untouched_def)
qed

subsection \<open>What a request leaves in the metrics\<close>

definition logged :: "string \<Rightarrow> metrics_store \<Rightarrow> metrics_store \<Rightarrow> string \<Rightarrow> int \<Rightarrow> bool" where
  "logged model ms ms' server status \<longleftrightarrow>
     (\<exists>m. ms' = metrics_Add m ms \<and> rm_Model m = model \<and> rm_ServerID m = server \<and> rm_StatusCode m = status)"

definition answer_logged :: "string \<Rightarrow> metrics_store \<Rightarrow> metrics_store \<Rightarrow> response \<Rightarrow> bool" where
  "answer_logged model ms ms' resp = (case resp of
     Relayed s st \<Rightarrow> logged model ms ms' s st
   | Verbatim s st _ _ \<Rightarrow> logged model ms ms' s st
   | LocalAnswer _ \<Rightarrow> (\<exists>m. logged m ms ms' localAnswerServer 200)
   | HTTPError st _ \<Rightarrow>
       if st = 502 then \<exists>s. logged model ms ms' s 502
       else if st = 400 then ms' = ms \<or> (\<exists>s. logged model ms ms' s 400)
       else ms' = ms
   | NoAnswer \<Rightarrow> ms' = ms \<or> (\<exists>s. logged model ms ms' s 499)
   | ModelList _ \<Rightarrow> ms' = ms
   | Panicked \<Rightarrow> ms' = ms)"

lemma answer_logged_simps [simp]:
  "answer_logged model ms ms' (Relayed s st) = logged model ms ms' s st"
  "answer_logged model ms ms' (Verbatim s st h b) = logged model ms ms' s st"
  "answer_logged model ms ms' (LocalAnswer b) = (\<exists>m. logged m ms ms' localAnswerServer 200)"
  "answer_logged model ms ms' (HTTPError st b) =
     (if st = 502 then \<exists>s. logged model ms ms' s 502
      else if st = 400 then ms' = ms \<or> (\<exists>s. logged model ms ms' s 400) else ms' = ms)"
  "answer_logged model ms ms' NoAnswer = (ms' = ms \<or> (\<exists>s. logged model ms ms' s 499))"
  "answer_logged model ms ms' (ModelList ls) = (ms' = ms)"
  "answer_logged model ms ms' Panicked = (ms' = ms)"
  by (simp_all add: answer_logged_def)

lemma metrics_frame [frame]:
  "rt_metrics (mark_healthy i r) = rt_metrics r" "rt_metrics (mark_unhealthy i r) = rt_metrics r"
  "rt_metrics (limiter_failure now i st hs r) = rt_metrics r" "rt_metrics (limiter_success i r) = rt_metrics r"
  "rt_metrics (quota_request now i r) = rt_metrics r" "rt_metrics (releaseQuota now i res used r) = rt_metrics r"
  "rt_metrics (take_slot i r) = rt_metrics r" "rt_metrics (fst (gate now final body a r)) = rt_metrics r"
  "rt_metrics (fst (reserve_tokens now i e r)) = rt_metrics r" "rt_metrics (fst (start_capture env rq mo s r)) = rt_metrics r"
  "rt_metrics (fst (static_attempts env rq rule primary r)) = rt_metrics r"
  by (simp_all add: bookkeeping_defs take_slot_def gate_def reserve_tokens_def start_capture_def static_attempts_def
      Let_def split: option.splits prod.splits)

lemma logged_record_request [frame]:
  "rt_metrics r = ms \<Longrightarrow> logged (cx_model cx) ms (rt_metrics (record_request cx now t s pm st eb fb n c r)) s st"
  by (auto simp: logged_def record_request_metrics intro!: exI)

definition loop_logged :: "string \<Rightarrow> metrics_store \<Rightarrow> loop \<times> loop_end \<Rightarrow> bool" where
  "loop_logged model ms run = (case snd run of
     Answered resp \<Rightarrow> answer_logged model ms (rt_metrics (lp_router (fst run))) resp
   | _ \<Rightarrow> rt_metrics (lp_router (fst run)) = ms)"

lemma retry_loop_logs:
  assumes "rt_metrics (lp_router L) = ms"
  shows "loop_logged (cx_model cx) ms
           (map_prod id (\<lambda>x. case x of Some resp \<Rightarrow> Answered resp | None \<Rightarrow> Exhausted) (retry_loop env cx ap 0 L))"
proof (rule retry_loop_rule [where ap = ap
      and Q = "\<lambda>x. loop_logged (cx_model cx) ms
           (map_prod id (\<lambda>x. case x of Some resp \<Rightarrow> Answered resp | None \<Rightarrow> Exhausted) x)"
      and I = "\<lambda>n L'. rt_metrics (lp_router L') = ms" and J = "\<lambda>n L'. rt_metrics (lp_router L') = ms"])
qed (use assms in \<open>auto simp: exit_defs Let_def frame loop_logged_def answer_logged_def
      intro!: logged_record_request exI split: sent.splits option.splits\<close>)

lemma attempt_loop_logs:
  assumes "rt_metrics (lp_router L) = ms"
  shows "loop_logged (cx_model cx) ms (attempt_loop env cx i all L)"
proof (rule attempt_loop_rule [where cx = cx and env = env and Q = "loop_logged (cx_model cx) ms"
      and I = "\<lambda>i as L'. rt_metrics (lp_router L') = ms" and K = "\<lambda>i a as L'. rt_metrics (lp_router L') = ms"])
  fix i a as and L1 :: loop and now plan body strip dropped r2 res ok and L4 :: loop and x
  let ?ap = "attempt_of cx i a plan body strip dropped res (lp_errors L1)" and ?L = "L1\<lparr>lp_router := take_slot (at_ID a) r2\<rparr>"
  assume K: "rt_metrics (lp_router L1) = ms" and rl: "retry_loop env cx ?ap 0 ?L = (L4, x)"
    and rs: "reserve_tokens now (at_ID a) (DeclaredOutputBudget body) (lp_router L1) = (r2, res, ok)"
  have "rt_metrics r2 = ms"
    using metrics_frame(9) [of now "at_ID a" "DeclaredOutputBudget body" "lp_router L1"] rs K by simp
  then have "loop_logged (cx_model cx) ms (L4, case x of Some resp \<Rightarrow> Answered resp | None \<Rightarrow> Exhausted)"
    using retry_loop_logs [of ?L ms cx env ?ap] by (simp add: rl frame)
  then show "case x of Some resp \<Rightarrow> loop_logged (cx_model cx) ms (L4, Answered resp) | None \<Rightarrow> rt_metrics (lp_router L4) = ms"
    by (simp add: loop_logged_def split: option.splits)
next
  show "rt_metrics (lp_router L') = ms \<Longrightarrow> gate now (as = []) (rq_body (cx_rq cx)) a (lp_router L') = (r1, b) \<Longrightarrow>
      rt_metrics (lp_router (L'\<lparr>lp_router := r1\<rparr>)) = ms" for L' as now a r1 b
    using metrics_frame(8) [of now "as = []" "rq_body (cx_rq cx)" a "lp_router L'"] by simp
  then show "rt_metrics (lp_router L') = ms \<Longrightarrow> gate now (as = []) (rq_body (cx_rq cx)) a (lp_router L') = (r1, False) \<Longrightarrow>
      rt_metrics (lp_router (L'\<lparr>lp_router := r1\<rparr>)) = ms" for L' as now a r1 .
next
  show "rt_metrics (lp_router L') = ms \<Longrightarrow> reserve_tokens now (at_ID a) e (lp_router L') = (r2, res, False) \<Longrightarrow>
      rt_metrics (lp_router (L'\<lparr>lp_router := r2\<rparr>)) = ms" for L' now a e r2 res
    using metrics_frame(9) [of now "at_ID a" e "lp_router L'"] by simp
qed (use assms in \<open>simp_all add: loop_logged_def answer_logged_def\<close>)

lemma conclude_logs:
  assumes "loop_logged (cx_model cx) ms run"
  shows "answer_logged (cx_model cx) ms (rt_metrics (fst (conclude env cx first run))) (snd (conclude env cx first run))"
proof -
  obtain L e where run: "run = (L, e)" by fastforce
  show ?thesis
    using assms unfolding run
    by (cases e)
      (auto simp: conclude_def serveLastAnswer_def Let_def loop_logged_def intro!: logged_record_request exI
        split: option.splits)
qed

lemma run_attempts_logs: "loop_logged (cx_model cx) (rt_metrics r) (run_attempts env cx attempts r)"
proof (rule run_attempts_cases [of env cx attempts r])
  fix L assume "lp_router L = fst (start_capture env (cx_rq cx) (cx_model cx) (at_ID (hd attempts)) r)"
    and run: "run_attempts env cx attempts r = (L, Answered Panicked) \<or>
      run_attempts env cx attempts r = attempt_loop env cx 0 attempts L"
  then have "rt_metrics (lp_router L) = rt_metrics r" by (simp add: metrics_frame)
  then have "loop_logged (cx_model cx) (rt_metrics r) (attempt_loop env cx 0 attempts L)"
    "loop_logged (cx_model cx) (rt_metrics r) (L, Answered Panicked)"
    by (simp_all add: attempt_loop_logs) (simp add: loop_logged_def)
  with run show ?thesis by metis
qed

lemma concluded_run_logs:
  assumes "cx_model cx = model" "rt_metrics r = ms"
  shows "answer_logged model ms (rt_metrics (fst (conclude env cx first (run_attempts env cx attempts r))))
           (snd (conclude env cx first (run_attempts env cx attempts r)))"
  unfolding assms [symmetric] by (intro conclude_logs run_attempts_logs)

lemma route_logs:
  "answer_logged model (rt_metrics r) (rt_metrics (fst (route env rq model r))) (snd (route env rq model r))"
proof -
  have rec: "logged model ms (rt_metrics (record_request cx now t s pm st eb fb n c r1)) s st"
    if "cx_model cx = model" "rt_metrics r1 = ms" for cx now t s pm st eb fb n c r1 ms
    using logged_record_request [OF that(2)] that(1) by metis
  show ?thesis
    by (auto simp: route_def Let_def split_beta frame intro!: concluded_run_logs rec exI split: option.splits bool.splits)
qed

lemma metrics_Add_commutes:
  "metrics_Add m (s\<lparr>ms_activeRequests := n\<rparr>) = (metrics_Add m s)\<lparr>ms_activeRequests := n\<rparr>"
proof -
  have up: "updateSummary key m' (s'\<lparr>ms_activeRequests := n\<rparr>) = (updateSummary key m' s')\<lparr>ms_activeRequests := n\<rparr>" for key m' s'
    by (cases s') (simp add: updateSummary_def Let_def)
  have "fold (\<lambda>key. updateSummary key m') ks (s'\<lparr>ms_activeRequests := n\<rparr>) =
        (fold (\<lambda>key. updateSummary key m') ks s')\<lparr>ms_activeRequests := n\<rparr>" for ks m' s'
    by (induction ks arbitrary: s') (simp_all add: up)
  note this [symmetric]
  then show ?thesis
    unfolding metrics_Add_def Let_def by (simp only:) (rule arg_cong [where f = "fold _ _"], cases s, simp)
qed

text \<open>
  C15: What the metrics say about a request is what happened to it. An answer relayed from a
  backend, or replayed from the last failed one, adds exactly one record, under the requested
  model, that backend and that status; a token count answered locally adds one under the
  pseudo-server \<open>router\<close>; running out of backends adds one with status 502. A client that
  left is recorded once with 499 or not at all, a 400 is recorded once or not at all, and
  every other refusal, and a panic while classifying, redacting or rewriting the body, records
  nothing.
\<close>

theorem Handle_records:
  "answer_logged (case request_model rq of Inr m \<Rightarrow> m | Inl _ \<Rightarrow> [])
     (rt_metrics r) (rt_metrics (fst (Handle env rq r))) (snd (Handle env rq r))"
proof -
  let ?r = "r\<lparr>rt_metrics := IncrActive (rt_metrics r)\<rparr>"
  have un: "DecrActive (IncrActive ms) = ms" "DecrActive (metrics_Add m (IncrActive ms)) = metrics_Add m ms" for m ms
    by (simp_all add: IncrActive_def DecrActive_def metrics_Add_commutes frame)
  have "answer_logged m (rt_metrics r) (DecrActive (rt_metrics r1)) resp"
    if "route env rq m ?r = (r1, resp)" for m r1 resp
    using route_logs [of m ?r env rq] that
    by (cases resp) (auto simp: logged_def un split: if_splits)
  moreover have "logged m (rt_metrics r) (rt_metrics (add_record (request_metric rq t0 t m [] s pm st fb) eb j n c r)) s st"
    for t0 t m s pm st fb eb j n c
    by (auto simp: logged_def frame intro!: exI)
  ultimately show ?thesis
    by (auto simp: Handle_def Let_def intro!: exI split: sum.splits prod.splits)
qed

subsection \<open>A concrete run\<close>

definition example_env :: env where
  "example_env =
     \<lparr>ev_clock = int, ev_send = (\<lambda>_ _. \<lparr>ex_sent = Failed None False ''reset'', ex_gone = False, ex_tap = []\<rparr>),
      ev_left = (\<lambda>_. False),
      ev_jev = \<lparr>je_now = 0, je_ms = 0, je_sha256 = id, je_net = (\<lambda>_. None), je_ask = (\<lambda>_. None)\<rparr>,
      ev_fnum = id, ev_jerr = id, ev_trace = plain_env, ev_entropy = None\<rparr>"

definition example_router :: router where
  "example_router =
     \<lparr>rt_config = example_config, rt_metrics = metrics_New 10, rt_health = None,
      rt_rateLimit = Some (NewRateLimiter 3 Minute Minute), rt_quota = Some ledger_example, rt_trace = None,
      rt_rotation = \<lparr>rot_rotations = [], rot_rotationKeys = 0\<rparr>, rt_inflight = (\<lambda>_. 0), rt_pins = [],
      rt_jev = \<lparr>js_caps = NewCapabilitiesCache, js_cache = [], js_sticky = []\<rparr>\<rparr>"

definition example_request :: request where
  "example_request =
     \<lparr>rq_method = ''POST'', rq_path = ''/v1/chat/completions'', rq_queryModel = [],
      rq_headers = [(''X-Router-Retries'', ''1'')], rq_contentType = [], rq_body = ''{}''\<rparr>"

definition example_cx :: reqctx where
  "example_cx =
     \<lparr>cx_rq = example_request, cx_model = ''m'', cx_rule = example_rule, cx_start = 0, cx_jev = None, cx_pinKey = [],
      cx_total = 2, cx_trace = plain_env\<rparr>"

abbreviation example_run :: "loop \<times> loop_end" where
  "example_run \<equiv> run_attempts example_env example_cx [example_attempt ''a'', example_attempt ''b''] example_router"

lemma run_attempts_within: "set (contacted (fst (run_attempts env cx attempts r))) \<subseteq> at_ID ` set attempts"
proof -
  obtain L0 where L0: "lp_log L0 = []" "run_attempts env cx attempts r = (L0, Answered Panicked) \<or>
      run_attempts env cx attempts r = attempt_loop env cx 0 attempts L0"
    by (rule run_attempts_cases)
  obtain ns where "contacted (fst (attempt_loop env cx 0 attempts L0)) = in_order attempts ns"
    using attempt_loop_contacts [of cx attempts L0 env 0] L0 by (auto simp: tally_def)
  then have "set (contacted (fst (attempt_loop env cx 0 attempts L0))) \<subseteq> at_ID ` set attempts"
    by (auto simp: in_order_def dest!: set_zip_leftD split: if_splits)
  with L0 show ?thesis by auto
qed

theorem Handle_gives_back_witness:
  "q_reserved ledger_example ''a'' = 60 \<and>
   rt_inflight (fst (Handle example_env example_request example_router)) ''a'' = 0 \<and>
   (\<exists>q. rt_quota (fst (Handle example_env example_request example_router)) = Some q \<and> q_reserved q ''a'' = 60)"
proof -
  have lims: "limitsFor ledger_example i = (100, 0)" and res: "q_reserved ledger_example = (\<lambda>_. 0)(''a'' := 60)" for i
    by (simp_all add: ledger_example_def Reserve_def Let_def SetLimitOverride_def NewQuotaTracker_def limitsFor_def
        wrap64_def)
  have "\<forall>q. rt_quota example_router = Some q \<longrightarrow> (\<forall>i. 0 \<le> q_reserved q i \<and> q_reserved q i < 2 ^ 63 \<and>
             (fst (limitsFor q i) \<le> 0 \<longrightarrow> q_reserved q i = 0))"
    by (simp add: example_router_def lims res)
  note gb = Handle_gives_back [OF this, of example_env example_request]
  show ?thesis using gb by (auto simp: example_router_def res map_option_eq_Some)
qed

theorem failover_in_order_witness:
  "\<exists>n k. n \<le> 2 \<and> k \<le> 2 \<and> contacted (fst example_run) = replicate n ''a'' @ replicate k ''b''"
proof -
  have "clientRetries (header_get (rq_headers example_request) ''X-Router-Retries'') = Some 1" by code_simp
  then have b: "fst (retry_budget example_cx) = 1" by (simp add: retry_budget_def example_cx_def Let_def)
  obtain ns where "length ns = 2" "\<forall>n \<in> set ns. n \<le> 2"
      "contacted (fst example_run) = concat (map2 (\<lambda>a n. replicate n (at_ID a)) [example_attempt ''a'', example_attempt ''b''] ns)"
    using failover_in_order [of example_env example_cx "[example_attempt ''a'', example_attempt ''b'']" example_router
        "fst example_run" "snd example_run"] by (auto simp: b numeral_2_eq_2)
  moreover from this(1) obtain n k where "ns = [n, k]" by (auto simp: numeral_2_eq_2 length_Suc_conv)
  ultimately show ?thesis by (auto simp: example_attempt_def)
qed

theorem only_contacted_are_judged_witness:
  "standing (fst (conclude example_env example_cx (example_attempt ''a'') example_run)) ''c'' = (None, Some (None, None))"
proof -
  have "''c'' \<notin> set (contacted (fst example_run))"
    using run_attempts_within [of example_env example_cx "[example_attempt ''a'', example_attempt ''b'']" example_router]
    by (auto simp: example_attempt_def)
  moreover have "standing example_router ''c'' = (None, Some (None, None))"
    by (simp add: standing_def example_router_def NewRateLimiter_def)
  ultimately show ?thesis
    using only_contacted_are_judged [of example_env example_cx "[example_attempt ''a'', example_attempt ''b'']" example_router
        "fst example_run" "snd example_run" "''c''"]
    by simp
qed

subsection \<open>A body that stops a request\<close>

lemma open_stream_value_kills_request:
  assumes "rq_method rq = ''POST''" "rq_body rq = ''{'' @ quoted ''stream'' @ '':'' @ [quote]"
  shows "Handle env rq r = (r, Panicked)"
proof -
  have "Classify (rq_path rq) (rq_contentType rq) (rq_body rq) = None"
    unfolding assms(2) by (rule open_stream_value_panics)
  moreover have "\<not> length (rq_body rq) > max_body" by (simp add: assms(2) quoted_def max_body_def)
  ultimately show ?thesis using assms(1) by (simp add: Handle_def)
qed

end
