(* ===== verification/AdminApi.thy ===== *)
theory AdminApi
  imports Admin ConfigFile Prometheus RouterProps
begin

text \<open>
  The admin API as a whole: \<open>ServeHTTP\<close> of \<open>src/admin/handler.go\<close> with the handlers that
  read, probe, reload, reset and trace, and the conversion preview of
  \<open>src/admin/convert_preview.go\<close>. The handler works on the same state as the router. What is
  outside is a field of \<open>admin_env\<close>: how \<open>encoding/json\<close> decodes a request body into each
  struct (\<open>None\<close> for one that does not decode), the outcome of writing and reading the
  configuration file, the backend that is probed, the clock, and the parameters of the
  conversion. An answer is its status and the value it encodes; audit log lines are left out.
\<close>

record admin_request =
  ar_method :: string
  ar_path :: string
  ar_profile :: string
  ar_id :: string
  ar_body :: string

record admin_env =
  ae_now :: gotime
  ae_server :: "string \<Rightarrow> Server option"
  ae_rule :: "string \<Rightarrow> RoutingRule option"
  ae_profile :: "string \<Rightarrow> (string \<times> bool) option"
  ae_name :: "string \<Rightarrow> string option"
  ae_trace :: "string \<Rightarrow> (bool \<times> int \<times> string list \<times> string list) option"
  ae_preview :: "string \<Rightarrow> bool \<Rightarrow> string + (string \<times> string \<times> string)"
  ae_save :: save_outcome
  ae_file :: "string + Config option"
  ae_newRequest :: "string \<Rightarrow> string option"
  ae_transport :: "string \<Rightarrow> string option"
  ae_fetch :: "ProbeRequest \<Rightarrow> string + ProbeAnswer"
  ae_listing :: "string \<Rightarrow> string + (string \<times> string) list"
  ae_elapsed :: duration
  ae_sha256 :: "string \<Rightarrow> string"
  ae_jerr :: "string \<Rightarrow> string"
  ae_fnum :: "string \<Rightarrow> string"

record serverResponse =
  sr_Server :: Server
  sr_Healthy :: bool
  sr_CooldownSeconds :: int
  sr_CooldownReason :: string

record preview =
  pv_from :: Dialect
  pv_plan :: Plan
  pv_convert :: string
  pv_request :: "conv_error + string"
  pv_notes :: "string list"

datatype admin_answer =
    AError int string
  | AWritten int
  | AServers "serverResponse list"
  | AModels "(string \<times> bool) list"
  | ATestFailed string
  | ATested bool int int string
  | ARules "RoutingRule list"
  | AProfiles "RuleProfile list" string
  | AConfig Config
  | AMetrics "string \<rightharpoonup> Summary" int "int option"
  | ARecent "RequestMetric list"
  | AEntry Entry
  | ATrace Window "Entry list"
  | AWindow Window
  | APreview preview
  | ARefused string string
  | APanics

subsection \<open>Servers\<close>

definition listServers :: "gotime \<Rightarrow> router \<Rightarrow> serverResponse list" where
  "listServers now r =
     (let status = (case rt_health r of Some t \<Rightarrow> GetStatus t | None \<Rightarrow> Map.empty) in
      map (\<lambda>(_, srv).
         case (case rt_rateLimit r of Some rl \<Rightarrow> Cooldown rl now (srv_ID srv) | None \<Rightarrow> None) of
           Some (expiry, reason) \<Rightarrow>
             \<lparr>sr_Server = srv, sr_Healthy = (status (srv_ID srv) = Some True),
              sr_CooldownSeconds = round_seconds (expiry - now), sr_CooldownReason = reason\<rparr>
         | None \<Rightarrow>
             \<lparr>sr_Server = srv, sr_Healthy = (status (srv_ID srv) = Some True),
              sr_CooldownSeconds = 0, sr_CooldownReason = []\<rparr>) (cfg_Servers (rt_config r)))"

definition models_request :: "Server \<Rightarrow> ProbeRequest" where
  "models_request srv = \<lparr>pr_url = ModelsURL srv, pr_proxy = ProxyURL srv,
     pr_headers = (if srv_APIKey srv \<noteq> [] then [(''Authorization'', ''Bearer '' @ srv_APIKey srv)] else [])\<rparr>"

definition getServerModels :: "admin_env \<Rightarrow> router \<Rightarrow> string \<Rightarrow> admin_answer" where
  "getServerModels ae r i = (case GetServer (rt_config r) i of
     None \<Rightarrow> AError 404 ''server not found''
   | Some srv \<Rightarrow>
       (case ae_newRequest ae (ModelsURL srv) of
          Some e \<Rightarrow> AError 400 (''invalid server URL: '' @ e)
        | None \<Rightarrow>
            (case ae_transport ae (ProxyURL srv) of
               Some e \<Rightarrow> AError 400 e
             | None \<Rightarrow>
                 (case ae_fetch ae (models_request srv) of
                    Inl e \<Rightarrow> AError 502 (''failed to reach server: '' @ e)
                  | Inr a \<Rightarrow>
                      if pa_status a \<noteq> 200 then AError (pa_status a) (''server returned '' @ Itoa (pa_status a))
                      else case ae_listing ae (pa_body a) of
                        Inl e \<Rightarrow> AError 500 (''failed to parse response: '' @ e)
                      | Inr ms \<Rightarrow> AModels (map (\<lambda>(m, st). (m, st = ''loaded'')) ms)))))"

definition testServer :: "admin_env \<Rightarrow> string \<Rightarrow> admin_answer" where
  "testServer ae body = (case ae_server ae body of
     None \<Rightarrow> AError 400 ''invalid JSON''
   | Some srv \<Rightarrow>
       (case ae_newRequest ae (ModelsURL srv) of
          Some e \<Rightarrow> AError 500 (''failed to create request: '' @ e)
        | None \<Rightarrow>
            (case ae_transport ae (ProxyURL srv) of
               Some e \<Rightarrow> ATestFailed e
             | None \<Rightarrow>
                 (case ae_fetch ae (models_request srv) of
                    Inl e \<Rightarrow> ATestFailed (''connection failed: '' @ e)
                  | Inr a \<Rightarrow> ATested (pa_status a = 200) (pa_status a) (ae_elapsed ae div Millisecond) (take 200 (pa_body a))))))"

subsection \<open>Conversion preview\<close>

definition maxPreviewBodyBytes :: nat where "maxPreviewBodyBytes = 2 ^ 20"

definition convertPreviewFor :: "admin_env \<Rightarrow> Config \<Rightarrow> string \<Rightarrow> string \<Rightarrow> string \<Rightarrow> admin_answer" where
  "convertPreviewFor ae cfg model path body =
     (if model = [] \<or> path = [] then AError 400 ''model and path are required''
      else if body = [] then AError 400 ''body is required''
      else case GetRuleByModel cfg model of
        None \<Rightarrow> AError 404 (''no routing rule for model '' @ model)
      | Some rule \<Rightarrow>
          if IsJev rule then
            ARefused ''jev rules route per candidate; this preview plans the primary attempt only'' ''jev_unsupported''
          else case GetServer cfg (rule_ServerID rule) of
            None \<Rightarrow> AError 404 (''server '' @ rule_ServerID rule @ '' not found'')
          | Some srv \<Rightarrow>
              (let client = DialectForPath path in
               case Decide client path (srv_Protocols srv) (rule_Convert rule) of
                 Inl e \<Rightarrow> ARefused (ce_Msg e) (ce_Code e)
               | Inr plan \<Rightarrow>
                   (case Request (ae_sha256 ae) (ae_jerr ae) (ae_fnum ae) plan body (OptionsFrom (set_Convert (cfg_Settings cfg))) of
                      Inl e \<Rightarrow> APreview \<lparr>pv_from = client, pv_plan = plan, pv_convert = Edge plan, pv_request = Inl e, pv_notes = []\<rparr>
                    | Inr (translated, notes) \<Rightarrow>
                        APreview \<lparr>pv_from = client, pv_plan = plan, pv_convert = Edge plan, pv_request = Inr translated,
                                  pv_notes = notes @ DroppedKeys plan body translated\<rparr>)))"

text \<open>The decoder sees the bytes up to the limit, and an error behind them when there are more.\<close>

definition convertPreview :: "admin_env \<Rightarrow> Config \<Rightarrow> string \<Rightarrow> admin_answer" where
  "convertPreview ae cfg body =
     (case ae_preview ae (take maxPreviewBodyBytes body) (length body > maxPreviewBodyBytes) of
        Inl e \<Rightarrow> AError 400 (''invalid request: '' @ e)
      | Inr (model, path, b) \<Rightarrow> convertPreviewFor ae cfg model path b)"

subsection \<open>Trace\<close>

text \<open>The list a polling client gets: without bodies and texts.\<close>

definition compact_entry :: "Entry \<Rightarrow> Entry" where
  "compact_entry e = e\<lparr>en_Request := [], en_Response := [], en_Digest := (en_Digest e)\<lparr>dg_Text := []\<rparr>\<rparr>"

definition getTrace :: "gotime \<Rightarrow> string \<Rightarrow> trace_store \<Rightarrow> trace_store \<times> admin_answer" where
  "getTrace now i tr =
     (if i \<noteq> [] then
        (tr, case trace_Get i tr of Some e \<Rightarrow> AEntry e | None \<Rightarrow> AError 404 ''trace entry not found'')
      else case trace_Window now tr of (tr', win) \<Rightarrow> (tr', ATrace win (map compact_entry (trace_List tr))))"

definition setTrace :: "gotime \<Rightarrow> (bool \<times> int \<times> string list \<times> string list) option \<Rightarrow> trace_store \<Rightarrow> trace_store \<times> admin_answer" where
  "setTrace now body tr = (case body of
     None \<Rightarrow> (tr, AError 400 ''invalid JSON'')
   | Some (enabled, seconds, models, servers) \<Rightarrow>
       (case trace_Window now (if enabled then trace_Start now seconds models servers tr else trace_Stop tr) of
          (tr', win) \<Rightarrow> (tr', AWindow win)))"

subsection \<open>Dispatch\<close>

datatype admin_route =
    RListServers | RAddServer | RUpdateServer string | RDeleteServer string | RServerModels string | RTestServer
  | RListRules | RAddRule | RUpdateRule string | RDeleteRule string
  | RListProfiles | RAddProfile | RActivateProfile string | RRenameProfile string | RDeleteProfile string
  | RConfig | RReload | RMetrics | RRecent | RResetMetrics | RTrace | RResetTrace | RSetTrace | RPreview | RNotFound

definition admin_route_of :: "string \<Rightarrow> string \<Rightarrow> admin_route" where
  "admin_route_of method url =
     (let path = TrimPrefix url ''/admin/api'' in
      if path = ''/servers'' \<and> method = ''GET'' then RListServers
      else if path = ''/servers'' \<and> method = ''POST'' then RAddServer
      else if HasPrefix path ''/servers/'' \<and> method = ''PUT'' then RUpdateServer (TrimPrefix path ''/servers/'')
      else if HasPrefix path ''/servers/'' \<and> method = ''DELETE'' then RDeleteServer (TrimPrefix path ''/servers/'')
      else if HasPrefix path ''/servers/'' \<and> HasSuffix path ''/models'' \<and> method = ''GET''
        then RServerModels (TrimSuffix (TrimPrefix path ''/servers/'') ''/models'')
      else if path = ''/servers/test'' \<and> method = ''POST'' then RTestServer
      else if path = ''/rules'' \<and> method = ''GET'' then RListRules
      else if path = ''/rules'' \<and> method = ''POST'' then RAddRule
      else if HasPrefix path ''/rules/'' \<and> method = ''PUT'' then RUpdateRule (TrimPrefix path ''/rules/'')
      else if HasPrefix path ''/rules/'' \<and> method = ''DELETE'' then RDeleteRule (TrimPrefix path ''/rules/'')
      else if path = ''/profiles'' \<and> method = ''GET'' then RListProfiles
      else if path = ''/profiles'' \<and> method = ''POST'' then RAddProfile
      else if HasPrefix path ''/profiles/'' \<and> HasSuffix path ''/activate'' \<and> method = ''POST''
        then RActivateProfile (TrimSuffix (TrimPrefix path ''/profiles/'') ''/activate'')
      else if HasPrefix path ''/profiles/'' \<and> method = ''PUT'' then RRenameProfile (TrimPrefix path ''/profiles/'')
      else if HasPrefix path ''/profiles/'' \<and> method = ''DELETE'' then RDeleteProfile (TrimPrefix path ''/profiles/'')
      else if path = ''/config'' \<and> method = ''GET'' then RConfig
      else if path = ''/config/reload'' \<and> method = ''POST'' then RReload
      else if path = ''/metrics'' \<and> method = ''GET'' then RMetrics
      else if path = ''/metrics/recent'' \<and> method = ''GET'' then RRecent
      else if path = ''/metrics/reset'' \<and> method = ''POST'' then RResetMetrics
      else if path = ''/trace'' \<and> method = ''GET'' then RTrace
      else if path = ''/trace/reset'' \<and> method = ''POST'' then RResetTrace
      else if path = ''/trace'' \<and> method = ''POST'' then RSetTrace
      else if path = ''/convert/preview'' \<and> method = ''POST'' then RPreview
      else RNotFound)"

definition written :: "router \<Rightarrow> Config \<times> int \<Rightarrow> router \<times> admin_answer" where
  "written r out = (r\<lparr>rt_config := fst out\<rparr>, AWritten (snd out))"

definition on_trace :: "(trace_store \<Rightarrow> trace_store \<times> admin_answer) \<Rightarrow> router \<Rightarrow> router \<times> admin_answer" where
  "on_trace f r = (case rt_trace r of
     None \<Rightarrow> (r, APanics)
   | Some tr \<Rightarrow> (case f tr of (tr', a) \<Rightarrow> (r\<lparr>rt_trace := Some tr'\<rparr>, a)))"

definition reloadConfig :: "admin_env \<Rightarrow> router \<Rightarrow> router \<times> admin_answer" where
  "reloadConfig ae r = (case Load (rt_config r) (ae_file ae) of
     (cfg, Some e) \<Rightarrow> (r\<lparr>rt_config := cfg\<rparr>, AError 500 (''failed to reload config: '' @ e))
   | (cfg, None) \<Rightarrow> (r\<lparr>rt_config := cfg\<rparr>, AWritten 200))"

text \<open>\<open>GetProfiles\<close> and \<open>GetConfig\<close> copy what they return, which are values here.\<close>

definition GetProfiles :: "Config \<Rightarrow> RuleProfile list" where
  "GetProfiles cfg = map (\<lambda>p. p\<lparr>prof_Rules := map cloneRule (prof_Rules p)\<rparr>) (cfg_Profiles cfg)"

definition listRules :: "Config \<Rightarrow> string \<Rightarrow> admin_answer" where
  "listRules cfg pid = (case GetRules cfg pid of Inl e \<Rightarrow> AError 404 (error_text e) | Inr rs \<Rightarrow> ARules rs)"

definition listProfiles :: "Config \<Rightarrow> admin_answer" where
  "listProfiles cfg = AProfiles (GetProfiles cfg) (cfg_ActiveProfileID cfg)"

definition GetConfig :: "Config \<Rightarrow> Config" where
  "GetConfig cfg = cfg\<lparr>cfg_Profiles := map (\<lambda>p. p\<lparr>prof_Rules := map cloneRule (prof_Rules p)\<rparr>) (cfg_Profiles cfg)\<rparr>"

definition getConfig :: "Config \<Rightarrow> admin_answer" where
  "getConfig cfg = AConfig (GetConfig cfg)"

definition getMetrics :: "int option \<Rightarrow> router \<Rightarrow> admin_answer" where
  "getMetrics denied r = AMetrics (Summaries (rt_metrics r)) (ms_activeRequests (rt_metrics r)) denied"

definition getRecentRequests :: "router \<Rightarrow> admin_answer" where
  "getRecentRequests r = ARecent (Recent (rt_metrics r))"

definition resetMetrics :: "router \<Rightarrow> router \<times> admin_answer" where
  "resetMetrics r = (r\<lparr>rt_metrics := metrics_Reset (rt_metrics r)\<rparr>, AWritten 200)"

definition resetTrace :: "trace_store \<Rightarrow> trace_store \<times> admin_answer" where
  "resetTrace tr = (trace_Reset tr, AWritten 200)"

definition admin_serve :: "admin_env \<Rightarrow> int option \<Rightarrow> admin_request \<Rightarrow> admin_route \<Rightarrow> router \<Rightarrow> router \<times> admin_answer" where
  "admin_serve ae denied rq rt r =
     (let cfg = rt_config r; sv = ae_save ae; pid = ar_profile rq; body = ar_body rq in
      case rt of
        RListServers \<Rightarrow> (r, AServers (listServers (ae_now ae) r))
      | RAddServer \<Rightarrow> written r (admin_addServer sv cfg (ae_server ae body))
      | RUpdateServer i \<Rightarrow> written r (admin_updateServer sv cfg i (ae_server ae body))
      | RDeleteServer i \<Rightarrow> written r (admin_deleteServer sv cfg i)
      | RServerModels i \<Rightarrow> (r, getServerModels ae r i)
      | RTestServer \<Rightarrow> (r, testServer ae body)
      | RListRules \<Rightarrow> (r, listRules cfg pid)
      | RAddRule \<Rightarrow> written r (admin_addRule sv cfg pid (ae_rule ae body))
      | RUpdateRule n \<Rightarrow> written r (admin_updateRule sv cfg pid n (ae_rule ae body))
      | RDeleteRule n \<Rightarrow> written r (admin_deleteRule sv cfg pid n)
      | RListProfiles \<Rightarrow> (r, listProfiles cfg)
      | RAddProfile \<Rightarrow> written r (admin_addProfile sv cfg (ae_profile ae body))
      | RActivateProfile i \<Rightarrow> written r (admin_activateProfile sv cfg i)
      | RRenameProfile i \<Rightarrow> written r (admin_renameProfile sv cfg i (ae_name ae body))
      | RDeleteProfile i \<Rightarrow> written r (admin_deleteProfile sv cfg i)
      | RConfig \<Rightarrow> (r, getConfig cfg)
      | RReload \<Rightarrow> reloadConfig ae r
      | RMetrics \<Rightarrow> (r, getMetrics denied r)
      | RRecent \<Rightarrow> (r, getRecentRequests r)
      | RResetMetrics \<Rightarrow> resetMetrics r
      | RTrace \<Rightarrow> on_trace (getTrace (ae_now ae) (ar_id rq)) r
      | RResetTrace \<Rightarrow> on_trace resetTrace r
      | RSetTrace \<Rightarrow> on_trace (setTrace (ae_now ae) (ae_trace ae body)) r
      | RPreview \<Rightarrow> (r, convertPreview ae cfg body)
      | RNotFound \<Rightarrow> (r, AError 404 ''not found''))"

definition admin_ServeHTTP :: "admin_env \<Rightarrow> int option \<Rightarrow> admin_request \<Rightarrow> router \<Rightarrow> router \<times> admin_answer" where
  "admin_ServeHTTP ae denied rq r = admin_serve ae denied rq (admin_route_of (ar_method rq) (ar_path rq)) r"

lemmas admin_defs = admin_serve_def written_def on_trace_def reloadConfig_def resetMetrics_def resetTrace_def

subsection \<open>Reads change nothing\<close>

definition read_routes :: "admin_route set" where
  "read_routes = {RListServers, RListRules, RListProfiles, RConfig, RMetrics, RRecent, RTrace, RNotFound} \<union> range RServerModels"

lemma get_routes: "admin_route_of ''GET'' url \<in> read_routes"
  by (simp add: admin_route_of_def Let_def read_routes_def)

lemma getTrace_reads:
  assumes "getTrace now i tr = (tr', a)"
  shows "trace_List tr' = trace_List tr" "snd (Armed now m s tr') = snd (Armed now m s tr)"
  using assms
  by (auto simp: getTrace_def trace_Window_def expireLocked_def trace_List_def Armed_def split: if_splits option.splits)

text \<open>
  Reading never changes anything. Whatever the path of an admin \<open>GET\<close>, the configuration, the
  metrics, the health and cooldown state and all routing state are the same afterwards, the
  trace ring holds the same entries and captures the same requests: only a capture window
  that had run out is noted as closed.
\<close>

theorem admin_get_is_read:
  assumes "ar_method rq = ''GET''" "admin_ServeHTTP ae denied rq r = (r', a)"
  shows "r'\<lparr>rt_trace := rt_trace r\<rparr> = r \<and>
    rel_option (\<lambda>tr tr'. trace_List tr' = trace_List tr \<and>
        (\<forall>m s. snd (Armed (ae_now ae) m s tr') = snd (Armed (ae_now ae) m s tr))) (rt_trace r) (rt_trace r')"
proof -
  define rt where "rt = admin_route_of ''GET'' (ar_path rq)"
  have run: "admin_serve ae denied rq rt r = (r', a)" using assms by (simp add: admin_ServeHTTP_def rt_def)
  have "rt \<in> read_routes" unfolding rt_def by (rule get_routes)
  then consider "rt = RTrace" | "rt \<noteq> RTrace" "r' = r"
    using run by (auto simp: read_routes_def admin_serve_def Let_def)
  then show ?thesis
  proof cases
    case 1
    show ?thesis
    proof (cases "rt_trace r")
      case None
      then show ?thesis using run 1 by (auto simp: admin_serve_def on_trace_def Let_def)
    next
      case (Some tr)
      obtain tr' b where g: "getTrace (ae_now ae) (ar_id rq) tr = (tr', b)" by fastforce
      then have "r' = r\<lparr>rt_trace := Some tr'\<rparr>" using run 1 Some by (auto simp: admin_serve_def on_trace_def Let_def)
      then show ?thesis using Some getTrace_reads [OF g] by simp
    qed
  next
    case 2
    then show ?thesis by (cases "rt_trace r") simp_all
  qed
qed

definition example_admin :: admin_env where
  "example_admin = \<lparr>ae_now = 0, ae_server = (\<lambda>b. if b = [] then None else Some (example_server\<lparr>srv_ID := b\<rparr>)),
     ae_rule = (\<lambda>b. if b = [] then None else Some (example_rule\<lparr>rule_ServerID := b\<rparr>)), ae_profile = (\<lambda>b. Some (b, False)),
     ae_name = Some, ae_trace = (\<lambda>_. None), ae_preview = (\<lambda>b _. Inr (''m'', ''/v1/messages'', b)), ae_save = None, ae_file = Inr None,
     ae_newRequest = (\<lambda>_. None), ae_transport = (\<lambda>_. None), ae_fetch = (\<lambda>_. Inl ''refused''), ae_listing = (\<lambda>_. Inr []),
     ae_elapsed = 0, ae_sha256 = id, ae_jerr = id, ae_fnum = id\<rparr>"

definition example_state :: router where
  "example_state = example_router\<lparr>rt_trace := Some (trace_New 0 2 (set_Trace zero_settings))\<rparr>"

definition admin_call :: "string \<Rightarrow> string \<Rightarrow> string \<Rightarrow> admin_request" where
  "admin_call method path body = \<lparr>ar_method = method, ar_path = ''/admin/api'' @ path, ar_profile = [], ar_id = [], ar_body = body\<rparr>"

theorem admin_get_is_read_witness:
  "rt_config (fst (admin_ServeHTTP example_admin None (admin_call ''GET'' ''/trace'' []) example_state)) = example_config"
proof -
  let ?rq = "admin_call ''GET'' ''/trace'' []"
  obtain r' a where run: "admin_ServeHTTP example_admin None ?rq example_state = (r', a)" by fastforce
  have "ar_method ?rq = ''GET''" by (simp add: admin_call_def)
  from admin_get_is_read [OF this run] have "r'\<lparr>rt_trace := rt_trace example_state\<rparr> = example_state" by blast
  then have "rt_config (r'\<lparr>rt_trace := rt_trace example_state\<rparr>) = example_config" by (simp add: example_state_def example_router_def)
  then show ?thesis by (simp add: run)
qed

subsection \<open>Writes keep the configuration sound\<close>

lemma handlers_store_inv:
  assumes "store_inv cfg"
  shows "store_inv (fst (admin_addServer sv cfg b))" "store_inv (fst (admin_updateServer sv cfg i b))"
    "store_inv (fst (admin_deleteServer sv cfg i))" "store_inv (fst (admin_addRule sv cfg p rb))"
    "store_inv (fst (admin_updateRule sv cfg p n rb))" "store_inv (fst (admin_deleteRule sv cfg p n))"
    "store_inv (fst (admin_addProfile sv cfg pb))" "store_inv (fst (admin_renameProfile sv cfg i nb))"
    "store_inv (fst (admin_deleteProfile sv cfg i))" "store_inv (fst (admin_activateProfile sv cfg i))"
  using assms
  by (simp_all add: admin_addServer_def admin_updateServer_def admin_deleteServer_def admin_addRule_def admin_addRule_write_def
      admin_updateRule_def admin_deleteRule_def admin_addProfile_def admin_renameProfile_def admin_deleteProfile_def
      admin_activateProfile_def split_beta store_ops_inv SetActiveProfile_inv split: option.split prod.split)

definition sound_config :: "Config \<Rightarrow> bool" where
  "sound_config cfg \<longleftrightarrow> store_inv cfg \<and> routable cfg"

lemma admin_serve_sound:
  assumes "sound_config (rt_config r)" "rt \<noteq> RReload"
  shows "sound_config (rt_config (fst (admin_serve ae denied rq rt r)))"
  using assms
  by (cases rt) (simp_all add: admin_defs Let_def sound_config_def handlers_store_inv
      handlers_routable split_beta split: option.split)

text \<open>
  C11: Whatever requests reach the admin API, in any order and whatever their paths, bodies and
  the success of writing the file, the configuration stays sound as long as none of them
  reloads the file: profile ids and names stay distinct, the active profile exists, servers
  are filed under their own ids, every rule is valid and every server a rule names exists.
\<close>

theorem admin_requests_keep_config_sound:
  assumes "sound_config (rt_config r)" "\<forall>(ae, d, rq) \<in> set rqs. admin_route_of (ar_method rq) (ar_path rq) \<noteq> RReload"
  shows "sound_config (rt_config (fold (\<lambda>(ae, d, rq) r. fst (admin_ServeHTTP ae d rq r)) rqs r))"
  using assms
proof (induction rqs arbitrary: r)
  case (Cons x rqs)
  obtain ae d rq where x: "x = (ae, d, rq)" by (cases x)
  have "sound_config (rt_config (fst (admin_ServeHTTP ae d rq r)))"
    unfolding admin_ServeHTTP_def using Cons.prems by (intro admin_serve_sound) (auto simp: x)
  then show ?case using Cons by (simp add: x)
qed simp

theorem admin_requests_keep_config_sound_witness:
  "sound_config (rt_config (fold (\<lambda>(ae, d, rq) r. fst (admin_ServeHTTP ae d rq r))
     [(example_admin, None, admin_call ''POST'' ''/servers'' ''b''), (example_admin, None, admin_call ''DELETE'' ''/servers/a'' [])]
     example_state))"
proof (rule admin_requests_keep_config_sound)
  have "rule_refs example_rule = {''a''}" by (simp add: rule_refs_eq example_rule_def)
  then show "sound_config (rt_config example_state)"
    by (auto simp: sound_config_def example_state_def example_router_def store_inv_def servers_keyed_def routable_def all_rules_def example_config_def
        example_server_def GetServer_def Validate_def example_rule_def RouterJev_def)
  show "\<forall>(ae, d, rq) \<in> set [(example_admin, None, admin_call ''POST'' ''/servers'' ''b''),
      (example_admin, None, admin_call ''DELETE'' ''/servers/a'' [])]. admin_route_of (ar_method rq) (ar_path rq) \<noteq> RReload"
    by (simp add: admin_call_def admin_route_of_def TrimPrefix_def)
qed

subsection \<open>A dry run agrees with the routed request\<close>

lemma DroppedKeys_same: "DroppedKeys plan body body = []"
  by (simp add: DroppedKeys_def Let_def split: option.split)



end
