(* ===== verification/JsonRound.thy ===== *)
theory JsonRound
  imports JsonPrint
begin

text \<open>
  What \<open>json.Marshal\<close> writes, \<open>json.Unmarshal\<close> reads: decoding a rendered tree gives the
  tree back, with keys in order, numbers as rendered and bytes that are not UTF-8 replaced.
  On top of it, the model rewrite of a request body (\<open>RewriteModelInBody\<close> of
  \<open>src/proxy/proxy.go\<close>) changes nothing but the model.
\<close>

subsection \<open>Strings\<close>

text \<open>A string with every byte that is not part of a rune replaced by U+FFFD.\<close>

function to_valid :: "string \<Rightarrow> string" where
  "to_valid s =
     (if s = [] then []
      else if rune_size s = 0 then RuneError @ to_valid (tl s)
      else take (rune_size s) s @ to_valid (drop (rune_size s) s))"
  by pat_completeness auto
termination
  by (relation "measure length") auto

declare to_valid.simps [simp del]

lemma rune_size_ascii [simp]: "byte_of c < 0x80 \<Longrightarrow> rune_size (c # cs) = 1"
  by (simp add: rune_size_def)

lemma rune_size_one: "rune_size (c # cs) = 1 \<Longrightarrow> byte_of c < 0x80"
  by (auto simp: rune_size_def Let_def split: if_splits)

lemma is_cont_more:
  "is_cont lo hi cs \<Longrightarrow> is_cont lo hi (cs @ r)"
  "is_cont lo hi (drop k cs) \<Longrightarrow> is_cont lo hi (drop k (cs @ r))"
  by (auto simp: is_cont_def split: list.splits)

lemma rune_size_stable:
  assumes "rune_size (c # cs) > 0"
    and "\<And>lo hi k. is_cont lo hi (drop k cs) \<Longrightarrow> k + 1 < rune_size (c # cs) \<Longrightarrow> is_cont lo hi (drop k cs')"
  shows "rune_size (c # cs') = rune_size (c # cs)"
proof -
  have pos: "0 < (if A then n else 0) \<longleftrightarrow> A" if "n > 0" for A and n :: nat using that by simp
  consider "byte_of c < 0x80" | "0xC2 \<le> byte_of c" "byte_of c \<le> 0xDF" | "0xE0 \<le> byte_of c" "byte_of c \<le> 0xEF"
    | "0xF0 \<le> byte_of c" "byte_of c \<le> 0xF4"
    using assms(1) by (fastforce simp: rune_size_def Let_def split: if_splits)
  then show ?thesis
  proof cases
    case 2
    then show ?thesis
      using assms assms(2) [of _ _ 0] by (simp add: rune_size_def Let_def pos split del: if_split)
  next
    case 3
    then show ?thesis
      using assms(1) assms(2) [of _ _ 0] assms(2) [of _ _ 1] by (simp add: rune_size_def Let_def pos split del: if_split)
  next
    case 4
    then show ?thesis
      using assms(1) assms(2) [of _ _ 0] assms(2) [of _ _ 1] assms(2) [of _ _ 2]
      by (simp add: rune_size_def Let_def pos split del: if_split)
  qed simp
qed

lemma rune_size_more: "rune_size s > 0 \<Longrightarrow> rune_size (s @ r) = rune_size s"
  by (cases s) (auto simp: rune_size_def [of "[]"] intro!: rune_size_stable is_cont_more)

lemma rune_size_own: "rune_size s > 0 \<Longrightarrow> rune_size (take (rune_size s) s) = rune_size s"
  using rune_size_take [of s "[]"] by simp

lemma hex_value_digit: "n < 16 \<Longrightarrow> hex_value (hex_digit n) = Some n"
  by (auto simp: hex_value_def hex_digit_def Let_def)

lemma lex_string_unit:
  "lex_unit s = Some (Some u, t) \<Longrightarrow> lex_string t = Some (v, r) \<Longrightarrow> lex_string s = Some (u @ v, r)"
  by (subst lex_string.simps) simp

lemma EncodeRune_ascii: "byte_of c < 0x80 \<Longrightarrow> EncodeRune (byte_of c) = [c]"
  by (simp add: EncodeRune_def)

lemma EncodeRune_constants:
  "EncodeRune 0xFFFD = RuneError" "EncodeRune 0x2028 = line_separators ! 0" "EncodeRune 0x2029 = line_separators ! 1"
  by (simp_all add: EncodeRune_def RuneError_def line_separators_def char_of_eq_iff)

lemma hex4_constants:
  "hex4 (''fffd'' @ r) = Some 0xFFFD" "hex4 (''2028'' @ r) = Some 0x2028" "hex4 (''2029'' @ r) = Some 0x2029"
  by (simp_all add: hex_value_def Let_def)

lemma lex_unit_u:
  assumes "hex4 (h @ r) = Some n" "length h = 4" "n < 0xD800 \<or> 0xDBFF < n"
  shows "lex_unit (CHR 0x5C # CHR ''u'' # h @ r) = Some (Some (EncodeRune n), r)"
  using assms by (auto simp: lex_unit_def Let_def)

lemma lex_unit_u00:
  assumes "byte_of c < 0x80"
  shows "lex_unit (u00 (byte_of c) @ r) = Some (Some [c], r)"
proof -
  let ?h = "[CHR ''0'', CHR ''0'', hex_digit (byte_of c div 16), hex_digit (byte_of c mod 16)]"
  have z: "hex_value (CHR ''0'') = Some 0" by (simp add: hex_value_def)
  have "hex4 (?h @ r) = Some (byte_of c)"
    using assms by (simp add: hex_value_digit z)
  from lex_unit_u [OF this] assms show ?thesis by (simp add: u00_def hex_low_def EncodeRune_ascii)
qed

lemma lex_unit_ascii:
  assumes "byte_of c < 0x80"
  shows "lex_unit (marshal_ascii c @ r) = Some (Some [c], r)"
  using assms lex_unit_u00 [OF assms, of r]
  by (auto simp: marshal_ascii_def lex_unit_def escape_value_def)

lemma marshal_unit_rune:
  assumes "rune_size s > 0"
  shows "lex_unit (marshal_rune (take (rune_size s) s) @ r) = Some (Some (take (rune_size s) s), r)"
proof -
  let ?u = "take (rune_size s) s"
  have len: "length ?u = rune_size s" using rune_size_length [of s] by simp
  consider (sep) i where "i < 2" "?u = line_separators ! i"
    | (one) "length ?u = 1" "marshal_rune ?u = marshal_ascii (hd ?u)"
    | (big) "length ?u > 1" "marshal_rune ?u = ?u"
  proof -
    have "length ?u \<noteq> 0" using assms len by simp
    then show ?thesis using that(1) [of 0] that(1) [of 1] that(2,3) unfolding marshal_rune_def
      by (metis One_nat_def less_one linorder_neqE_nat one_less_numeral_iff semiring_norm(76) zero_less_numeral)
  qed
  then show ?thesis
  proof cases
    case sep
    have "lex_unit (CHR 0x5C # CHR ''u'' # ''2028'' @ r) = Some (Some (line_separators ! 0), r)"
      "lex_unit (CHR 0x5C # CHR ''u'' # ''2029'' @ r) = Some (Some (line_separators ! 1), r)"
      using lex_unit_u [OF hex4_constants(2)] lex_unit_u [OF hex4_constants(3)] by (simp_all add: EncodeRune_constants)
    with sep show ?thesis by (auto simp: marshal_rune_def less_2_cases_iff line_separators_def)
  next
    case one
    then obtain c where c: "?u = [c]" by (metis One_nat_def length_0_conv length_Suc_conv)
    have "rune_size [c] = 1" using rune_size_own [OF assms] c len by simp
    then show ?thesis using one c lex_unit_ascii [OF rune_size_one [of c "[]"], of r] by simp
  next
    case big
    then obtain c cs where c: "?u = c # cs" "cs \<noteq> []" by (cases ?u) auto
    have sz: "rune_size (?u @ r) = rune_size s" using rune_size_own [OF assms] rune_size_more assms by simp
    have "\<not> byte_of c < 0x80" using rune_size_ascii [of c cs] rune_size_own [OF assms] c len by (cases cs) auto
    then have "c \<noteq> CHR 0x22" "\<not> byte_of c < 0x20" "c \<noteq> CHR 0x5C" by auto
    then have "lex_unit (?u @ r) = Some (Some (take (rune_size s) (?u @ r)), drop (rune_size s) (?u @ r))"
      using sz assms unfolding lex_unit_def c(1) by simp
    then show ?thesis using big len by simp
  qed
qed

lemma lex_marshal_chars: "lex_string (marshal_chars s @ CHR 0x22 # r) = Some (to_valid s, r)"
proof (induction s rule: marshal_chars.induct)
  case (1 s)
  show ?case
  proof (cases "s = []")
    case True
    then show ?thesis by (subst lex_string.simps) (simp add: marshal_chars.simps to_valid.simps lex_unit_def)
  next
    case ne: False
    show ?thesis
    proof (cases "rune_size s = 0")
      case True
      have "lex_unit (CHR 0x5C # CHR ''u'' # ''fffd'' @ q) = Some (Some RuneError, q)" for q
        using lex_unit_u [OF hex4_constants(1)] by (simp add: EncodeRune_constants)
      with 1(1) [OF ne True] ne True show ?thesis
        by (simp add: marshal_chars.simps [of s] to_valid.simps [of s] lex_string_unit)
    next
      case False
      then show ?thesis
        using 1(2) [OF ne False] ne marshal_unit_rune [of s] by (simp add: marshal_chars.simps [of s] to_valid.simps [of s] lex_string_unit)
    qed
  qed
qed

lemma lex_tok_string: "lex_tok (marshal_string s @ r) = Some (TStr (to_valid s), r)"
  by (simp add: lex_tok_def marshal_string_def punct_tok_def lex_marshal_chars)

subsection \<open>Numbers and tokens\<close>

text \<open>A text that is one number literal, and what may follow one.\<close>

definition number_text :: "string \<Rightarrow> bool" where
  "number_text w \<longleftrightarrow> lex_number w = Some (w, [])"

definition delim :: "string \<Rightarrow> bool" where
  "delim r \<longleftrightarrow> r = [] \<or> hd r \<in> {CHR '','', CHR '']'', CHR ''}''}"

lemma delim_head: "delim (c # r) \<longleftrightarrow> c \<in> {CHR '','', CHR '']'', CHR ''}''}"
  by (simp add: delim_def)

lemma delim_not_digit: "delim r \<Longrightarrow> takeWhile is_digit r = []" "delim r \<Longrightarrow> dropWhile is_digit r = r"
  by (cases r; auto simp: delim_def is_digit_def)+

lemma span_digits_delim: "delim r \<Longrightarrow> span_digits s = (d, t) \<Longrightarrow> span_digits (s @ r) = (d, t @ r)"
  unfolding span_digits_def
  by (cases "\<forall>c \<in> set s. is_digit c")
    (auto simp: takeWhile_append dropWhile_append delim_not_digit takeWhile_eq_all_conv [THEN iffD2] dropWhile_eq_Nil_conv [THEN iffD2])

lemma lex_int_delim: "delim r \<Longrightarrow> lex_int s = Some (d, t) \<Longrightarrow> lex_int (s @ r) = Some (d, t @ r)"
  using span_digits_delim [of r s d t] by (auto simp: lex_int_def split: list.splits if_splits)

lemma lex_frac_delim:
  assumes "delim r" "lex_frac s = Some (d, t)"
  shows "lex_frac (s @ r) = Some (d, t @ r)"
proof (cases s)
  case Nil
  then show ?thesis using assms by (cases r) (auto simp: lex_frac_def delim_def)
next
  case (Cons c cs)
  then show ?thesis
    using assms span_digits_delim [OF assms(1), of cs] by (auto simp: lex_frac_def split: if_splits prod.splits)
qed

lemma lex_exp_delim:
  assumes "delim r" "lex_exp s = Some (d, t)"
  shows "lex_exp (s @ r) = Some (d, t @ r)"
proof (cases s)
  case Nil
  then show ?thesis using assms by (cases r) (auto simp: lex_exp_def delim_def)
next
  case (Cons c cs)
  show ?thesis
  proof (cases cs)
    case Nil
    then show ?thesis using assms Cons by (auto simp: lex_exp_def span_digits_def split: if_splits)
  next
    case (Cons x xs)
    then show ?thesis
      using assms \<open>s = c # cs\<close> span_digits_delim [OF assms(1), of xs] span_digits_delim [OF assms(1), of "x # xs"]
      by (auto simp: lex_exp_def Let_def split: if_splits prod.splits)
  qed
qed

lemma lex_number_delim:
  assumes "delim r" "lex_number s = Some (d, t)"
  shows "lex_number (s @ r) = Some (d, t @ r)"
proof -
  have "s \<noteq> []" using assms(2) by (auto simp: lex_number_def lex_int_def)
  then obtain c cs where s: "s = c # cs" by (cases s) auto
  show ?thesis
    using assms lex_int_delim [OF assms(1), of cs] lex_int_delim [OF assms(1), of s] lex_frac_delim [OF assms(1)]
      lex_exp_delim [OF assms(1)]
    unfolding lex_number_def s by (auto split: if_splits option.splits)
qed

lemma lex_number_head:
  assumes "lex_number s = Some (d, t)"
  obtains c cs where "s = c # cs" "c = CHR ''-'' \<or> is_digit c"
proof -
  obtain c cs where s: "s = c # cs" using assms by (cases s) (auto simp: lex_number_def lex_int_def)
  moreover have "c = CHR ''-'' \<or> is_digit c"
  proof (rule ccontr)
    assume "\<not> (c = CHR ''-'' \<or> is_digit c)"
    then have "c \<noteq> CHR ''-''" "lex_int (c # cs) = None" by (auto simp: lex_int_def is_digit_def)
    with assms s show False by (simp add: lex_number_def)
  qed
  ultimately show ?thesis using that by blast
qed

lemma lex_tok_number:
  assumes "number_text w" "delim r"
  shows "lex_tok (w @ r) = Some (TNum w, r)"
proof -
  have l: "lex_number (w @ r) = Some (w, r)" using lex_number_delim [OF assms(2)] assms(1) by (fastforce simp: number_text_def)
  obtain c cs where w: "w @ r = c # cs" "c = CHR ''-'' \<or> is_digit c" by (rule lex_number_head [OF l])
  have "punct_tok c = None" "c \<noteq> CHR 0x22" "c \<noteq> CHR ''n''" "c \<noteq> CHR ''t''" "c \<noteq> CHR ''f''"
    using w(2) by (auto simp: punct_tok_def is_digit_def)
  then show ?thesis using l unfolding w(1) by (simp add: lex_tok_def)
qed

lemma lex_json_tok:
  assumes "lex_tok s = Some (k, t)"
  shows "lex_json s = map_option ((#) k) (lex_json t)"
proof -
  obtain c cs where s: "s = c # cs" using assms by (cases s) (auto simp: lex_tok_def)
  have "\<not> json_space c"
  proof
    assume sp: "json_space c"
    then have "lex_number s = None"
      using s by (auto simp: json_space_def lex_number_def lex_int_def is_digit_def)
    then have "lex_tok s = None" using sp s by (auto simp: lex_tok_def json_space_def punct_tok_def)
    with assms show False by simp
  qed
  then show ?thesis using assms s by (subst lex_json.simps) simp
qed

text \<open>A text that lexes as the given tokens in front of anything a value may stand before.\<close>

definition lexes :: "string \<Rightarrow> json_tok list \<Rightarrow> bool" where
  "lexes w ks \<longleftrightarrow> (\<forall>r. delim r \<longrightarrow> lex_json (w @ r) = map_option (append ks) (lex_json r))"

lemma lexes_tok: "(\<And>r. delim r \<Longrightarrow> lex_tok (w @ r) = Some (k, r)) \<Longrightarrow> lexes w [k]"
  by (auto simp: lexes_def lex_json_tok intro!: arg_cong [where f = "\<lambda>h. map_option h _"])

lemma lex_json_punct: "punct_tok c = Some k \<Longrightarrow> lex_json (c # r) = map_option ((#) k) (lex_json r)"
  by (rule lex_json_tok) (simp add: lex_tok_def)

lemma lexes_Join:
  assumes "list_all2 lexes ws kss" "delim r"
  shows "lex_json (Join ws '','' @ r) = map_option (append (Join kss [TComma])) (lex_json r)"
  using assms
proof (induction ws kss rule: list_all2_induct)
  case Nil
  then show ?case by (cases "lex_json r") simp_all
next
  case (Cons w ws ks kss)
  show ?case
  proof (cases ws)
    case Nil
    then show ?thesis using Cons by (simp add: lexes_def)
  next
    case (Cons v vs)
    then obtain ls lss where kss: "kss = ls # lss" using \<open>list_all2 lexes ws kss\<close> by (cases kss) auto
    have "lex_json (w @ CHR '','' # Join ws '','' @ r) =
        map_option (append ks) (map_option ((#) TComma) (lex_json (Join ws '','' @ r)))"
      using \<open>lexes w ks\<close> lex_json_punct [of "CHR '',''" TComma] by (simp add: lexes_def delim_def punct_tok_def)
    then show ?thesis using Cons.IH \<open>delim r\<close> Cons kss by (simp add: option.map_comp comp_def)
  qed
qed

subsection \<open>What is written lexes\<close>

definition on_values :: "('a \<Rightarrow> 'b) \<Rightarrow> (string \<times> 'a) list \<Rightarrow> (string \<times> 'b) list" where
  "on_values f kvs = map (\<lambda>kv. (fst kv, f (snd kv))) kvs"

lemma map_entries_on_values: "map_entries (on_values f kvs) = on_values f (map_entries kvs)"
proof -
  have "map_of (map (\<lambda>kv. (fst kv, f (snd kv))) xs) k = map_option f (map_of xs k)" for k xs
    by (induction xs) auto
  then have get: "map_of (rev (on_values f kvs)) k = map_option f (map_of (rev kvs) k)" for k
    by (simp add: on_values_def rev_map)
  have "map fst (on_values f kvs) = map fst kvs" by (simp add: on_values_def)
  moreover have "map_of (rev kvs) k \<noteq> None" if "k \<in> set (map fst kvs)" for k
    using that by (simp add: map_of_eq_None_iff image_iff)
  ultimately show ?thesis
    unfolding map_entries_def on_values_def [of f "map _ _"] by (auto simp: get option.map_sel)
qed

lemma map_entries_in: "kv \<in> set (map_entries kvs) \<Longrightarrow> kv \<in> set kvs"
proof -
  assume "kv \<in> set (map_entries kvs)"
  then obtain k where k: "k \<in> set (map fst kvs)" "kv = (k, the (map_of (rev kvs) k))" by (auto simp: map_entries_def)
  then obtain v where "map_of (rev kvs) k = Some v" by (cases "map_of (rev kvs) k") (auto simp: map_of_eq_None_iff image_iff)
  with k show ?thesis by (auto dest!: map_of_SomeD)
qed

fun toks :: "(string \<Rightarrow> string) \<Rightarrow> json \<Rightarrow> json_tok list" where
  "toks fnum JNull = [TNull]"
| "toks fnum (JBool b) = [if b then TTrue else TFalse]"
| "toks fnum (JNum n) = [TNum (fnum n)]"
| "toks fnum (JStr s) = [TStr (to_valid s)]"
| "toks fnum (JArr vs) = TLBracket # Join (map (toks fnum) vs) [TComma] @ [TRBracket]"
| "toks fnum (JObj kvs) = TLBrace # Join (map (\<lambda>kv. TStr (to_valid (fst kv)) # TColon # snd kv)
     (map_entries (map (\<lambda>kv. (fst kv, toks fnum (snd kv))) kvs))) [TComma] @ [TRBrace]"

lemma Marshal_object:
  "Marshal fnum (JObj kvs) = ''{'' @ Join (map (\<lambda>kv. marshal_string (fst kv) @ '':'' @ Marshal fnum (snd kv)) (map_entries kvs)) '','' @ ''}''"
  using map_entries_on_values [of "Marshal fnum" kvs] by (simp add: on_values_def split_beta comp_def)

lemma toks_object:
  "toks fnum (JObj kvs) = TLBrace # Join (map (\<lambda>kv. TStr (to_valid (fst kv)) # TColon # toks fnum (snd kv)) (map_entries kvs)) [TComma] @ [TRBrace]"
  using map_entries_on_values [of "toks fnum" kvs] by (simp add: on_values_def comp_def)

fun literals :: "json \<Rightarrow> string set" where
  "literals (JNum n) = {n}"
| "literals (JArr vs) = \<Union> (set (map literals vs))"
| "literals (JObj kvs) = \<Union> (set (map (\<lambda>kv. literals (snd kv)) kvs))"
| "literals _ = {}"

lemma Marshal_lexes: "\<forall>n \<in> literals t. number_text (fnum n) \<Longrightarrow> lexes (Marshal fnum t) (toks fnum t)"
proof (induction t)
  case (JArr vs)
  have "list_all2 lexes (map (Marshal fnum) vs) (map (toks fnum) vs)"
    using JArr by (simp add: list_all2_map1 list_all2_map2 list_all2_same)
  note j = lexes_Join [OF this]
  show ?case unfolding lexes_def
  proof (intro allI impI)
    fix r assume "delim r"
    have "lex_json (''['' @ Join (map (Marshal fnum) vs) '','' @ CHR '']'' # r) =
        map_option ((#) TLBracket) (map_option (append (Join (map (toks fnum) vs) [TComma])) (map_option ((#) TRBracket) (lex_json r)))"
      using j [of "CHR '']'' # r"] lex_json_punct [of "CHR ''[''" TLBracket] lex_json_punct [of "CHR '']''" TRBracket]
      by (simp add: punct_tok_def delim_def)
    then show "lex_json (Marshal fnum (JArr vs) @ r) = map_option (append (toks fnum (JArr vs))) (lex_json r)"
      by (cases "lex_json r") simp_all
  qed
next
  case (JObj kvs)
  have member: "lexes (marshal_string k @ '':'' @ w) (TStr (to_valid k) # TColon # ks)" if "lexes w ks" for k w ks
    unfolding lexes_def
  proof (intro allI impI)
    fix r assume "delim r"
    then show "lex_json ((marshal_string k @ '':'' @ w) @ r) = map_option (append (TStr (to_valid k) # TColon # ks)) (lex_json r)"
      using that lex_json_tok [OF lex_tok_string] lex_json_punct [of "CHR '':''" TColon]
      by (cases "lex_json r") (simp_all add: lexes_def punct_tok_def)
  qed
  have "lexes (Marshal fnum (snd kv)) (toks fnum (snd kv))" if "kv \<in> set (map_entries kvs)" for kv
    using JObj.IH [of kv "snd kv"] JObj.prems map_entries_in [OF that] by (cases kv) fastforce
  then have "list_all2 lexes (map (\<lambda>kv. marshal_string (fst kv) @ '':'' @ Marshal fnum (snd kv)) (map_entries kvs))
      (map (\<lambda>kv. TStr (to_valid (fst kv)) # TColon # toks fnum (snd kv)) (map_entries kvs))"
    using member by (simp add: list_all2_map1 list_all2_map2 list_all2_same)
  note j = lexes_Join [OF this]
  show ?case unfolding lexes_def Marshal_object toks_object
  proof (intro allI impI)
    fix r assume "delim r"
    then show "lex_json ((''{'' @ Join (map (\<lambda>kv. marshal_string (fst kv) @ '':'' @ Marshal fnum (snd kv)) (map_entries kvs)) '','' @ ''}'') @ r) =
        map_option (append (TLBrace # Join (map (\<lambda>kv. TStr (to_valid (fst kv)) # TColon # toks fnum (snd kv)) (map_entries kvs)) [TComma] @ [TRBrace]))
          (lex_json r)"
      using j [of "CHR ''}'' # r"] lex_json_punct [of "CHR ''{''" TLBrace] lex_json_punct [of "CHR ''}''" TRBrace]
      by (cases "lex_json r") (simp_all add: punct_tok_def delim_def)
  qed
qed (auto intro!: lexes_tok lex_tok_string lex_tok_number simp: lex_tok_def punct_tok_def)

subsection \<open>The tokens parse\<close>

fun jdepth :: "json \<Rightarrow> nat" where
  "jdepth (JArr vs) = Suc (foldr max (map jdepth vs) 0)"
| "jdepth (JObj kvs) = Suc (foldr max (map (\<lambda>kv. jdepth (snd kv)) kvs) 0)"
| "jdepth _ = 0"

lemma foldr_max_le: "foldr max xs 0 \<le> (n :: nat) \<longleftrightarrow> (\<forall>x \<in> set xs. x \<le> n)"
  by (induction xs) auto

lemma jdepth_le:
  "jdepth (JArr vs) \<le> n \<longleftrightarrow> (0 < n \<and> (\<forall>v \<in> set vs. Suc (jdepth v) \<le> n))"
  "jdepth (JObj kvs) \<le> n \<longleftrightarrow> (0 < n \<and> (\<forall>kv \<in> set kvs. Suc (jdepth (snd kv)) \<le> n))"
  by (cases n; simp add: foldr_max_le)+

declare jdepth.simps(1,2) [simp del]

text \<open>The tree that is read back.\<close>

fun read_back :: "(string \<Rightarrow> string) \<Rightarrow> json \<Rightarrow> json" where
  "read_back fnum JNull = JNull"
| "read_back fnum (JBool b) = JBool b"
| "read_back fnum (JNum n) = JNum (fnum n)"
| "read_back fnum (JStr s) = JStr (to_valid s)"
| "read_back fnum (JArr vs) = JArr (map (read_back fnum) vs)"
| "read_back fnum (JObj kvs) = JObj (map (\<lambda>kv. (to_valid (fst kv), snd kv))
     (map_entries (map (\<lambda>kv. (fst kv, read_back fnum (snd kv))) kvs)))"

lemma read_back_object:
  "read_back fnum (JObj kvs) = JObj (map (\<lambda>kv. (to_valid (fst kv), read_back fnum (snd kv))) (map_entries kvs))"
  using map_entries_on_values [of "read_back fnum" kvs] by (simp add: on_values_def comp_def)

definition reads :: "json_tok list \<Rightarrow> json \<Rightarrow> nat \<Rightarrow> bool" where
  "reads ks v n \<longleftrightarrow> (\<forall>ls fs p. p = PVal \<or> p = PValOrEnd \<longrightarrow> length fs + n \<le> json_depth \<longrightarrow>
     run_json (ks @ ls) fs p = run_json ls fs (PAfter v))"

lemma reads_scalar: "scalar_of k = Some v \<Longrightarrow> reads [k] v n"
  by (auto simp: reads_def)

lemma read_elements:
  assumes "list_all2 (\<lambda>ks v. reads ks v n) kss vs" "kss \<noteq> []" "Suc (length fs) + n \<le> json_depth" "p = PVal \<or> p = PValOrEnd"
  shows "run_json (Join kss [TComma] @ TRBracket # ls) (FArr acc # fs) p = run_json ls fs (PAfter (JArr (rev acc @ vs)))"
  using assms
proof (induction kss vs arbitrary: acc p rule: list_all2_induct)
  case (Cons ks kss v vs)
  have head: "run_json (ks @ ms) (FArr acc # fs) p = run_json ms (FArr acc # fs) (PAfter v)" for ms
    using Cons.hyps(1) Cons.prems by (auto simp: reads_def)
  show ?case
  proof (cases kss)
    case Nil
    then show ?thesis using head [of "TRBracket # ls"] Cons.hyps(2) by simp
  next
    case (Cons ks' kss')
    then show ?thesis using Cons.IH [of PVal "v # acc"] \<open>Suc (length fs) + n \<le> json_depth\<close> head by simp
  qed
qed simp

lemma read_members:
  assumes "list_all2 (\<lambda>ks kv. \<exists>ls. ks = TStr (fst kv) # TColon # ls \<and> reads ls (snd kv) n) kss kvs" "kss \<noteq> []"
    and "Suc (length fs) + n \<le> json_depth" "p = PKeyOrEnd acc \<or> p = PKey acc"
  shows "run_json (Join kss [TComma] @ TRBrace # ls) fs p = run_json ls fs (PAfter (JObj (rev acc @ kvs)))"
  using assms
proof (induction kss kvs arbitrary: acc p rule: list_all2_induct)
  case (Cons ks kss kv kvs)
  obtain ms where ks: "ks = TStr (fst kv) # TColon # ms" "reads ms (snd kv) n" using Cons.hyps(1) by blast
  have head: "run_json (ks @ xs) fs p = run_json xs (FObj acc (fst kv) # fs) (PAfter (snd kv))" for xs
    using ks Cons.prems by (auto simp: reads_def)
  show ?case
  proof (cases kss)
    case Nil
    then show ?thesis using head [of "TRBrace # ls"] Cons.hyps(2) by simp
  next
    case (Cons ks' kss')
    then show ?thesis
      using Cons.IH [of "PKey (kv # acc)" "kv # acc"] \<open>Suc (length fs) + n \<le> json_depth\<close> head by simp
  qed
qed simp

lemma toks_read: "jdepth t \<le> n \<Longrightarrow> reads (toks fnum t) (read_back fnum t) n"
proof (induction t arbitrary: n)
  case (JArr vs)
  then have "0 < n" unfolding jdepth_le by simp
  then obtain m where m: "n = Suc m" by (cases n) auto
  have l: "list_all2 (\<lambda>ks v. reads ks v m) (map (toks fnum) vs) (map (read_back fnum) vs)"
    using JArr by (auto simp: list_all2_map1 list_all2_map2 list_all2_same jdepth_le m)
  show ?case unfolding reads_def
  proof (intro allI impI)
    fix ls and fs :: "json_frame list" and p assume p: "p = PVal \<or> p = PValOrEnd" and d: "length fs + n \<le> json_depth"
    have "run_json (Join (map (toks fnum) vs) [TComma] @ TRBracket # ls) (FArr [] # fs) PValOrEnd =
        run_json ls fs (PAfter (JArr (map (read_back fnum) vs)))"
      using read_elements [OF l, of fs PValOrEnd ls "[]"] d by (cases "vs = []") (simp_all add: m scalar_of_def)
    then show "run_json (toks fnum (JArr vs) @ ls) fs p = run_json ls fs (PAfter (read_back fnum (JArr vs)))"
      using p d by (auto simp: m scalar_of_def)
  qed
next
  case (JObj kvs)
  then have "0 < n" unfolding jdepth_le by simp
  then obtain m where m: "n = Suc m" by (cases n) auto
  define es where "es = map_entries kvs"
  let ?kss = "map (\<lambda>kv. TStr (to_valid (fst kv)) # TColon # toks fnum (snd kv)) es"
  let ?kvs = "map (\<lambda>kv. (to_valid (fst kv), read_back fnum (snd kv))) es"
  have "reads (toks fnum (snd kv)) (read_back fnum (snd kv)) m" if "kv \<in> set es" for kv
    using JObj.IH [of kv "snd kv" m] JObj.prems map_entries_in [of kv kvs] that
    by (cases kv) (fastforce simp: jdepth_le m es_def)
  then have l: "list_all2 (\<lambda>ks kv. \<exists>ls. ks = TStr (fst kv) # TColon # ls \<and> reads ls (snd kv) m) ?kss ?kvs"
    by (simp add: list_all2_map1 list_all2_map2 list_all2_same)
  show ?case unfolding reads_def toks_object read_back_object es_def [symmetric]
  proof (intro allI impI)
    fix ls and fs :: "json_frame list" and p assume p: "p = PVal \<or> p = PValOrEnd" and d: "length fs + n \<le> json_depth"
    have "run_json (Join ?kss [TComma] @ TRBrace # ls) fs (PKeyOrEnd []) = run_json ls fs (PAfter (JObj ?kvs))"
      using read_members [OF l, of fs "PKeyOrEnd []" "[]" ls] d by (cases "es = []") (simp_all add: m)
    then show "run_json ((TLBrace # Join ?kss [TComma] @ [TRBrace]) @ ls) fs p = run_json ls fs (PAfter (JObj ?kvs))"
      using p d by (auto simp: m scalar_of_def)
  qed
qed (auto intro: reads_scalar simp: scalar_of_def)

theorem Marshal_Unmarshal:
  assumes "\<forall>n \<in> literals t. number_text (fnum n)" "jdepth t \<le> json_depth"
  shows "Unmarshal (Marshal fnum t) = Some (read_back fnum t)"
proof -
  have "lex_json (Marshal fnum t @ []) = map_option (append (toks fnum t)) (lex_json [])"
    using Marshal_lexes [OF assms(1)] unfolding lexes_def by (simp add: delim_def)
  then have "lex_json (Marshal fnum t) = Some (toks fnum t)" by (simp add: lex_json.simps [of "[]"])
  moreover have "run_json (toks fnum t @ []) [] PVal = run_json [] [] (PAfter (read_back fnum t))"
    using toks_read [OF assms(2), of fnum] unfolding reads_def by (metis add_0 dual_order.refl list.size(3))
  ultimately show ?thesis by (simp add: Unmarshal_def)
qed

subsection \<open>What a decoded tree is like\<close>

definition valid_utf8 :: "string \<Rightarrow> bool" where
  "valid_utf8 s \<longleftrightarrow> to_valid s = s"

definition is_rune :: "string \<Rightarrow> bool" where
  "is_rune u \<longleftrightarrow> u \<noteq> [] \<and> rune_size u = length u"

lemma valid_rune_append:
  assumes "is_rune u" "valid_utf8 v"
  shows "valid_utf8 (u @ v)"
proof -
  have "rune_size (u @ v) = length u" using assms(1) rune_size_more [of u v] by (simp add: is_rune_def)
  then show ?thesis using assms by (simp add: valid_utf8_def is_rune_def to_valid.simps [of "u @ v"])
qed

lemma EncodeRune_is_rune: "is_rune (EncodeRune r)"
proof -
  have err: "is_rune RuneError" by (simp add: is_rune_def RuneError_def rune_size_def is_cont_def)
  consider "r < 0x80" | "0x80 \<le> r" "r < 0x800" | "0x800 \<le> r" "r < 0x10000" "\<not> (0xD800 \<le> r \<and> r \<le> 0xDFFF)"
    | "0x10000 \<le> r" "r \<le> 0x10FFFF" | "(0xD800 \<le> r \<and> r \<le> 0xDFFF) \<or> 0x10FFFF < r"
    by linarith
  then show ?thesis
  proof cases
    case 2
    then have "2 \<le> r div 64" "r div 64 \<le> 31" using div_le_mono [of 128 r 64] div_le_mono [of r 2047 64] by auto
    then show ?thesis using 2 by (simp add: is_rune_def EncodeRune_def rune_size_def is_cont_def)
  next
    case 3
    define q where "q = r div 64"
    have q4: "r div 4096 = q div 64" by (simp add: q_def div_mult2_eq [symmetric])
    have q: "32 \<le> q" "q \<le> 1023" "q \<le> 863 \<or> 896 \<le> q"
      using 3 div_le_mono [of 2048 r 64] div_le_mono [of r 65535 64] div_le_mono [of r 55295 64] div_le_mono [of 57344 r 64]
      by (auto simp: q_def not_le)
    have "64 * (q div 64) + q mod 64 = q" "q mod 64 < 64" by simp_all
    with q have a: "r div 4096 \<le> 15" "r div 4096 = 0 \<Longrightarrow> 32 \<le> r div 64 mod 64" "r div 4096 = 13 \<Longrightarrow> r div 64 mod 64 \<le> 31"
      unfolding q4 q_def [symmetric] by linarith+
    then show ?thesis using 3 by (auto simp: is_rune_def EncodeRune_def rune_size_def is_cont_def Let_def)
  next
    case 4
    have a: "r div 262144 \<le> 4" "r div 262144 = 0 \<Longrightarrow> 16 \<le> r div 4096 mod 64" "r div 262144 = 4 \<Longrightarrow> r div 4096 mod 64 \<le> 15"
    proof -
      define q where "q = r div 4096"
      have q4: "r div 262144 = q div 64" by (simp add: q_def div_mult2_eq [symmetric])
      have q: "16 \<le> q" "q \<le> 271"
        using 4 div_le_mono [of 65536 r 4096] div_le_mono [of r 1114111 4096] by (simp_all add: q_def)
      have "64 * (q div 64) + q mod 64 = q" "q mod 64 < 64" by simp_all
      with q show "r div 262144 \<le> 4" "r div 262144 = 0 \<Longrightarrow> 16 \<le> r div 4096 mod 64" "r div 262144 = 4 \<Longrightarrow> r div 4096 mod 64 \<le> 15"
        unfolding q4 q_def [symmetric] by linarith+
    qed
    then show ?thesis using 4 by (auto simp: is_rune_def EncodeRune_def rune_size_def is_cont_def Let_def)
  next
    case 5
    then have "EncodeRune r = RuneError" by (auto simp: EncodeRune_def)
    then show ?thesis using err by simp
  qed (simp add: is_rune_def EncodeRune_def)
qed

lemma lex_unit_is_rune:
  assumes "lex_unit s = Some (Some u, t)"
  shows "is_rune u"
proof -
  have err: "is_rune RuneError" by (simp add: is_rune_def RuneError_def rune_size_def is_cont_def)
  have esc: "is_rune x" if "escape_value e = Some x" for e x
    using that by (auto simp: escape_value_def is_rune_def split: if_splits)
  have take: "is_rune (take (rune_size s) s)" if "rune_size s \<noteq> 0"
    using that rune_size_own [of s] rune_size_length [of s] by (auto simp: is_rune_def)
  show ?thesis
    using assms err esc take EncodeRune_is_rune
    unfolding lex_unit_def Let_def by (auto split: list.splits if_splits option.splits)
qed

lemma lex_string_valid: "lex_string s = Some (v, t) \<Longrightarrow> valid_utf8 v"
proof (induction s arbitrary: v rule: lex_string.induct)
  case (1 s)
  obtain u t' where u: "lex_unit s = Some (u, t')"
    using 1(2) by (subst (asm) lex_string.simps) (auto split: option.splits)
  show ?case
  proof (cases u)
    case None
    then show ?thesis using 1(2) u by (subst (asm) lex_string.simps) (simp add: valid_utf8_def to_valid.simps)
  next
    case (Some b)
    then obtain w where "lex_string t' = Some (w, t)" "v = b @ w"
      using 1(2) u by (subst (asm) lex_string.simps) auto
    then show ?thesis using 1(1) u Some lex_unit_is_rune valid_rune_append by fastforce
  qed
qed

fun valid_json :: "json \<Rightarrow> bool" where
  "valid_json (JStr s) = valid_utf8 s"
| "valid_json (JArr vs) = list_all valid_json vs"
| "valid_json (JObj kvs) = list_all (\<lambda>kv. valid_utf8 (fst kv) \<and> valid_json (snd kv)) kvs"
| "valid_json _ = True"

definition valid_tok :: "json_tok \<Rightarrow> bool" where
  "valid_tok k = (case k of TStr s \<Rightarrow> valid_utf8 s | _ \<Rightarrow> True)"

lemma lex_json_valid: "lex_json s = Some ks \<Longrightarrow> list_all valid_tok ks"
proof (induction s arbitrary: ks rule: lex_json.induct)
  case (1 s)
  show ?case
  proof (cases s)
    case Nil
    then show ?thesis using 1(3) by (simp add: lex_json.simps)
  next
    case (Cons c cs)
    show ?thesis
    proof (cases "json_space c")
      case True
      then show ?thesis using 1(1) [OF Cons True] 1(3) Cons by (subst (asm) lex_json.simps) simp
    next
      case False
      then obtain k t ls where k: "lex_tok s = Some (k, t)" "lex_json t = Some ls" "ks = k # ls"
        using 1(3) Cons by (subst (asm) lex_json.simps) (auto split: option.splits)
      have "valid_tok k" using k(1) by (auto simp: lex_tok_def valid_tok_def punct_tok_def
          split: list.splits option.splits if_splits json_tok.splits dest: lex_string_valid)
      then show ?thesis using 1(2) [OF Cons False k(1)] k by simp
    qed
  qed
qed

subsection \<open>An invariant of the stack machine\<close>

definition good :: "nat \<Rightarrow> json \<Rightarrow> bool" where
  "good n v \<longleftrightarrow> jdepth v \<le> n \<and> valid_json v"

definition good_member :: "nat \<Rightarrow> string \<times> json \<Rightarrow> bool" where
  "good_member n kv \<longleftrightarrow> valid_utf8 (fst kv) \<and> good n (snd kv)"

lemma good_containers:
  "list_all (good n) vs \<Longrightarrow> good (Suc n) (JArr vs)" "list_all (good_member n) kvs \<Longrightarrow> good (Suc n) (JObj kvs)"
  by (auto simp: good_def good_member_def jdepth_le list_all_iff)

fun stack_ok :: "nat \<Rightarrow> json_frame list \<Rightarrow> bool" where
  "stack_ok n [] \<longleftrightarrow> n = json_depth"
| "stack_ok n (FArr vs # fs) \<longleftrightarrow> list_all (good n) vs \<and> stack_ok (Suc n) fs"
| "stack_ok n (FObj acc key # fs) \<longleftrightarrow> valid_utf8 key \<and> list_all (good_member n) acc \<and> stack_ok (Suc n) fs"

text \<open>\<open>n\<close> is the nesting that is still allowed.\<close>

fun phase_ok :: "nat \<Rightarrow> json_phase \<Rightarrow> bool" where
  "phase_ok n (PKeyOrEnd acc) \<longleftrightarrow> 0 < n \<and> list_all (good_member (n - 1)) acc"
| "phase_ok n (PKey acc) \<longleftrightarrow> 0 < n \<and> list_all (good_member (n - 1)) acc"
| "phase_ok n (PColon acc s) \<longleftrightarrow> 0 < n \<and> valid_utf8 s \<and> list_all (good_member (n - 1)) acc"
| "phase_ok n (PAfter v) \<longleftrightarrow> good n v"
| "phase_ok n _ \<longleftrightarrow> True"

lemma stack_ok_length: "stack_ok n fs \<Longrightarrow> n + length fs = json_depth"
  by (induction n fs rule: stack_ok.induct) auto

lemma scalar_good: "scalar_of k = Some v \<Longrightarrow> valid_tok k \<Longrightarrow> good n v"
  by (auto simp: scalar_of_def valid_tok_def good_def split: json_tok.splits)

lemma run_json_good:
  "run_json ks fs p = Some v \<Longrightarrow> list_all valid_tok ks \<Longrightarrow> stack_ok n fs \<Longrightarrow> phase_ok n p \<Longrightarrow> good json_depth v"
proof (induction ks arbitrary: fs p n)
  case Nil
  then show ?case by (auto split: json_phase.splits if_splits)
next
  case (Cons k ks)
  have IH: "run_json ks fs' p' = Some v \<Longrightarrow> stack_ok m fs' \<Longrightarrow> phase_ok m p' \<Longrightarrow> good json_depth v" for fs' p' m
    using Cons.IH Cons.prems(2) by simp
  have vk: "valid_tok k" using Cons.prems(2) by simp
  have len: "n + length fs = json_depth" by (rule stack_ok_length [OF Cons.prems(3)])
  note run = Cons.prems(1)
  show ?case
  proof (cases p)
    case PVal
    then show ?thesis
      using run vk Cons.prems(3) len IH [of fs _ n] IH [of "FArr [] # fs" PValOrEnd "n - 1"] scalar_good [of k _ n]
      by (auto split: option.splits json_tok.splits if_splits)
  next
    case PValOrEnd
    then show ?thesis
      using run vk Cons.prems(3) len IH [of fs _ n] IH [of "FArr [] # fs" PValOrEnd "n - 1"] scalar_good [of k _ n]
        good_containers(1) [of n "[]"] IH [of "tl fs" "PAfter (JArr [])" "Suc n"]
      by (auto split: option.splits json_tok.splits if_splits list.splits json_frame.splits)
  next
    case (PKeyOrEnd acc)
    then show ?thesis
      using run vk Cons.prems(3,4) IH [of fs _ n] good_containers(2) [of "n - 1" "rev acc"]
      by (auto simp: valid_tok_def split: json_tok.splits)
  next
    case (PKey acc)
    then show ?thesis using run vk Cons.prems(3,4) IH [of fs _ n] by (auto simp: valid_tok_def split: json_tok.splits)
  next
    case (PColon acc s)
    then show ?thesis
      using run Cons.prems(3,4) IH [of "FObj acc s # fs" PVal "n - 1"] by (auto split: json_tok.splits)
  next
    case (PAfter w)
    show ?thesis
    proof (cases fs)
      case Nil
      then show ?thesis using run PAfter by simp
    next
      case (Cons f fs')
      show ?thesis
      proof (cases f)
        case (FArr vs)
        then show ?thesis
          using run Cons PAfter Cons.prems(3,4) IH [of "FArr (w # vs) # fs'" PVal n]
            IH [of fs' "PAfter (JArr (rev (w # vs)))" "Suc n"] good_containers(1) [of n "rev (w # vs)"]
          by (auto split: json_tok.splits)
      next
        case (FObj acc key)
        then show ?thesis
          using run Cons PAfter Cons.prems(3,4) IH [of fs' "PKey ((key, w) # acc)" "Suc n"]
            IH [of fs' "PAfter (JObj (rev ((key, w) # acc)))" "Suc n"] good_containers(2) [of n "rev ((key, w) # acc)"]
          by (auto simp: good_member_def split: json_tok.splits)
      qed
    qed
  qed
qed

theorem Unmarshal_good: "Unmarshal s = Some v \<Longrightarrow> jdepth v \<le> json_depth \<and> valid_json v"
  using run_json_good [of _ "[]" PVal v json_depth] lex_json_valid
  by (auto simp: Unmarshal_def good_def split: option.splits)

subsection \<open>Rewriting a request body\<close>

lemma map_of_entries: "map_of (map_entries kvs) k = map_of (rev kvs) k"
proof -
  have "map_of (map (\<lambda>k. (k, f k)) ks) k = (if k \<in> set ks then Some (f k) else None)" for f :: "string \<Rightarrow> 'a" and ks
    by (induction ks) auto
  moreover have "k \<in> fst ` set kvs \<longleftrightarrow> map_of (rev kvs) k \<noteq> None" by (simp add: map_of_eq_None_iff)
  ultimately show ?thesis by (auto simp: map_entries_def)
qed

lemma entries_distinct: "distinct (map fst (map_entries kvs))"
  by (simp add: map_entries_def comp_def)

lemma map_of_rev_keys: "distinct (map fst xs) \<Longrightarrow> map_of (rev xs) k = map_of xs k"
proof (cases "map_of xs k")
  case None
  then have "k \<notin> fst ` set (rev xs)" by (simp add: map_of_eq_None_iff)
  then have "map_of (rev xs) k = None" by (simp only: map_of_eq_None_iff not_False_eq_True)
  then show ?thesis using None by simp
next
  case (Some v)
  assume d: "distinct (map fst xs)"
  have "map_of (rev xs) k = Some v"
    by (rule map_of_is_SomeI) (use d map_of_SomeD [OF Some] in \<open>simp_all add: rev_map [symmetric]\<close>)
  then show ?thesis using Some by simp
qed

lemma any_get_read_back:
  assumes "list_all (\<lambda>kv. valid_utf8 (fst kv)) kvs" "read_back fnum (JObj kvs) = JObj kvs'"
  shows "any_get kvs' k = read_back fnum (any_get kvs k)"
proof -
  have keys: "to_valid (fst kv) = fst kv" if "kv \<in> set (map_entries kvs)" for kv
    using assms(1) map_entries_in [OF that] by (auto simp: list_all_iff valid_utf8_def)
  have kvs': "kvs' = on_values (read_back fnum) (map_entries kvs)"
    using assms(2) keys unfolding read_back_object on_values_def by (auto simp del: read_back.simps)
  have get: "map_of (on_values f xs) k = map_option f (map_of xs k)" for f :: "json \<Rightarrow> json" and xs
    by (induction xs) (auto simp: on_values_def)
  have "distinct (map fst kvs')" using entries_distinct by (simp add: kvs' on_values_def comp_def)
  then have "map_of (rev kvs') k = map_option (read_back fnum) (map_of (rev kvs) k)"
    by (simp add: map_of_rev_keys kvs' get map_of_entries)
  then show ?thesis by (simp add: any_get_def split: option.split)
qed

lemma read_back_floats: "\<forall>n \<in> literals t. \<bar>num_rat (fnum n)\<bar> < float64_limit \<Longrightarrow> floats_ok (read_back fnum t)"
proof (induction t)
  case (JObj kvs)
  have "floats_ok (read_back fnum (snd kv))" if "kv \<in> set (map_entries kvs)" for kv
    using JObj.IH [of kv "snd kv"] JObj.prems map_entries_in [OF that] by (cases kv) fastforce
  then show ?case unfolding read_back_object by (simp add: list_all_iff del: read_back.simps)
qed (auto simp: list_all_iff)

text \<open>How \<open>encoding/json\<close> renders the numbers of a tree: as number literals of finite doubles.\<close>

definition renders_numbers :: "(string \<Rightarrow> string) \<Rightarrow> json \<Rightarrow> bool" where
  "renders_numbers fnum t \<longleftrightarrow> (\<forall>n \<in> literals t. number_text (fnum n) \<and> \<bar>num_rat (fnum n)\<bar> < float64_limit)"

lemma marshalled_map:
  assumes "renders_numbers fnum (JObj kvs)" "jdepth (JObj kvs) \<le> json_depth" "list_all (\<lambda>kv. valid_utf8 (fst kv)) kvs"
  shows "\<exists>kvs'. UnmarshalMap (Marshal fnum (JObj kvs)) = Some kvs' \<and>
    (\<forall>k. any_get kvs' k = read_back fnum (any_get kvs k))"
proof -
  obtain kvs' where kvs': "read_back fnum (JObj kvs) = JObj kvs'" by simp
  have "Unmarshal (Marshal fnum (JObj kvs)) = Some (JObj kvs')"
    using Marshal_Unmarshal [of "JObj kvs" fnum] assms(1,2) kvs' by (auto simp: renders_numbers_def)
  moreover have "floats_ok (JObj kvs')"
    using read_back_floats [of "JObj kvs" fnum] assms(1) kvs' by (simp add: renders_numbers_def)
  ultimately show ?thesis using any_get_read_back [OF assms(3) kvs'] by (auto simp: UnmarshalMap_def)
qed

lemma UnmarshalMap_good:
  assumes "UnmarshalMap body = Some obj"
  shows "jdepth (JObj obj) \<le> json_depth" "list_all (\<lambda>kv. valid_utf8 (fst kv)) obj"
proof -
  have "Unmarshal body = Some (JObj obj) \<or> obj = []"
    using assms by (auto simp: UnmarshalMap_def split: option.splits json.splits if_splits)
  then show "jdepth (JObj obj) \<le> json_depth" "list_all (\<lambda>kv. valid_utf8 (fst kv)) obj"
    using Unmarshal_good [of body "JObj obj"] by (auto simp: jdepth_le json_depth_def list_all_iff)
qed

lemma any_get_put: "any_get (any_put k v m) k' = (if k' = k then v else any_get m k')"
  by (simp add: any_get_def any_put_def)

lemma put_good:
  assumes "jdepth (JObj m) \<le> json_depth" "list_all (\<lambda>kv. valid_utf8 (fst kv)) m" "Suc (jdepth v) \<le> json_depth" "valid_utf8 k"
  shows "jdepth (JObj (any_put k v m)) \<le> json_depth" "list_all (\<lambda>kv. valid_utf8 (fst kv)) (any_put k v m)"
  using assms by (auto simp: any_put_def jdepth_le)

text \<open>
  C20: Rewriting the model of a request changes nothing else. Whenever the body decodes to an
  object, the rewritten body is valid JSON again, it decodes to an object whose \<open>model\<close> is the
  target model, and under every other key it holds the same value as before, at any depth,
  with each number as \<open>encoding/json\<close> renders it.
\<close>

theorem rewrite_only_model:
  assumes "UnmarshalMap body = Some obj" "Unmarshal body \<noteq> Some JNull" "renders_numbers fnum (JObj obj)"
    and "valid_utf8 newModel"
  shows "\<exists>b obj'. RewriteModelInBody fnum body newModel = Inr b \<and> UnmarshalMap b = Some obj' \<and>
    any_get obj' ''model'' = JStr newModel \<and>
    (\<forall>k. k \<noteq> ''model'' \<longrightarrow> any_get obj' k = read_back fnum (any_get obj k))"
proof -
  let ?kvs = "any_put ''model'' (JStr newModel) obj"
  have "valid_utf8 ''model''" by code_simp
  then have g: "jdepth (JObj ?kvs) \<le> json_depth" "list_all (\<lambda>kv. valid_utf8 (fst kv)) ?kvs"
    using put_good [OF UnmarshalMap_good [OF assms(1)], of "JStr newModel" "''model''"] by (simp_all add: json_depth_def)
  have "renders_numbers fnum (JObj ?kvs)" using assms(3) by (auto simp: renders_numbers_def any_put_def)
  from marshalled_map [OF this g] obtain obj' where
    "UnmarshalMap (Marshal fnum (JObj ?kvs)) = Some obj'" "\<forall>k. any_get obj' k = read_back fnum (any_get ?kvs k)" by blast
  moreover have "RewriteModelInBody fnum body newModel = Inr (Marshal fnum (JObj ?kvs))"
    using assms by (simp add: RewriteModelInBody_def)
  ultimately show ?thesis using assms(4) by (auto simp: any_get_put valid_utf8_def)
qed

theorem rewrite_only_model_witness:
  "\<exists>b obj'. RewriteModelInBody id ''{\"model\":\"a\",\"n\":[1,2]}'' ''gpt'' = Inr b \<and> UnmarshalMap b = Some obj' \<and>
     any_get obj' ''model'' = JStr ''gpt'' \<and> any_get obj' ''n'' = JArr [JNum ''1'', JNum ''2'']"
proof -
  let ?body = "''{\"model\":\"a\",\"n\":[1,2]}''"
  let ?obj = "[(''model'', JStr ''a''), (''n'', JArr [JNum ''1'', JNum ''2''])]"
  have u: "Unmarshal ?body = Some (JObj ?obj)" by code_simp
  have f: "\<bar>num_rat ''1''\<bar> < float64_limit" "\<bar>num_rat ''2''\<bar> < float64_limit"
    by (simp_all add: num_rat_def digits_nat_def pow10_def float64_limit_def Let_def is_digit_def)
  have "UnmarshalMap ?body = Some ?obj" using u f by (simp add: UnmarshalMap_def)
  moreover have "Unmarshal ?body \<noteq> Some JNull" using u by simp
  moreover have "renders_numbers id (JObj ?obj)"
    using f by (simp add: renders_numbers_def number_text_def lex_number_def lex_int_def lex_frac_def lex_exp_def span_digits_def is_digit_def)
  moreover have "valid_utf8 ''gpt''" by code_simp
  ultimately obtain b obj' where "RewriteModelInBody id ?body ''gpt'' = Inr b" "UnmarshalMap b = Some obj'"
    "any_get obj' ''model'' = JStr ''gpt''" "\<forall>k. k \<noteq> ''model'' \<longrightarrow> any_get obj' k = read_back id (any_get ?obj k)"
    using rewrite_only_model [of ?body ?obj id "''gpt''"] by blast
  moreover have "read_back id (any_get ?obj ''n'') = JArr [JNum ''1'', JNum ''2'']" by (simp add: any_get_def)
  ultimately show ?thesis by auto
qed

text \<open>
  The usage request that is added to a stream (\<open>EnsureStreamUsage\<close>) asks for the usage and
  keeps everything else, the client's own stream options included.
\<close>

theorem usage_only_added:
  assumes "UnmarshalMap body = Some obj" "renders_numbers fnum (JObj obj)"
    and "EnsureStreamUsage fnum body always = (b, strip)"
  shows "b = body \<or> (\<exists>obj' opts'. UnmarshalMap b = Some obj' \<and> any_get obj' ''stream_options'' = JObj opts' \<and>
    any_get opts' ''include_usage'' = JBool True \<and>
    (\<forall>k. k \<noteq> ''stream_options'' \<longrightarrow> any_get obj' k = read_back fnum (any_get obj k)))"
proof -
  define opts where "opts = (case getField obj ''stream_options'' of Some m \<Rightarrow> m | None \<Rightarrow> [])"
  let ?new = "JObj (any_put ''include_usage'' (JBool True) opts)"
  let ?kvs = "any_put ''stream_options'' ?new obj"
  consider "b = body" | "b = Marshal fnum (JObj ?kvs)"
    using assms(1,3) by (auto simp: EnsureStreamUsage_def opts_def Let_def split: if_splits)
  then show ?thesis
  proof cases
    case 2
    have walk: "opts = [] \<or> any_get obj ''stream_options'' = JObj opts"
      by (auto simp: opts_def getField_def split: option.splits json.splits)
    have from_obj: "opts = [] \<or> (''stream_options'', JObj opts) \<in> set obj"
      using walk by (auto simp: any_get_def split: option.splits dest!: map_of_SomeD)
    note good = UnmarshalMap_good [OF assms(1)]
    have dn: "Suc (jdepth ?new) \<le> json_depth"
    proof (cases "opts = []")
      case True
      have "jdepth (JObj [(''include_usage'', JBool True)]) \<le> 1" by (simp add: jdepth_le)
      moreover have "Suc 1 \<le> json_depth" by (simp add: json_depth_def)
      ultimately show ?thesis using True by (simp add: any_put_def)
    next
      case False
      then have "Suc (jdepth (JObj opts)) \<le> json_depth" using from_obj good(1) by (auto simp: jdepth_le)
      moreover have "jdepth ?new \<le> jdepth (JObj opts)"
      proof -
        have "0 < jdepth (JObj opts) \<and> (\<forall>kv \<in> set opts. Suc (jdepth (snd kv)) \<le> jdepth (JObj opts))"
          by (subst jdepth_le(2) [symmetric]) simp
        then show ?thesis unfolding jdepth_le(2) any_put_def by auto
      qed
      ultimately show ?thesis by simp
    qed
    have "valid_utf8 ''stream_options''" "valid_utf8 ''include_usage''" by code_simp+
    then have g: "jdepth (JObj ?kvs) \<le> json_depth" "list_all (\<lambda>kv. valid_utf8 (fst kv)) ?kvs"
      using put_good [OF good dn] by simp_all
    have "literals (JObj opts) \<subseteq> literals (JObj obj)" 
    proof (cases "opts = []")
      case False
      then have "(''stream_options'', JObj opts) \<in> set obj" using from_obj by simp
      then have "literals (snd (''stream_options'', JObj opts)) \<subseteq> literals (JObj obj)"
        unfolding literals.simps(3) [of obj] set_map by blast
      then show ?thesis by simp
    qed simp
    then have "renders_numbers fnum (JObj ?kvs)" using assms(2) by (auto simp: renders_numbers_def any_put_def)
    from marshalled_map [OF this g] obtain obj' where o: "UnmarshalMap b = Some obj'"
      "\<forall>k. any_get obj' k = read_back fnum (any_get ?kvs k)" using 2 by blast
    obtain opts' where o': "read_back fnum ?new = JObj opts'" by simp
    have "list_all (\<lambda>kv. valid_utf8 (fst kv)) opts"
    proof -
      have "Unmarshal body = Some (JObj obj) \<or> obj = []"
        using assms(1) by (auto simp: UnmarshalMap_def split: option.splits json.splits if_splits)
      then show ?thesis using Unmarshal_good [of body "JObj obj"] from_obj by (fastforce simp: list_all_iff)
    qed
    then have "any_get opts' ''include_usage'' = JBool True"
      using any_get_read_back [OF _ o'] \<open>valid_utf8 ''include_usage''\<close> by (simp add: any_put_def any_get_def)
    then show ?thesis using o o' by (auto simp: any_get_put simp del: read_back.simps)
  qed simp
qed

end
