(* ===== verification/ConfigKeys.thy ===== *)
theory ConfigKeys
  imports JsonRound Store
begin

text \<open>
  \<open>src/config/keys.go\<close>: the report of configuration keys that nothing reads. The strict
  decoder of \<open>encoding/json\<close> is an argument: the error text it gives for a document (\<open>None\<close>
  when it accepts), of which the code relies on the form of the text. Go walks a map in any
  order; the model walks it in the order of its keys.
\<close>

subsection \<open>Reading the error\<close>

definition TrimBoth :: "string \<Rightarrow> string \<Rightarrow> string" where
  "TrimBoth s cutset = TrimRight (TrimLeft s cutset) cutset"

definition LastIndex :: "string \<Rightarrow> string \<Rightarrow> nat option" where
  "LastIndex s p = map_option (\<lambda>j. length s - (j + length p)) (Index (rev s) (rev p))"

definition wrapper_text :: string where "wrapper_text = '' in anonymous struct field ''"

definition wire_text :: string where "wire_text = ''\" reading from \"''"

lemma LastIndex_less: "LastIndex s p = Some i \<Longrightarrow> p \<noteq> [] \<Longrightarrow> i < length s"
  by (cases p) (auto simp: LastIndex_def dest!: Index_bound)

function wrapper_path :: "string \<Rightarrow> string list \<Rightarrow> (string list \<times> string) option" where
  "wrapper_path msg path = (case LastIndex msg wrapper_text of
     None \<Rightarrow> Some (path, msg)
   | Some i \<Rightarrow>
       (let after = drop (i + length wrapper_text) msg in
        case Index after wire_text of
          None \<Rightarrow> None
        | Some j \<Rightarrow> wrapper_path (take i msg) (path @ [TrimBoth (drop (j + length wire_text) after) [CHR 0x22]])))"
  by pat_completeness auto
termination
  by (relation "measure (\<lambda>(msg, path). length msg)") (auto simp: wrapper_text_def dest: LastIndex_less)

declare wrapper_path.simps [simp del]

definition unknownFieldPath :: "string \<Rightarrow> string list option" where
  "unknownFieldPath msg = (case wrapper_path msg [] of
     None \<Rightarrow> None
   | Some (path, rest) \<Rightarrow>
       (let name = TrimBoth (TrimPrefix rest ''json: unknown field '') [CHR 0x22]
        in if name = [] then None else Some (path @ [name])))"

subsection \<open>Removing a key\<close>

text \<open>The decoded value: a map has one entry per key.\<close>

fun go_maps :: "json \<Rightarrow> json" where
  "go_maps (JArr vs) = JArr (map go_maps vs)"
| "go_maps (JObj kvs) = JObj (map_entries (map (\<lambda>kv. (fst kv, go_maps (snd kv))) kvs))"
| "go_maps v = v"

fun deletePath :: "json \<Rightarrow> string list \<Rightarrow> json \<times> bool"
and delete_at :: "(string \<times> json) list \<Rightarrow> string list \<Rightarrow> (string \<times> json) list \<times> bool"
and delete_below :: "(string \<times> json) list \<Rightarrow> string list \<Rightarrow> (string \<times> json) list \<times> bool"
and delete_among :: "json list \<Rightarrow> string list \<Rightarrow> json list \<times> bool" where
  "deletePath (JObj m) path =
     apfst JObj (if snd (delete_at m path) then delete_at m path else delete_below m path)"
| "deletePath (JArr vs) path = apfst JArr (delete_among vs path)"
| "deletePath v path = (v, False)"
| "delete_at [] path = ([], False)"
| "delete_at ((k, v) # m) path =
     (if k = hd path then
        (if tl path = [] then (m, True)
         else apfst (\<lambda>v'. (k, v') # m) (deletePath v (tl path)))
      else apfst (Cons (k, v)) (delete_at m path))"
| "delete_below [] path = ([], False)"
| "delete_below ((k, v) # m) path =
     (if snd (deletePath v path) then ((k, fst (deletePath v path)) # m, True)
      else apfst (Cons (k, v)) (delete_below m path))"
| "delete_among [] path = ([], False)"
| "delete_among (v # vs) path =
     (if snd (deletePath v path) then (fst (deletePath v path) # vs, True)
      else apfst (Cons v) (delete_among vs path))"

definition decode_any :: "string \<Rightarrow> json option" where
  "decode_any data = (case Unmarshal data of Some t \<Rightarrow> if floats_ok t then Some (go_maps t) else None | None \<Rightarrow> None)"

definition stripAt :: "(string \<Rightarrow> string) \<Rightarrow> string \<Rightarrow> string list \<Rightarrow> string option" where
  "stripAt fnum data path = map_option (\<lambda>tree. Marshal fnum (fst (deletePath tree path))) (decode_any data)"

definition unknownFieldScanCap :: nat where "unknownFieldScanCap = 50"

text \<open>The report with the document it ends at.\<close>

function unknown_scan :: "(string \<Rightarrow> string option) \<Rightarrow> (string \<Rightarrow> string) \<Rightarrow> string list \<Rightarrow> string \<Rightarrow> string list \<times> string" where
  "unknown_scan strict fnum out data =
     (if length out \<ge> unknownFieldScanCap then (out, data)
      else case strict data of
        None \<Rightarrow> (out, data)
      | Some msg \<Rightarrow>
          (case unknownFieldPath msg of
             None \<Rightarrow> (out, data)
           | Some path \<Rightarrow>
               (case stripAt fnum data path of
                  Some stripped \<Rightarrow> unknown_scan strict fnum (out @ [last path]) stripped
                | None \<Rightarrow> (out @ [last path], data))))"
  by pat_completeness auto
termination
  by (relation "measure (\<lambda>(strict, fnum, out, data). unknownFieldScanCap - length out)") auto

declare unknown_scan.simps [simp del]

definition UnknownFields :: "(string \<Rightarrow> string option) \<Rightarrow> (string \<Rightarrow> string) \<Rightarrow> string \<Rightarrow> string list" where
  "UnknownFields strict fnum data = fst (unknown_scan strict fnum [] data)"

subsection \<open>Every pass removes a key\<close>

fun members :: "json \<Rightarrow> nat" where
  "members (JArr vs) = sum_list (map members vs)"
| "members (JObj kvs) = sum_list (map (\<lambda>kv. Suc (members (snd kv))) kvs)"
| "members v = 0"

fun keys_of :: "json \<Rightarrow> string set" where
  "keys_of (JArr vs) = \<Union> (set (map keys_of vs))"
| "keys_of (JObj kvs) = fst ` set kvs \<union> \<Union> (set (map (\<lambda>kv. keys_of (snd kv)) kvs))"
| "keys_of v = {}"

lemma entries_mset: "mset (map_entries kvs) \<subseteq># mset kvs"
proof -
  have "distinct (map_entries kvs)" using entries_distinct [of kvs] by (simp add: distinct_map)
  moreover have "set (map_entries kvs) \<subseteq> set kvs" using map_entries_in by blast
  ultimately show ?thesis
    by (auto simp: subseteq_mset_def distinct_count_atmost_1 count_mset_gt_0 Suc_le_eq)
qed

lemma entries_sum: "sum_list (map g (map_entries kvs)) \<le> sum_list (map (g :: string \<times> 'a \<Rightarrow> nat) kvs)"
proof -
  obtain C where "mset kvs = mset (map_entries kvs) + C" using entries_mset [of kvs] by (auto simp: mset_subset_eq_exists_conv)
  then have "sum_mset (image_mset g (mset kvs)) = sum_mset (image_mset g (mset (map_entries kvs))) + sum_mset (image_mset g C)"
    by simp
  then show ?thesis by (simp flip: sum_mset_sum_list mset_map)
qed

lemma members_map:
  assumes "\<And>kv. kv \<in> set kvs \<Longrightarrow> members (f (snd kv)) \<le> members (snd kv)"
  shows "sum_list (map (\<lambda>kv. Suc (members (f (snd kv)))) (map_entries kvs)) \<le> sum_list (map (\<lambda>kv. Suc (members (snd kv))) kvs)"
proof -
  have "sum_list (map (\<lambda>kv. Suc (members (f (snd kv)))) (map_entries kvs)) \<le> sum_list (map (\<lambda>kv. Suc (members (f (snd kv)))) kvs)"
    by (rule entries_sum)
  also have "\<dots> \<le> sum_list (map (\<lambda>kv. Suc (members (snd kv))) kvs)" using assms by (intro sum_list_mono) simp
  finally show ?thesis .
qed

lemma go_maps_object: "go_maps (JObj kvs) = JObj (on_values go_maps (map_entries kvs))"
  using map_entries_on_values [of go_maps kvs] by (simp add: on_values_def)

declare go_maps.simps(2) [simp del] read_back.simps(6) [simp del]

lemma members_go_maps: "members (go_maps t) \<le> members t"
proof (induction t)
  case (JArr vs)
  then show ?case by (auto intro!: sum_list_mono simp: comp_def)
next
  case (JObj kvs)
  then have "\<And>kv. kv \<in> set kvs \<Longrightarrow> members (go_maps (snd kv)) \<le> members (snd kv)" by (metis prod.collapse snds.intros)
  from members_map [OF this] show ?case by (simp add: go_maps_object on_values_def comp_def)
qed auto

lemma members_read_back: "members (read_back fnum t) \<le> members t"
proof (induction t)
  case (JArr vs)
  then show ?case by (auto intro!: sum_list_mono simp: comp_def)
next
  case (JObj kvs)
  then have "\<And>kv. kv \<in> set kvs \<Longrightarrow> members (read_back fnum (snd kv)) \<le> members (snd kv)" by (metis prod.collapse snds.intros)
  from members_map [OF this] show ?case by (simp add: read_back_object comp_def)
qed auto

lemma delete_members:
  "snd (deletePath t path) \<Longrightarrow> members (fst (deletePath t path)) < members t"
  "snd (delete_at m path) \<Longrightarrow> members (JObj (fst (delete_at m path))) < members (JObj m)"
  "snd (delete_below m path) \<Longrightarrow> members (JObj (fst (delete_below m path))) < members (JObj m)"
  "snd (delete_among vs path) \<Longrightarrow> members (JArr (fst (delete_among vs path))) < members (JArr vs)"
  by (induction t path and m path and m path and vs path rule: deletePath_delete_at_delete_below_delete_among.induct)
    (auto split: if_splits)

lemma delete_depth:
  "jdepth (fst (deletePath t path)) \<le> jdepth t"
  "jdepth (JObj (fst (delete_at m path))) \<le> jdepth (JObj m)"
  "jdepth (JObj (fst (delete_below m path))) \<le> jdepth (JObj m)"
  "jdepth (JArr (fst (delete_among vs path))) \<le> jdepth (JArr vs)"
  by (induction t path and m path and m path and vs path rule: deletePath_delete_at_delete_below_delete_among.induct)
    (auto simp: jdepth.simps le_max_iff_disj)

lemma delete_keys:
  "keys_of (fst (deletePath t path)) \<subseteq> keys_of t \<and> (snd (deletePath t path) \<longrightarrow> path \<noteq> [] \<longrightarrow> last path \<in> keys_of t)"
  "keys_of (JObj (fst (delete_at m path))) \<subseteq> keys_of (JObj m) \<and>
     (snd (delete_at m path) \<longrightarrow> path \<noteq> [] \<longrightarrow> last path \<in> keys_of (JObj m))"
  "keys_of (JObj (fst (delete_below m path))) \<subseteq> keys_of (JObj m) \<and>
     (snd (delete_below m path) \<longrightarrow> path \<noteq> [] \<longrightarrow> last path \<in> keys_of (JObj m))"
  "keys_of (JArr (fst (delete_among vs path))) \<subseteq> keys_of (JArr vs) \<and>
     (snd (delete_among vs path) \<longrightarrow> path \<noteq> [] \<longrightarrow> last path \<in> keys_of (JArr vs))"
proof (induction t path and m path and m path and vs path rule: deletePath_delete_at_delete_below_delete_among.induct)
  fix k v m path
  assume "k = hd path \<Longrightarrow> tl path \<noteq> [] \<Longrightarrow> keys_of (fst (deletePath v (tl path))) \<subseteq> keys_of v \<and>
      (snd (deletePath v (tl path)) \<longrightarrow> tl path \<noteq> [] \<longrightarrow> last (tl path) \<in> keys_of v)"
    and "k \<noteq> hd path \<Longrightarrow> keys_of (JObj (fst (delete_at m path))) \<subseteq> keys_of (JObj m) \<and>
      (snd (delete_at m path) \<longrightarrow> path \<noteq> [] \<longrightarrow> last path \<in> keys_of (JObj m))"
  then show "keys_of (JObj (fst (delete_at ((k, v) # m) path))) \<subseteq> keys_of (JObj ((k, v) # m)) \<and>
      (snd (delete_at ((k, v) # m) path) \<longrightarrow> path \<noteq> [] \<longrightarrow> last path \<in> keys_of (JObj ((k, v) # m)))"
    by (cases path) auto
qed auto

lemma entries_image:
  assumes "e \<in> set (map f (map_entries kvs))"
  obtains w where "w \<in> set kvs" "e = f w"
  using assms map_entries_in by (metis (no_types, lifting) image_iff list.set_map)

lemma jdepth_go_maps: "jdepth (go_maps t) \<le> jdepth t"
proof (induction t)
  case (JArr vs)
  have "jdepth (JArr vs) \<le> jdepth (JArr vs)" ..
  then have "0 < jdepth (JArr vs)" "\<And>v. v \<in> set vs \<Longrightarrow> Suc (jdepth v) \<le> jdepth (JArr vs)" unfolding jdepth_le(1) by auto
  then show ?case unfolding go_maps.simps jdepth_le using JArr.IH by fastforce
next
  case (JObj kvs)
  have n: "jdepth (JObj kvs) \<le> jdepth (JObj kvs)" ..
  show ?case
    unfolding go_maps_object jdepth_le
  proof (intro conjI ballI)
    show "0 < jdepth (JObj kvs)" by (simp add: jdepth.simps)
    fix kv assume "kv \<in> set (on_values go_maps (map_entries kvs))"
    then obtain w where w: "w \<in> set kvs" "snd kv = go_maps (snd w)" unfolding on_values_def by (elim entries_image) simp
    then have "jdepth (snd kv) \<le> jdepth (snd w)" using JObj.IH by (metis prod.collapse snds.intros)
    then show "Suc (jdepth (snd kv)) \<le> jdepth (JObj kvs)" using w(1) n unfolding jdepth_le(2) by fastforce
  qed
qed simp_all

lemma keys_of_sub:
  assumes "\<And>e. e \<in> set es \<Longrightarrow> \<exists>w \<in> set kvs. fst e = h (fst w) \<and> keys_of (snd e) \<subseteq> h ` keys_of (snd w)"
  shows "keys_of (JObj es) \<subseteq> h ` keys_of (JObj kvs)"
proof
  fix k assume "k \<in> keys_of (JObj es)"
  then obtain e where e: "e \<in> set es" "k = fst e \<or> k \<in> keys_of (snd e)" by auto
  obtain w where w: "w \<in> set kvs" "fst e = h (fst w)" "keys_of (snd e) \<subseteq> h ` keys_of (snd w)"
    using assms [OF e(1)] by blast
  have "k \<in> h ` (insert (fst w) (keys_of (snd w)))" using e(2) w(2,3) by auto
  moreover have "insert (fst w) (keys_of (snd w)) \<subseteq> keys_of (JObj kvs)" using w(1) by auto
  ultimately show "k \<in> h ` keys_of (JObj kvs)" by blast
qed

lemma keys_go_maps: "keys_of (go_maps t) \<subseteq> keys_of t"
proof (induction t)
  case (JObj kvs)
  have "keys_of (go_maps (snd kv)) \<subseteq> keys_of (snd kv)" if "kv \<in> set kvs" for kv
    using JObj that by (metis prod.collapse snds.intros)
  then have "keys_of (JObj (on_values go_maps (map_entries kvs))) \<subseteq> id ` keys_of (JObj kvs)"
    unfolding on_values_def by (intro keys_of_sub) (elim entries_image, force)
  then show ?case by (simp add: go_maps_object)
qed auto

lemma keys_read_back: "keys_of (read_back fnum t) \<subseteq> to_valid ` keys_of t"
proof (induction t)
  case (JObj kvs)
  have "keys_of (read_back fnum (snd kv)) \<subseteq> to_valid ` keys_of (snd kv)" if "kv \<in> set kvs" for kv
    using JObj that by (metis prod.collapse snds.intros)
  then show ?case
    unfolding read_back_object by (intro keys_of_sub) (elim entries_image, force)
next
  case (JArr vs)
  then show ?case by (auto simp: image_UN)
qed auto

lemma keys_valid: "valid_json t \<Longrightarrow> k \<in> keys_of t \<Longrightarrow> valid_utf8 k"
proof (induction t)
  case (JObj kvs)
  then show ?case by (auto simp: list_all_iff snds.simps)
qed (auto simp: list_all_iff)

text \<open>What is relied on of the number rendering of \<open>encoding/json\<close>, and of its strict decoder.\<close>

definition renders_all :: "(string \<Rightarrow> string) \<Rightarrow> bool" where
  "renders_all fnum \<longleftrightarrow> (\<forall>n. number_text (fnum n) \<and> \<bar>num_rat (fnum n)\<bar> < float64_limit)"

definition reports_keys :: "(string \<Rightarrow> string option) \<Rightarrow> bool" where
  "reports_keys strict \<longleftrightarrow> (\<forall>d t msg. decode_any d = Some t \<longrightarrow> strict d = Some msg \<longrightarrow>
     (\<exists>path. unknownFieldPath msg = Some path \<and> snd (deletePath t path)))"

lemma unknownFieldPath_nonempty: "unknownFieldPath msg = Some path \<Longrightarrow> path \<noteq> []"
  by (auto simp: unknownFieldPath_def Let_def split: option.splits if_splits)

lemma strip_progress:
  assumes "renders_all fnum" "decode_any d = Some t" "snd (deletePath t path)"
  shows "\<exists>d' t'. stripAt fnum d path = Some d' \<and> decode_any d' = Some t' \<and> members t' < members t \<and> keys_of t' \<subseteq> keys_of t"
proof -
  obtain u where u: "Unmarshal d = Some u" "t = go_maps u"
    using assms(2) by (auto simp: decode_any_def split: option.splits if_splits)
  define t1 where "t1 = fst (deletePath t path)"
  have "jdepth t1 \<le> json_depth"
    using delete_depth(1) [of t path] jdepth_go_maps [of u] Unmarshal_good [OF u(1)] u(2) by (simp add: t1_def)
  moreover have lit: "\<forall>n \<in> literals t1. number_text (fnum n)" "\<forall>n \<in> literals t1. \<bar>num_rat (fnum n)\<bar> < float64_limit"
    using assms(1) by (auto simp: renders_all_def)
  ultimately have m: "Unmarshal (Marshal fnum t1) = Some (read_back fnum t1)" by (intro Marshal_Unmarshal)
  let ?t' = "go_maps (read_back fnum t1)"
  have k1: "keys_of t1 \<subseteq> keys_of t" using delete_keys(1) [of t path] by (simp add: t1_def)
  have "to_valid k = k" if "k \<in> keys_of t" for k
    using that keys_go_maps [of u] keys_valid [of u k] Unmarshal_good [OF u(1)] u(2) by (auto simp: valid_utf8_def)
  then have "to_valid ` keys_of t1 \<subseteq> keys_of t" using k1 by (auto simp: subset_iff)
  then have "keys_of ?t' \<subseteq> keys_of t" using keys_go_maps [of "read_back fnum t1"] keys_read_back [of fnum t1] by blast
  moreover have "members ?t' < members t"
    using members_go_maps [of "read_back fnum t1"] members_read_back [of fnum t1] delete_members(1) [OF assms(3)]
    by (simp add: t1_def)
  moreover have "decode_any (Marshal fnum t1) = Some ?t'"
    using m read_back_floats [OF lit(2)] by (simp add: decode_any_def)
  ultimately show ?thesis using assms(2) by (auto simp: stripAt_def t1_def)
qed

lemma scan_complete:
  assumes "renders_all fnum" "reports_keys strict" "decode_any data = Some t"
    and "unknown_scan strict fnum out data = (out', d')" "length out \<le> unknownFieldScanCap"
  shows "length out' \<le> length out + members t \<and> length out' \<le> unknownFieldScanCap \<and> set out' \<subseteq> set out \<union> keys_of t \<and>
    (length out' < unknownFieldScanCap \<longrightarrow> strict d' = None)"
  using assms
proof (induction strict fnum out data arbitrary: t rule: unknown_scan.induct)
  case (1 strict fnum out data)
  note run = 1(5)
  show ?case
  proof (cases "length out \<ge> unknownFieldScanCap \<or> strict data = None")
    case True
    then show ?thesis using run 1(6) by (subst (asm) unknown_scan.simps) (auto split: if_splits option.splits)
  next
    case False
    then obtain msg where msg: "strict data = Some msg" and lt: "\<not> unknownFieldScanCap \<le> length out" by auto
    obtain path where path: "unknownFieldPath msg = Some path" "snd (deletePath t path)"
      using 1(3,4) msg unfolding reports_keys_def by blast
    obtain d t' where d: "stripAt fnum data path = Some d" "decode_any d = Some t'" "members t' < members t" "keys_of t' \<subseteq> keys_of t"
      using strip_progress [OF 1(2,4) path(2)] by blast
    have "last path \<in> keys_of t"
      using delete_keys(1) [of t path] path(2) unknownFieldPath_nonempty [OF path(1)] by blast
    moreover have "unknown_scan strict fnum (out @ [last path]) d = (out', d')"
      using run msg lt path(1) d(1) by (subst (asm) unknown_scan.simps) simp
    ultimately show ?thesis
      using 1(1) [OF lt msg path(1) d(1) 1(2,3) d(2)] d(3,4) lt by auto
  qed
qed


text \<open>A decoder of documents in which \<open>x\<close> is the only unread key, found anywhere.\<close>

definition example_strict :: "string \<Rightarrow> string option" where
  "example_strict d = (case decode_any d of
     Some t \<Rightarrow> if snd (deletePath t [''x'']) then Some ''json: unknown field \"x\"'' else None
   | None \<Rightarrow> Some ''unexpected end of JSON input'')"


subsection \<open>Where the report goes wrong\<close>

text \<open>When the named key is not found, nothing is removed, and the name is reported fifty times.\<close>

lemma stuck_report:
  assumes "strict d = Some msg" "unknownFieldPath msg = Some path" "stripAt fnum d path = Some d"
    and "length out \<le> unknownFieldScanCap"
  shows "unknown_scan strict fnum out d = (out @ replicate (unknownFieldScanCap - length out) (last path), d)"
  using assms(4)
proof (induction "unknownFieldScanCap - length out" arbitrary: out)
  case 0
  then show ?case by (subst unknown_scan.simps) simp
next
  case (Suc n)
  then have "unknown_scan strict fnum out d = unknown_scan strict fnum (out @ [last path]) d"
    using assms by (subst unknown_scan.simps) simp
  also have "\<dots> = ((out @ [last path]) @ replicate (unknownFieldScanCap - length (out @ [last path])) (last path), d)"
    using Suc by (intro Suc.hyps(1)) auto
  also have "\<dots> = (out @ replicate (unknownFieldScanCap - length out) (last path), d)"
    using Suc.hyps(2) [symmetric] by (simp add: replicate_app_Cons_same [symmetric])
  finally show ?case .
qed

text \<open>
  An error that is not about a key, which the code means to leave out, is reported as one,
  and so is a key with a quote in it, whose name the error text escapes.
\<close>

lemma type_error_reported:
  "UnknownFields (\<lambda>_. Some ''json: cannot unmarshal string into Go value'') id ''[]'' =
     replicate 50 ''json: cannot unmarshal string into Go value''"
proof -
  have "unknownFieldPath ''json: cannot unmarshal string into Go value'' = Some [''json: cannot unmarshal string into Go value'']"
    by code_simp
  moreover have "stripAt id ''[]'' [''json: cannot unmarshal string into Go value''] = Some ''[]''" by code_simp
  ultimately show ?thesis
    using stuck_report [of "\<lambda>_. Some ''json: cannot unmarshal string into Go value''" "''[]''"]
    by (simp add: UnknownFields_def unknownFieldScanCap_def)
qed

lemma quoted_key_repeats:
  assumes "\<forall>d. strict d = Some (''json: unknown field '' @ go_quote ''a\"b'')"
  shows "length (UnknownFields strict id (''{'' @ go_quote ''a\"b'' @ '':null}'')) = 50"
proof -
  have "unknownFieldPath (''json: unknown field '' @ go_quote ''a\"b'') = Some [[CHR ''a'', CHR 0x5C, CHR 0x22, CHR ''b'']]" by code_simp
  moreover have "stripAt id (''{'' @ go_quote ''a\"b'' @ '':null}'') [[CHR ''a'', CHR 0x5C, CHR 0x22, CHR ''b'']] = Some (''{'' @ go_quote ''a\"b'' @ '':null}'')" by code_simp
  ultimately show ?thesis
    using assms stuck_report [of strict "''{'' @ go_quote ''a\"b'' @ '':null}''" _ "[[CHR ''a'', CHR 0x5C, CHR 0x22, CHR ''b'']]" id "[]"]
    by (simp add: UnknownFields_def unknownFieldScanCap_def)
qed

end
