(* ===== verification/Inbound.thy ===== *)
theory Inbound
  imports Domain
begin

text \<open>
  \<open>src/config/inbound.go\<close>, the token bucket in front of the routed endpoints, and
  \<open>src/config/cors.go\<close>. A \<open>float64\<close> is a rational, so the theorems are about the exact
  arithmetic the code approximates. A middleware's effect is a \<open>decision\<close>: the response
  headers it sets, and either its own answer or that the next handler runs.
\<close>

type_synonym headers = "(string \<times> string) list"

datatype decision =
    Forward headers
  | Answer int headers string

subsection \<open>The token bucket\<close>

record inboundBucket =
  ib_tokens :: rat
  ib_last :: gotime

record InboundLimiter =
  il_rps :: rat
  il_burst :: rat
  il_perIP :: bool
  il_keys :: "(string, inboundBucket) gomap"
  il_denied :: int

definition inboundSweepAt :: nat where "inboundSweepAt = 4096"

definition NewInboundLimiter :: "InboundSettings \<Rightarrow> InboundLimiter option" where
  "NewInboundLimiter s =
     (if in_RPS s \<le> 0 then None
      else let burst = of_int (in_Burst s);
               burst1 = (if burst < 1 then of_int \<lceil>in_RPS s\<rceil> else burst)
           in Some \<lparr>il_rps = in_RPS s, il_burst = burst1, il_perIP = in_PerIP s, il_keys = [], il_denied = 0\<rparr>)"

definition Denied :: "InboundLimiter option \<Rightarrow> int" where
  "Denied l = (case l of None \<Rightarrow> 0 | Some l \<Rightarrow> il_denied l)"

definition seconds_of :: "duration \<Rightarrow> rat" where
  "seconds_of d = of_int d / of_int Second"

definition sweepLocked :: "gotime \<Rightarrow> InboundLimiter \<Rightarrow> InboundLimiter" where
  "sweepLocked now l =
     (let cutoff = \<lfloor>2 * of_int Second * il_burst l / il_rps l\<rfloor>
      in l\<lparr>il_keys := gm_filter (\<lambda>_ b. \<not> now - ib_last b > cutoff) (il_keys l)\<rparr>)"

definition inbound_bucket :: "gotime \<Rightarrow> string \<Rightarrow> InboundLimiter \<Rightarrow> InboundLimiter \<times> inboundBucket" where
  "inbound_bucket now key l =
     (case gm_get (il_keys l) key of
        Some b \<Rightarrow> (l, b)
      | None \<Rightarrow>
          (let l1 = (if length (il_keys l) \<ge> inboundSweepAt then sweepLocked now l else l);
               b = \<lparr>ib_tokens = il_burst l1, ib_last = now\<rparr>
           in (l1\<lparr>il_keys := gm_put key b (il_keys l1)\<rparr>, b)))"

definition inbound_Allow :: "gotime \<Rightarrow> string \<Rightarrow> InboundLimiter \<Rightarrow> InboundLimiter \<times> bool \<times> duration" where
  "inbound_Allow now key l =
     (case inbound_bucket now key l of (l1, b) \<Rightarrow>
        let tokens = min (ib_tokens b + seconds_of (now - ib_last b) * il_rps l1) (il_burst l1)
        in if tokens \<ge> 1 then
             (l1\<lparr>il_keys := gm_put key \<lparr>ib_tokens = tokens - 1, ib_last = now\<rparr> (il_keys l1)\<rparr>, True, 0)
           else
             (l1\<lparr>il_keys := gm_put key \<lparr>ib_tokens = tokens, ib_last = now\<rparr> (il_keys l1),
                 il_denied := il_denied l1 + 1\<rparr>,
              False, \<lceil>(1 - tokens) / il_rps l1 * of_int Second\<rceil>))"

text \<open>\<open>net.SplitHostPort\<close>, its host part.\<close>

definition LastIndexByte :: "string \<Rightarrow> char \<Rightarrow> nat option" where
  "LastIndexByte s c = map_option (\<lambda>i. length s - 1 - i) (Index (rev s) [c])"

definition SplitHost :: "string \<Rightarrow> string option" where
  "SplitHost hp =
     (case LastIndexByte hp CHR '':'' of
        None \<Rightarrow> None
      | Some i \<Rightarrow>
          (if HasPrefix hp ''['' then
             (case Index hp '']'' of
                None \<Rightarrow> None
              | Some e \<Rightarrow>
                  if e + 1 \<noteq> i then None
                  else if Contains (drop 1 hp) ''['' \<or> Contains (drop (e + 1) hp) '']'' then None
                  else Some (drop 1 (take e hp)))
           else if Contains (take i hp) '':'' then None
           else if Contains hp ''['' \<or> Contains hp '']'' then None
           else Some (take i hp)))"

definition inbound_key :: "InboundLimiter \<Rightarrow> string \<Rightarrow> string" where
  "inbound_key l remoteAddr =
     (if il_perIP l then (case SplitHost remoteAddr of Some h \<Rightarrow> h | None \<Rightarrow> remoteAddr) else [])"

definition inbound_Middleware ::
  "gotime \<Rightarrow> string \<Rightarrow> InboundLimiter option \<Rightarrow> InboundLimiter option \<times> decision" where
  "inbound_Middleware now remoteAddr lim0 =
     (case lim0 of
        None \<Rightarrow> (None, Forward [])
      | Some l \<Rightarrow>
          (case inbound_Allow now (inbound_key l remoteAddr) l of
             (l', ok, retry) \<Rightarrow>
               if \<not> ok then
                 (let seconds = max \<lfloor>seconds_of retry + 1 / 2\<rfloor> 1
                  in (Some l', Answer 429
                        [(''X-RateLimit-Limit'', Itoa \<lfloor>il_burst l'\<rfloor>), (''X-RateLimit-Remaining'', ''0''),
                         (''X-RateLimit-Reset'', Itoa seconds), (''Retry-After'', Itoa seconds),
                         (''Content-Type'', ''application/json'')]
                        ''{\"error\":{\"type\":\"rate_limit_error\",\"message\":\"router rate limit reached\"}}''))
               else (Some l', Forward [(''X-RateLimit-Limit'', Itoa \<lfloor>il_burst l'\<rfloor>),
                                        (''X-RateLimit-Remaining'', ''1'')])))"

subsection \<open>CORS\<close>

record CORS =
  cors_origins :: "string list"
  cors_any :: bool

definition routerHeaderNames :: "string list" where
  "routerHeaderNames =
     [''X-Router-Server'', ''X-Router-Server-Name'', ''X-Router-Status'', ''X-Router-Request-Id'',
      ''X-Router-Attempts'', ''X-Router-Retries'', ''X-Router-Fallback-Errors'',
      ''X-Router-Jev-Choice'', ''X-Router-Jev-Confidence'', ''X-Router-Jev-Ms'', ''X-Router-Jev-Reason'',
      ''X-Router-Convert'', ''X-Router-Convert-Notes'', ''X-Router-Trace-Id'', ''X-Router-Count-Tokens'']"

definition NewCORS :: "COSSettings \<Rightarrow> CORS option" where
  "NewCORS s = (if \<not> cos_Enabled s then None
                else Some \<lparr>cors_origins = cos_Origins s, cors_any = (cos_Origins s = [])\<rparr>)"

definition cors_allow :: "CORS \<Rightarrow> string \<Rightarrow> bool" where
  "cors_allow c origin \<longleftrightarrow> origin \<noteq> [] \<and> (cors_any c \<or> origin \<in> set (cors_origins c))"

definition cors_Middleware :: "CORS option \<Rightarrow> string \<Rightarrow> string \<Rightarrow> string \<Rightarrow> decision" where
  "cors_Middleware c origin reqMethod requestHeaders =
     (case c of
        None \<Rightarrow> Forward []
      | Some c \<Rightarrow>
          if \<not> cors_allow c origin then Forward []
          else
            let h = [(''Access-Control-Allow-Origin'', origin), (''Vary'', ''Origin''),
                     (''Access-Control-Expose-Headers'', Join routerHeaderNames '', '')]
            in if reqMethod = ''OPTIONS'' then
                 Answer 204
                   (h @ [(''Access-Control-Allow-Methods'', ''POST, GET, OPTIONS'')]
                      @ (if requestHeaders \<noteq> [] then [(''Access-Control-Allow-Headers'', requestHeaders)] else [])
                      @ [(''Access-Control-Max-Age'', ''600'')]) []
               else Forward h)"

subsection \<open>The balance of a key\<close>

text \<open>What a key can spend at an instant; a key without a bucket has a full one.\<close>

definition balance :: "InboundLimiter \<Rightarrow> string \<Rightarrow> gotime \<Rightarrow> rat" where
  "balance l key t =
     (case gm_get (il_keys l) key of
        None \<Rightarrow> il_burst l
      | Some b \<Rightarrow> min (ib_tokens b + seconds_of (t - ib_last b) * il_rps l) (il_burst l))"

definition il_inv :: "InboundLimiter \<Rightarrow> gotime \<Rightarrow> bool" where
  "il_inv l now \<longleftrightarrow> gm_wf (il_keys l) \<and> 0 < il_rps l \<and> 1 \<le> il_burst l \<and>
     (\<forall>k b. gm_get (il_keys l) k = Some b \<longrightarrow> 0 \<le> ib_tokens b \<and> ib_tokens b \<le> il_burst l \<and> ib_last b \<le> now)"

lemma seconds_of_simps [simp]:
  "seconds_of 0 = 0" "seconds_of (a + b) = seconds_of a + seconds_of b"
  "seconds_of (a - b) = seconds_of a - seconds_of b"
  by (simp_all add: seconds_of_def add_divide_distrib diff_divide_distrib)

lemma seconds_of_mono: "a \<le> b \<Longrightarrow> seconds_of a \<le> seconds_of b"
  by (simp add: seconds_of_def Second_def divide_right_mono)

lemma swept_was_full:
  assumes "0 < il_rps l" "1 \<le> il_burst l" "0 \<le> ib_tokens b"
    and "now - ib_last b > \<lfloor>2 * of_int Second * il_burst l / il_rps l\<rfloor>"
  shows "il_burst l \<le> ib_tokens b + seconds_of (now - ib_last b) * il_rps l"
proof -
  have "2 * of_int Second * il_burst l / il_rps l < of_int (now - ib_last b)"
    using assms(4) by (simp add: floor_less_iff)
  then have "2 * il_burst l < seconds_of (now - ib_last b) * il_rps l"
    using assms(1) by (simp add: seconds_of_def Second_def field_simps)
  then show ?thesis using assms(2,3) by linarith
qed

lemma sweepLocked_balance:
  assumes "il_inv l now" "now \<le> t"
  shows "balance (sweepLocked now l) k t = balance l k t"
proof (cases "gm_get (il_keys l) k")
  case None
  then show ?thesis
    using assms by (simp add: balance_def sweepLocked_def Let_def gm_get_filter il_inv_def)
next
  case (Some b)
  have "il_burst l \<le> ib_tokens b + seconds_of (t - ib_last b) * il_rps l"
    if "now - ib_last b > \<lfloor>2 * of_int Second * il_burst l / il_rps l\<rfloor>"
  proof -
    have "il_burst l \<le> ib_tokens b + seconds_of (now - ib_last b) * il_rps l"
      using swept_was_full [OF _ _ _ that] assms(1) Some by (auto simp: il_inv_def)
    also have "\<dots> \<le> ib_tokens b + seconds_of (t - ib_last b) * il_rps l"
      using assms seconds_of_mono [of "now - ib_last b" "t - ib_last b"]
      by (simp add: il_inv_def mult_right_mono del: seconds_of_simps)
    finally show ?thesis .
  qed
  then show ?thesis
    using assms Some
    by (auto simp: balance_def sweepLocked_def Let_def gm_get_filter il_inv_def min_def
        simp del: seconds_of_simps)
qed

lemma sweepLocked_inv: "il_inv l now \<Longrightarrow> il_inv (sweepLocked now l) now"
  by (auto simp: il_inv_def sweepLocked_def Let_def gm_get_filter split: option.splits if_splits)

lemma inbound_bucket_facts:
  assumes "il_inv l now" "inbound_bucket now key l = (l1, b)"
  shows "il_inv l1 now" "gm_get (il_keys l1) key = Some b"
    "il_rps l1 = il_rps l" "il_burst l1 = il_burst l" "now \<le> t \<Longrightarrow> balance l1 k t = balance l k t"
proof -
  define l0 where "l0 = (if length (il_keys l) \<ge> inboundSweepAt then sweepLocked now l else l)"
  have l0: "il_inv l0 now" "il_rps l0 = il_rps l" "il_burst l0 = il_burst l"
    "\<And>k t. now \<le> t \<Longrightarrow> balance l0 k t = balance l k t"
    using assms(1) sweepLocked_inv sweepLocked_balance by (auto simp: l0_def sweepLocked_def Let_def)
  have "il_inv l1 now \<and> gm_get (il_keys l1) key = Some b \<and> il_rps l1 = il_rps l \<and>
        il_burst l1 = il_burst l \<and> (now \<le> t \<longrightarrow> balance l1 k t = balance l k t)"
  proof (cases "gm_get (il_keys l) key")
    case (Some b')
    then show ?thesis using assms by (simp add: inbound_bucket_def)
  next
    case None
    define b0 where "b0 = \<lparr>ib_tokens = il_burst l, ib_last = now\<rparr>"
    have l1: "l1 = l0\<lparr>il_keys := gm_put key b0 (il_keys l0)\<rparr>" "b = b0"
      using assms(2) None l0(3) unfolding inbound_bucket_def Let_def b0_def l0_def [symmetric] by auto
    have "gm_get (il_keys l0) key = None"
      using None assms(1) by (auto simp: l0_def sweepLocked_def Let_def gm_get_filter il_inv_def)
    moreover have "0 \<le> seconds_of (t - now) * il_rps l" if "now \<le> t"
      using that assms(1) seconds_of_mono [of 0 "t - now"] by (simp add: il_inv_def)
    ultimately have "now \<le> t \<Longrightarrow> balance l1 key t = balance l0 key t"
      using l0(2,3) by (simp add: balance_def l1 gm_get_put b0_def del: seconds_of_simps)
    moreover have "k \<noteq> key \<Longrightarrow> balance l1 k t = balance l0 k t"
      by (simp add: balance_def l1 gm_get_put split: option.split)
    moreover have "il_inv l1 now"
      using l0(1,3) unfolding il_inv_def l1 by (auto simp: gm_get_put b0_def)
    ultimately show ?thesis
      using l0 by (cases "k = key") (auto simp: l1 gm_get_put)
  qed
  then show "il_inv l1 now" "gm_get (il_keys l1) key = Some b"
    "il_rps l1 = il_rps l" "il_burst l1 = il_burst l" "now \<le> t \<Longrightarrow> balance l1 k t = balance l k t"
    by auto
qed

lemma inbound_Allow_facts:
  assumes "il_inv l now" "inbound_Allow now key l = (l', ok, retry)"
  shows "ok \<longleftrightarrow> 1 \<le> balance l key now"
    "balance l' key now = balance l key now - (if ok then 1 else 0)"
    "k \<noteq> key \<Longrightarrow> now \<le> t \<Longrightarrow> balance l' k t = balance l k t"
    "il_inv l' now" "il_rps l' = il_rps l" "il_burst l' = il_burst l"
    "retry = (if ok then 0 else \<lceil>(1 - balance l key now) / il_rps l * of_int Second\<rceil>)"
    "gm_get (il_keys l') key = Some \<lparr>ib_tokens = balance l' key now, ib_last = now\<rparr>"
proof -
  obtain l1 b where b: "inbound_bucket now key l = (l1, b)" by (cases "inbound_bucket now key l")
  note f = inbound_bucket_facts [OF assms(1) b]
  have tok: "min (ib_tokens b + seconds_of (now - ib_last b) * il_rps l1) (il_burst l1) = balance l key now"
    using f(5) [of now key] by (simp add: balance_def f(2))
  have "ib_last b \<le> now" "0 \<le> ib_tokens b" using f(1,2) by (auto simp: il_inv_def)
  then have "0 \<le> ib_tokens b + seconds_of (now - ib_last b) * il_rps l1"
    using f(1) seconds_of_mono [of 0 "now - ib_last b"] by (simp add: il_inv_def)
  then have "0 \<le> balance l key now"
    using f(1) unfolding tok [symmetric] by (simp add: il_inv_def)
  have bl: "balance l key now \<le> il_burst l" using tok f(4) by linarith
  define b' where "b' = \<lparr>ib_tokens = balance l key now - (if 1 \<le> balance l key now then 1 else 0), ib_last = now\<rparr>"
  have l': "il_keys l' = gm_put key b' (il_keys l1)" "il_rps l' = il_rps l" "il_burst l' = il_burst l"
    and ok: "ok \<longleftrightarrow> 1 \<le> balance l key now"
    and re: "retry = (if ok then 0 else \<lceil>(1 - balance l key now) / il_rps l * of_int Second\<rceil>)"
    using assms(2) f(3,4) unfolding inbound_Allow_def b Let_def b'_def prod.case tok
    by (auto split: if_splits)
  show "ok \<longleftrightarrow> 1 \<le> balance l key now" by (rule ok)
  show b2: "balance l' key now = balance l key now - (if ok then 1 else 0)"
    using bl ok by (simp add: balance_def [of l'] l' gm_get_put b'_def)
  show "balance l' k t = balance l k t" if "k \<noteq> key" "now \<le> t"
  proof -
    have "balance l' k t = balance l1 k t"
      using that f(3,4) by (simp add: balance_def l' gm_get_put split: option.split)
    then show ?thesis using f(5) that by simp
  qed
  show "il_inv l' now"
    using f(1) \<open>0 \<le> balance l key now\<close> bl
    by (auto simp: il_inv_def l' gm_get_put b'_def f(3,4) split: if_splits)
  show "il_rps l' = il_rps l" "il_burst l' = il_burst l" by (fact l')+
  show "retry = (if ok then 0 else \<lceil>(1 - balance l key now) / il_rps l * of_int Second\<rceil>)" by (rule re)
  show "gm_get (il_keys l') key = Some \<lparr>ib_tokens = balance l' key now, ib_last = now\<rparr>"
    using b2 ok by (simp add: l' gm_get_put b'_def)
qed

lemma balance_grows:
  assumes "il_inv l now" "t \<le> t'"
  shows "balance l k t' \<le> balance l k t + seconds_of (t' - t) * il_rps l"
proof -
  have "0 \<le> seconds_of (t' - t) * il_rps l"
    using assms seconds_of_mono [of 0 "t' - t"] by (simp add: il_inv_def)
  then show ?thesis
    by (auto simp: balance_def algebra_simps min_def split: option.split)
qed

lemma il_inv_later: "il_inv l t \<Longrightarrow> t \<le> t' \<Longrightarrow> il_inv l t'"
  by (fastforce simp: il_inv_def)

fun admitted :: "(gotime \<times> string) list \<Rightarrow> InboundLimiter \<Rightarrow> string \<Rightarrow> nat" where
  "admitted [] l key = 0"
| "admitted ((now, k) # rs) l key =
     (case inbound_Allow now k l of
        (l', ok, _) \<Rightarrow> (if ok \<and> k = key then 1 else 0) + admitted rs l' key)"

lemma admitted_bound:
  assumes "il_inv l t0" "sorted (t0 # map fst rs)" "\<forall>r \<in> set rs. fst r \<le> t1" "t0 \<le> t1"
  shows "of_nat (admitted rs l key) \<le> balance l key t0 + seconds_of (t1 - t0) * il_rps l"
  using assms
proof (induction rs arbitrary: l t0)
  case Nil
  have "0 \<le> balance l key t0"
    using Nil.prems(1) seconds_of_mono
    by (auto simp: balance_def il_inv_def min_def split: option.split)
  moreover have "0 \<le> seconds_of (t1 - t0) * il_rps l"
    using Nil.prems seconds_of_mono [of 0 "t1 - t0"] by (simp add: il_inv_def)
  ultimately show ?case by simp
next
  case (Cons r rs)
  obtain now k where r: "r = (now, k)" by (cases r)
  obtain l' ok w where a: "inbound_Allow now k l = (l', ok, w)" by (metis prod_cases3)
  have t: "t0 \<le> now" "now \<le> t1" using Cons.prems by (auto simp: r)
  have inv: "il_inv l now" using Cons.prems(1) t(1) by (rule il_inv_later)
  note f = inbound_Allow_facts [OF inv a]
  have "of_nat (admitted rs l' key) \<le> balance l' key now + seconds_of (t1 - now) * il_rps l'"
    using Cons.IH [OF f(4)] Cons.prems t by (simp add: r)
  moreover have "balance l' key now = balance l key now - (if ok \<and> k = key then 1 else 0)"
    using f(2) f(3) [of key now] by (cases "k = key") auto
  moreover have "balance l key now \<le> balance l key t0 + seconds_of (now - t0) * il_rps l"
    using balance_grows [OF inv t(1)] .
  moreover have "seconds_of (t1 - t0) * il_rps l =
      seconds_of (now - t0) * il_rps l + seconds_of (t1 - now) * il_rps l"
    by (simp add: algebra_simps)
  ultimately show ?case
    by (auto simp add: r a f(5) simp del: seconds_of_simps split: if_splits)
qed

text \<open>
  C28: One client cannot flood the router: from any state of the limiter, among the requests of
  an interval at most \<open>burst + rps \<times> seconds\<close> of one key are let through, whatever other keys
  do and however often idle buckets are swept in between.
\<close>
theorem inbound_rate_bound:
  assumes "il_inv l t0" "sorted (t0 # map fst rs)" "\<forall>r \<in> set rs. fst r \<le> t1" "t0 \<le> t1"
  shows "of_nat (admitted rs l key) \<le> il_burst l + seconds_of (t1 - t0) * il_rps l"
proof -
  have "balance l key t0 \<le> il_burst l" by (simp add: balance_def split: option.split)
  then show ?thesis using admitted_bound [OF assms, of key] by linarith
qed

definition example_limiter :: InboundLimiter where
  "example_limiter = \<lparr>il_rps = 2, il_burst = 3, il_perIP = True, il_keys = [], il_denied = 0\<rparr>"

theorem inbound_rate_bound_witness:
  "of_nat (admitted [(1, ''x''), (5, ''y''), (Second, ''x'')] example_limiter ''x'')
     \<le> (3 :: rat) + seconds_of (Second - 0) * 2"
proof -
  have i: "il_inv example_limiter 0" by (simp add: il_inv_def example_limiter_def)
  have s: "sorted ((0::int) # map fst [(1::int, ''x''), (5, ''y''), (Second, ''x'')])" by (simp add: Second_def)
  have r: "\<forall>r \<in> set [(1::int, ''x''), (5, ''y''), (Second, ''x'')]. fst r \<le> Second" by (simp add: Second_def)
  have z: "(0::int) \<le> Second" by (simp add: Second_def)
  from inbound_rate_bound [OF i s r z, of "''x''"] show ?thesis by (simp add: example_limiter_def)
qed

text \<open>
  A denial tells the truth: a client that is turned away and waits the reported time, with
  no other request of its key in between, is let through, even if other keys were served or
  swept meanwhile.
\<close>
theorem inbound_retry_after_honest:
  assumes "il_inv l now" "inbound_Allow now key l = (l1, False, retry)"
    and "sorted (now # map fst rs)" "\<forall>r \<in> set rs. fst r \<le> now + retry \<and> snd r \<noteq> key"
  shows "fst (snd (inbound_Allow (now + retry) key
           (fold (\<lambda>(t, k) l. fst (inbound_Allow t k l)) rs l1)))"
proof -
  note f = inbound_Allow_facts [OF assms(1,2)]
  have re: "(1 - balance l key now) / il_rps l * of_int Second \<le> of_int retry"
    using f(7) by simp
  have rps: "0 < il_rps l" "1 \<le> il_burst l" and b1: "balance l1 key now = balance l key now"
    using assms(1) f(2) by (auto simp: il_inv_def)
  have "1 \<le> balance l1 key (now + retry)"
  proof -
    have "1 - balance l key now \<le> seconds_of retry * il_rps l"
      using re rps by (simp add: seconds_of_def Second_def field_simps)
    then show ?thesis using f(5,6,8) b1 rps by (simp add: balance_def [of l1 _ "now + retry"])
  qed
  moreover have "1 \<le> balance l2 key (now + retry) \<Longrightarrow> il_inv l2 t \<Longrightarrow> sorted (t # map fst rs) \<Longrightarrow>
      \<forall>r \<in> set rs. fst r \<le> now + retry \<and> snd r \<noteq> key \<Longrightarrow> t \<le> now + retry \<Longrightarrow>
      1 \<le> balance (fold (\<lambda>(t, k) l. fst (inbound_Allow t k l)) rs l2) key (now + retry) \<and>
      il_inv (fold (\<lambda>(t, k) l. fst (inbound_Allow t k l)) rs l2) (now + retry)" for l2 t rs
  proof (induction rs arbitrary: l2 t)
    case Nil
    then show ?case by (auto intro: il_inv_later)
  next
    case (Cons r rs)
    obtain t' k where r: "r = (t', k)" by (cases r)
    obtain l3 ok w where a: "inbound_Allow t' k l2 = (l3, ok, w)" by (metis prod_cases3)
    have inv: "il_inv l2 t'" using Cons.prems by (auto simp: r intro: il_inv_later)
    note g = inbound_Allow_facts [OF inv a]
    have "1 \<le> balance l3 key (now + retry)" using g(3) [of key "now + retry"] Cons.prems by (auto simp: r)
    then show ?case using Cons.IH [OF _ g(4)] Cons.prems a by (auto simp: r)
  qed
  moreover have "0 \<le> retry"
  proof -
    have "0 \<le> (1 - balance l key now) / il_rps l * of_int Second"
      using f(1) rps by (simp add: Second_def)
    with re have "(0 :: rat) \<le> of_int retry" by linarith
    then show ?thesis by simp
  qed
  ultimately have "1 \<le> balance (fold (\<lambda>(t, k) l. fst (inbound_Allow t k l)) rs l1) key (now + retry)"
    "il_inv (fold (\<lambda>(t, k) l. fst (inbound_Allow t k l)) rs l1) (now + retry)"
    using f(4) assms(3,4) by auto
  then show ?thesis
    using inbound_Allow_facts(1) by (metis prod_cases3 fst_conv snd_conv)
qed

theorem inbound_retry_after_honest_witness:
  "fst (snd (inbound_Allow (0 + 500000000) ''x''
     (fold (\<lambda>(t, k) l. fst (inbound_Allow t k l)) [(3, ''y'')]
        (fst (inbound_Allow 0 ''x'' (example_limiter\<lparr>il_keys := [(''x'', \<lparr>ib_tokens = 0, ib_last = 0\<rparr>)]\<rparr>))))))"
proof -
  let ?l = "example_limiter\<lparr>il_keys := [(''x'', \<lparr>ib_tokens = 0, ib_last = 0\<rparr>)]\<rparr>"
  have i: "il_inv ?l 0" by (auto simp: il_inv_def example_limiter_def split: if_splits)
  have a: "inbound_Allow 0 ''x'' ?l = (fst (inbound_Allow 0 ''x'' ?l), False, 500000000)"
    by (simp add: inbound_Allow_def inbound_bucket_def example_limiter_def Second_def)
  show ?thesis
    by (rule inbound_retry_after_honest [OF i a]) simp_all
qed

end
