(* ===== verification/ServerMain.thy ===== *)
theory ServerMain
  imports AdminApi ConfigKeys Inbound
begin

text \<open>
  \<open>src/main.go\<close>: how the process is put together. A request passes the pattern matching of
  \<open>http.ServeMux\<close>, then either the client edge (CORS, inbound limit, router), or the bearer
  token in front of the admin API, the version and the metrics, or the readiness flag, or the
  static files. The state is the router's together with the client edge and the draining flag.
  Requests are taken one after the other. The outside is \<open>server_env\<close>: the router's and the
  admin API's environments, the clock, how a path segment is unescaped, which static files
  there are, and the texts of floats and summary order \<open>PrometheusMetrics\<close> needs.
\<close>

subsection \<open>Settings that are read as closures\<close>

definition cooldown_override :: "Config \<Rightarrow> string \<Rightarrow> duration" where
  "cooldown_override cfg i = (case GetServer cfg i of
     Some srv \<Rightarrow> if srv_CooldownTime srv > 0 then wrap64 (srv_CooldownTime srv * Second) else 0
   | None \<Rightarrow> 0)"

definition limit_override :: "Config \<Rightarrow> string \<Rightarrow> int \<times> int" where
  "limit_override cfg i = (case GetServer cfg i of Some srv \<Rightarrow> (srv_TPMLimit srv, srv_RPMLimit srv) | None \<Rightarrow> (0, 0))"

text \<open>The closures look the server up when they are called; the configuration does not change within a request.\<close>

definition with_overrides :: "router \<Rightarrow> router" where
  "with_overrides r = r\<lparr>
     rt_rateLimit := map_option (\<lambda>rl. SetCooldownOverride rl (cooldown_override (rt_config r))) (rt_rateLimit r),
     rt_quota := map_option (\<lambda>q. SetLimitOverride q (limit_override (rt_config r))) (rt_quota r)\<rparr>"

definition applyRuntimeSettings :: "Settings \<Rightarrow> HealthTracker \<Rightarrow> RateLimiter \<Rightarrow> HealthTracker \<times> RateLimiter" where
  "applyRuntimeSettings s health limiter =
     (let health1 = SetInterval health (wrap64 (hs_IntervalSeconds (set_Health s) * Second));
          health2 = SetProbe health1 (hs_Path (set_Health s)) (wrap64 (hs_TimeoutSeconds (set_Health s) * Second));
          limiter1 = SetThresholds limiter (ls_AllowedFails (set_Limiter s)) (wrap64 (ls_CooldownSeconds (set_Limiter s) * Second));
          alerter = NewWebhookAlerter (set_Alerts s)
      in (ht_SetAlerter health2 (alerter \<noteq> None), rl_SetAlerter limiter1 (alerter \<noteq> None)))"

definition apply_to_router :: "router \<Rightarrow> router" where
  "apply_to_router r = (case (rt_health r, rt_rateLimit r) of
     (Some h, Some l) \<Rightarrow>
       (case applyRuntimeSettings (cfg_Settings (rt_config r)) h l of
          (h', l') \<Rightarrow> r\<lparr>rt_health := Some h', rt_rateLimit := Some l'\<rparr>)
   | _ \<Rightarrow> r)"

subsection \<open>The client edge\<close>

record clientEdge =
  ce_limiter :: "InboundLimiter option"
  ce_cors :: "CORS option"

definition Rebuild :: "Settings \<Rightarrow> clientEdge" where
  "Rebuild s = \<lparr>ce_limiter = NewInboundLimiter (set_Inbound s), ce_cors = NewCORS (set_CORS s)\<rparr>"

definition newClientEdge :: "Settings \<Rightarrow> clientEdge" where
  "newClientEdge s = Rebuild s"

definition edge_Denied :: "clientEdge \<Rightarrow> int" where
  "edge_Denied e = Denied (ce_limiter e)"

record http_request =
  hq_method :: string
  hq_escapedPath :: string
  hq_path :: string
  hq_remoteAddr :: string
  hq_headers :: headers
  hq_query :: "(string \<times> string) list"
  hq_body :: string

definition routed_request :: "http_request \<Rightarrow> request" where
  "routed_request q = \<lparr>rq_method = hq_method q, rq_path = hq_path q, rq_queryModel = header_get (hq_query q) ''model'',
     rq_headers = hq_headers q, rq_contentType = header_get (hq_headers q) ''Content-Type'', rq_body = hq_body q\<rparr>"

definition admin_request_of :: "http_request \<Rightarrow> admin_request" where
  "admin_request_of q = \<lparr>ar_method = hq_method q, ar_path = hq_path q, ar_profile = header_get (hq_query q) ''profile_id'',
     ar_id = header_get (hq_query q) ''id'', ar_body = hq_body q\<rparr>"

datatype http_answer =
    Plain int headers string
  | Routed headers response
  | ByAdmin admin_answer
  | StaticFile string
  | Redirected

text \<open>CORS is outermost, then the inbound limit; headers set on the way stay on the answer.\<close>

definition edge_ServeHTTP :: "gotime \<Rightarrow> env \<Rightarrow> http_request \<Rightarrow> clientEdge \<Rightarrow> router \<Rightarrow> clientEdge \<times> router \<times> http_answer" where
  "edge_ServeHTTP now env q e r =
     (case cors_Middleware (ce_cors e) (header_get (hq_headers q) ''Origin'') (hq_method q)
             (header_get (hq_headers q) ''Access-Control-Request-Headers'') of
        Answer st h body \<Rightarrow> (e, r, Plain st h body)
      | Forward h1 \<Rightarrow>
          (case inbound_Middleware now (hq_remoteAddr q) (ce_limiter e) of
             (lim', Answer st h body) \<Rightarrow> (e\<lparr>ce_limiter := lim'\<rparr>, r, Plain st (h1 @ h) body)
           | (lim', Forward h2) \<Rightarrow>
               (case Handle env (routed_request q) (with_overrides r) of
                  (r', resp) \<Rightarrow> (e\<lparr>ce_limiter := lim'\<rparr>, r', Routed (h1 @ h2) resp))))"

subsection \<open>The pattern matching of \<open>http.ServeMux\<close>\<close>

text \<open>\<open>path.Clean\<close> on a rooted path, by its segments.\<close>

fun clean_segs :: "string list \<Rightarrow> string list \<Rightarrow> string list" where
  "clean_segs acc [] = rev acc"
| "clean_segs acc (s # ss) =
     (if s = [] \<or> s = ''.'' then clean_segs acc ss
      else if s = ''..'' then clean_segs (drop 1 acc) ss
      else clean_segs (s # acc) ss)"

definition path_Clean :: "string \<Rightarrow> string" where
  "path_Clean p = ''/'' @ Join (clean_segs [] (split_on CHR ''/'' p)) ''/''"

definition cleanPath :: "string \<Rightarrow> string" where
  "cleanPath p =
     (if p = [] then ''/''
      else let p1 = (if hd p = CHR ''/'' then p else CHR ''/'' # p); np = path_Clean p1
           in if HasSuffix p1 ''/'' \<and> np \<noteq> ''/'' then np @ ''/'' else np)"

text \<open>A registered pattern: its literal segments, and whether it ends in a slash and so covers what lies below.\<close>

datatype target = ToReady | ToEdge | ToAdmin | ToVersion | ToMetrics | ToStatic

record pattern =
  pt_segs :: "string list"
  pt_multi :: bool
  pt_target :: target

definition pattern_of :: "string \<Rightarrow> target \<Rightarrow> pattern" where
  "pattern_of s t = (let segs = split_on CHR ''/'' (drop 1 s) in
     if last segs = [] then \<lparr>pt_segs = butlast segs, pt_multi = True, pt_target = t\<rparr>
     else \<lparr>pt_segs = segs, pt_multi = False, pt_target = t\<rparr>)"

definition mux :: "pattern list" where
  "mux = [pattern_of ''/readyz'' ToReady, pattern_of ''/v1/'' ToEdge, pattern_of ''/tts'' ToEdge, pattern_of ''/audio/'' ToEdge,
          pattern_of ''/admin/api/'' ToAdmin, pattern_of ''/admin/api/version'' ToVersion, pattern_of ''/metrics'' ToMetrics,
          pattern_of ''/admin/'' ToStatic]"

definition pattern_matches :: "string list \<Rightarrow> pattern \<Rightarrow> bool" where
  "pattern_matches segs p = (if pt_multi p then length (pt_segs p) < length segs \<and> take (length (pt_segs p)) segs = pt_segs p
                             else segs = pt_segs p)"

definition path_segs :: "(string \<Rightarrow> string) \<Rightarrow> string \<Rightarrow> string list" where
  "path_segs unesc path = (if path = [] then [] else map unesc (split_on CHR ''/'' (drop 1 path)))"

text \<open>The most specific pattern that matches: the one with the most literal segments.\<close>

definition more_specific :: "pattern \<Rightarrow> pattern option \<Rightarrow> pattern option" where
  "more_specific p best = (case best of None \<Rightarrow> Some p
     | Some b \<Rightarrow> if length (pt_segs b) < length (pt_segs p) then Some p else Some b)"

definition mux_match :: "(string \<Rightarrow> string) \<Rightarrow> string \<Rightarrow> pattern option" where
  "mux_match unesc path = fold more_specific (filter (pattern_matches (path_segs unesc path)) mux) None"

definition exactMatch :: "pattern option \<Rightarrow> string \<Rightarrow> bool" where
  "exactMatch p path = (case p of None \<Rightarrow> False
     | Some p \<Rightarrow> \<not> pt_multi p \<or>
         (HasSuffix path ''/'' \<and> length (pt_segs p) + 1 = length (filter (\<lambda>c. c = CHR ''/'') path)))"

datatype found = Found target | MovedTo | NoPattern

definition findHandler :: "(string \<Rightarrow> string) \<Rightarrow> string \<Rightarrow> string \<Rightarrow> found" where
  "findHandler unesc method escapedPath =
     (let path = (if method = ''CONNECT'' then escapedPath else cleanPath escapedPath);
          n = mux_match unesc path
      in if \<not> exactMatch n path \<and> \<not> HasSuffix path ''/'' \<and> path \<noteq> [] \<and> exactMatch (mux_match unesc (path @ ''/'')) (path @ ''/'')
         then MovedTo
         else if method \<noteq> ''CONNECT'' \<and> path \<noteq> escapedPath then MovedTo
         else case n of None \<Rightarrow> NoPattern | Some p \<Rightarrow> Found (pt_target p))"

subsection \<open>The process\<close>

record proc =
  px_router :: router
  px_edge :: clientEdge
  px_draining :: bool

record server_env =
  se_now :: gotime
  se_env :: env
  se_admin :: admin_env
  se_unescape :: "string \<Rightarrow> string"
  se_static :: "string \<Rightarrow> bool"
  se_float :: "gofloat \<Rightarrow> string"
  se_order :: "string list"

definition bearer_ok :: "string \<Rightarrow> headers \<Rightarrow> bool" where
  "bearer_ok token hs \<longleftrightarrow> HasPrefix (header_get hs ''Authorization'') ''Bearer '' \<and>
     TrimPrefix (header_get hs ''Authorization'') ''Bearer '' = token"

definition http_Error :: "int \<Rightarrow> string \<Rightarrow> http_answer" where
  "http_Error st msg = Plain st [(''Content-Type'', ''text/plain; charset=utf-8''), (''X-Content-Type-Options'', ''nosniff'')] (msg @ [CHR 0x0A])"

definition unauthorized :: http_answer where
  "unauthorized = Plain 401
     [(''WWW-Authenticate'', ''Bearer realm=\"llm-api-router admin\"''), (''Content-Type'', ''text/plain; charset=utf-8''),
      (''X-Content-Type-Options'', ''nosniff'')] (''unauthorized'' @ [CHR 0x0A])"

definition tokenGuard :: "string \<Rightarrow> (http_request \<Rightarrow> 'p \<Rightarrow> 'p \<times> http_answer) \<Rightarrow> http_request \<Rightarrow> 'p \<Rightarrow> 'p \<times> http_answer" where
  "tokenGuard token next =
     (if token = [] then next
      else (\<lambda>q p. if \<not> bearer_ok token (hq_headers q) then (p, unauthorized) else next q p))"

definition ready_ServeHTTP :: "proc \<Rightarrow> http_answer" where
  "ready_ServeHTTP p = (if px_draining p then http_Error 503 ''draining'' else Plain 200 [] ''ready'')"

definition version_handler :: "string \<Rightarrow> http_request \<Rightarrow> proc \<Rightarrow> proc \<times> http_answer" where
  "version_handler version q p =
     (p, if hq_method q \<noteq> ''GET'' then http_Error 405 ''method not allowed''
         else Plain 200 [(''Content-Type'', ''application/json'')] (''{\"version\":'' @ marshal_string version @ ''}'' @ [CHR 0x0A]))"

text \<open>The handler reads the trackers that \<open>main\<close> created; they are there from the start.\<close>

definition metrics_handler :: "server_env \<Rightarrow> http_request \<Rightarrow> proc \<Rightarrow> proc \<times> http_answer" where
  "metrics_handler se q p =
     (p, if hq_method q \<noteq> ''GET'' then http_Error 405 ''method not allowed''
         else case (rt_health (px_router p), rt_rateLimit (px_router p)) of
           (Some h, Some l) \<Rightarrow>
             Plain 200 [(''Content-Type'', ''text/plain; version=0.0.4; charset=utf-8'')]
               (PrometheusMetrics (se_float se) (se_order se) (rt_metrics (px_router p)) @
                serverStateMetrics h l (se_now se) (cfg_Servers (GetConfig (rt_config (px_router p)))) (edge_Denied (px_edge p)))
         | _ \<Rightarrow> ByAdmin APanics)"

text \<open>The file \<open>http.ServeFileFS\<close> is asked for.\<close>

definition static_handler :: "server_env \<Rightarrow> http_request \<Rightarrow> proc \<Rightarrow> proc \<times> http_answer" where
  "static_handler se q p = (p,
     let path = TrimPrefix (hq_path q) ''/admin/''
     in if path = [] then StaticFile ''index.html''
        else if \<not> se_static se path then StaticFile ''index.html''
        else StaticFile path)"

text \<open>The hook a successful reload runs.\<close>

definition on_reload :: "proc \<Rightarrow> proc" where
  "on_reload p = p\<lparr>px_edge := Rebuild (cfg_Settings (rt_config (px_router p))), px_router := apply_to_router (px_router p)\<rparr>"

definition admin_handler :: "server_env \<Rightarrow> http_request \<Rightarrow> proc \<Rightarrow> proc \<times> http_answer" where
  "admin_handler se q p =
     (case admin_ServeHTTP (se_admin se) (Some (edge_Denied (px_edge p))) (admin_request_of q) (px_router p) of
        (r, a) \<Rightarrow>
          let p1 = p\<lparr>px_router := r\<rparr>
          in (if admin_route_of (hq_method q) (hq_path q) = RReload \<and> a = AWritten 200 then on_reload p1 else p1, ByAdmin a))"

definition edge_handler :: "server_env \<Rightarrow> http_request \<Rightarrow> proc \<Rightarrow> proc \<times> http_answer" where
  "edge_handler se q p =
     (case edge_ServeHTTP (se_now se) (se_env se) q (px_edge p) (px_router p) of
        (e, r, a) \<Rightarrow> (p\<lparr>px_edge := e, px_router := r\<rparr>, a))"

definition mux_ServeHTTP :: "string \<Rightarrow> string \<Rightarrow> server_env \<Rightarrow> http_request \<Rightarrow> proc \<Rightarrow> proc \<times> http_answer" where
  "mux_ServeHTTP token version se q p =
     (if hq_escapedPath q = ''*'' then (p, Plain 400 [(''Connection'', ''close'')] [])
      else case findHandler (se_unescape se) (hq_method q) (hq_escapedPath q) of
        MovedTo \<Rightarrow> (p, Redirected)
      | NoPattern \<Rightarrow> (p, http_Error 404 ''404 page not found'')
      | Found ToReady \<Rightarrow> (p, ready_ServeHTTP p)
      | Found ToEdge \<Rightarrow> edge_handler se q p
      | Found ToAdmin \<Rightarrow> tokenGuard token (admin_handler se) q p
      | Found ToVersion \<Rightarrow> tokenGuard token (version_handler version) q p
      | Found ToMetrics \<Rightarrow> tokenGuard token (metrics_handler se) q p
      | Found ToStatic \<Rightarrow> static_handler se q p)"

subsection \<open>Startup\<close>

definition router_New ::
  "Config \<Rightarrow> metrics_store \<Rightarrow> HealthTracker \<Rightarrow> RateLimiter \<Rightarrow> QuotaTracker \<Rightarrow> trace_store \<Rightarrow> CapabilitiesCache option \<Rightarrow> router" where
  "router_New store m health rateLimit quota tr caps =
     \<lparr>rt_config = store, rt_metrics = m, rt_health = Some health, rt_rateLimit = Some rateLimit, rt_quota = Some quota,
      rt_trace = Some tr, rt_rotation = \<lparr>rot_rotations = [], rot_rotationKeys = 0\<rparr>, rt_inflight = (\<lambda>_. 0), rt_pins = [],
      rt_jev = \<lparr>js_caps = (case caps of Some c \<Rightarrow> c | None \<Rightarrow> NewCapabilitiesCache), js_cache = [], js_sticky = []\<rparr>\<rparr>"

definition start_process :: "gotime \<Rightarrow> Config \<Rightarrow> proc" where
  "start_process now cfg =
     (let healthTracker = NewHealthTracker (30 * Second);
          rateLimiter = SetCooldownOverride (NewRateLimiter 5 (60 * Second) (5 * Minute)) (cooldown_override cfg);
          quotaTracker = SetLimitOverride NewQuotaTracker (limit_override cfg);
          apiRouter = router_New cfg (metrics_New 100) healthTracker rateLimiter quotaTracker
            (trace_New now 100 (set_Trace (cfg_Settings cfg))) (Some NewCapabilitiesCache);
          configured = apply_to_router apiRouter
      in \<lparr>px_router = configured\<lparr>rt_health := map_option (\<lambda>h. Start h cfg) (rt_health configured)\<rparr>,
          px_edge = newClientEdge (cfg_Settings cfg), px_draining = False\<rparr>)"

text \<open>Decoding, encoding and the strict decode of a file, and what the file system does to the process.\<close>

record boot_env =
  bo_dec :: "string \<Rightarrow> string + Config"
  bo_enc :: "Config \<Rightarrow> string + string"
  bo_strict :: "string \<Rightarrow> string option"
  bo_fnum :: "string \<Rightarrow> string"
  bo_readError :: "string option"
  bo_save :: save_io
  bo_now :: gotime

definition auditConfig :: "boot_env \<Rightarrow> string \<Rightarrow> file_system \<Rightarrow> Config \<Rightarrow> string list \<times> string list" where
  "auditConfig be configFile fs cfg =
     (case fs configFile of
        Some (File data) \<Rightarrow> if bo_readError be = None then UnknownFields (bo_strict be) (bo_fnum be) data else []
      | _ \<Rightarrow> [],
      AuditServerRefs cfg)"

datatype boot =
    Fatal string
  | Exit int "string list" "string list"
  | Serving proc "string list" "string list"

definition main_boot :: "boot_env \<Rightarrow> bool \<Rightarrow> string \<Rightarrow> file_system \<Rightarrow> boot" where
  "main_boot be checkConfig configFile fs =
     (case NewStore (bo_dec be) (bo_readError be) configFile fs of
        Inl e \<Rightarrow> Fatal (''Failed to load config: '' @ e)
      | Inr cfg \<Rightarrow>
          if fs configFile = None \<and> checkConfig then Exit 1 [] []
          else
            (let (states, err) = (if fs configFile = None then save (bo_enc be) (bo_save be) configFile cfg fs else ([fs], None)) in
             case err of
               Some e \<Rightarrow> Fatal (''Failed to create default config: '' @ e)
             | None \<Rightarrow>
                 (case auditConfig be configFile (last states) cfg of
                    (unknownKeys, danglingRefs) \<Rightarrow>
                      if checkConfig then Exit (if danglingRefs \<noteq> [] then 1 else 0) unknownKeys danglingRefs
                      else Serving (start_process (bo_now be) cfg) unknownKeys danglingRefs)))"

subsection \<open>The drain bound\<close>

text \<open>
  \<open>time.ParseDuration\<close>: an unsigned 64-bit count of nanoseconds, where a fraction is computed in
  floating point (exactly, here). \<open>None\<close> stands for each of its errors.
\<close>

definition unitMap :: "(string \<times> nat) list" where
  "unitMap = [(''ns'', 1), (''us'', 1000), ([CHR 0xC2, CHR 0xB5, CHR ''s''], 1000), ([CHR 0xCE, CHR 0xBC, CHR ''s''], 1000),
              (''ms'', 1000000), (''s'', 1000000000), (''m'', 60000000000), (''h'', 3600000000000)]"

fun leadingInt :: "nat \<Rightarrow> string \<Rightarrow> (nat \<times> string) option" where
  "leadingInt x [] = Some (x, [])"
| "leadingInt x (c # s) =
     (if \<not> is_digit c then Some (x, c # s)
      else if x > 2 ^ 63 div 10 then None
      else let x1 = x * 10 + (of_char c - 48) in if x1 > 2 ^ 63 then None else leadingInt x1 s)"

fun leadingFraction :: "nat \<Rightarrow> nat \<Rightarrow> bool \<Rightarrow> string \<Rightarrow> nat \<times> nat \<times> string" where
  "leadingFraction x scale overflow [] = (x, scale, [])"
| "leadingFraction x scale overflow (c # s) =
     (if \<not> is_digit c then (x, scale, c # s)
      else if overflow then leadingFraction x scale True s
      else if x > (2 ^ 63 - 1) div 10 then leadingFraction x scale True s
      else let y = x * 10 + (of_char c - 48)
           in if y > 2 ^ 63 then leadingFraction x scale True s else leadingFraction y (scale * 10) False s)"

definition unit_char :: "char \<Rightarrow> bool" where
  "unit_char c \<longleftrightarrow> \<not> (c = CHR ''.'' \<or> is_digit c)"

text \<open>One number with its unit: its value in nanoseconds, and the rest.\<close>

definition duration_item :: "string \<Rightarrow> (nat \<times> string) option" where
  "duration_item s =
     (if unit_char (hd s) then None
      else case leadingInt 0 s of
        None \<Rightarrow> None
      | Some (v, s1) \<Rightarrow>
          (let pre = (length s1 \<noteq> length s);
               dot = (s1 \<noteq> [] \<and> hd s1 = CHR ''.'');
               (f, scale, s2) = (if dot then leadingFraction 0 1 False (drop 1 s1) else (0, 1, s1));
               post = (dot \<and> length s2 \<noteq> length (drop 1 s1));
               u = takeWhile unit_char s2;
               s3 = dropWhile unit_char s2
           in if \<not> pre \<and> \<not> post then None
              else if u = [] then None
              else case map_of unitMap u of
                None \<Rightarrow> None
              | Some unit \<Rightarrow>
                  if v > 2 ^ 63 div unit then None
                  else let v1 = (v * unit + f * unit div scale) mod 2 ^ 64
                       in if f > 0 \<and> v1 > 2 ^ 63 then None else Some (v1, s3)))"

lemma leadingInt_length: "leadingInt x s = Some (v, t) \<Longrightarrow> length t \<le> length s"
  by (induction x s rule: leadingInt.induct) (auto simp: Let_def split: if_splits)

lemma leadingFraction_length: "leadingFraction x sc b s = (v, sc', t) \<Longrightarrow> length t \<le> length s"
  by (induction s arbitrary: x sc b) (auto simp: Let_def intro: le_SucI split: if_splits)

lemma duration_item_shorter:
  assumes "duration_item s = Some (v, t)"
  shows "length t < length s"
proof -
  obtain w s1 where s1: "leadingInt 0 s = Some (w, s1)" using assms by (auto simp: duration_item_def split: if_splits option.splits)
  obtain f sc s2 where s2: "(if s1 \<noteq> [] \<and> hd s1 = CHR ''.'' then leadingFraction 0 1 False (drop 1 s1) else (0, 1, s1)) = (f, sc, s2)"
    using prod_cases3 by blast
  have le: "length s2 \<le> length s1"
    using s2 leadingFraction_length [of 0 1 False "drop 1 s1" f sc s2] by (auto split: if_splits)
  have "takeWhile unit_char s2 \<noteq> []" "t = dropWhile unit_char s2"
    using assms s1 s2 by (auto simp: duration_item_def Let_def split: if_splits option.splits)
  moreover have "length s2 = length (takeWhile unit_char s2) + length (dropWhile unit_char s2)"
    by (metis length_append takeWhile_dropWhile_id)
  ultimately have "length t < length s2" by simp
  then show ?thesis using leadingInt_length [OF s1] le by linarith
qed

function duration_items :: "nat \<Rightarrow> string \<Rightarrow> nat option" where
  "duration_items d s =
     (if s = [] then Some d
      else case duration_item s of
        None \<Rightarrow> None
      | Some (v, t) \<Rightarrow> let d1 = (d + v) mod 2 ^ 64 in if d1 > 2 ^ 63 then None else duration_items d1 t)"
  by pat_completeness auto
termination by (relation "measure (length \<circ> snd)") (auto simp: duration_item_shorter)

declare duration_items.simps [simp del]

definition ParseDuration :: "string \<Rightarrow> duration option" where
  "ParseDuration s0 =
     (let signed = (s0 \<noteq> [] \<and> (hd s0 = CHR ''-'' \<or> hd s0 = CHR ''+''));
          neg = (signed \<and> hd s0 = CHR ''-'');
          s = (if signed then drop 1 s0 else s0)
      in if s = ''0'' then Some 0
         else if s = [] then None
         else case duration_items 0 s of
           None \<Rightarrow> None
         | Some d \<Rightarrow> if neg then Some (- int d) else if d > 2 ^ 63 - 1 then None else Some (int d))"

definition drainTimeout :: "string \<Rightarrow> duration" where
  "drainTimeout v = (if v = [] then 10 * Second else case ParseDuration v of None \<Rightarrow> 10 * Second | Some d \<Rightarrow> d)"

subsection \<open>What a caller without the token gets\<close>

lemma fixed_part_config: "fixed_part r = fixed_part r' \<Longrightarrow> rt_config r = rt_config r'"
  by (simp add: fixed_part_def)

lemma with_overrides_fixed [simp]:
  "rt_config (with_overrides r) = rt_config r" "fixed_part (with_overrides r) = fixed_part r"
  by (simp_all add: with_overrides_def fixed_part_def)

lemma edge_fixed:
  assumes "edge_ServeHTTP now env q e r = (e', r', a)"
  shows "fixed_part r' = fixed_part r"
  using assms fixed_Handle [of env "routed_request q" "with_overrides r"]
  by (auto simp: edge_ServeHTTP_def split: decision.splits prod.splits)

lemma edge_handler_fixed: "fixed_part (px_router (fst (edge_handler se q p))) = fixed_part (px_router p)"
  by (auto simp: edge_handler_def edge_fixed split: prod.split)

definition static_name :: "server_env \<Rightarrow> http_request \<Rightarrow> string" where
  "static_name se q = (let path = TrimPrefix (hq_path q) ''/admin/'' in if path \<noteq> [] \<and> se_static se path then path else ''index.html'')"

lemma static_handler_file: "static_handler se q p = (p, StaticFile (static_name se q))"
  by (simp add: static_handler_def static_name_def Let_def)

text \<open>
  C5: With a token configured, a request that does not carry it gets nothing from the guarded
  side of the process. Whatever its method, path and body, the configuration is the same
  afterwards and no admin answer is given; and unless it is for a routed endpoint the whole
  process is unchanged and the answer is the same as any other process in the same readiness
  would give, whatever servers, keys, rules, metrics or traces that one holds.
\<close>

theorem no_token_no_access:
  assumes "token \<noteq> []" "\<not> bearer_ok token (hq_headers q)" "mux_ServeHTTP token version se q p = (p', a)"
  shows "rt_config (px_router p') = rt_config (px_router p) \<and> (\<forall>x. a \<noteq> ByAdmin x) \<and>
    (findHandler (se_unescape se) (hq_method q) (hq_escapedPath q) \<noteq> Found ToEdge \<longrightarrow>
       p' = p \<and> (\<forall>p2. px_draining p2 = px_draining p \<longrightarrow> snd (mux_ServeHTTP token version se q p2) = a))"
proof (cases "hq_escapedPath q \<noteq> ''*'' \<and> findHandler (se_unescape se) (hq_method q) (hq_escapedPath q) = Found ToEdge")
  case True
  then have "edge_handler se q p = (p', a)" using assms(3) by (simp add: mux_ServeHTTP_def)
  moreover have "\<forall>x. a \<noteq> ByAdmin x" using calculation
    by (auto simp: edge_handler_def edge_ServeHTTP_def split: decision.splits prod.splits)
  ultimately show ?thesis using edge_handler_fixed [of se q p] True by (simp add: fixed_part_def)
next
  case False
  then have "p' = p \<and> (\<forall>x. a \<noteq> ByAdmin x) \<and>
      (\<forall>p2. px_draining p2 = px_draining p \<longrightarrow> snd (mux_ServeHTTP token version se q p2) = a)"
    using assms
    by (cases "findHandler (se_unescape se) (hq_method q) (hq_escapedPath q)"; cases "hq_escapedPath q = ''*''")
      (auto simp: mux_ServeHTTP_def tokenGuard_def ready_ServeHTTP_def static_handler_file http_Error_def unauthorized_def
        split: target.splits)
  then show ?thesis by simp
qed

definition example_senv :: server_env where
  "example_senv = \<lparr>se_now = 0, se_env = example_env, se_admin = example_admin, se_unescape = id, se_static = (\<lambda>_. False),
     se_float = (\<lambda>_. ''0''), se_order = []\<rparr>"

definition example_http :: "string \<Rightarrow> string \<Rightarrow> string \<Rightarrow> http_request" where
  "example_http method path auth = \<lparr>hq_method = method, hq_escapedPath = path, hq_path = path, hq_remoteAddr = ''10.0.0.1:80'',
     hq_headers = [(''Authorization'', auth)], hq_query = [], hq_body = []\<rparr>"

theorem no_token_no_access_witness:
  "mux_ServeHTTP ''t'' ''dev'' example_senv (example_http ''GET'' ''/admin/api/config'' ''Bearer x'') (start_process 0 example_config) =
     (start_process 0 example_config, unauthorized)"
proof -
  let ?q = "example_http ''GET'' ''/admin/api/config'' ''Bearer x''"
  have f: "findHandler (se_unescape example_senv) (hq_method ?q) (hq_escapedPath ?q) = Found ToAdmin" by code_simp
  have b: "\<not> bearer_ok ''t'' (hq_headers ?q)" by code_simp
  obtain p' a where run: "mux_ServeHTTP ''t'' ''dev'' example_senv ?q (start_process 0 example_config) = (p', a)" by fastforce
  have "''t'' \<noteq> []" by simp
  from no_token_no_access [OF this b run] f have "p' = start_process 0 example_config" by simp
  moreover have "a = unauthorized" using run f b by (simp add: mux_ServeHTTP_def tokenGuard_def example_http_def)
  ultimately show ?thesis using run by simp
qed

subsection \<open>The process between requests\<close>

datatype event =
    Arrives server_env http_request
  | Probes "string \<Rightarrow> gotime option" network gotime
  | Signalled

definition probe_tick :: "(string \<Rightarrow> gotime option) \<Rightarrow> network \<Rightarrow> gotime \<Rightarrow> proc \<Rightarrow> proc" where
  "probe_tick parseTime net now p = (let r = px_router p in case rt_health r of
     None \<Rightarrow> p
   | Some t \<Rightarrow>
       (case checkAll parseTime net now (rt_config r) t (js_caps (rt_jev r)) of
          (t', caps, _) \<Rightarrow> p\<lparr>px_router := r\<lparr>rt_health := Some t', rt_jev := (rt_jev r)\<lparr>js_caps := caps\<rparr>\<rparr>\<rparr>))"

definition SetDraining :: "bool \<Rightarrow> proc \<Rightarrow> proc" where
  "SetDraining v p = p\<lparr>px_draining := v\<rparr>"

fun proc_step :: "string \<Rightarrow> string \<Rightarrow> event \<Rightarrow> proc \<Rightarrow> proc" where
  "proc_step token version (Arrives se q) p = fst (mux_ServeHTTP token version se q p)"
| "proc_step token version (Probes parseTime net now) p = probe_tick parseTime net now p"
| "proc_step token version Signalled p = SetDraining True p"

definition proc_run :: "string \<Rightarrow> string \<Rightarrow> event list \<Rightarrow> proc \<Rightarrow> proc" where
  "proc_run token version evs p = fold (proc_step token version) evs p"

lemma mux_px_draining: "px_draining (fst (mux_ServeHTTP token version se q p)) = px_draining p"
  by (auto simp: mux_ServeHTTP_def tokenGuard_def admin_handler_def version_handler_def metrics_handler_def static_handler_file
      edge_handler_def on_reload_def Let_def split: found.split target.split prod.split)

text \<open>
  What keeps a property of the shared state alive: the router, the admin API, the reload hook and
  the prober each keep it. Then every request and every run of the process does.
\<close>

locale shared_state =
  fixes I :: "router \<Rightarrow> bool"
  assumes routed: "I r \<Longrightarrow> I (fst (Handle env rq (with_overrides r)))"
    and administered: "I r \<Longrightarrow> I (fst (admin_serve ae d arq rt r))"
    and reloaded: "I r \<Longrightarrow> I (apply_to_router r)"
    and probed: "I r \<Longrightarrow> rt_health r = Some t \<Longrightarrow> I (r\<lparr>rt_health := Some t', rt_jev := js\<rparr>)"
begin

lemma keeps_edge:
  assumes "I (px_router p)"
  shows "I (px_router (fst (edge_handler se q p)))"
proof -
  have "I r'" if "Handle env (routed_request q) (with_overrides (px_router p)) = (r', x)" for env r' x
    using routed [OF assms, of env "routed_request q"] that by simp
  then show ?thesis using assms
    by (auto simp: edge_handler_def edge_ServeHTTP_def split: decision.splits prod.splits)
qed

lemma keeps_mux:
  assumes "I (px_router p)"
  shows "I (px_router (fst (mux_ServeHTTP token version se q p)))"
proof -
  have "I (px_router (fst (admin_handler se q p)))"
    using administered [OF assms] reloaded
    by (auto simp: admin_handler_def admin_ServeHTTP_def on_reload_def Let_def split: prod.split) (metis fst_conv)+
  then show ?thesis using assms keeps_edge
    by (auto simp: mux_ServeHTTP_def tokenGuard_def version_handler_def metrics_handler_def static_handler_file
        split: found.split target.split)
qed

lemma keeps_probe: "I (px_router p) \<Longrightarrow> I (px_router (probe_tick parseTime net now p))"
  by (auto simp: probe_tick_def Let_def probed split: option.split prod.split)

lemma keeps_step: "I (px_router p) \<Longrightarrow> I (px_router (proc_step token version e p))"
  by (cases e) (simp_all add: keeps_mux keeps_probe SetDraining_def)

lemma keeps_run: "I (px_router p) \<Longrightarrow> I (px_router (proc_run token version evs p))"
  unfolding proc_run_def by (induction evs arbitrary: p) (simp_all add: keeps_step)

end

definition at_rest :: "router \<Rightarrow> bool" where
  "at_rest r \<longleftrightarrow> rt_inflight r = (\<lambda>_. 0) \<and> ms_activeRequests (rt_metrics r) = 0 \<and>
     (\<exists>q. rt_quota r = Some q \<and> q_reserved q = (\<lambda>_. 0)) \<and>
     rt_health r \<noteq> None \<and> rt_rateLimit r \<noteq> None \<and> rt_trace r \<noteq> None"

lemma at_rest_Handle:
  assumes "at_rest r"
  shows "at_rest (fst (Handle env rq (with_overrides r)))"
proof -
  have w: "at_rest (with_overrides r)" using assms by (auto simp: at_rest_def with_overrides_def SetLimitOverride_def)
  then have "quota_sane (with_overrides r)" by (auto simp: at_rest_def quota_sane_def)
  from taken_Handle [OF this, of env rq] fixed_Handle [of env rq "with_overrides r"] w show ?thesis
    by (auto simp: at_rest_def taken_def fixed_part_def)
qed

interpretation rest: shared_state at_rest
proof unfold_locales
  show "at_rest (fst (admin_serve ae d arq rt r))" if "at_rest r" for ae d arq rt r
    using that by (cases rt) (auto simp: at_rest_def admin_defs Let_def metrics_Reset_def split: option.splits prod.splits)
qed (auto simp: at_rest_Handle, auto simp: at_rest_def apply_to_router_def split: option.splits prod.splits)

lemma at_rest_start: "at_rest (px_router (start_process now cfg))"
  by (simp add: start_process_def Let_def apply_to_router_def router_New_def at_rest_def metrics_New_def SetLimitOverride_def
      NewQuotaTracker_def split: prod.split)

lemma no_admin_panic:
  assumes "at_rest (px_router p)"
  shows "snd (mux_ServeHTTP token version se q p) \<noteq> ByAdmin APanics"
proof -
  have "snd (admin_serve ae d rq rt (px_router p)) \<noteq> APanics" for ae d rq rt
    using assms
    by (cases rt) (auto simp: at_rest_def admin_defs Let_def listRules_def listProfiles_def getConfig_def getMetrics_def getRecentRequests_def getServerModels_def
        testServer_def getTrace_def setTrace_def convertPreview_def convertPreviewFor_def split: option.splits prod.splits sum.splits if_splits)
  then have "snd (admin_handler se q p) \<noteq> ByAdmin APanics"
    by (auto simp: admin_handler_def admin_ServeHTTP_def Let_def split: prod.split) (metis snd_conv)
  moreover have "snd (metrics_handler se q p) \<noteq> ByAdmin APanics"
    using assms by (auto simp: metrics_handler_def at_rest_def http_Error_def)
  moreover have "snd (edge_handler se q p) \<noteq> ByAdmin APanics"
    by (auto simp: edge_handler_def edge_ServeHTTP_def split: decision.splits prod.splits)
  ultimately show ?thesis
    by (auto simp: mux_ServeHTTP_def tokenGuard_def version_handler_def static_handler_file ready_ServeHTTP_def http_Error_def
        unauthorized_def split: found.split target.split)
qed

lemma px_draining_run: "px_draining (proc_run token version evs p) \<longleftrightarrow> px_draining p \<or> Signalled \<in> set evs"
proof -
  have "px_draining (proc_step token version e p) \<longleftrightarrow> px_draining p \<or> e = Signalled" for e p
    by (cases e) (auto simp: mux_px_draining probe_tick_def SetDraining_def Let_def split: option.split prod.split)
  then show ?thesis unfolding proc_run_def by (induction evs arbitrary: p) auto
qed

lemma findHandler_readyz: "unesc ''readyz'' = ''readyz'' \<Longrightarrow> findHandler unesc method ''/readyz'' = Found ToReady"
  by (simp add: findHandler_def cleanPath_def path_Clean_def mux_match_def mux_def pattern_of_def path_segs_def pattern_matches_def
      more_specific_def exactMatch_def HasSuffix_def Let_def)

text \<open>
  C2: The process is at rest between requests. From its start, after any requests to any of its
  endpoints (routed, refused, admin writes, reloads of any file), probe rounds and a shutdown
  signal, in any order, no server counts a request in flight, no request is active and no
  token is reserved; the trackers are all there, so that no admin or metrics request can run
  into a missing one; and \<open>/readyz\<close> answers ready exactly until the signal.
\<close>

theorem process_at_rest:
  assumes "se_unescape se ''readyz'' = ''readyz''" "hq_escapedPath rq = ''/readyz''"
  shows "let p = proc_run token version evs (start_process now cfg) in
    (\<forall>i. rt_inflight (px_router p) i = 0) \<and> ms_activeRequests (rt_metrics (px_router p)) = 0 \<and>
    (\<exists>q. rt_quota (px_router p) = Some q \<and> (\<forall>i. q_reserved q i = 0)) \<and>
    (\<forall>se q. snd (mux_ServeHTTP token version se q p) \<noteq> ByAdmin APanics) \<and>
    snd (mux_ServeHTTP token version se rq p) =
      (if Signalled \<in> set evs then http_Error 503 ''draining'' else Plain 200 [] ''ready'')"
proof -
  define p where "p = proc_run token version evs (start_process now cfg)"
  have rest: "at_rest (px_router p)" unfolding p_def by (intro rest.keeps_run at_rest_start)
  have "px_draining p \<longleftrightarrow> Signalled \<in> set evs"
    using px_draining_run [of token version evs "start_process now cfg"] by (simp add: p_def start_process_def Let_def)
  then have "snd (mux_ServeHTTP token version se rq p) =
      (if Signalled \<in> set evs then http_Error 503 ''draining'' else Plain 200 [] ''ready'')"
    using assms by (simp add: mux_ServeHTTP_def findHandler_readyz ready_ServeHTTP_def)
  then show ?thesis
    using rest no_admin_panic [OF rest] unfolding p_def [symmetric] Let_def by (auto simp: at_rest_def)
qed

theorem process_at_rest_witness:
  "snd (mux_ServeHTTP [] ''dev'' example_senv (example_http ''GET'' ''/readyz'' [])
     (proc_run [] ''dev'' [Arrives example_senv (example_http ''POST'' ''/v1/chat/completions'' []), Signalled,
        Arrives example_senv (example_http ''POST'' ''/admin/api/config/reload'' [])] (start_process 0 example_config))) =
   http_Error 503 ''draining''"
proof -
  have "se_unescape example_senv ''readyz'' = ''readyz''" "hq_escapedPath (example_http ''GET'' ''/readyz'' []) = ''/readyz''"
    by (simp_all add: example_senv_def example_http_def)
  from process_at_rest [OF this, of "[]" "''dev''" "[Arrives example_senv (example_http ''POST'' ''/v1/chat/completions'' []), Signalled,
        Arrives example_senv (example_http ''POST'' ''/admin/api/config/reload'' [])]" 0 example_config]
  show ?thesis by (simp add: Let_def)
qed

subsection \<open>What the configuration check promises\<close>

definition scan_result :: "rule_scan \<Rightarrow> RoutingRule option" where
  "scan_result x = (case x of Inl r \<Rightarrow> Some r | Inr best \<Rightarrow> fst best)"

lemma scan_names_result: "scan_result (scan_names model rule ns best) = Some r \<Longrightarrow> r = rule \<or> fst best = Some r"
  by (induction model rule ns best rule: scan_names.induct) (auto simp: scan_result_def split: if_splits)

lemma scan_rules_result: "scan_result (scan_rules model rules best) = Some r \<Longrightarrow> r \<in> set rules \<or> fst best = Some r"
proof (induction model rules best rule: scan_rules.induct)
  case (2 model rule rules best)
  then show ?case using scan_names_result [of model rule "rule_IncomingModels rule" best r]
    by (auto simp: scan_result_def split: if_splits sum.splits)
qed (simp add: scan_result_def)

lemma GetRuleByModel_among:
  assumes "GetRuleByModel cfg model = Some r"
  shows "r \<in> all_rules cfg"
proof -
  obtain k where k: "activeProfile cfg = Some k" using assms by (auto simp: GetRuleByModel_def split: option.splits)
  then have "k < length (cfg_Profiles cfg)" by (rule activeProfile_bound)
  moreover have "scan_result (scan_rules model (prof_Rules (cfg_Profiles cfg ! k)) (None, 0)) = Some r"
    using assms k by (auto simp: GetRuleByModel_def scan_result_def split: sum.splits prod.splits)
  ultimately show ?thesis using scan_rules_result nth_mem by (fastforce simp: all_rules_def)
qed

definition server_missing :: "string \<Rightarrow> response" where
  "server_missing i = HTTPError 500 (''server '' @ go_quote i @ '' not found'')"

lemma retry_loop_answer: "snd (retry_loop env cx ap retry L) \<noteq> Some (HTTPError st msg)"
  by (rule retry_loop_rule [where ap = ap and Q = "\<lambda>x. snd x \<noteq> Some (HTTPError st msg)"
      and I = "\<lambda>_ _. True" and J = "\<lambda>_ _. True"]) simp_all

lemma attempt_loop_answer: "snd (attempt_loop env cx i as L) \<noteq> Answered (server_missing s)"
proof (rule attempt_loop_rule [where I = "\<lambda>_ _ _. True" and K = "\<lambda>_ _ _ _. True"
      and Q = "\<lambda>x. snd x \<noteq> Answered (server_missing s)"])
  fix i a L plan body strip dropped res L1 L4 x
  assume "retry_loop env cx (attempt_of cx i a plan body strip dropped res (lp_errors L)) 0 L1 = (L4, x)"
  then have "x \<noteq> Some (server_missing s)"
    using retry_loop_answer [of env cx "attempt_of cx i a plan body strip dropped res (lp_errors L)" 0 L1] by (simp add: server_missing_def)
  then show "case x of Some resp \<Rightarrow> snd (L4, Answered resp) \<noteq> Answered (server_missing s) | None \<Rightarrow> True"
    by (auto split: option.split)
qed (auto simp: server_missing_def)

lemma run_attempts_answer: "snd (run_attempts env cx attempts r) \<noteq> Answered (server_missing s)"
  by (rule run_attempts_cases [of env cx attempts r]) (auto simp: attempt_loop_answer, simp add: server_missing_def)

lemma conclude_answer:
  assumes "snd run \<noteq> Answered (server_missing s)"
  shows "snd (conclude env cx first run) \<noteq> server_missing s"
  using assms by (cases run) (auto simp: conclude_def serveLastAnswer_def server_missing_def Let_def split: loop_end.splits option.splits)

lemma route_answer:
  assumes "\<And>rule. GetRuleByModel (rt_config r) model = Some rule \<Longrightarrow> IsJev rule \<or> GetServer (rt_config r) (rule_ServerID rule) \<noteq> None"
  shows "snd (route env rq model r) \<noteq> server_missing s"
proof (cases "GetRuleByModel (rt_config r) model")
  case (Some rule)
  have other: "HTTPError 400 m \<noteq> server_missing s" "HTTPError 500 ''routing rule has no usable backend'' \<noteq> server_missing s" for m
    by (simp_all add: server_missing_def)
  show ?thesis using assms [OF Some] Some
    by (auto simp: route_def Let_def split_beta other conclude_answer run_attempts_answer split: option.split bool.split)
qed (simp add: route_def server_missing_def)

lemma Handle_answer:
  assumes "\<And>model rule. GetRuleByModel (rt_config r) model = Some rule \<Longrightarrow> IsJev rule \<or> GetServer (rt_config r) (rule_ServerID rule) \<noteq> None"
  shows "snd (Handle env rq r) \<noteq> server_missing s"
proof -
  have "snd (route env rq m (r\<lparr>rt_metrics := IncrActive (rt_metrics r)\<rparr>)) \<noteq> server_missing s" for m
    using assms by (intro route_answer) simp
  then show ?thesis
    by (auto simp: Handle_def Let_def split_beta server_missing_def split: sum.split)
qed

definition refs_resolve :: "Config \<Rightarrow> bool" where
  "refs_resolve cfg \<longleftrightarrow> (\<forall>rule \<in> all_rules cfg. \<forall>i \<in> rule_refs rule. GetServer cfg i \<noteq> None)"

lemma AuditServerRefs_Nil: "AuditServerRefs cfg = [] \<longleftrightarrow> refs_resolve cfg"
  by (auto simp: AuditServerRefs_def refs_resolve_def all_rules_def rule_refs_def GetServer_def filter_empty_conv)

lemma start_config: "rt_config (px_router (start_process now cfg)) = cfg"
  by (simp add: start_process_def Let_def apply_to_router_def router_New_def split: prod.split)

lemma check_config_exit:
  "(\<exists>uk dr. main_boot be True path fs = Exit 0 uk dr) \<longleftrightarrow>
     (\<exists>cfg. NewStore (bo_dec be) (bo_readError be) path fs = Inr cfg \<and> fs path \<noteq> None \<and> refs_resolve cfg)"
  by (auto simp: main_boot_def auditConfig_def AuditServerRefs_Nil Let_def split: sum.splits if_splits option.splits prod.splits)

lemma boot_config:
  assumes "main_boot be b path fs = Serving p uk dr"
  shows "NewStore (bo_dec be) (bo_readError be) path fs = Inr (rt_config (px_router p))"
  using assms by (auto simp: main_boot_def start_config Let_def split: sum.splits if_splits option.splits prod.splits)

text \<open>
  C12: The deploy-time check is worth its exit code. It exits 0 exactly for a file that exists,
  loads, and in which every server any rule names (primary, fallback, decision server or
  candidate, in any profile) is defined. And when it does, a router started on that file never
  answers that a rule's server is not found, whatever request comes, whatever the backends do
  and in whatever state its trackers are, provided each rule names a primary server or is
  routed by jev.
\<close>

theorem check_config_guards_routing:
  assumes "main_boot be True path fs = Exit 0 uk dr" "main_boot be False path fs = Serving p uk' dr'"
    "\<forall>rule \<in> all_rules (rt_config (px_router p)). IsJev rule \<or> rule_ServerID rule \<noteq> []"
    "rt_config r = rt_config (px_router p)"
  shows "refs_resolve (rt_config r) \<and> (\<forall>s. snd (Handle env rq r) \<noteq> HTTPError 500 (''server '' @ go_quote s @ '' not found''))"
proof -
  have ok: "refs_resolve (rt_config r)"
    using check_config_exit [of be path fs] assms(1,4) boot_config [OF assms(2)] by auto
  have "IsJev rule \<or> GetServer (rt_config r) (rule_ServerID rule) \<noteq> None" if "GetRuleByModel (rt_config r) model = Some rule" for model rule
    using GetRuleByModel_among [OF that] ok assms(3,4) by (auto simp: refs_resolve_def rule_refs_eq)
  then show ?thesis using ok Handle_answer [of r env rq] by (auto simp: server_missing_def)
qed

definition example_boot :: boot_env where
  "example_boot = \<lparr>bo_dec = example_dec, bo_enc = example_enc, bo_strict = (\<lambda>_. None), bo_fnum = id, bo_readError = None,
     bo_save = example_io, bo_now = 0\<rparr>"

lemma example_boots:
  "main_boot example_boot True ''c'' [''c'' \<mapsto> File ''new''] = Exit 0 [] []"
  "main_boot example_boot False ''c'' [''c'' \<mapsto> File ''new''] = Serving (start_process 0 example_config) [] []"
proof -
  have "store_inv example_config" "no_legacy example_config"
    by (auto simp: store_inv_def servers_keyed_def no_legacy_def example_config_def example_server_def example_rule_def)
  then have n: "normalize_config example_config = example_config" by (rule normalize_id)
  have "NewStore example_dec None ''c'' [''c'' \<mapsto> File ''new''] = Inr example_config"
    by (simp add: NewStore_def store_Load_def read_config_def Load_def example_dec_def n)
  moreover have "AuditServerRefs example_config = []" by code_simp
  moreover have "UnknownFields (\<lambda>_. None) id ''new'' = []"
    by (simp add: UnknownFields_def unknown_scan.simps unknownFieldScanCap_def)
  ultimately show "main_boot example_boot True ''c'' [''c'' \<mapsto> File ''new''] = Exit 0 [] []"
    "main_boot example_boot False ''c'' [''c'' \<mapsto> File ''new''] = Serving (start_process 0 example_config) [] []"
    by (simp_all add: main_boot_def example_boot_def auditConfig_def)
qed

theorem check_config_guards_routing_witness:
  "snd (Handle example_env example_request (px_router (start_process 0 example_config))) \<noteq> HTTPError 500 ''server \"a\" not found''"
proof -
  have "\<forall>rule \<in> all_rules (rt_config (px_router (start_process 0 example_config))). IsJev rule \<or> rule_ServerID rule \<noteq> []"
    by (simp add: start_config all_rules_def example_config_def example_rule_def)
  from check_config_guards_routing [OF example_boots this refl, of example_env example_request]
  have "snd (Handle example_env example_request (px_router (start_process 0 example_config))) \<noteq>
      HTTPError 500 (''server '' @ go_quote ''a'' @ '' not found'')" by blast
  moreover have "go_quote ''a'' = ''\"a\"''" by code_simp
  ultimately show ?thesis by simp
qed

text \<open>
  The proviso is needed: the audit skips an empty primary server, so a hand-written rule without
  one passes the check and then fails every request it routes.
\<close>

definition serverless :: Config where
  "serverless = example_config\<lparr>cfg_Profiles := [hd (cfg_Profiles example_config)
     \<lparr>prof_Rules := [example_rule\<lparr>rule_ServerID := []\<rparr>]\<rparr>]\<rparr>"

lemma check_misses_empty_server:
  "AuditServerRefs serverless = []"
  "snd (route env rq ''m'' (px_router (start_process now serverless))) = HTTPError 500 ''server \"\" not found''"
proof -
  show "AuditServerRefs serverless = []" by code_simp
  have "GetRuleByModel serverless ''m'' = Some (example_rule\<lparr>rule_ServerID := []\<rparr>)" by code_simp
  moreover have "GetServer serverless [] = None" by code_simp
  moreover have "\<not> IsJev (example_rule\<lparr>rule_ServerID := []\<rparr>)" by code_simp
  moreover have "go_quote [] = ''\"\"''" by code_simp
  ultimately show "snd (route env rq ''m'' (px_router (start_process now serverless))) = HTTPError 500 ''server \"\" not found''"
    by (simp add: route_def start_config)
qed

subsection \<open>Reloading\<close>

text \<open>
  A reload that succeeds starts the inbound limit over: the counter of refused requests, which
  the metrics page declares a counter, goes back to zero, and every client has a full bucket.
\<close>

lemma reload_restarts_limit:
  "edge_Denied (px_edge (on_reload p)) = 0"
  "ce_limiter (px_edge (on_reload p)) = Some l \<Longrightarrow> balance l key t = il_burst l"
  by (auto simp: on_reload_def Rebuild_def edge_Denied_def Denied_def NewInboundLimiter_def balance_def Let_def split: if_splits)

text \<open>
  A setting that is removed from the file stays in force: the setters take a zero for no
  change, so only a restart goes back to the default. A webhook that is removed is cleared.
\<close>

lemma removed_setting_stays:
  assumes "set_Health s = \<lparr>hs_IntervalSeconds = 0, hs_TimeoutSeconds = 0, hs_Path = []\<rparr>"
    "set_Limiter s = \<lparr>ls_AllowedFails = 0, ls_CooldownSeconds = 0\<rparr>"
  shows "applyRuntimeSettings s h l = (ht_SetAlerter h (al_Webhook (set_Alerts s) \<noteq> []), rl_SetAlerter l (al_Webhook (set_Alerts s) \<noteq> []))"
  using assms by (simp add: applyRuntimeSettings_def Let_def SetInterval_def SetProbe_def SetThresholds_def NewWebhookAlerter_def wrap64_def)

subsection \<open>The drain bound is what was written\<close>

lemma digits_value_mono: "digits_value x ds = Some v \<Longrightarrow> x \<le> v"
proof (induction ds arbitrary: x)
  case (Cons c ds)
  then have "10 * x + (of_char c - 48) \<le> v" by (auto split: if_splits)
  then show ?case by simp
qed simp

lemma leadingInt_digits:
  assumes "digits_value x ds = Some v" "v \<le> 2 ^ 63" "s \<noteq> []" "\<not> is_digit (hd s)"
  shows "leadingInt x (ds @ s) = Some (v, s)"
  using assms(1)
proof (induction ds arbitrary: x)
  case Nil
  then show ?case using assms(3,4) by (cases s) simp_all
next
  case (Cons c ds)
  then have d: "is_digit c" "digits_value (10 * x + (of_char c - 48)) ds = Some v" by (auto split: if_splits)
  have "10 * x + (of_char c - 48) \<le> 2 ^ 63" using digits_value_mono [OF d(2)] assms(2) by linarith
  then show ?case using Cons.IH [OF d(2)] d(1) by (simp add: Let_def mult.commute)
qed

lemma digits_value_append: "digits_value x (ds @ es) = (case digits_value x ds of Some y \<Rightarrow> digits_value y es | None \<Rightarrow> None)"
  by (induction ds arbitrary: x) simp_all

lemma digit_char_value: "n < 10 \<Longrightarrow> is_digit (digit_char n) \<and> of_char (digit_char n) = (48 + n :: nat)"
  by (simp add: is_digit_def digit_char_def)

lemma digits_value_show: "digits_value 0 (show_nat n) = Some n"
proof (induction n rule: show_nat.induct)
  case (1 n)
  then show ?case using digit_char_value [of "n mod 10"] digit_char_value [of n]
    by (cases "n < 10") (simp_all add: digits_value_append show_nat.simps [of n])
qed

lemma show_nat_start: "show_nat n \<noteq> [] \<and> is_digit (hd (show_nat n))"
proof -
  have "show_nat n \<noteq> []" by (simp add: show_nat.simps [of n])
  then show ?thesis using show_nat_digits [of "hd (show_nat n)" n] by simp
qed

lemma unitMap_units:
  assumes "(u, k) \<in> set unitMap"
  shows "u \<noteq> []" "\<forall>c \<in> set u. unit_char c" "map_of unitMap u = Some k" "0 < k"
  using assms by (auto simp: unitMap_def unit_char_def is_digit_def)

lemma duration_item_whole:
  assumes "(u, k) \<in> set unitMap" "n * k < 2 ^ 63"
  shows "duration_item (show_nat n @ u) = Some (n * k, [])"
proof -
  note u = unitMap_units [OF assms(1)]
  have hd: "unit_char (hd u)" using u(1,2) by simp
  have "n \<le> n * k" using u(4) by simp
  then have n: "n \<le> 2 ^ 63" using assms(2) by linarith
  have tw: "takeWhile unit_char u = u" "dropWhile unit_char u = []" using u(2) by auto
  have "leadingInt 0 (show_nat n @ u) = Some (n, u)"
    using hd by (intro leadingInt_digits digits_value_show n u(1)) (simp add: unit_char_def)
  moreover have "n \<le> 2 ^ 63 div k" using assms(2) u(4) by (simp add: less_eq_div_iff_mult_less_eq)
  moreover have "\<not> unit_char (hd (show_nat n @ u))" "show_nat n \<noteq> []" using show_nat_start [of n] by (simp_all add: unit_char_def)
  moreover have "n * k mod 2 ^ 64 = n * k" using assms(2) by simp
  moreover have "hd u \<noteq> CHR ''.''" using hd by (simp add: unit_char_def)
  ultimately show ?thesis using u(1,3) unfolding duration_item_def by (simp add: Let_def tw)
qed

lemma duration_items_bound: "duration_items d s = Some v \<Longrightarrow> d \<le> 2 ^ 63 \<Longrightarrow> v \<le> 2 ^ 63"
proof (induction d s rule: duration_items.induct)
  case (1 d s)
  show ?case
  proof (cases "s = []")
    case False
    then obtain w t where w: "duration_item s = Some (w, t)" using "1.prems" by (auto simp: duration_items.simps [of d s] split: option.splits)
    let ?d = "(d + w) mod 2 ^ 64"
    have "?d \<le> 2 ^ 63" "duration_items ?d t = Some v"
      using "1.prems"(1) False w by (auto simp: duration_items.simps [of d s] Let_def split: if_splits)
    then show ?thesis using "1.IH" [OF False w refl refl] by (simp add: not_less)
  qed (use 1 in \<open>simp add: duration_items.simps [of d "[]"]\<close>)
qed

lemma drainTimeout_range: "- (2 ^ 63) \<le> drainTimeout v \<and> drainTimeout v < 2 ^ 63"
proof -
  have "- (2 ^ 63) \<le> d \<and> d < 2 ^ 63" if "ParseDuration v = Some d" for d
    using that duration_items_bound [of 0] by (fastforce simp: ParseDuration_def Let_def split: if_splits option.splits)
  then show ?thesis by (auto simp: drainTimeout_def Second_def split: option.split)
qed

text \<open>
  The drain bound is the one that was configured. A whole number of any unit, with or without
  a sign, that fits the 64-bit duration is read exactly; and whatever \<open>DRAIN_TIMEOUT\<close> holds, the
  bound is a 64-bit duration, never a wrapped one.
\<close>

theorem drain_timeout_exact:
  assumes "(u, k) \<in> set unitMap" "n * k < 2 ^ 63"
  shows "drainTimeout (show_nat n @ u) = int (n * k) \<and> drainTimeout (''-'' @ show_nat n @ u) = - int (n * k) \<and>
    - (2 ^ 63) \<le> drainTimeout v \<and> drainTimeout v < 2 ^ 63"
proof -
  have items: "duration_items 0 (show_nat n @ u) = Some (n * k)"
    using assms(2) show_nat_start [of n] unitMap_units(1) [OF assms(1)]
    by (simp add: duration_items.simps [of 0 "show_nat n @ u"] duration_items.simps [of "n * k" "[]"] duration_item_whole [OF assms])
  have "is_digit (hd (show_nat n @ u))" using show_nat_start [of n] by simp
  then have unsigned: "hd (show_nat n @ u) \<noteq> CHR ''-''" "hd (show_nat n @ u) \<noteq> CHR ''+''" by (auto simp: is_digit_def)
  have "show_nat n @ u \<noteq> ''0''"
    using show_nat_start [of n] unitMap_units(1) [OF assms(1)] by (cases "show_nat n") auto
  then have "ParseDuration (show_nat n @ u) = Some (int (n * k))" "ParseDuration (''-'' @ show_nat n @ u) = Some (- int (n * k))"
    using items unsigned show_nat_start [of n] assms(2) by (simp_all add: ParseDuration_def Let_def)
  then show ?thesis using drainTimeout_range [of v] show_nat_start [of n] by (simp add: drainTimeout_def)
qed

theorem drain_timeout_exact_witness: "drainTimeout ''300s'' = 300 * Second \<and> drainTimeout ''-5m'' = - 5 * Minute"
proof -
  have "(''s'', 1000000000) \<in> set unitMap" "(''m'', 60000000000) \<in> set unitMap" by (simp_all add: unitMap_def)
  note u = this
  have "show_nat 300 = ''300''" "show_nat 5 = ''5''" by code_simp+
  then show ?thesis
    using drain_timeout_exact [OF u(1), of 300] drain_timeout_exact [OF u(2), of 5] by (simp add: Second_def Minute_def)
qed

end
