(* ===== verification/Wiring.thy ===== *)
theory Wiring
  imports RouterProps ProxyProps
begin

text \<open>
  The router over the proxy: what holds of a request when the exchanges of its attempt loop
  are those of \<open>StreamProxy\<close>.
\<close>

subsection \<open>Only failures that sent nothing are followed by another call\<close>

definition may_repeat :: "env \<Rightarrow> nat \<Rightarrow> send_request \<Rightarrow> bool" where
  "may_repeat env k sn = (case ex_sent (ev_send env k sn) of
     Buffered _ _ _ _ \<Rightarrow> True | Failed _ _ _ \<Rightarrow> True | _ \<Rightarrow> False)"

definition repeatable :: "env \<Rightarrow> nat \<Rightarrow> loop \<Rightarrow> bool" where
  "repeatable env n L \<longleftrightarrow> lp_calls L = length (lp_log L) \<and> (\<forall>k < length (lp_log L) - n. may_repeat env k (lp_log L ! k))"

lemma repeatable_cong: "lp_calls L' = lp_calls L \<Longrightarrow> lp_log L' = lp_log L \<Longrightarrow> repeatable env n L' = repeatable env n L"
  by (simp add: repeatable_def)

lemma calls_frame [simp]:
  "lp_calls (served_exit cx ap now n pm L) = lp_calls L" "lp_calls (gone_exit cx ap now n x L) = lp_calls L"
  "lp_calls (midstream_exit cx ap now n pm L) = lp_calls L" "lp_calls (note_failure ap x L) = lp_calls L"
  "lp_calls (fallback_exit ap now x L) = lp_calls L"
  by (simp_all add: served_exit_def gone_exit_def midstream_exit_def note_failure_def fallback_exit_def Let_def split: sent.split)

lemma send_once_repeatable:
  assumes "repeatable env 0 L" "send_once env ap n L = (ex, L1)"
  shows "repeatable env 1 L1" "may_repeat env (lp_calls L) (last (lp_log L1)) \<Longrightarrow> repeatable env 0 L1"
    "ex = ev_send env (lp_calls L) (last (lp_log L1))"
  using assms by (auto simp: repeatable_def send_once_def Let_def nth_append less_Suc_eq)

definition ends_repeatable :: "env \<Rightarrow> loop \<times> response option \<Rightarrow> bool" where
  "ends_repeatable env run \<longleftrightarrow> repeatable env (if snd run = None then 0 else 1) (fst run)"

lemma retry_loop_repeatable:
  assumes "repeatable env 0 L"
  shows "ends_repeatable env (retry_loop env cx ap n L)"
  using assms
proof (induction "nat (ap_numRetries ap - int n)" arbitrary: n L rule: less_induct)
  case less
  obtain ex L1 where so: "send_once env ap n L = (ex, L1)" by fastforce
  note after = send_once_repeatable [OF less.prems so]
  have keep: "repeatable env k (f L1) = repeatable env k L1"
    if "lp_calls (f L1) = lp_calls L1" "lp_log (f L1) = lp_log L1" for f k
    using that by (rule repeatable_cong)
  have rec: "ends_repeatable env (retry_loop env cx ap (Suc n) (note_failure ap x L1))"
    if "int n < retries_left x (ap_numRetries ap) (ap_explicit ap)" "repeatable env 0 L1" for x
  proof -
    have "int n < ap_numRetries ap" using that(1) retries_left_le [of x "ap_numRetries ap" "ap_explicit ap"] by linarith
    then show ?thesis using that(2) by (intro less.hyps) (auto simp: repeatable_def frame)
  qed
  show ?case
  proof (cases "ex_sent ex")
    case (Served pm)
    with after(1) show ?thesis
      by (subst retry_loop.simps) (simp add: so Let_def ends_repeatable_def repeatable_def frame)
  next
    case (MidStream pm e)
    with after(1) show ?thesis
      by (subst retry_loop.simps) (simp add: so Let_def ends_repeatable_def repeatable_def frame)
  next
    case (Buffered pm st hdr body)
    then have "repeatable env 0 L1" using after by (simp add: may_repeat_def)
    with after(1) rec [of "ex_sent ex"] Buffered show ?thesis
      by (subst retry_loop.simps) (simp add: so Let_def ends_repeatable_def repeatable_def frame)
  next
    case (Failed pm u e)
    then have "repeatable env 0 L1" using after by (simp add: may_repeat_def)
    with after(1) rec [of "ex_sent ex"] Failed show ?thesis
      by (subst retry_loop.simps) (simp add: so Let_def ends_repeatable_def repeatable_def frame)
  qed
qed

lemma attempt_loop_repeatable:
  assumes "repeatable env 0 L"
  shows "case attempt_loop env cx i as L of (L', e) \<Rightarrow> repeatable env (case e of Answered _ \<Rightarrow> 1 | _ \<Rightarrow> 0) L'"
proof (rule attempt_loop_rule [where env = env and cx = cx and I = "\<lambda>_ _. repeatable env 0" and K = "\<lambda>_ _ _. repeatable env 0"
    and Q = "\<lambda>run. case run of (L', e) \<Rightarrow> repeatable env (case e of Answered _ \<Rightarrow> 1 | _ \<Rightarrow> 0) L'"])
  fix i a as L1 now plan body strip dropped r2 res ok L4 x
  assume "repeatable env 0 L1" and rl: "retry_loop env cx (attempt_of cx i a plan body strip dropped res (lp_errors L1)) 0
      (L1\<lparr>lp_router := take_slot (at_ID a) r2\<rparr>) = (L4, x)"
  then have "repeatable env 0 (L1\<lparr>lp_router := take_slot (at_ID a) r2\<rparr>)" by (simp add: repeatable_def)
  from retry_loop_repeatable [OF this, of cx "attempt_of cx i a plan body strip dropped res (lp_errors L1)" 0]
  show "case x of Some resp \<Rightarrow> (case (L4, Answered resp) of (L', e) \<Rightarrow> repeatable env (case e of Answered _ \<Rightarrow> 1 | _ \<Rightarrow> 0) L')
      | None \<Rightarrow> repeatable env 0 L4"
    by (cases x) (simp_all add: rl ends_repeatable_def)
qed (use assms in \<open>auto simp: repeatable_def\<close>)


definition refusing :: "unit proxy_env" where
  "refusing = example_proxy (NoResponse True ''refused'') all_accepted"

definition wired_env :: env where
  "wired_env = example_env\<lparr>ev_send := \<lambda>k sn. exchange_of refusing (StreamProxy refusing example_client sn None)\<rparr>"


end
