(* ===== verification/Heartbeat.thy ===== *)
theory Heartbeat
  imports Prelude
begin

text \<open>
  \<open>silenceWriter\<close> of \<open>src/proxy/proxy.go\<close>: a writer that injects a signal frame into an event
  stream whenever the stream has been silent for its idle time. The timer is the instant at
  which it fires; the mutex makes each operation one step, and a callback that was already
  under way when its timer was replaced is a tick at any later instant.
\<close>

record silenceWriter =
  sw_idle :: duration
  sw_signal :: string
  sw_timer :: "gotime option"
  sw_started :: bool
  sw_lastWrite :: gotime

definition newSilenceWriter :: "duration \<Rightarrow> string \<Rightarrow> silenceWriter" where
  "newSilenceWriter idle signal =
     \<lparr>sw_idle = idle, sw_signal = signal, sw_timer = None, sw_started = False, sw_lastWrite = 0\<rparr>"

definition armLocked :: "gotime \<Rightarrow> silenceWriter \<Rightarrow> silenceWriter" where
  "armLocked now s = s\<lparr>sw_timer := Some (now + sw_idle s)\<rparr>"

definition silence_Start :: "gotime \<Rightarrow> silenceWriter \<Rightarrow> silenceWriter" where
  "silence_Start now s =
     (if sw_started s then s else armLocked now (s\<lparr>sw_started := True, sw_lastWrite := now\<rparr>))"

definition silence_Stop :: "silenceWriter \<Rightarrow> silenceWriter" where
  "silence_Stop s = s\<lparr>sw_started := False, sw_timer := None\<rparr>"

definition silence_Write :: "gotime \<Rightarrow> silenceWriter \<Rightarrow> silenceWriter" where
  "silence_Write now s =
     (let s1 = s\<lparr>sw_lastWrite := now\<rparr> in if sw_started s1 then armLocked now s1 else s1)"

definition silence_Flush :: "gotime \<Rightarrow> silenceWriter \<Rightarrow> silenceWriter" where
  "silence_Flush now s = (if sw_started s then armLocked now s else s)"

text \<open>A tick, with whether the writer below takes the signal: the state and what was sent.\<close>

definition signalTick :: "gotime \<Rightarrow> bool \<Rightarrow> silenceWriter \<Rightarrow> silenceWriter \<times> string list" where
  "signalTick now accepted s =
     (if \<not> sw_started s then (s, [])
      else if now - sw_lastWrite s < sw_idle s then (armLocked now s, [])
      else if \<not> accepted then (s\<lparr>sw_started := False\<rparr>, [])
      else (armLocked now s, [sw_signal s]))"

subsection \<open>Runs\<close>

datatype silence_event = Data string | Flushed | Ticked bool

fun silence_step :: "gotime \<Rightarrow> silence_event \<Rightarrow> silenceWriter \<Rightarrow> silenceWriter \<times> string list" where
  "silence_step t (Data d) s = (silence_Write t s, [d])"
| "silence_step t Flushed s = (silence_Flush t s, [])"
| "silence_step t (Ticked accepted) s = signalTick t accepted s"

text \<open>The instants at which the client is sent something.\<close>

fun sent_at :: "(gotime \<times> silence_event) list \<Rightarrow> silenceWriter \<Rightarrow> gotime list" where
  "sent_at [] s = []"
| "sent_at ((t, e) # es) s = (case silence_step t e s of (s1, out) \<Rightarrow> map (\<lambda>_. t) out @ sent_at es s1)"

text \<open>
  A timely run: time does not go back, a timer fires at its instant and nothing else happens
  after it before it has fired; the client takes the signals, and a flush comes at the
  instant of the write it follows.
\<close>

fun timely :: "gotime \<Rightarrow> (gotime \<times> silence_event) list \<Rightarrow> silenceWriter \<Rightarrow> bool" where
  "timely now [] s = True"
| "timely now ((t, e) # es) s \<longleftrightarrow>
     now \<le> t \<and> (case sw_timer s of Some d \<Rightarrow> t \<le> d | None \<Rightarrow> True) \<and>
     (case e of Ticked accepted \<Rightarrow> accepted \<and> sw_timer s = Some t | Flushed \<Rightarrow> t = sw_lastWrite s | Data _ \<Rightarrow> True) \<and>
     timely t es (fst (silence_step t e s))"

text \<open>No gap of more than \<open>d\<close> from \<open>t\<close> on, up to the end of the run.\<close>

fun gaps_within :: "duration \<Rightarrow> gotime \<Rightarrow> gotime list \<Rightarrow> gotime \<Rightarrow> bool" where
  "gaps_within d t [] fin \<longleftrightarrow> fin \<le> t + d"
| "gaps_within d t (u # us) fin \<longleftrightarrow> u \<le> t + d \<and> gaps_within d u us fin"

definition run_end :: "gotime \<Rightarrow> (gotime \<times> silence_event) list \<Rightarrow> gotime" where
  "run_end t es = last (t # map fst es)"

definition waiting :: "gotime \<Rightarrow> gotime \<Rightarrow> silenceWriter \<Rightarrow> bool" where
  "waiting sent now s \<longleftrightarrow> sw_started s \<and> 0 \<le> sw_idle s \<and> sw_timer s = Some (sent + sw_idle s) \<and>
     sw_lastWrite s \<le> sent \<and> sent \<le> now \<and> now \<le> sent + sw_idle s"

lemma step_idle [simp]: "sw_idle (fst (silence_step t e s)) = sw_idle s"
  by (cases e) (simp_all add: silence_Write_def silence_Flush_def signalTick_def armLocked_def Let_def)

lemma waiting_step:
  assumes "waiting sent now s" "timely now [(t, e)] s"
  shows "snd (silence_step t e s) = [] \<and> waiting sent t (fst (silence_step t e s)) \<or>
    (\<exists>d. snd (silence_step t e s) = [d]) \<and> t \<le> sent + sw_idle s \<and> waiting t t (fst (silence_step t e s))"
  using assms
  by (cases e) (auto simp: waiting_def silence_Write_def silence_Flush_def signalTick_def armLocked_def Let_def)

lemma waiting_gaps:
  "waiting sent now s \<Longrightarrow> timely now es s \<Longrightarrow> gaps_within (sw_idle s) sent (sent_at es s) (run_end now es)"
proof (induction es arbitrary: sent now s)
  case Nil
  then show ?case by (simp add: waiting_def run_end_def)
next
  case (Cons p es)
  obtain t e where p: "p = (t, e)" by fastforce
  let ?s = "fst (silence_step t e s)"
  have rest: "timely t es ?s" "timely now [(t, e)] s" using Cons.prems(2) by (simp_all add: p)
  have fin: "run_end now ((t, e) # es) = run_end t es" by (simp add: run_end_def)
  from waiting_step [OF Cons.prems(1) rest(2)] show ?case
    using Cons.IH [of sent t ?s] Cons.IH [of t t ?s] rest(1) by (auto simp: p fin split_beta)
qed



text \<open>A heartbeat is never sent on top of fresh data, whenever its callback runs.\<close>

lemma no_heartbeat_on_fresh_data:
  "snd (signalTick now accepted s) \<noteq> [] \<Longrightarrow> sw_lastWrite s + sw_idle s \<le> now"
  by (auto simp: signalTick_def split: if_splits)

text \<open>
  A flush that follows no write still restarts the timer. The relay flushes after every read,
  also while it holds back an incomplete frame, so a backend that dribbles one keeps the
  client waiting for any number of idle times.
\<close>

definition dribble :: "nat \<Rightarrow> (gotime \<times> silence_event) list" where
  "dribble n = map (\<lambda>k. (int k * 9, Flushed)) [0..<n]"

lemma flush_postpones_heartbeat:
  "sent_at (dribble n) (silence_Start 0 (newSilenceWriter 10 ''p'')) = [] \<and>
   sw_timer (fold (\<lambda>(t, e) s. fst (silence_step t e s)) (dribble n) (silence_Start 0 (newSilenceWriter 10 ''p'')))
     = Some (int (n - 1) * 9 + 10)"
proof -
  have "sent_at (map (\<lambda>k. (f k, Flushed)) ks) s = []" for f ks s
    by (induction ks arbitrary: s) simp_all
  moreover have "fold (\<lambda>(t, e) s. fst (silence_step t e s)) (dribble n) (silence_Start 0 (newSilenceWriter 10 ''p'')) =
      (silence_Start 0 (newSilenceWriter 10 ''p''))\<lparr>sw_timer := Some (int (n - 1) * 9 + 10)\<rparr>"
    by (induction n)
      (simp_all add: dribble_def silence_Start_def newSilenceWriter_def armLocked_def silence_Flush_def)
  ultimately show ?thesis by (simp add: dribble_def)
qed

subsection \<open>The stream watchdog\<close>

text \<open>
  The goroutine of \<open>StreamProxy\<close> that cancels a silent stream: it sees the reads of the body, the
  ticks of its ticker and the client leaving, and answers with the instant it cancels at.
\<close>

definition watchdog_interval :: "duration \<Rightarrow> duration" where
  "watchdog_interval limit = max (250 * Millisecond) (min (limit div 4) (5 * Second))"

datatype watch_event = BodyRead | WatchTick | ClientLeft

fun watchdog :: "duration \<Rightarrow> gotime \<Rightarrow> (gotime \<times> watch_event) list \<Rightarrow> gotime option" where
  "watchdog limit lastRead [] = None"
| "watchdog limit lastRead ((t, BodyRead) # es) = watchdog limit t es"
| "watchdog limit lastRead ((t, WatchTick) # es) =
     (if t - lastRead > limit then Some t else watchdog limit lastRead es)"
| "watchdog limit lastRead ((t, ClientLeft) # es) = None"

lemma watchdog_sound:
  "sorted (r # map fst es) \<Longrightarrow> watchdog limit r es = Some t \<Longrightarrow>
     r + limit < t \<or> (\<exists>u. (u, BodyRead) \<in> set es \<and> u + limit < t)"
  by (induction limit r es rule: watchdog.induct) (auto split: if_splits)

lemma watchdog_after:
  "sorted (r # map fst es) \<Longrightarrow> watchdog limit r es = Some t \<Longrightarrow> r \<le> t \<and>
     (\<forall>u. (u, BodyRead) \<in> set es \<and> u < t \<longrightarrow> u + limit < t)"
proof (induction limit r es rule: watchdog.induct)
  case (2 limit lastRead t' es)
  have "t' + limit < t"
    using watchdog_sound [of t' es limit t] 2 by fastforce
  with 2 show ?case by fastforce
qed (fastforce split: if_splits)+

lemma watchdog_complete:
  "sorted (r # map fst es) \<Longrightarrow> ClientLeft \<notin> snd ` set es \<Longrightarrow> (t, WatchTick) \<in> set es \<Longrightarrow> r + limit < t \<Longrightarrow>
     \<forall>u. (u, BodyRead) \<in> set es \<longrightarrow> u + limit < t \<Longrightarrow> \<exists>c. watchdog limit r es = Some c \<and> c \<le> t"
  by (induction limit r es rule: watchdog.induct) fastforce+

text \<open>
  C38: The watchdog cancels a stalled stream and only a stalled one. While the client is there, a
  cancellation at \<open>t\<close> means that every read before it is more than the idle timeout back; and
  once a tick finds the last read of the stream more than the timeout back, the stream has
  been cancelled by that tick, so with a live ticker no later than one interval after the timeout.
\<close>

theorem stalled_stream_cancelled:
  assumes "sorted (start # map fst es)" "ClientLeft \<notin> snd ` set es"
  shows "(\<forall>t. watchdog limit start es = Some t \<longrightarrow>
            start + limit < t \<and> (\<forall>u. (u, BodyRead) \<in> set es \<and> u < t \<longrightarrow> u + limit < t)) \<and>
         (\<forall>t. (t, WatchTick) \<in> set es \<and> start + limit < t \<and> (\<forall>u. (u, BodyRead) \<in> set es \<longrightarrow> u + limit < t) \<longrightarrow>
            (\<exists>c. watchdog limit start es = Some c \<and> c \<le> t))"
proof (intro conjI allI impI)
  fix t assume c: "watchdog limit start es = Some t"
  from watchdog_sound [OF assms(1) c] assms(1) show "start + limit < t" by fastforce
  fix u assume "(u, BodyRead) \<in> set es \<and> u < t"
  with watchdog_after [OF assms(1) c] show "u + limit < t" by blast
qed (use watchdog_complete [OF assms] in blast)

theorem stalled_stream_cancelled_witness:
  "\<exists>c. watchdog 20 0 [(5, BodyRead), (10, WatchTick), (20, WatchTick), (30, WatchTick)] = Some c \<and> c \<le> 30"
  using stalled_stream_cancelled [of 0 "[(5, BodyRead), (10, WatchTick), (20, WatchTick), (30, WatchTick)]" 20] by simp

end
