(* ===== verification/ResponsesStream.thy ===== *)
theory ResponsesStream
  imports ResponsesChat
begin

text \<open>
  The stream translator for a Responses client of a Chat Completions backend
  (\<open>src/convert/stream_responses.go\<close>). Events are values of \<open>rEvent\<close>, numbered as they are
  authored, and \<open>render_r\<close> gives their bytes. The hash, the id of a stream whose backend sends
  none (\<open>fresh\<close>) and the clock reading of \<open>created_at\<close> are arguments.
\<close>

subsection \<open>Events\<close>

datatype out_item =
    MessageItem string string bool
  | ReasoningItem string string bool
  | CallItem string string string string bool

record resp_usage =
  ru_input :: int
  ru_output :: int
  ru_cached :: int

datatype ending = Completed | Incomplete string | Failed

datatype rEvent =
    RCreated string string
  | RInProgress string string
  | ItemAdded int out_item
  | PartAdded string int
  | OutTextDelta string int string
  | ReasoningDelta string int string
  | ArgumentsDelta string int string string
  | ArgumentsDone string int string string
  | OutTextDone string int string
  | PartDone string int string
  | ReasoningDone string int string
  | ItemDone int out_item
  | RError string string
  | Terminal ending string string "out_item list" resp_usage

datatype rOut = Authored int rEvent | Passed string | DoneMark

text \<open>An item's JSON; the flag tells a completed item from one in progress.\<close>

definition status_json :: "bool \<Rightarrow> string \<times> gjson" where
  "status_json fin = (''status'', GStr (if fin then ''completed'' else ''in_progress''))"

fun item_json :: "out_item \<Rightarrow> gjson" where
  "item_json (MessageItem i s fin) = GObj [(''id'', GStr i), (''type'', GStr ''message''), (''role'', GStr ''assistant''), status_json fin,
     (''content'', GArr (if fin then [output_text s] else []))]"
| "item_json (ReasoningItem i s fin) = GObj [(''id'', GStr i), (''type'', GStr ''reasoning''), status_json fin,
     (''summary'', GArr (if fin then [a_block ''summary_text'' [(''text'', GStr s)]] else []))]"
| "item_json (CallItem i cid name args fin) = GObj [(''id'', GStr i), (''type'', GStr ''function_call''), (''call_id'', GStr cid),
     (''name'', GStr name), (''arguments'', GStr args), status_json fin]"

definition partial_json :: "int \<Rightarrow> string \<Rightarrow> string \<Rightarrow> gjson" where
  "partial_json now i model = GObj [(''id'', GStr i), (''object'', GStr ''response''), (''model'', GStr model), (''created_at'', GInt now),
     (''status'', GStr ''in_progress''), (''output'', GArr [])]"

definition at_part :: "string \<Rightarrow> int \<Rightarrow> (string \<times> gjson) list" where
  "at_part i n = [(''item_id'', GStr i), (''output_index'', GInt n), (''content_index'', GInt 0)]"

definition at_summary :: "string \<Rightarrow> int \<Rightarrow> (string \<times> gjson) list" where
  "at_summary i n = [(''item_id'', GStr i), (''output_index'', GInt n), (''summary_index'', GInt 0)]"

definition at_call :: "string \<Rightarrow> int \<Rightarrow> string \<Rightarrow> (string \<times> gjson) list" where
  "at_call i n cid = [(''item_id'', GStr i), (''output_index'', GInt n), (''call_id'', GStr cid)]"

fun ending_members :: "ending \<Rightarrow> (string \<times> gjson) list" where
  "ending_members Completed = [(''status'', GStr ''completed'')]"
| "ending_members (Incomplete reason) = [(''status'', GStr ''incomplete''), (''incomplete_details'', GObj [(''reason'', GStr reason)])]"
| "ending_members Failed = [(''status'', GStr ''failed''),
     (''error'', GObj [(''code'', GStr ''server_error''), (''message'', GStr ''the upstream stream ended with an error'')])]"

fun ending_event :: "ending \<Rightarrow> string" where
  "ending_event Completed = ''response.completed''"
| "ending_event (Incomplete _) = ''response.incomplete''"
| "ending_event Failed = ''response.failed''"

definition resp_usage_json :: "resp_usage \<Rightarrow> gjson" where
  "resp_usage_json u = GObj [(''input_tokens'', GInt (ru_input u)), (''output_tokens'', GInt (ru_output u)),
     (''input_tokens_details'', GObj [(''cached_tokens'', GInt (ru_cached u))]), (''total_tokens'', GInt (ru_input u + ru_output u))]"

fun event_payload :: "int \<Rightarrow> rEvent \<Rightarrow> string \<times> (string \<times> gjson) list" where
  "event_payload now (RCreated i m) = (''response.created'', [(''response'', partial_json now i m)])"
| "event_payload now (RInProgress i m) = (''response.in_progress'', [(''response'', partial_json now i m)])"
| "event_payload now (ItemAdded n it) = (''response.output_item.added'', [(''output_index'', GInt n), (''item'', item_json it)])"
| "event_payload now (PartAdded i n) = (''response.content_part.added'', at_part i n @ [(''part'', output_text [])])"
| "event_payload now (OutTextDelta i n s) = (''response.output_text.delta'', at_part i n @ [(''delta'', GStr s), (''logprobs'', GArr [])])"
| "event_payload now (ReasoningDelta i n s) = (''response.reasoning_summary_text.delta'', at_summary i n @ [(''delta'', GStr s)])"
| "event_payload now (ArgumentsDelta i n cid s) = (''response.function_call_arguments.delta'', at_call i n cid @ [(''delta'', GStr s)])"
| "event_payload now (ArgumentsDone i n cid s) = (''response.function_call_arguments.done'', at_call i n cid @ [(''arguments'', GStr s)])"
| "event_payload now (OutTextDone i n s) = (''response.output_text.done'', at_part i n @ [(''text'', GStr s), (''logprobs'', GArr [])])"
| "event_payload now (PartDone i n s) = (''response.content_part.done'', at_part i n @ [(''part'', output_text s)])"
| "event_payload now (ReasoningDone i n s) = (''response.reasoning_summary_text.done'', at_summary i n @ [(''text'', GStr s)])"
| "event_payload now (ItemDone n it) = (''response.output_item.done'', [(''output_index'', GInt n), (''item'', item_json it)])"
| "event_payload now (RError code msg) = (''error'', [(''code'', GStr code), (''message'', GStr msg), (''param'', GNull)])"
| "event_payload now (Terminal e i m its u) = (ending_event e, [(''response'', GObj ([(''id'', GStr i), (''object'', GStr ''response''),
     (''model'', GStr m), (''created_at'', GInt now), (''output'', GArr (map item_json its)), (''usage'', resp_usage_json u)] @ ending_members e))])"

fun render_r :: "(string \<Rightarrow> string) \<Rightarrow> int \<Rightarrow> rOut \<Rightarrow> string" where
  "render_r fnum now (Authored k e) = (case event_payload now e of (name, kvs) \<Rightarrow>
     ''event: '' @ name @ [lf] @ ''data: '' @
       MarshalG fnum (GObj (kvs @ [(''type'', GStr name), (''sequence_number'', GInt k)])) @ [lf, lf])"
| "render_r fnum now (Passed s) = TrimRight s [cr, lf] @ [lf, lf]"
| "render_r fnum now DoneMark = ''data: [DONE]'' @ [lf, lf]"

subsection \<open>The emitter\<close>

record respCall =
  rc_idx :: int
  rc_item :: int
  rc_id :: string
  rc_name :: string
  rc_args :: string

record chatToResponses =
  re_id :: string
  re_model :: string
  re_seq :: int
  re_buf :: string
  re_notes :: "string list"
  re_started :: bool
  re_finished :: bool
  re_failed :: bool
  re_inputTok :: int
  re_outputToks :: int
  re_cachedTok :: int
  re_stop :: string
  re_text :: string
  re_reasoning :: string
  re_msgItem :: int
  re_rsItem :: int
  re_calls :: "respCall list"
  re_next :: int

definition NewChatToResponses :: chatToResponses where
  "NewChatToResponses =
     \<lparr>re_id = [], re_model = [], re_seq = 0, re_buf = [], re_notes = [], re_started = False, re_finished = False, re_failed = False,
      re_inputTok = - 1, re_outputToks = 0, re_cachedTok = 0, re_stop = [], re_text = [], re_reasoning = [],
      re_msgItem = - 1, re_rsItem = - 1, re_calls = [], re_next = 0\<rparr>"

type_synonym remit = "chatToResponses \<times> rOut list"

definition then_r :: "remit \<Rightarrow> (chatToResponses \<Rightarrow> remit) \<Rightarrow> remit" where
  "then_r x f = (fst (f (fst x)), snd x @ snd (f (fst x)))"

definition r_note :: "string \<Rightarrow> chatToResponses \<Rightarrow> chatToResponses" where
  "r_note s r = (if s \<in> set (re_notes r) then r else r\<lparr>re_notes := re_notes r @ [s]\<rparr>)"

definition ev :: "rEvent \<Rightarrow> chatToResponses \<Rightarrow> remit" where
  "ev e r = (r\<lparr>re_seq := re_seq r + 1\<rparr>, [Authored (re_seq r + 1) e])"

fun evs :: "rEvent list \<Rightarrow> chatToResponses \<Rightarrow> remit" where
  "evs [] r = (r, [])"
| "evs (e # es) r = then_r (ev e r) (evs es)"

definition readUsage :: "cUsage option \<Rightarrow> chatToResponses \<Rightarrow> chatToResponses" where
  "readUsage u r = (case u of
     None \<Rightarrow> r
   | Some u \<Rightarrow> r\<lparr>re_inputTok := cu_PromptTokens u - cu_CachedTokens u, re_outputToks := cu_CompletionTokens u,
                  re_cachedTok := cu_CachedTokens u\<rparr>)"

definition r_failOpen :: "chatToResponses \<Rightarrow> remit" where
  "r_failOpen r = ev (RError ''server_error'' ''upstream sent a stream frame this proxy cannot translate'')
     (r_note ''frame=untranslated'' (r\<lparr>re_failed := True\<rparr>))"

definition isResponsesEvent :: "string \<Rightarrow> bool" where
  "isResponsesEvent name = HasPrefix name ''response.''"

record upstream_error =
  ue_Type :: string
  ue_Code :: string
  ue_Message :: string

definition dec_upstream_error :: "upstream_error decoder" where
  "dec_upstream_error = dec_struct [(''error'', dec_struct
     [(''type'', dec_string (\<lambda>s e. e\<lparr>ue_Type := s\<rparr>)), (''code'', dec_string (\<lambda>s e. e\<lparr>ue_Code := s\<rparr>)),
      (''message'', dec_string (\<lambda>s e. e\<lparr>ue_Message := s\<rparr>))])]"

definition upstreamError :: "string \<Rightarrow> string \<times> string" where
  "upstreamError data =
     (let code0 = ''server_error''; msg0 = ''the upstream stream ended with an error'' in
      case decode dec_upstream_error \<lparr>ue_Type = [], ue_Code = [], ue_Message = []\<rparr> data of
        Some e \<Rightarrow>
          (if ue_Type e \<noteq> [] then ue_Type e else if ue_Code e \<noteq> [] then ue_Code e else code0,
           if ue_Message e \<noteq> [] then ue_Message e else msg0)
      | None \<Rightarrow>
          (case decode (dec_struct [(''error'', dec_text)]) [] data of
             Some s \<Rightarrow> (code0, if s = [] then msg0 else s)
           | None \<Rightarrow> (code0, msg0)))"

definition r_start :: "string \<Rightarrow> chatToResponses \<Rightarrow> remit" where
  "r_start fresh r =
     (let r1 = r\<lparr>re_started := True, re_id := (if re_id r = [] then fresh else re_id r)\<rparr>
      in evs [RCreated (re_id r1) (re_model r1), RInProgress (re_id r1) (re_model r1)] r1)"

definition itemID :: "(string \<Rightarrow> string) \<Rightarrow> string \<Rightarrow> chatToResponses \<Rightarrow> string" where
  "itemID sha256 kind r =
     (if kind = ''reasoning'' then ''rs_'' @ shortHash sha256 (re_id r @ '':reasoning'')
      else if kind = ''message'' then ''msg_'' @ shortHash sha256 (re_id r @ '':message'')
      else ''fc_'' @ shortHash sha256 (re_id r @ '':'' @ kind))"

definition callItemID :: "(string \<Rightarrow> string) \<Rightarrow> string \<Rightarrow> chatToResponses \<Rightarrow> string" where
  "callItemID sha256 cid r = ''fc_'' @ shortHash sha256 (re_id r @ '':'' @ cid)"

definition textDelta :: "(string \<Rightarrow> string) \<Rightarrow> string \<Rightarrow> chatToResponses \<Rightarrow> remit" where
  "textDelta sha256 s r =
     (if s = [] then (r, [])
      else let i = itemID sha256 ''message'' r in
        then_r (if re_msgItem r < 0
                then evs [ItemAdded (re_next r) (MessageItem i [] False), PartAdded i (re_next r)]
                       (r\<lparr>re_msgItem := re_next r, re_next := re_next r + 1\<rparr>)
                else (r, []))
          (\<lambda>r1. ev (OutTextDelta i (re_msgItem r1) s) (r1\<lparr>re_text := re_text r1 @ s\<rparr>)))"

definition reasoningDelta :: "(string \<Rightarrow> string) \<Rightarrow> string \<Rightarrow> chatToResponses \<Rightarrow> remit" where
  "reasoningDelta sha256 s r =
     (if s = [] then (r, [])
      else let i = itemID sha256 ''reasoning'' r in
        then_r (if re_rsItem r < 0
                then ev (ItemAdded (re_next r) (ReasoningItem i [] False)) (r\<lparr>re_rsItem := re_next r, re_next := re_next r + 1\<rparr>)
                else (r, []))
          (\<lambda>r1. ev (ReasoningDelta i (re_rsItem r1) s) (r1\<lparr>re_reasoning := re_reasoning r1 @ s\<rparr>)))"

definition close_events :: "(string \<Rightarrow> string) \<Rightarrow> chatToResponses \<Rightarrow> respCall \<Rightarrow> rEvent list" where
  "close_events sha256 r c =
     [ArgumentsDone (callItemID sha256 (rc_id c) r) (rc_item c) (rc_id c) (rc_args c),
      ItemDone (rc_item c) (CallItem (callItemID sha256 (rc_id c) r) (rc_id c) (rc_name c) (rc_args c) True)]"

definition closeCall :: "(string \<Rightarrow> string) \<Rightarrow> respCall \<Rightarrow> chatToResponses \<Rightarrow> remit" where
  "closeCall sha256 c r = evs (close_events sha256 r c) r"

definition call_delta :: "(string \<Rightarrow> string) \<Rightarrow> nat \<Rightarrow> string \<Rightarrow> chatToResponses \<Rightarrow> remit" where
  "call_delta sha256 k s r =
     (if s = [] then (r, [])
      else let c = re_calls r ! k in
           ev (ArgumentsDelta (callItemID sha256 (rc_id c) r) (rc_item c) (rc_id c) s)
              (r\<lparr>re_calls := (re_calls r)[k := c\<lparr>rc_args := rc_args c @ s\<rparr>]\<rparr>))"

definition call_open :: "(string \<Rightarrow> string) \<Rightarrow> deltaToolCall \<Rightarrow> chatToResponses \<Rightarrow> remit" where
  "call_open sha256 tc r =
     (let n = re_next r;
          cid = (if dt_ID tc = [] then ''call_'' @ Itoa n else dt_ID tc)
      in then_r (ev (ItemAdded n (CallItem (callItemID sha256 cid r) cid (dt_Name tc) [] False))
                   (r\<lparr>re_next := n + 1,
                      re_calls := re_calls r @ [\<lparr>rc_idx = dt_Index tc, rc_item = n, rc_id = cid, rc_name = dt_Name tc, rc_args = []\<rparr>]\<rparr>))
           (\<lambda>r1. call_delta sha256 (length (re_calls r)) (dt_Arguments tc) r1))"

text \<open>The first call of the index decides: it is continued, or closed in front of a new one.\<close>

fun first_call :: "int \<Rightarrow> respCall list \<Rightarrow> nat option" where
  "first_call idx [] = None"
| "first_call idx (c # cs) = (if rc_idx c = idx then Some 0 else map_option Suc (first_call idx cs))"

definition emit_call :: "(string \<Rightarrow> string) \<Rightarrow> deltaToolCall \<Rightarrow> chatToResponses \<Rightarrow> remit" where
  "emit_call sha256 tc r = (case first_call (dt_Index tc) (re_calls r) of
     None \<Rightarrow> call_open sha256 tc r
   | Some k \<Rightarrow>
       if dt_ID tc \<noteq> [] \<and> dt_ID tc \<noteq> rc_id (re_calls r ! k)
       then then_r (closeCall sha256 (re_calls r ! k) r) (call_open sha256 tc)
       else call_delta sha256 k (dt_Arguments tc) r)"

fun emit_calls :: "(string \<Rightarrow> string) \<Rightarrow> deltaToolCall list \<Rightarrow> chatToResponses \<Rightarrow> remit" where
  "emit_calls sha256 [] r = (r, [])"
| "emit_calls sha256 (t # ts) r = then_r (emit_call sha256 t r) (emit_calls sha256 ts)"

definition closeItems :: "(string \<Rightarrow> string) \<Rightarrow> chatToResponses \<Rightarrow> remit" where
  "closeItems sha256 r =
     (let m = itemID sha256 ''message'' r; g = itemID sha256 ''reasoning'' r in
      evs ((if re_msgItem r \<ge> 0
            then [OutTextDone m (re_msgItem r) (re_text r), PartDone m (re_msgItem r) (re_text r),
                  ItemDone (re_msgItem r) (MessageItem m (re_text r) True)]
            else []) @
           (if re_rsItem r \<ge> 0
            then [ReasoningDone g (re_rsItem r) (re_reasoning r), ItemDone (re_rsItem r) (ReasoningItem g (re_reasoning r) True)]
            else []) @
           concat (map (close_events sha256 r) (re_calls r))) r)"

definition resp_items :: "(string \<Rightarrow> string) \<Rightarrow> chatToResponses \<Rightarrow> out_item list" where
  "resp_items sha256 r =
     (if re_rsItem r \<ge> 0 then [ReasoningItem (itemID sha256 ''reasoning'' r) (re_reasoning r) True] else []) @
     (if re_msgItem r \<ge> 0 then [MessageItem (itemID sha256 ''message'' r) (re_text r) True] else []) @
     map (\<lambda>c. CallItem (callItemID sha256 (rc_id c) r) (rc_id c) (rc_name c) (rc_args c) True) (re_calls r)"

definition terminal :: "(string \<Rightarrow> string) \<Rightarrow> chatToResponses \<Rightarrow> remit" where
  "terminal sha256 r =
     (let (status, reason) = responsesStatus (re_stop r);
          e = (if re_failed r then Failed else if reason = [] then Completed else Incomplete reason)
      in ev (Terminal e (re_id r) (re_model r) (resp_items sha256 r)
               \<lparr>ru_input = max (re_inputTok r) 0, ru_output = re_outputToks r, ru_cached = re_cachedTok r\<rparr>) r)"

definition r_finish :: "(string \<Rightarrow> string) \<Rightarrow> string \<Rightarrow> chatToResponses \<Rightarrow> remit" where
  "r_finish sha256 fr r =
     (let r0 = (if finishNote fr = [] then r else r_note (finishNote fr) r) in
      if fr = ''error''
      then terminal sha256 ((r_note ''finish_reason=error'' r0)\<lparr>re_failed := True, re_finished := True\<rparr>)
      else then_r (closeItems sha256 (r0\<lparr>re_stop := fr\<rparr>)) (\<lambda>r1. terminal sha256 (r1\<lparr>re_finished := True\<rparr>)))"

definition r_choice :: "(string \<Rightarrow> string) \<Rightarrow> string \<Rightarrow> cStreamChoice \<Rightarrow> chatToResponses \<Rightarrow> remit" where
  "r_choice sha256 fresh ch r =
     (case prose ch of (tx, rsn, dropped) \<Rightarrow>
        let r1 = readUsage (sc_Usage ch) r;
            e1 = (if re_started r1 then (r1, []) else r_start fresh r1);
            e2 = then_r e1 (\<lambda>r2. reasoningDelta sha256 rsn (fold r_note dropped r2));
            e3 = then_r e2 (textDelta sha256 tx);
            e4 = then_r e3 (emit_calls sha256 (sc_ToolCalls ch))
        in if sc_FinishReason ch \<noteq> [] then then_r e4 (r_finish sha256 (sc_FinishReason ch)) else e4)"

fun r_choices :: "(string \<Rightarrow> string) \<Rightarrow> string \<Rightarrow> cStreamChoice list \<Rightarrow> chatToResponses \<Rightarrow> remit" where
  "r_choices sha256 fresh [] r = (r, [])"
| "r_choices sha256 fresh (ch # chs) r = then_r (r_choice sha256 fresh ch r) (r_choices sha256 fresh chs)"

definition r_chunk :: "(string \<Rightarrow> string) \<Rightarrow> string \<Rightarrow> chat_chunk \<Rightarrow> chatToResponses \<Rightarrow> remit" where
  "r_chunk sha256 fresh k r =
     (let r1 = r\<lparr>re_id := (if ck_ID k \<noteq> [] then ck_ID k else re_id r),
                re_model := (if ck_Model k \<noteq> [] then ck_Model k else re_model r)\<rparr>
      in r_choices sha256 fresh (ck_Choices k) (readUsage (ck_Usage k) r1))"

text \<open>The \<open>type\<close> member of a payload, when it decodes as a string.\<close>

definition named_type :: "string \<Rightarrow> string" where
  "named_type data = (case decode (dec_struct [(''type'', dec_text)]) [] data of Some s \<Rightarrow> s | None \<Rightarrow> [])"

definition r_payload :: "(string \<Rightarrow> string) \<Rightarrow> string \<Rightarrow> string \<Rightarrow> chatToResponses \<Rightarrow> remit" where
  "r_payload sha256 fresh data r = (case Unmarshal data of
     Some JNull \<Rightarrow> (r, [])
   | Some (JObj keys) \<Rightarrow>
       if isResponsesEvent (named_type data) then (r, [Passed data])
       else if named_type data \<in> set anthropicEvents then r_failOpen r
       else if any_has keys ''error'' then
         (case upstreamError data of (code, msg) \<Rightarrow>
            ev (RError code msg) ((r_note ''finish_reason=error'' r)\<lparr>re_failed := True\<rparr>))
       else if keys = [] then (r, [])
       else if \<not> isChunkShape keys then r_failOpen r
       else (case decode dec_chunk \<lparr>ck_ID = [], ck_Model = [], ck_Choices = [], ck_Usage = None\<rparr> data of
               None \<Rightarrow> r_failOpen r
             | Some k \<Rightarrow> r_chunk sha256 fresh k r)
   | _ \<Rightarrow> r_failOpen r)"

definition r_frame :: "(string \<Rightarrow> string) \<Rightarrow> string \<Rightarrow> string \<Rightarrow> chatToResponses \<Rightarrow> remit" where
  "r_frame sha256 fresh frame r =
     (if re_failed r \<or> re_finished r then (r, [])
      else let data = TrimSpace frame; payload = TrimSpace (TrimPrefix data ''data:'') in
        if data = [] then (r, [])
        else if HasPrefix data ''event:'' then
          (if isResponsesEvent (event_name data) then (r, [Passed data]) else r_failOpen r)
        else if HasPrefix data '':'' then (r, [])
        else if payload = [] \<or> payload = ''[DONE]'' then (r, [])
        else r_payload sha256 fresh payload r)"

function r_drain :: "(string \<Rightarrow> string) \<Rightarrow> string \<Rightarrow> chatToResponses \<Rightarrow> remit" where
  "r_drain sha256 fresh r = (case frameEnd (re_buf r) of
     None \<Rightarrow> (r, [])
   | Some (i, n) \<Rightarrow>
       (let x = r_frame sha256 fresh (take i (re_buf r)) r;
            y = r_drain sha256 fresh ((fst x)\<lparr>re_buf := drop (i + n) (re_buf r)\<rparr>)
        in (fst y, snd x @ snd y)))"
  by pat_completeness auto
termination
  by (relation "measure (\<lambda>(sha256, fresh, r). length (re_buf r))") (auto dest!: frameEnd_bound)

declare r_drain.simps [simp del]

definition r_WriteFrame :: "(string \<Rightarrow> string) \<Rightarrow> string \<Rightarrow> string \<Rightarrow> chatToResponses \<Rightarrow> remit" where
  "r_WriteFrame sha256 fresh frame r = r_drain sha256 fresh (r\<lparr>re_buf := re_buf r @ frame\<rparr>)"

definition r_tail :: "(string \<Rightarrow> string) \<Rightarrow> string \<Rightarrow> chatToResponses \<Rightarrow> remit" where
  "r_tail sha256 fresh r =
     (if TrimSpace (re_buf r) \<noteq> []
      then (let x = r_frame sha256 fresh (re_buf r) r in ((fst x)\<lparr>re_buf := []\<rparr>, snd x))
      else (r, []))"

definition r_FinishFrames :: "(string \<Rightarrow> string) \<Rightarrow> string \<Rightarrow> chatToResponses \<Rightarrow> remit" where
  "r_FinishFrames sha256 fresh r =
     (let e1 = r_tail sha256 fresh r in
      if \<not> re_started (fst e1) \<or> re_failed (fst e1) then e1
      else then_r (if re_finished (fst e1) then e1
                   else then_r e1 (\<lambda>r1. then_r (closeItems sha256 r1) (\<lambda>r2. let x = terminal sha256 r2 in ((fst x)\<lparr>re_finished := True\<rparr>, snd x))))
             (\<lambda>r3. (r3, [DoneMark])))"

fun r_frames :: "(string \<Rightarrow> string) \<Rightarrow> string \<Rightarrow> string list \<Rightarrow> chatToResponses \<Rightarrow> remit" where
  "r_frames sha256 fresh [] r = (r, [])"
| "r_frames sha256 fresh (f # fs) r = then_r (r_WriteFrame sha256 fresh f r) (r_frames sha256 fresh fs)"

definition responses_stream :: "(string \<Rightarrow> string) \<Rightarrow> string \<Rightarrow> string list \<Rightarrow> remit" where
  "responses_stream sha256 fresh reads = then_r (r_frames sha256 fresh reads NewChatToResponses) (r_FinishFrames sha256 fresh)"

subsection \<open>The protocol of a Responses stream\<close>

text \<open>
  What a Responses client keeps of a stream: the number of the last event, the items added,
  each at the next output index, with what their deltas have carried so far. An event is
  accepted when it carries the next number, addresses an item of its kind that was added, and
  when a done event or the terminal response restates exactly what the deltas carried.
\<close>

datatype item_kind = KMessage | KReasoning | KCall string string

record client =
  cl_seq :: int
  cl_created :: bool
  cl_items :: "(item_kind \<times> string) list"
  cl_ended :: bool
  cl_done :: bool

definition client_init :: client where
  "client_init = \<lparr>cl_seq = 0, cl_created = False, cl_items = [], cl_ended = False, cl_done = False\<rparr>"

definition holds_item :: "client \<Rightarrow> int \<Rightarrow> item_kind \<Rightarrow> string option" where
  "holds_item p n k =
     (if 0 \<le> n \<and> nat n < length (cl_items p) \<and> fst (cl_items p ! nat n) = k then Some (snd (cl_items p ! nat n)) else None)"

fun kind_of :: "out_item \<Rightarrow> item_kind \<times> string" where
  "kind_of (MessageItem _ s _) = (KMessage, s)"
| "kind_of (ReasoningItem _ s _) = (KReasoning, s)"
| "kind_of (CallItem _ cid name args _) = (KCall cid name, args)"

definition call_text :: "client \<Rightarrow> int \<Rightarrow> string \<Rightarrow> string option" where
  "call_text p n cid =
     (if 0 \<le> n \<and> nat n < length (cl_items p)
      then (case cl_items p ! nat n of (KCall c _, s) \<Rightarrow> if c = cid then Some s else None | _ \<Rightarrow> None)
      else None)"

fun understands :: "rEvent \<Rightarrow> client \<Rightarrow> bool" where
  "understands (RCreated _ _) p = (\<not> cl_created p)"
| "understands (RInProgress _ _) p = cl_created p"
| "understands (ItemAdded n it) p = (cl_created p \<and> n = int (length (cl_items p)) \<and> snd (kind_of it) = [])"
| "understands (PartAdded _ n) p = (holds_item p n KMessage \<noteq> None)"
| "understands (OutTextDelta _ n s) p = (holds_item p n KMessage \<noteq> None \<and> s \<noteq> [])"
| "understands (ReasoningDelta _ n s) p = (holds_item p n KReasoning \<noteq> None \<and> s \<noteq> [])"
| "understands (ArgumentsDelta _ n cid s) p = (call_text p n cid \<noteq> None \<and> s \<noteq> [])"
| "understands (ArgumentsDone _ n cid s) p = (call_text p n cid = Some s)"
| "understands (OutTextDone _ n s) p = (holds_item p n KMessage = Some s)"
| "understands (PartDone _ n s) p = (holds_item p n KMessage = Some s)"
| "understands (ReasoningDone _ n s) p = (holds_item p n KReasoning = Some s)"
| "understands (ItemDone n it) p = (holds_item p n (fst (kind_of it)) = Some (snd (kind_of it)))"
| "understands (RError _ _) p = True"
| "understands (Terminal _ _ _ its _) p = (cl_created p \<and> mset (map kind_of its) = mset (cl_items p))"

definition carry :: "int \<Rightarrow> string \<Rightarrow> client \<Rightarrow> client" where
  "carry n s p = p\<lparr>cl_items := (cl_items p)[nat n := (fst (cl_items p ! nat n), snd (cl_items p ! nat n) @ s)]\<rparr>"

fun learn :: "rEvent \<Rightarrow> client \<Rightarrow> client" where
  "learn (RCreated _ _) p = p\<lparr>cl_created := True\<rparr>"
| "learn (ItemAdded n it) p = p\<lparr>cl_items := cl_items p @ [kind_of it]\<rparr>"
| "learn (OutTextDelta _ n s) p = carry n s p"
| "learn (ReasoningDelta _ n s) p = carry n s p"
| "learn (ArgumentsDelta _ n _ s) p = carry n s p"
| "learn (RError _ _) p = p\<lparr>cl_ended := True\<rparr>"
| "learn _ p = p"

fun client_run :: "rOut list \<Rightarrow> client \<Rightarrow> client option" where
  "client_run [] p = Some p"
| "client_run (Authored k e # es) p =
     (if cl_ended p \<or> k \<noteq> cl_seq p + 1 \<or> \<not> understands e p then None else client_run es (learn e (p\<lparr>cl_seq := k\<rparr>)))"
| "client_run (Passed _ # es) p = (if cl_ended p then None else client_run es p)"
| "client_run (DoneMark # es) p = (if cl_ended p then None else client_run es (p\<lparr>cl_ended := True, cl_done := True\<rparr>))"

subsection \<open>The emitter keeps to the protocol\<close>

definition enumi :: "'a list \<Rightarrow> (int \<times> 'a) list" where
  "enumi xs = map (\<lambda>(i, x). (int i, x)) (List.enumerate 0 xs)"

lemma enumi_snoc: "enumi (xs @ [x]) = enumi xs @ [(int (length xs), x)]"
  by (simp add: enumi_def enumerate_append_eq)

lemma enumi_snd: "map snd (enumi xs) = xs"
  by (simp add: enumi_def comp_def case_prod_unfold)

lemma enumi_mem: "(n, x) \<in> set (enumi xs) \<longleftrightarrow> 0 \<le> n \<and> nat n < length xs \<and> xs ! nat n = x"
  by (auto simp: enumi_def in_set_enumerate_eq image_iff split: prod.splits intro!: bexI [of _ "(nat n, x)"])

lemma enumi_update:
  assumes "mset (enumi xs) = add_mset (n, x) A"
  shows "0 \<le> n \<and> nat n < length xs \<and> xs ! nat n = x \<and> mset (enumi (xs[nat n := y])) = add_mset (n, y) A"
proof -
  have "(n, x) \<in># mset (enumi xs)" by (simp add: assms)
  then have m: "0 \<le> n" "nat n < length xs" "xs ! nat n = x" by (simp_all only: set_mset_mset enumi_mem)
  have split: "xs[nat n := z] = take (nat n) xs @ z # drop (Suc (nat n)) xs" for z
    using m(2) by (rule upd_conv_take_nth_drop)
  have e: "mset (enumi (xs[nat n := z])) = add_mset (n, z)
      (mset (enumi (take (nat n) xs)) + mset (map (\<lambda>(i, x). (int i, x)) (List.enumerate (Suc (nat n)) (drop (Suc (nat n)) xs))))" for z
    unfolding split using m(1,2) by (simp add: enumi_def enumerate_append_eq min_def)
  have "xs[nat n := x] = xs" using list_update_id [of xs "nat n"] unfolding m(3) .
  then have "add_mset (n, x) A = add_mset (n, x)
      (mset (enumi (take (nat n) xs)) + mset (map (\<lambda>(i, x). (int i, x)) (List.enumerate (Suc (nat n)) (drop (Suc (nat n)) xs))))"
    using e [of x] assms by simp
  then show ?thesis using m e [of y] by simp
qed

lemma holds_item_iff: "holds_item p n k = Some s \<longleftrightarrow> (n, (k, s)) \<in> set (enumi (cl_items p))"
  by (auto simp: holds_item_def enumi_mem prod_eq_iff)

lemma call_text_holds: "(n, (KCall cid name, s)) \<in> set (enumi (cl_items p)) \<Longrightarrow> call_text p n cid = Some s"
  by (auto simp: call_text_def enumi_mem)

text \<open>What the emitter remembers, by output index.\<close>

definition prose_item :: "int \<Rightarrow> item_kind \<Rightarrow> string \<Rightarrow> (int \<times> item_kind \<times> string) multiset" where
  "prose_item n k s = (if n < 0 then {#} else {#(n, (k, s))#})"

definition call_item :: "respCall \<Rightarrow> int \<times> item_kind \<times> string" where
  "call_item c = (rc_item c, (KCall (rc_id c) (rc_name c), rc_args c))"

definition remembered :: "chatToResponses \<Rightarrow> (int \<times> item_kind \<times> string) multiset" where
  "remembered r = prose_item (re_rsItem r) KReasoning (re_reasoning r) + prose_item (re_msgItem r) KMessage (re_text r) +
     mset (map call_item (re_calls r))"

text \<open>Texts are empty until their items are added.\<close>

definition synced :: "chatToResponses \<Rightarrow> client \<Rightarrow> bool" where
  "synced r p \<longleftrightarrow> cl_seq p = re_seq r \<and> cl_created p = re_started r \<and> int (length (cl_items p)) = re_next r \<and>
     mset (enumi (cl_items p)) = remembered r \<and> \<not> cl_ended p \<and> \<not> cl_done p \<and>
     (re_msgItem r < 0 \<longrightarrow> re_text r = []) \<and> (re_rsItem r < 0 \<longrightarrow> re_reasoning r = []) \<and>
     (\<not> re_started r \<longrightarrow> re_msgItem r < 0 \<and> re_rsItem r < 0 \<and> re_calls r = [])"

definition speaks :: "remit \<Rightarrow> client \<Rightarrow> bool" where
  "speaks x p \<longleftrightarrow> (\<exists>q. client_run (snd x) p = Some q \<and> synced (fst x) q)"

lemma client_run_append: "client_run (xs @ ys) p = (case client_run xs p of None \<Rightarrow> None | Some q \<Rightarrow> client_run ys q)"
  by (induction xs p rule: client_run.induct) simp_all

lemma then_r_simps [simp]: "fst (then_r x f) = fst (f (fst x))" "snd (then_r x f) = snd x @ snd (f (fst x))"
  by (simp_all add: then_r_def)

lemma speaks_then:
  assumes "speaks x p" "\<And>q. synced (fst x) q \<Longrightarrow> speaks (f (fst x)) q"
  shows "speaks (then_r x f) p"
proof -
  obtain q where q: "client_run (snd x) p = Some q" "synced (fst x) q" using assms(1) by (auto simp: speaks_def)
  show ?thesis using q assms(2) [OF q(2)] by (auto simp: speaks_def client_run_append)
qed

lemma speaks_id: "synced r p \<Longrightarrow> speaks (r, []) p"
  by (simp add: speaks_def)

text \<open>One authored event: it is understood, and the state it leaves is the one the client has learnt.\<close>

lemma speaks_ev:
  assumes "\<not> cl_ended p" "cl_seq p = re_seq r" "understands e (p\<lparr>cl_seq := re_seq r + 1\<rparr>) = understands e p" "understands e p"
    "synced (r\<lparr>re_seq := re_seq r + 1\<rparr>) (learn e (p\<lparr>cl_seq := re_seq r + 1\<rparr>))"
  shows "speaks (ev e r) p"
  using assms by (simp add: speaks_def ev_def)

lemma selectors_seq [simp]: "holds_item (p\<lparr>cl_seq := k\<rparr>) n kd = holds_item p n kd" "call_text (p\<lparr>cl_seq := k\<rparr>) n c = call_text p n c"
  by (simp_all add: holds_item_def call_text_def)

lemma understands_seq [simp]: "understands e (p\<lparr>cl_seq := k\<rparr>) = understands e p"
  by (cases e) simp_all

lemma remembered_seq [simp]: "remembered (r\<lparr>re_seq := k\<rparr>) = remembered r"
  by (simp add: remembered_def)

text \<open>Events that only restate what the client holds.\<close>

definition restates :: "rEvent \<Rightarrow> client \<Rightarrow> bool" where
  "restates e p \<longleftrightarrow> understands e p \<and> (\<forall>q. learn e q = q)"

lemma restates_cong: "cl_items p = cl_items q \<Longrightarrow> cl_created p = cl_created q \<Longrightarrow> restates e p = restates e q"
  by (cases e) (simp_all add: restates_def holds_item_def call_text_def)

lemma evs_restate:
  assumes "synced r p" "list_all (\<lambda>e. restates e p) es"
  shows "speaks (evs es r) p \<and> fst (evs es r) = r\<lparr>re_seq := re_seq r + int (length es)\<rparr>"
  using assms
proof (induction es arbitrary: r p)
  case (Cons e es)
  let ?r = "r\<lparr>re_seq := re_seq r + 1\<rparr>" and ?p = "p\<lparr>cl_seq := re_seq r + 1\<rparr>"
  have e: "understands e p" "learn e ?p = ?p" using Cons.prems(2) by (auto simp: restates_def)
  have s: "synced ?r ?p" using Cons.prems(1) by (auto simp: synced_def)
  have "list_all (\<lambda>e. restates e ?p) es"
    using Cons.prems(2) restates_cong [of ?p p] by (auto simp: list_all_iff)
  note IH = Cons.IH [OF s this]
  have run: "client_run (snd (evs (e # es) r)) p = client_run (snd (evs es ?r)) ?p"
    using Cons.prems(1) e by (simp add: ev_def synced_def)
  show ?case using IH unfolding speaks_def run by (auto simp: ev_def algebra_simps)
qed (simp add: speaks_id)

lemma add_item_synced:
  assumes s: "synced r p" "re_started r" and k: "snd (kind_of it) = []"
    and r': "re_seq r' = re_seq r" "re_started r'" "re_next r' = re_next r + 1"
      "remembered r' = add_mset (re_next r, kind_of it) (remembered r)"
      "re_msgItem r' < 0 \<longrightarrow> re_text r' = []" "re_rsItem r' < 0 \<longrightarrow> re_reasoning r' = []"
  shows "speaks (ev (ItemAdded (re_next r) it) r') p"
proof (rule speaks_ev)
  let ?p = "p\<lparr>cl_seq := re_seq r' + 1\<rparr>"
  show "understands (ItemAdded (re_next r) it) p" using s k by (simp add: synced_def)
  have "mset (enumi (cl_items p @ [kind_of it])) = remembered r'"
    unfolding r'(4) using s(1) by (simp add: enumi_snoc synced_def)
  then show "synced (r'\<lparr>re_seq := re_seq r' + 1\<rparr>) (learn (ItemAdded (re_next r) it) ?p)"
    using s r' by (auto simp: synced_def)
qed (use s r' in \<open>auto simp: synced_def\<close>)

lemma carry_synced:
  assumes s: "synced r p" "re_started r" and m: "remembered r = add_mset (n, (k, t)) A" "remembered r' = add_mset (n, (k, t @ d)) A"
    and u: "understands e p" "\<And>q. learn e q = carry n d q"
    and r': "re_seq r' = re_seq r" "re_started r'" "re_next r' = re_next r"
      "re_msgItem r' < 0 \<longrightarrow> re_text r' = []" "re_rsItem r' < 0 \<longrightarrow> re_reasoning r' = []"
  shows "speaks (ev e r') p"
proof (rule speaks_ev)
  let ?p = "p\<lparr>cl_seq := re_seq r' + 1\<rparr>"
  have "mset (enumi (cl_items p)) = add_mset (n, (k, t)) A" using s(1) m(1) by (simp add: synced_def)
  note up = enumi_update [OF this, of "(k, t @ d)"]
  have "cl_items (carry n d ?p) = (cl_items p)[nat n := (k, t @ d)]" using up by (simp add: carry_def)
  then show "synced (r'\<lparr>re_seq := re_seq r' + 1\<rparr>) (learn e ?p)"
    using s r' up m by (auto simp: synced_def u(2) carry_def)
  show "understands e p" by (rule u)
qed (use s r' in \<open>auto simp: synced_def\<close>)

definition speaking :: "(chatToResponses \<Rightarrow> remit) \<Rightarrow> bool" where
  "speaking f \<longleftrightarrow> (\<forall>r p. synced r p \<and> re_started r \<longrightarrow> speaks (f r) p \<and> re_started (fst (f r)))"

lemma speakingI: "(\<And>r p. synced r p \<Longrightarrow> re_started r \<Longrightarrow> speaks (f r) p \<and> re_started (fst (f r))) \<Longrightarrow> speaking f"
  unfolding speaking_def by blast

lemma speakingD: "speaking f \<Longrightarrow> synced r p \<Longrightarrow> re_started r \<Longrightarrow> speaks (f r) p \<and> re_started (fst (f r))"
  by (simp add: speaking_def)

lemma speaks_synced: "speaks x p \<Longrightarrow> (\<And>q. synced (fst x) q \<Longrightarrow> thesis) \<Longrightarrow> thesis"
  by (auto simp: speaks_def)

lemma speaking_then: "speaking f \<Longrightarrow> speaking g \<Longrightarrow> speaking (\<lambda>r. then_r (f r) g)"
  by (rule speakingI) (auto intro: speaks_then dest: speakingD elim: speaks_synced)

lemma evs_one: "evs [e] r = ev e r"
  by (simp add: then_r_def)

lemma prose_item_mset:
  "0 \<le> re_msgItem r \<Longrightarrow> remembered r = add_mset (re_msgItem r, (KMessage, re_text r))
     (prose_item (re_rsItem r) KReasoning (re_reasoning r) + mset (map call_item (re_calls r)))"
  "0 \<le> re_rsItem r \<Longrightarrow> remembered r = add_mset (re_rsItem r, (KReasoning, re_reasoning r))
     (prose_item (re_msgItem r) KMessage (re_text r) + mset (map call_item (re_calls r)))"
  by (simp_all add: remembered_def prose_item_def)

lemma remembered_mem: "synced r p \<Longrightarrow> (n, (k, s)) \<in># remembered r \<Longrightarrow> holds_item p n k = Some s"
  unfolding holds_item_iff by (simp add: synced_def flip: set_mset_mset)

lemma next_nonneg: "synced r p \<Longrightarrow> 0 \<le> re_next r"
  by (auto simp: synced_def)

lemma textDelta_open:
  assumes "synced r p" "re_started r" "re_msgItem r < 0"
  shows "speaks (evs [ItemAdded (re_next r) (MessageItem i [] False), PartAdded i (re_next r)]
           (r\<lparr>re_msgItem := re_next r, re_next := re_next r + 1\<rparr>)) p"
proof -
  let ?r = "r\<lparr>re_msgItem := re_next r, re_next := re_next r + 1\<rparr>"
  have "re_text r = []" "0 \<le> re_next r" using assms by (auto simp: synced_def)
  then have m: "remembered ?r = add_mset (re_next r, kind_of (MessageItem i [] False)) (remembered r)"
    using assms(3) by (simp add: remembered_def prose_item_def)
  have a: "speaks (ev (ItemAdded (re_next r) (MessageItem i [] False)) ?r) p"
    using assms m by (intro add_item_synced) (auto simp: synced_def)
  have b: "speaks (evs [PartAdded i (re_next r)] (fst (ev (ItemAdded (re_next r) (MessageItem i [] False)) ?r))) q"
    if "synced (fst (ev (ItemAdded (re_next r) (MessageItem i [] False)) ?r)) q" for q
  proof (rule evs_restate [OF that, THEN conjunct1])
    have "holds_item q (re_next r) KMessage = Some []"
      by (rule remembered_mem [OF that]) (simp add: ev_def m)
    then show "list_all (\<lambda>e. restates e q) [PartAdded i (re_next r)]" by (simp add: restates_def)
  qed
  show ?thesis using speaks_then [where f = "evs [PartAdded i (re_next r)]", OF a b] by simp
qed

lemma textDelta_speaking: "speaking (textDelta sha256 s)"
proof (rule speakingI)
  fix r p assume s: "synced r p" "re_started r"
  let ?i = "itemID sha256 ''message'' r"
  define x where "x = (if re_msgItem r < 0
                then evs [ItemAdded (re_next r) (MessageItem ?i [] False), PartAdded ?i (re_next r)]
                       (r\<lparr>re_msgItem := re_next r, re_next := re_next r + 1\<rparr>)
                else (r, []))"
  have x: "speaks x p" "re_started (fst x)" "0 \<le> re_msgItem (fst x)"
    using s textDelta_open [OF s] next_nonneg [OF s(1)] speaks_id [OF s(1)] by (auto simp: x_def ev_def)
  let ?d = "\<lambda>r1. ev (OutTextDelta ?i (re_msgItem r1) s) (r1\<lparr>re_text := re_text r1 @ s\<rparr>)"
  have d: "speaks (?d (fst x)) q" if "synced (fst x) q" "s \<noteq> []" for q
  proof (rule carry_synced [OF that(1) x(2) prose_item_mset(1) [OF x(3)]])
    show "remembered ((fst x)\<lparr>re_text := re_text (fst x) @ s\<rparr>) = add_mset (re_msgItem (fst x), KMessage, re_text (fst x) @ s)
        (prose_item (re_rsItem (fst x)) KReasoning (re_reasoning (fst x)) + mset (map call_item (re_calls (fst x))))"
      using prose_item_mset(1) [of "(fst x)\<lparr>re_text := re_text (fst x) @ s\<rparr>"] x(3) by simp
    show "understands (OutTextDelta ?i (re_msgItem (fst x)) s) q"
      using remembered_mem [OF that(1), of "re_msgItem (fst x)" KMessage] prose_item_mset(1) [OF x(3)] that(2) by auto
  qed (use that x in \<open>auto simp: synced_def\<close>)
  show "speaks (textDelta sha256 s r) p \<and> re_started (fst (textDelta sha256 s r))"
  proof (cases "s = []")
    case False
    then have "textDelta sha256 s r = then_r x ?d" by (simp add: textDelta_def x_def Let_def)
    then show ?thesis using speaks_then [OF x(1), of ?d] d False x(2) by (simp add: ev_def)
  qed (use s in \<open>simp add: textDelta_def speaks_id\<close>)
qed

lemma reasoningDelta_open:
  assumes "synced r p" "re_started r" "re_rsItem r < 0"
  shows "speaks (ev (ItemAdded (re_next r) (ReasoningItem i [] False)) (r\<lparr>re_rsItem := re_next r, re_next := re_next r + 1\<rparr>)) p"
proof -
  have "re_reasoning r = []" "0 \<le> re_next r" using assms by (auto simp: synced_def)
  then have "remembered (r\<lparr>re_rsItem := re_next r, re_next := re_next r + 1\<rparr>) =
      add_mset (re_next r, kind_of (ReasoningItem i [] False)) (remembered r)"
    using assms(3) by (simp add: remembered_def prose_item_def)
  then show ?thesis using assms by (intro add_item_synced) (auto simp: synced_def)
qed

lemma reasoningDelta_speaking: "speaking (reasoningDelta sha256 s)"
proof (rule speakingI)
  fix r p assume s: "synced r p" "re_started r"
  let ?i = "itemID sha256 ''reasoning'' r"
  define x where "x = (if re_rsItem r < 0
                then ev (ItemAdded (re_next r) (ReasoningItem ?i [] False)) (r\<lparr>re_rsItem := re_next r, re_next := re_next r + 1\<rparr>)
                else (r, []))"
  have x: "speaks x p" "re_started (fst x)" "0 \<le> re_rsItem (fst x)"
    using s reasoningDelta_open [OF s] next_nonneg [OF s(1)] speaks_id [OF s(1)] by (auto simp: x_def ev_def)
  let ?d = "\<lambda>r1. ev (ReasoningDelta ?i (re_rsItem r1) s) (r1\<lparr>re_reasoning := re_reasoning r1 @ s\<rparr>)"
  have d: "speaks (?d (fst x)) q" if "synced (fst x) q" "s \<noteq> []" for q
  proof (rule carry_synced [OF that(1) x(2) prose_item_mset(2) [OF x(3)]])
    show "remembered ((fst x)\<lparr>re_reasoning := re_reasoning (fst x) @ s\<rparr>) = add_mset (re_rsItem (fst x), KReasoning, re_reasoning (fst x) @ s)
        (prose_item (re_msgItem (fst x)) KMessage (re_text (fst x)) + mset (map call_item (re_calls (fst x))))"
      using prose_item_mset(2) [of "(fst x)\<lparr>re_reasoning := re_reasoning (fst x) @ s\<rparr>"] x(3) by simp
    show "understands (ReasoningDelta ?i (re_rsItem (fst x)) s) q"
      using remembered_mem [OF that(1), of "re_rsItem (fst x)" KReasoning] prose_item_mset(2) [OF x(3)] that(2) by auto
  qed (use that x in \<open>auto simp: synced_def\<close>)
  show "speaks (reasoningDelta sha256 s r) p \<and> re_started (fst (reasoningDelta sha256 s r))"
  proof (cases "s = []")
    case False
    then have "reasoningDelta sha256 s r = then_r x ?d" by (simp add: reasoningDelta_def x_def Let_def)
    then show ?thesis using speaks_then [OF x(1), of ?d] d False x(2) by (simp add: ev_def)
  qed (use s in \<open>simp add: reasoningDelta_def speaks_id\<close>)
qed

lemma call_mset:
  assumes "k < length (re_calls r)"
  shows "\<exists>A. \<forall>c. remembered (r\<lparr>re_calls := (re_calls r)[k := c]\<rparr>) = add_mset (call_item c) A"
proof -
  let ?P = "prose_item (re_rsItem r) KReasoning (re_reasoning r) + prose_item (re_msgItem r) KMessage (re_text r)"
  have "remembered (r\<lparr>re_calls := (re_calls r)[k := c]\<rparr>) =
      add_mset (call_item c) (?P + (mset (map call_item (re_calls r)) - {#map call_item (re_calls r) ! k#}))" for c
    using assms by (simp add: remembered_def map_update mset_update)
  then show ?thesis by blast
qed

lemma call_delta_speaks:
  assumes s: "synced r p" "re_started r" and k: "k < length (re_calls r)"
  shows "speaks (call_delta sha256 k d r) p \<and> re_started (fst (call_delta sha256 k d r))"
proof (cases "d = []")
  case False
  let ?c = "re_calls r ! k"
  obtain A where A: "\<And>c. remembered (r\<lparr>re_calls := (re_calls r)[k := c]\<rparr>) = add_mset (call_item c) A"
    using call_mset [OF k] by blast
  have old: "remembered r = add_mset (rc_item ?c, (KCall (rc_id ?c) (rc_name ?c), rc_args ?c)) A"
    using A [of ?c] by (simp add: call_item_def)
  have "(rc_item ?c, (KCall (rc_id ?c) (rc_name ?c), rc_args ?c)) \<in> set (enumi (cl_items p))"
    using remembered_mem [OF s(1)] old by (simp flip: holds_item_iff)
  then have t: "call_text p (rc_item ?c) (rc_id ?c) = Some (rc_args ?c)" by (rule call_text_holds)
  have "speaks (ev (ArgumentsDelta (callItemID sha256 (rc_id ?c) r) (rc_item ?c) (rc_id ?c) d)
      (r\<lparr>re_calls := (re_calls r)[k := ?c\<lparr>rc_args := rc_args ?c @ d\<rparr>]\<rparr>)) p"
  proof (rule carry_synced [OF s old])
    show "remembered (r\<lparr>re_calls := (re_calls r)[k := ?c\<lparr>rc_args := rc_args ?c @ d\<rparr>]\<rparr>) =
        add_mset (rc_item ?c, (KCall (rc_id ?c) (rc_name ?c), rc_args ?c @ d)) A"
      using A [of "?c\<lparr>rc_args := rc_args ?c @ d\<rparr>"] by (simp add: call_item_def)
  qed (use s False t in \<open>auto simp: synced_def\<close>)
  then show ?thesis using s False by (simp add: call_delta_def Let_def ev_def)
qed (use s in \<open>simp add: call_delta_def speaks_id\<close>)

lemma call_open_speaks:
  assumes s: "synced r p" "re_started r"
  shows "speaks (call_open sha256 tc r) p \<and> re_started (fst (call_open sha256 tc r))"
proof -
  define n where "n = re_next r"
  define cid where "cid = (if dt_ID tc = [] then ''call_'' @ Itoa n else dt_ID tc)"
  define r1 where "r1 = r\<lparr>re_next := n + 1,
    re_calls := re_calls r @ [\<lparr>rc_idx = dt_Index tc, rc_item = n, rc_id = cid, rc_name = dt_Name tc, rc_args = []\<rparr>]\<rparr>"
  define x where "x = ev (ItemAdded n (CallItem (callItemID sha256 cid r) cid (dt_Name tc) [] False)) r1"
  have "remembered r1 = add_mset (re_next r, kind_of (CallItem (callItemID sha256 cid r) cid (dt_Name tc) [] False)) (remembered r)"
    by (simp add: r1_def remembered_def call_item_def n_def)
  then have x: "speaks x p" unfolding x_def n_def using s by (intro add_item_synced) (auto simp: r1_def n_def synced_def)
  have st: "re_started (fst x)" "length (re_calls r) < length (re_calls (fst x))" using s by (simp_all add: x_def ev_def r1_def)
  have e: "call_open sha256 tc r = then_r x (call_delta sha256 (length (re_calls r)) (dt_Arguments tc))"
    by (simp add: call_open_def x_def r1_def cid_def n_def Let_def)
  show ?thesis
  proof
    show "speaks (call_open sha256 tc r) p"
      unfolding e by (rule speaks_then [OF x]) (use st call_delta_speaks in blast)
    obtain q where "synced (fst x) q" using x by (rule speaks_synced)
    then show "re_started (fst (call_open sha256 tc r))" unfolding e using call_delta_speaks st by simp
  qed
qed

text \<open>The events that close a call or an item restate it.\<close>

lemma close_events_restate:
  assumes "synced r p" "c \<in> set (re_calls r)"
  shows "list_all (\<lambda>e. restates e p) (close_events sha256 r c)"
proof -
  have "(rc_item c, (KCall (rc_id c) (rc_name c), rc_args c)) \<in># remembered r"
    using assms(2) by (auto simp: remembered_def call_item_def image_iff)
  then have h: "holds_item p (rc_item c) (KCall (rc_id c) (rc_name c)) = Some (rc_args c)" by (rule remembered_mem [OF assms(1)])
  then have "call_text p (rc_item c) (rc_id c) = Some (rc_args c)" unfolding holds_item_iff by (rule call_text_holds)
  then show ?thesis using h by (simp add: close_events_def restates_def)
qed

lemma first_call_bound: "first_call idx cs = Some k \<Longrightarrow> k < length cs"
  by (induction cs arbitrary: k) (auto split: if_splits)

lemma emit_call_speaking: "speaking (emit_call sha256 tc)"
proof (rule speakingI)
  fix r p assume s: "synced r p" "re_started r"
  show "speaks (emit_call sha256 tc r) p \<and> re_started (fst (emit_call sha256 tc r))"
  proof (cases "first_call (dt_Index tc) (re_calls r)")
    case None
    then show ?thesis using call_open_speaks [OF s] by (simp add: emit_call_def)
  next
    case (Some k)
    note k = first_call_bound [OF Some]
    note c = evs_restate [OF s(1) close_events_restate [OF s(1) nth_mem [OF k], of sha256]]
    let ?x = "closeCall sha256 (re_calls r ! k) r"
    have x: "speaks ?x p" "re_started (fst ?x)" using c s(2) by (simp_all add: closeCall_def)
    have "speaks (then_r ?x (call_open sha256 tc)) p"
      by (rule speaks_then [OF x(1)]) (use call_open_speaks x(2) in blast)
    moreover have "re_started (fst (then_r ?x (call_open sha256 tc)))"
      using x by (auto elim: speaks_synced dest: call_open_speaks)
    ultimately show ?thesis using Some call_delta_speaks [OF s k] by (simp add: emit_call_def)
  qed
qed

lemma emit_calls_speaking: "speaking (emit_calls sha256 ts)"
proof (induction ts)
  case Nil
  show ?case by (simp add: speaking_def speaks_id)
next
  case (Cons t ts)
  have "emit_calls sha256 (t # ts) = (\<lambda>r. then_r (emit_call sha256 t r) (emit_calls sha256 ts))" by (rule ext) simp
  then show ?case using speaking_then [OF emit_call_speaking Cons] by metis
qed

lemma closeItems_restates:
  assumes "synced r p"
  shows "speaks (closeItems sha256 r) p" "\<exists>k. fst (closeItems sha256 r) = r\<lparr>re_seq := k\<rparr>"
proof -
  have m: "0 \<le> re_msgItem r \<Longrightarrow> holds_item p (re_msgItem r) KMessage = Some (re_text r)"
    and g: "0 \<le> re_rsItem r \<Longrightarrow> holds_item p (re_rsItem r) KReasoning = Some (re_reasoning r)"
    by (rule remembered_mem [OF assms], simp add: prose_item_mset)+
  have c: "list_all (\<lambda>e. restates e p) (concat (map (close_events sha256 r) (re_calls r)))"
    using close_events_restate [OF assms, of _ sha256] by (auto simp: list_all_iff)
  obtain es where es: "closeItems sha256 r = evs es r" "list_all (\<lambda>e. restates e p) es"
  proof
    show "closeItems sha256 r = evs ((if re_msgItem r \<ge> 0
            then [OutTextDone (itemID sha256 ''message'' r) (re_msgItem r) (re_text r), PartDone (itemID sha256 ''message'' r) (re_msgItem r) (re_text r),
                  ItemDone (re_msgItem r) (MessageItem (itemID sha256 ''message'' r) (re_text r) True)]
            else []) @
           (if re_rsItem r \<ge> 0
            then [ReasoningDone (itemID sha256 ''reasoning'' r) (re_rsItem r) (re_reasoning r),
                  ItemDone (re_rsItem r) (ReasoningItem (itemID sha256 ''reasoning'' r) (re_reasoning r) True)]
            else []) @
           concat (map (close_events sha256 r) (re_calls r))) r"
      by (simp add: closeItems_def Let_def)
  qed (use m g c in \<open>simp add: restates_def\<close>)
  note e = evs_restate [OF assms es(2)]
  show "speaks (closeItems sha256 r) p" using e es(1) by simp
  show "\<exists>k. fst (closeItems sha256 r) = r\<lparr>re_seq := k\<rparr>" unfolding es(1) e [THEN conjunct2] by blast
qed

lemma terminal_restates:
  assumes "synced r p" "re_started r"
  shows "speaks (terminal sha256 r) p" "fst (terminal sha256 r) = r\<lparr>re_seq := re_seq r + 1\<rparr>"
proof -
  have "mset (map kind_of (resp_items sha256 r)) = image_mset snd (remembered r)"
    by (auto simp: resp_items_def remembered_def prose_item_def call_item_def comp_def image_mset.compositionality)
  also have "\<dots> = mset (map snd (enumi (cl_items p)))" using assms(1) by (simp add: synced_def)
  finally have "mset (map kind_of (resp_items sha256 r)) = mset (cl_items p)" by (simp only: enumi_snd)
  then have "restates (Terminal e i m (resp_items sha256 r) u) p" for e i m u
    using assms by (simp add: restates_def synced_def)
  then have "speaks (ev (Terminal e i m (resp_items sha256 r) u) r) p" for e i m u
    using evs_restate [OF assms(1), of "[Terminal e i m (resp_items sha256 r) u]"] by (simp add: then_r_def)
  then show "speaks (terminal sha256 r) p" by (simp add: terminal_def Let_def split: prod.splits)
  show "fst (terminal sha256 r) = r\<lparr>re_seq := re_seq r + 1\<rparr>"
    by (simp add: terminal_def ev_def Let_def split: prod.splits)
qed

lemma synced_cong:
  assumes "re_seq r = re_seq r'" "re_started r = re_started r'" "re_next r = re_next r'" "re_text r = re_text r'"
    "re_reasoning r = re_reasoning r'" "re_msgItem r = re_msgItem r'" "re_rsItem r = re_rsItem r'" "re_calls r = re_calls r'"
  shows "synced r p = synced r' p"
  unfolding synced_def remembered_def assms ..

lemma r_note_selectors [simp]:
  "re_seq (r_note s r) = re_seq r" "re_started (r_note s r) = re_started r" "re_next (r_note s r) = re_next r"
  "re_text (r_note s r) = re_text r" "re_reasoning (r_note s r) = re_reasoning r" "re_msgItem (r_note s r) = re_msgItem r"
  "re_rsItem (r_note s r) = re_rsItem r" "re_calls (r_note s r) = re_calls r" "re_failed (r_note s r) = re_failed r"
  by (simp_all add: r_note_def)

lemma readUsage_selectors [simp]:
  "re_seq (readUsage u r) = re_seq r" "re_started (readUsage u r) = re_started r" "re_next (readUsage u r) = re_next r"
  "re_text (readUsage u r) = re_text r" "re_reasoning (readUsage u r) = re_reasoning r" "re_msgItem (readUsage u r) = re_msgItem r"
  "re_rsItem (readUsage u r) = re_rsItem r" "re_calls (readUsage u r) = re_calls r" "re_failed (readUsage u r) = re_failed r"
  by (simp_all add: readUsage_def split: option.splits)

lemma synced_bookkeeping [simp]:
  "synced (r_note s r) p = synced r p" "synced (readUsage u r) p = synced r p" "synced (r\<lparr>re_stop := x\<rparr>) p = synced r p"
  "synced (r\<lparr>re_finished := b\<rparr>) p = synced r p" "synced (r\<lparr>re_failed := b\<rparr>) p = synced r p"
  "synced (r\<lparr>re_failed := b, re_finished := b'\<rparr>) p = synced r p" "synced (r\<lparr>re_buf := x\<rparr>) p = synced r p"
  "synced (r\<lparr>re_id := x, re_model := y\<rparr>) p = synced r p"
  by (rule synced_cong; simp)+

lemma fold_r_note [simp]: "synced (fold r_note ns r) p = synced r p" "re_started (fold r_note ns r) = re_started r"
  by (induction ns arbitrary: r) simp_all

lemma r_finish_speaking: "speaking (r_finish sha256 fr)"
proof (rule speakingI)
  fix r p assume s: "synced r p" "re_started r"
  define r0 where "r0 = (if finishNote fr = [] then r else r_note (finishNote fr) r)"
  have r0: "synced r0 p" "re_started r0" using s by (simp_all add: r0_def)
  show "speaks (r_finish sha256 fr r) p \<and> re_started (fst (r_finish sha256 fr r))"
  proof (cases "fr = ''error''")
    case True
    let ?r = "(r_note ''finish_reason=error'' r0)\<lparr>re_failed := True, re_finished := True\<rparr>"
    have "synced ?r p" "re_started ?r" using r0 by simp_all
    note t = terminal_restates [OF this, of sha256]
    have e: "r_finish sha256 fr r = terminal sha256 ?r"
      unfolding r_finish_def Let_def r0_def [symmetric] using True by simp
    show ?thesis unfolding e using t r0(2) by simp
  next
    case False
    let ?r = "r0\<lparr>re_stop := fr\<rparr>"
    have r: "synced ?r p" "re_started ?r" using r0 by simp_all
    let ?x = "closeItems sha256 ?r"
    obtain k where k: "fst ?x = ?r\<lparr>re_seq := k\<rparr>" using closeItems_restates(2) [OF r(1)] by blast
    have st: "re_started (fst ?x)" using k r(2) by simp
    have e: "r_finish sha256 fr r = then_r ?x (\<lambda>r1. terminal sha256 (r1\<lparr>re_finished := True\<rparr>))"
      unfolding r_finish_def Let_def r0_def [symmetric] using False by simp
    have "speaks (r_finish sha256 fr r) p" unfolding e
      by (rule speaks_then [OF closeItems_restates(1) [OF r(1)]]) (use st terminal_restates(1) in simp)
    moreover have "re_started (fst (r_finish sha256 fr r))"
      using closeItems_restates(1) [OF r(1), of sha256] st unfolding e
      by (auto elim!: speaks_synced simp: terminal_restates(2) [of "(fst ?x)\<lparr>re_finished := True\<rparr>"])
    ultimately show ?thesis by simp
  qed
qed

lemma enumi_empty [simp]: "enumi xs = [] \<longleftrightarrow> xs = []" "enumi [] = []"
  using enumi_snd [of xs] by (auto simp: enumi_def)

lemma r_start_speaks:
  assumes "synced r p" "\<not> re_started r"
  shows "speaks (r_start fresh r) p" "re_started (fst (r_start fresh r))"
proof -
  have e: "cl_items p = []" "\<not> cl_created p" "remembered r = {#}"
    using assms by (auto simp: synced_def remembered_def prose_item_def)
  define r1 where "r1 = r\<lparr>re_started := True, re_id := (if re_id r = [] then fresh else re_id r)\<rparr>"
  have r1: "remembered r1 = {#}" using e(3) by (simp add: r1_def remembered_def)
  have eq: "r_start fresh r = evs [RCreated (re_id r1) (re_model r1), RInProgress (re_id r1) (re_model r1)] r1"
    by (simp add: r_start_def Let_def r1_def)
  have sel: "re_seq r1 = re_seq r" "re_next r1 = re_next r" "re_text r1 = re_text r" "re_reasoning r1 = re_reasoning r"
    "re_msgItem r1 = re_msgItem r" "re_rsItem r1 = re_rsItem r" "re_started r1"
    by (simp_all add: r1_def)
  show "speaks (r_start fresh r) p" "re_started (fst (r_start fresh r))"
    unfolding eq using assms e r1 sel by (auto simp: speaks_def ev_def synced_def)
qed

lemma r_choice_speaks:
  assumes "synced r p"
  shows "speaks (r_choice sha256 fresh ch r) p"
proof -
  obtain tx rsn dropped where pr: "prose ch = (tx, rsn, dropped)" by (cases "prose ch") auto
  define r1 where "r1 = readUsage (sc_Usage ch) r"
  define x where "x = (if re_started r1 then (r1, []) else r_start fresh r1)"
  define f where "f = (\<lambda>r2. reasoningDelta sha256 rsn (fold r_note dropped r2))"
  define g where "g = (\<lambda>r. then_r (then_r (f r) (textDelta sha256 tx)) (emit_calls sha256 (sc_ToolCalls ch)))"
  define h where "h = (\<lambda>r. if sc_FinishReason ch \<noteq> [] then then_r (g r) (r_finish sha256 (sc_FinishReason ch)) else g r)"
  have s1: "synced r1 p" using assms by (simp add: r1_def)
  have x: "speaks x p" "re_started (fst x)" using s1 r_start_speaks [OF s1] by (auto simp: x_def speaks_id)
  have f: "speaking f" unfolding f_def
    by (rule speakingI) (use reasoningDelta_speaking in \<open>simp add: speaking_def\<close>)
  have g: "speaking g" unfolding g_def by (intro speaking_then f textDelta_speaking emit_calls_speaking)
  have h: "speaking h"
  proof (cases "sc_FinishReason ch = []")
    case False
    then show ?thesis using speaking_then [OF g r_finish_speaking] by (simp add: h_def)
  qed (use g in \<open>simp add: h_def\<close>)
  have eq: "r_choice sha256 fresh ch r = then_r x h"
    unfolding r_choice_def pr prod.case Let_def r1_def [symmetric] x_def [symmetric] h_def g_def f_def
    by (rule prod_eqI) simp_all
  show ?thesis unfolding eq by (rule speaks_then [OF x(1)]) (use h x(2) speakingD in blast)
qed

lemma r_choices_speaks: "synced r p \<Longrightarrow> speaks (r_choices sha256 fresh chs r) p"
proof (induction chs arbitrary: r p)
  case (Cons ch chs)
  show ?case using speaks_then [OF r_choice_speaks [OF Cons.prems] Cons.IH] by simp
qed (simp add: speaks_id)

text \<open>A stream goes on in step with its client, or has failed with the client told so.\<close>

definition on_line :: "chatToResponses \<Rightarrow> client \<Rightarrow> bool" where
  "on_line r p \<longleftrightarrow> synced r p \<or> cl_ended p \<and> \<not> cl_done p \<and> re_failed r"

definition stays :: "remit \<Rightarrow> client \<Rightarrow> bool" where
  "stays x p \<longleftrightarrow> (\<exists>q. client_run (snd x) p = Some q \<and> on_line (fst x) q)"

lemma speaks_stays: "speaks x p \<Longrightarrow> stays x p"
  by (auto simp: speaks_def stays_def on_line_def)

lemma stays_then:
  assumes "stays x p" "\<And>q. on_line (fst x) q \<Longrightarrow> stays (f (fst x)) q"
  shows "stays (then_r x f) p"
proof -
  obtain q where q: "client_run (snd x) p = Some q" "on_line (fst x) q" using assms(1) by (auto simp: stays_def)
  show ?thesis using q assms(2) [OF q(2)] by (auto simp: stays_def client_run_append)
qed

lemma error_stays:
  assumes "synced r p" "re_seq r' = re_seq r" "re_failed r'"
  shows "stays (ev (RError code msg) r') p"
  using assms by (auto simp: stays_def ev_def on_line_def synced_def)

lemma r_failOpen_stays: "synced r p \<Longrightarrow> stays (r_failOpen r) p"
  unfolding r_failOpen_def by (rule error_stays) simp_all

lemma r_payload_stays:
  assumes "synced r p"
  shows "stays (r_payload sha256 fresh data r) p"
proof -
  have stay: "stays (r, []) p" "stays (r, [Passed data]) p"
    using assms by (auto simp: stays_def on_line_def synced_def)
  have err: "stays (ev (RError code msg) ((r_note ''finish_reason=error'' r)\<lparr>re_failed := True\<rparr>)) p" for code msg
    by (rule error_stays [OF assms]) simp_all
  have chunk: "stays (r_chunk sha256 fresh k r) p" for k
    unfolding r_chunk_def Let_def using assms by (intro speaks_stays r_choices_speaks) simp
  show ?thesis
    using r_failOpen_stays [OF assms] stay err chunk
    by (auto simp: r_payload_def split: option.splits json.splits prod.splits)
qed

lemma r_frame_stays:
  assumes "on_line r p"
  shows "stays (r_frame sha256 fresh frame r) p"
proof (cases "re_failed r \<or> re_finished r")
  case True
  then show ?thesis using assms by (simp add: r_frame_def stays_def)
next
  case False
  then have s: "synced r p" using assms by (simp add: on_line_def)
  have "stays (r, []) p" "stays (r, [Passed (TrimSpace frame)]) p"
    using s by (auto simp: stays_def on_line_def synced_def)
  then show ?thesis
    using r_failOpen_stays [OF s] r_payload_stays [OF s] False by (auto simp: r_frame_def Let_def)
qed

lemma on_line_buf [simp]: "on_line (r\<lparr>re_buf := b\<rparr>) p = on_line r p"
  by (simp add: on_line_def)

lemma r_drain_stays: "on_line r p \<Longrightarrow> stays (r_drain sha256 fresh r) p"
proof (induction sha256 fresh r arbitrary: p rule: r_drain.induct)
  case (1 sha256 fresh r)
  show ?case
  proof (cases "frameEnd (re_buf r)")
    case None
    then show ?thesis using "1.prems" by (simp add: r_drain.simps stays_def)
  next
    case (Some e)
    obtain i n where e: "e = (i, n)" by (cases e)
    let ?x = "r_frame sha256 fresh (take i (re_buf r)) r"
    let ?f = "\<lambda>d. r_drain sha256 fresh (d\<lparr>re_buf := drop (i + n) (re_buf r)\<rparr>)"
    have eq: "r_drain sha256 fresh r = then_r ?x ?f"
      using Some e by (subst r_drain.simps) (simp add: then_r_def Let_def)
    have rest: "stays (?f (fst ?x)) q" if "on_line (fst ?x) q" for q
      using "1.IH" [OF Some e [symmetric] refl] that by simp
    show ?thesis unfolding eq by (rule stays_then [where f = ?f, OF r_frame_stays [OF "1.prems"] rest])
  qed
qed

lemma r_frames_stays: "on_line r p \<Longrightarrow> stays (r_frames sha256 fresh fs r) p"
proof (induction fs arbitrary: r p)
  case (Cons f fs)
  have "stays (r_WriteFrame sha256 fresh f r) p"
    unfolding r_WriteFrame_def by (rule r_drain_stays) (simp add: Cons.prems)
  then show ?case using stays_then Cons.IH by simp
qed (simp add: stays_def)

lemma r_tail_stays: "on_line r p \<Longrightarrow> stays (r_tail sha256 fresh r) p"
  using r_frame_stays [of r p sha256 fresh "re_buf r"] by (auto simp: r_tail_def stays_def Let_def)

lemma r_FinishFrames_closes:
  assumes "on_line r p"
  shows "\<exists>q. client_run (snd (r_FinishFrames sha256 fresh r)) p = Some q \<and>
    cl_done q = (re_started (fst (r_FinishFrames sha256 fresh r)) \<and> \<not> re_failed (fst (r_FinishFrames sha256 fresh r))) \<and>
    (cl_done q \<longrightarrow> re_finished (fst (r_FinishFrames sha256 fresh r)))"
proof -
  define x where "x = r_tail sha256 fresh r"
  obtain q where q: "client_run (snd x) p = Some q" "on_line (fst x) q"
    using r_tail_stays [OF assms] by (auto simp: stays_def x_def)
  show ?thesis
  proof (cases "\<not> re_started (fst x) \<or> re_failed (fst x)")
    case True
    then have "r_FinishFrames sha256 fresh r = x" by (simp add: r_FinishFrames_def Let_def x_def [symmetric])
    then show ?thesis using q True by (auto simp: on_line_def synced_def)
  next
    case False
    then have s: "synced (fst x) q" "re_started (fst x)" "\<not> re_failed (fst x)" using q(2) by (simp_all add: on_line_def)
    define close where "close = (\<lambda>r1. then_r (closeItems sha256 r1)
      (\<lambda>r2. let x = terminal sha256 r2 in ((fst x)\<lparr>re_finished := True\<rparr>, snd x)))"
    define y where "y = (if re_finished (fst x) then x else then_r x close)"
    have eq: "r_FinishFrames sha256 fresh r = then_r y (\<lambda>r3. (r3, [DoneMark]))"
      using False by (simp add: r_FinishFrames_def Let_def x_def [symmetric] y_def close_def)
    obtain k where k: "fst (closeItems sha256 (fst x)) = (fst x)\<lparr>re_seq := k\<rparr>" using closeItems_restates(2) [OF s(1)] by blast
    obtain q1 where q1: "client_run (snd (closeItems sha256 (fst x))) q = Some q1" "synced (fst (closeItems sha256 (fst x))) q1"
      using closeItems_restates(1) [OF s(1)] by (auto simp: speaks_def)
    have st: "re_started (fst (closeItems sha256 (fst x)))" using k s(2) by simp
    note t = terminal_restates [OF q1(2) st, of sha256]
    have cl: "speaks (close (fst x)) q" "re_finished (fst (close (fst x)))" "re_started (fst (close (fst x)))" "\<not> re_failed (fst (close (fst x)))"
      using q1 t k s by (auto simp: close_def Let_def speaks_def client_run_append)
    have "\<exists>q'. client_run (snd y) p = Some q' \<and> synced (fst y) q'"
      using q s cl(1) by (auto simp: y_def speaks_def client_run_append)
    then obtain q' where q': "client_run (snd y) p = Some q'" "synced (fst y) q'" by blast
    have y: "re_finished (fst y)" "re_started (fst y)" "\<not> re_failed (fst y)" using cl s by (auto simp: y_def)
    show ?thesis unfolding eq using q' y by (simp add: client_run_append synced_def)
  qed
qed


subsection \<open>Where the translation goes wrong\<close>

definition call_chunk :: "int \<Rightarrow> string \<Rightarrow> string \<Rightarrow> deltaToolCall" where
  "call_chunk idx cid args = \<lparr>dt_Index = idx, dt_ID = cid, dt_Name = [], dt_Arguments = args\<rparr>"

text \<open>
  A call that reuses the index of an earlier one: the earlier call is closed but stays first
  in the table, so the arguments that follow without an id land in the finished call, whose
  item is then done a second time with the arguments of both.
\<close>

lemma reused_index_misroutes:
  "re_calls (fst (emit_calls sha256 [call_chunk 0 ''a'' ''x'', call_chunk 0 ''b'' [], call_chunk 0 [] ''y''] NewChatToResponses)) =
     [\<lparr>rc_idx = 0, rc_item = 0, rc_id = ''a'', rc_name = [], rc_args = ''xy''\<rparr>,
      \<lparr>rc_idx = 0, rc_item = 1, rc_id = ''b'', rc_name = [], rc_args = []\<rparr>]"
  by (simp add: call_chunk_def emit_call_def call_open_def call_delta_def closeCall_def close_events_def ev_def
      NewChatToResponses_def Let_def)

text \<open>Two choices that finish in one chunk end the response twice.\<close>

definition is_terminal :: "rOut \<Rightarrow> bool" where
  "is_terminal x = (case x of Authored _ (Terminal _ _ _ _ _) \<Rightarrow> True | _ \<Rightarrow> False)"

lemma two_choices_end_twice:
  "length (filter is_terminal (snd (r_choices (\<lambda>_. []) [] [zero_choice\<lparr>sc_FinishReason := ''stop''\<rparr>, zero_choice\<lparr>sc_FinishReason := ''stop''\<rparr>]
     NewChatToResponses))) = 2"
  by code_simp

text \<open>An event of the client's own dialect without an \<open>event:\<close> line is passed on without its \<open>data:\<close> field name.\<close>

lemma data_framed_event_loses_prefix:
  "snd (r_frame (\<lambda>_. []) [] (''data: {'' @ [CHR 0x22] @ ''type'' @ [CHR 0x22, CHR '':'', CHR 0x22] @ ''response.x'' @ [CHR 0x22] @ ''}'') NewChatToResponses) =
     [Passed (''{'' @ [CHR 0x22] @ ''type'' @ [CHR 0x22, CHR '':'', CHR 0x22] @ ''response.x'' @ [CHR 0x22] @ ''}'')]"
  by code_simp

text \<open>The message of an upstream error whose \<open>code\<close> is a number is lost.\<close>

lemma numeric_code_loses_message:
  "upstreamError (''{'' @ [CHR 0x22] @ ''error'' @ [CHR 0x22] @ '':{'' @ [CHR 0x22] @ ''message'' @ [CHR 0x22, CHR '':'', CHR 0x22] @ ''full'' @ [CHR 0x22] @
     '','' @ [CHR 0x22] @ ''code'' @ [CHR 0x22] @ '':400}}'') = (''server_error'', ''the upstream stream ended with an error'')"
  by code_simp

text \<open>The ids of an item differ when the backend names the response after the stream has started.\<close>

lemma item_ids_not_stable:
  assumes "shortHash sha256 (fresh @ '':message'') \<noteq> shortHash sha256 (''r1'' @ '':message'')"
  shows "itemID sha256 ''message'' (fst (r_start fresh NewChatToResponses)) \<noteq>
    itemID sha256 ''message'' ((fst (r_start fresh NewChatToResponses))\<lparr>re_id := ''r1''\<rparr>)"
  using assms by (simp add: itemID_def r_start_def ev_def NewChatToResponses_def)

end
