(* ===== verification/Conversion.thy ===== *)
theory Conversion
  imports ResponsesStream
begin

text \<open>
  The response translator the router arms an attempt with (\<open>src/router/convert.go\<close> over
  \<open>NewStream\<close> of \<open>src/convert/stream.go\<close> and \<open>Response\<close>): the stream emitter of the plan for
  an event stream, the body conversion for a JSON answer. The locale \<open>emitter\<close> states what
  the translating writer of the proxy relies on; both emitters are interpretations of it, so
  the bytes a client reads are the rendered events of the emitter, whatever the reads.
\<close>

record conv_env =
  cv_sha256 :: "string \<Rightarrow> string"
  cv_jerr :: "string \<Rightarrow> string"
  cv_fnum :: "string \<Rightarrow> string"
  cv_now :: int
  cv_fresh :: string

datatype emitter = NoStream | ToMessages chatToMessages | ToResponses chatToResponses

definition NewStream :: "Plan \<Rightarrow> emitter" where
  "NewStream p =
     (if plan_Dialect p \<noteq> Chat then NoStream
      else if plan_From p = Messages then ToMessages NewChatToMessages
      else if plan_From p = Responses then ToResponses NewChatToResponses
      else NoStream)"

record responseTranslator =
  tr_plan :: Plan
  tr_stream :: emitter
  tr_notes :: "string list"

definition newResponseTranslator :: "Plan \<Rightarrow> responseTranslator" where
  "newResponseTranslator p = \<lparr>tr_plan = p, tr_stream = NewStream p, tr_notes = []\<rparr>"

definition tr_TranslateJSON :: "conv_env \<Rightarrow> string \<Rightarrow> responseTranslator \<Rightarrow> string option \<times> responseTranslator" where
  "tr_TranslateJSON v body t =
     (case Response (cv_sha256 v) (cv_jerr v) (cv_fnum v) (cv_now v) (tr_plan t) body of
        Inl _ \<Rightarrow> (None, t)
      | Inr (b, ns) \<Rightarrow> (Some b, t\<lparr>tr_notes := tr_notes t @ ns\<rparr>))"

definition tr_WriteFrame :: "conv_env \<Rightarrow> string \<Rightarrow> responseTranslator \<Rightarrow> string list \<times> responseTranslator" where
  "tr_WriteFrame v frame t = (case tr_stream t of
     NoStream \<Rightarrow> ([frame], t)
   | ToMessages c \<Rightarrow> (case emit_WriteFrame (cv_fresh v) frame c of (c1, es) \<Rightarrow> (map render es, t\<lparr>tr_stream := ToMessages c1\<rparr>))
   | ToResponses r \<Rightarrow> (case r_WriteFrame (cv_sha256 v) (cv_fresh v) frame r of
       (r1, es) \<Rightarrow> (map (render_r (cv_fnum v) (cv_now v)) es, t\<lparr>tr_stream := ToResponses r1\<rparr>)))"

definition tr_FinishFrames :: "conv_env \<Rightarrow> responseTranslator \<Rightarrow> string list \<times> responseTranslator" where
  "tr_FinishFrames v t = (case tr_stream t of
     NoStream \<Rightarrow> ([], t)
   | ToMessages c \<Rightarrow> (case emit_FinishFrames (cv_fresh v) c of (c1, es) \<Rightarrow> (map render es, t\<lparr>tr_stream := ToMessages c1\<rparr>))
   | ToResponses r \<Rightarrow> (case r_FinishFrames (cv_sha256 v) (cv_fresh v) r of
       (r1, es) \<Rightarrow> (map (render_r (cv_fnum v) (cv_now v)) es, t\<lparr>tr_stream := ToResponses r1\<rparr>)))"

definition tr_Notes :: "responseTranslator \<Rightarrow> string list" where
  "tr_Notes t = tr_notes t @ (case tr_stream t of NoStream \<Rightarrow> [] | ToMessages c \<Rightarrow> cm_notes c | ToResponses r \<Rightarrow> re_notes r)"

definition translator :: "conv_env \<Rightarrow> responseTranslator stream_translator" where
  "translator v = \<lparr>st_WriteFrame = tr_WriteFrame v, st_FinishFrames = tr_FinishFrames v, st_TranslateJSON = tr_TranslateJSON v\<rparr>"

subsection \<open>The interface between the writer and an emitter\<close>

text \<open>All reads of an answer, then its end.\<close>

fun session :: "(string \<Rightarrow> 's \<Rightarrow> 's \<times> 'e list) \<Rightarrow> ('s \<Rightarrow> 's \<times> 'e list) \<Rightarrow> string list \<Rightarrow> 's \<Rightarrow> 's \<times> 'e list" where
  "session write fin [] s = fin s"
| "session write fin (f # fs) s = (let x = write f s; y = session write fin fs (fst x) in (fst y, snd x @ snd y))"

lemma write_frames_accepted:
  "write_frames all_accepted fs t = (t\<lparr>tw_sent := tw_sent t @ fs\<rparr>, True)"
  by (induction fs arbitrary: t) (simp_all add: write_below_def all_accepted_def)

lemma fold_frames_accepted:
  "fold (\<lambda>f t. fst (write_below all_accepted f t)) fs t = t\<lparr>tw_sent := tw_sent t @ fs\<rparr>"
  by (induction fs arbitrary: t) (simp_all add: write_below_def all_accepted_def)

locale emitter =
  fixes ops :: "'t stream_translator"
    and inject :: "'s \<Rightarrow> 't"
    and emit_write :: "string \<Rightarrow> 's \<Rightarrow> 's \<times> 'e list"
    and emit_finish :: "'s \<Rightarrow> 's \<times> 'e list"
    and show_event :: "'e \<Rightarrow> string"
  assumes writes: "st_WriteFrame ops f (inject s) = (map show_event (snd (emit_write f s)), inject (fst (emit_write f s)))"
    and finishes: "st_FinishFrames ops (inject s) = (map show_event (snd (emit_finish s)), inject (fst (emit_finish s)))"
begin

lemma session_sent:
  assumes "\<not> tw_json t" "\<not> tw_pass t" "tw_tr t = inject s"
  shows "tw_sent (translate_finish ops all_accepted (translate_writes ops all_accepted fs t)) =
    tw_sent t @ map show_event (snd (session emit_write emit_finish fs s))"
  using assms
proof (induction fs arbitrary: t s)
  case Nil
  then show ?case by (simp add: translate_finish_def finishes fold_frames_accepted)
next
  case (Cons f fs)
  let ?t = "fst (translate_Write ops all_accepted f t)"
  have t: "?t = t\<lparr>tw_tr := inject (fst (emit_write f s)), tw_sent := tw_sent t @ map show_event (snd (emit_write f s))\<rparr>"
    using Cons.prems by (simp add: translate_Write_def writes write_frames_accepted)
  show ?case using Cons.IH [of ?t "fst (emit_write f s)"] Cons.prems by (simp add: t Let_def)
qed

end

interpretation to_messages: emitter "translator v" "\<lambda>c. \<lparr>tr_plan = p, tr_stream = ToMessages c, tr_notes = ns\<rparr>"
    "emit_WriteFrame (cv_fresh v)" "emit_FinishFrames (cv_fresh v)" render for v p ns
  by unfold_locales (simp_all add: translator_def tr_WriteFrame_def tr_FinishFrames_def split: prod.splits)

interpretation to_responses: emitter "translator v" "\<lambda>r. \<lparr>tr_plan = p, tr_stream = ToResponses r, tr_notes = ns\<rparr>"
    "r_WriteFrame (cv_sha256 v) (cv_fresh v)" "r_FinishFrames (cv_sha256 v) (cv_fresh v)" "render_r (cv_fnum v) (cv_now v)" for v p ns
  by unfold_locales (simp_all add: translator_def tr_WriteFrame_def tr_FinishFrames_def split: prod.splits)

lemma messages_session: "session (emit_WriteFrame fresh) (emit_FinishFrames fresh) fs c = then_emit (emit_frames fresh fs c) (emit_FinishFrames fresh)"
  by (induction fs arbitrary: c) (auto simp: then_emit_def Let_def intro!: prod_eqI split: prod.splits)

lemma responses_session:
  "session (r_WriteFrame sha256 fresh) (r_FinishFrames sha256 fresh) fs r = then_r (r_frames sha256 fresh fs r) (r_FinishFrames sha256 fresh)"
  by (induction fs arbitrary: r) (simp_all add: then_r_def Let_def)

lemma untranslated_sent:
  assumes "\<not> tw_json t" "\<not> tw_pass t" "tr_stream (tw_tr t) = NoStream"
  shows "tw_sent (translate_finish (translator v) all_accepted (translate_writes (translator v) all_accepted fs t)) = tw_sent t @ fs"
  using assms
proof (induction fs arbitrary: t)
  case Nil
  then show ?case by (simp add: translate_finish_def translator_def tr_FinishFrames_def)
next
  case (Cons f fs)
  let ?t = "fst (translate_Write (translator v) all_accepted f t)"
  have t: "?t = t\<lparr>tw_sent := tw_sent t @ [f]\<rparr>"
    using Cons.prems by (simp add: translate_Write_def translator_def tr_WriteFrame_def write_below_def all_accepted_def)
  show ?case using Cons.IH [of ?t] Cons.prems by (simp add: t)
qed

text \<open>
  C18: What a client reads of a translated stream, end to end: with the translator of a plan
  armed on the proxy's writer, the frames written to the client are the rendered events of
  that plan's emitter over the whole answer (or the frames themselves where the plan has no
  translation), so the protocol the emitters keep is the protocol the client reads.
\<close>

theorem client_reads_emitter_events:
  "let sent = tw_sent (translate_finish (translator v) all_accepted
                (translate_writes (translator v) all_accepted reads (newTranslateWriter (newResponseTranslator p))))
   in case NewStream p of
        NoStream \<Rightarrow> sent = reads
      | ToMessages _ \<Rightarrow> sent = map render (snd (translate_stream (cv_fresh v) reads))
      | ToResponses _ \<Rightarrow> sent = map (render_r (cv_fnum v) (cv_now v)) (snd (responses_stream (cv_sha256 v) (cv_fresh v) reads))"
proof -
  let ?t = "newTranslateWriter (newResponseTranslator p)"
  have t: "\<not> tw_json ?t" "\<not> tw_pass ?t" "tw_sent ?t = []" "tw_tr ?t = \<lparr>tr_plan = p, tr_stream = NewStream p, tr_notes = []\<rparr>"
    by (simp_all add: newTranslateWriter_def newResponseTranslator_def)
  have m: "c = NewChatToMessages" if "NewStream p = ToMessages c" for c using that by (auto simp: NewStream_def split: if_splits)
  have r: "r = NewChatToResponses" if "NewStream p = ToResponses r" for r using that by (auto simp: NewStream_def split: if_splits)
  show ?thesis
    using untranslated_sent [OF t(1,2)] to_messages.session_sent [OF t(1,2)] to_responses.session_sent [OF t(1,2)] t(3,4) m r
    by (auto simp: Let_def messages_session responses_session translate_stream_def responses_stream_def split: emitter.splits)
qed

end
