(* ===== verification/Spec2Isabelle.thy ===== *)
theory Spec2Isabelle
  imports ServerMain Wiring Heartbeat Conversion
begin

text \<open>
  A verification development of llm-api-router, a reverse proxy that routes requests for
  language models to configured backends.

  \<^bold>\<open>The program.\<close> A request enters \<open>src/main.go\<close>: the pattern matching of \<open>http.ServeMux\<close>
  sends it through the client edge (CORS, then the inbound token bucket) to \<open>Router.Handle\<close>,
  or past the bearer token to the admin API and the metrics page. The router (\<open>src/router\<close>)
  finds the model name in the body, looks up the rule in the configuration store
  (\<open>src/config/store.go\<close>), builds a list of attempts (fallbacks by priority, a balanced pool, a
  pinned conversation, or the choice of the jev decision model), and runs through it: gates
  (health, cooldown, quota, context window), conversion between the API dialects
  (\<open>src/convert\<close>), the proxied exchange (\<open>src/proxy\<close>) with retries, and the bookkeeping in the
  health tracker, the failure tracker, the quota tracker, the metrics and the trace.

  \<^bold>\<open>Theories and sources.\<close> Every theory names the files it translates in its first paragraph.
  \<^item> Foundations: \<open>Prelude\<close> (instants, 64-bit wrap-around, Go maps as association lists,
    stable sorting), \<open>Go_Strings\<close> (the Go string functions used), \<open>Json\<close>, \<open>JsonAny\<close>,
    \<open>JsonPrint\<close>, \<open>RawJson\<close>, \<open>JsonRound\<close> (\<open>encoding/json\<close>: decoding, rendering, values that keep
    their bytes, and that what is rendered is read back), \<open>PathMatch\<close> (\<open>path.Match\<close>),
    \<open>Ring\<close> (the ring buffer of three components).
  \<^item> \<open>Interfaces\<close> states the contracts components share as locales: a log pruned to a sliding
    window, a map with a sweep of expired entries, a bounded ring. They are interpreted on the
    definitions of \<open>RateLimit\<close>, \<open>Quota\<close>, \<open>Sticky\<close> and \<open>Ring\<close>. Two more stand with their users:
    \<open>emitter\<close> in \<open>Conversion\<close> (what the relay needs of a stream translator) and \<open>shared_state\<close> in
    \<open>ServerMain\<close> (what every part of the process has to keep of the state they share).
  \<^item> \<open>Domain\<close>: \<open>src/domain\<close>. \<open>Store\<close>, \<open>ConfigFile\<close>, \<open>ConfigKeys\<close>: the configuration, its file and
    the report of unread keys (\<open>src/config/store.go\<close>, \<open>src/config/keys.go\<close>). \<open>RateLimit\<close>, \<open>Quota\<close>,
    \<open>Health\<close>, \<open>Capabilities\<close>, \<open>Inbound\<close>: the other files of \<open>src/config\<close>.
  \<^item> \<open>Metrics\<close>, \<open>Prometheus\<close>: \<open>src/metrics\<close>. \<open>TraceStore\<close>, \<open>TraceCapture\<close>, \<open>Redact\<close>: \<open>src/trace\<close>.
  \<^item> \<open>Plan\<close>, \<open>MessagesChat\<close>, \<open>ResponsesChat\<close>, \<open>ChatStream\<close>, \<open>ResponsesStream\<close>, \<open>Conversion\<close>:
    \<open>src/convert\<close> and \<open>src/router/convert.go\<close>.
  \<^item> \<open>ByteScan\<close>, \<open>Usage\<close>, \<open>Relay\<close>, \<open>StreamProxy\<close>, \<open>ProxyProps\<close>, \<open>Heartbeat\<close>: \<open>src/proxy\<close>.
  \<^item> \<open>Balance\<close>, \<open>Sticky\<close>, \<open>JevText\<close>, \<open>Jev\<close>, \<open>Router\<close>, \<open>RouterProps\<close>, \<open>Wiring\<close>: \<open>src/router\<close>.
  \<^item> \<open>Admin\<close>, \<open>AdminApi\<close>: \<open>src/admin\<close>. \<open>ServerMain\<close>: \<open>src/main.go\<close>.

  \<^bold>\<open>How state and effects correspond.\<close> A Go struct is a record with the struct's fields, a
  method takes the record and returns it updated. A critical section under one lock is one
  definition, so interleavings are sequences of operations. The clock, random ids, the network,
  the file system and the order in which Go walks a map are arguments, or fields of an
  environment record (\<open>env\<close>, \<open>proxy_env\<close>, \<open>admin_env\<close>, \<open>server_env\<close>, \<open>boot_env\<close>); a theorem holds
  for all of them unless it names what it needs. Errors are values of sum or option types and a
  Go panic is a value of its own (\<open>Panicked\<close>, \<open>APanics\<close>, \<open>None\<close> where stated).

  \<^bold>\<open>What is shown.\<close>
  \<^item> One request: everything it takes it gives back, it contacts the attempts in order within the
    retry budget, judges only backends it contacted, records itself once, and answers the
    client from one backend only (\<open>RouterProps\<close>, \<open>Wiring\<close>).
  \<^item> The trackers behave as their histories say: cooldowns, quotas, reservations, pins,
    windows, summaries, probes and alerts (refinements of a list of past events).
  \<^item> Conversion: both stream translators keep to the protocol of the client for every byte
    stream, deltas carry exactly the backend's content, request conversions drop nothing
    without a note or refusal.
  \<^item> The exchange: retried means unsent, served means byte for byte, header rules, heartbeat
    and watchdog bounds, loop detection.
  \<^item> Configuration: admin requests keep it sound, a crash while saving loses nothing when the
    backup was written, a passed check keeps routing from missing servers, the report of
    unread keys ends and is complete.
  \<^item> The process: nothing is reached without the token, the process is at rest between
    requests, a scrape reads back as the samples it stands for.
  Lemmas next to these show where the code departs from its own comments.

  \<^bold>\<open>Bounds and termination.\<close> No definition uses fuel. Loops that are not structural have a
  measure: the retries left, the bytes not yet scanned, the length of the remaining text, the
  cap of fifty of the key report. The nesting limit of 10000 is the one \<open>encoding/json\<close> has.
  Integers are unbounded where the source cannot overflow and reduced by \<open>wrap64\<close> or \<open>wrap32\<close>
  where it can; durations multiplied up from configured seconds wrap. A \<open>float64\<close> is a
  rational, with infinities and not-a-number where a division can give them, so theorems about
  rates and averages are about exact arithmetic.

  \<^bold>\<open>Not modelled.\<close> Logging (\<open>src/pkg/log\<close>) and audit lines, which nothing reads; the admin GUI's
  static files beyond which one is served; listener, TLS, HTTP framing and connection pooling;
  how goroutines are scheduled below the level of locked operations (the process takes requests
  one after the other, the trackers are treated for every interleaving of their operations);
  how \<open>encoding/json\<close> fills the configuration and admin structs, which is an argument.
\<close>

end
